(* ===== verification/Prelude.thy ===== *)
theory Prelude
  imports Main "HOL-Library.Word"
begin

text \<open>
  The vocabulary every component shares: Rust's \<open>Result\<close>, the byte-string model of
  \<open>str\<close>, \<open>String\<close> and \<open>Vec<u8>\<close>, the UTF-8 decoder of the standard library, the string
  operations the sources call (\<open>strip_prefix\<close>, \<open>split\<close>, \<open>lines\<close>, \<open>join\<close>, \<open>trim\<close>,
  \<open>contains\<close>, \<open>rsplit_once\<close>, \<open>parse\<close>, decimal formatting) and saturating arithmetic.

  A Rust string is its sequence of UTF-8 bytes, so it is a HOL \<open>string\<close> whose characters are
  bytes: \<open>len()\<close> is \<open>length\<close>, slicing is by byte, and the operations whose unit is a Unicode
  scalar value (\<open>chars\<close>, \<open>trim\<close>, \<open>is_control\<close>) go through the decoder.
\<close>

named_theorems rust_str \<open>equations of the string operations\<close>
named_theorems path_simps \<open>equations of the path operations\<close>

section \<open>Results\<close>

datatype ('a, 'e) result = Ok 'a | Err 'e

fun and_then :: "('a, 'e) result \<Rightarrow> ('a \<Rightarrow> ('b, 'e) result) \<Rightarrow> ('b, 'e) result" where
  "and_then (Ok a) f = f a"
| "and_then (Err e) f = Err e"

fun map_err :: "('e \<Rightarrow> 'f) \<Rightarrow> ('a, 'e) result \<Rightarrow> ('a, 'f) result" where
  "map_err g (Ok a) = Ok a"
| "map_err g (Err e) = Err (g e)"

fun is_ok :: "('a, 'e) result \<Rightarrow> bool" where
  "is_ok (Ok a) = True"
| "is_ok (Err e) = False"

section \<open>Bytes and characters\<close>

abbreviation NL :: char where "NL \<equiv> CHR 0x0A"
abbreviation CR :: char where "CR \<equiv> CHR 0x0D"
abbreviation NUL :: char where "NUL \<equiv> CHR 0x00"
abbreviation SQ :: char where "SQ \<equiv> CHR 0x27"
abbreviation DQ :: char where "DQ \<equiv> CHR 0x22"
abbreviation BSL :: char where "BSL \<equiv> CHR 0x5C"
abbreviation SLASH :: char where "SLASH \<equiv> CHR 0x2F"

definition code :: "char \<Rightarrow> nat" where
  "code c = of_char c"

definition in_range :: "nat \<Rightarrow> nat \<Rightarrow> nat \<Rightarrow> bool" where
  "in_range lo hi n \<longleftrightarrow> lo \<le> n \<and> n \<le> hi"

definition is_ascii_digit :: "char \<Rightarrow> bool" where
  "is_ascii_digit c \<longleftrightarrow> in_range 48 57 (code c)"

definition is_ascii_lowercase :: "char \<Rightarrow> bool" where
  "is_ascii_lowercase c \<longleftrightarrow> in_range 97 122 (code c)"

definition is_ascii_uppercase :: "char \<Rightarrow> bool" where
  "is_ascii_uppercase c \<longleftrightarrow> in_range 65 90 (code c)"

definition is_ascii_alphanumeric :: "char \<Rightarrow> bool" where
  "is_ascii_alphanumeric c \<longleftrightarrow>
     is_ascii_digit c \<or> is_ascii_lowercase c \<or> is_ascii_uppercase c"

section \<open>UTF-8\<close>

text \<open>
  \<open>utf8_extra c cs\<close> reads one sequence that starts with the byte \<open>c\<close>, as the standard
  library's \<open>Utf8Chunks\<close> does: how many further bytes of \<open>cs\<close> belong to it, and whether it is a
  well-formed scalar value. A byte that is absent reads as 0, which is never a continuation byte.
\<close>

definition byte_at :: "string \<Rightarrow> nat \<Rightarrow> nat" where
  "byte_at cs i = (if i < length cs then code (cs ! i) else 0)"

definition is_cont :: "nat \<Rightarrow> bool" where
  "is_cont b \<longleftrightarrow> in_range 128 191 b"

definition utf8_second :: "nat \<Rightarrow> nat \<Rightarrow> bool" where
  "utf8_second b b1 =
     (if b = 224 then in_range 160 191 b1
      else if b = 237 then in_range 128 159 b1
      else if b = 240 then in_range 144 191 b1
      else if b = 244 then in_range 128 143 b1
      else is_cont b1)"

definition utf8_class :: "nat \<Rightarrow> nat \<Rightarrow> nat \<Rightarrow> nat \<Rightarrow> nat \<times> bool" where
  "utf8_class b b1 b2 b3 =
    (if b < 128 then (0, True)
     else if in_range 194 223 b then (if is_cont b1 then (1, True) else (0, False))
     else if in_range 224 239 b then
       (if \<not> utf8_second b b1 then (0, False)
        else if is_cont b2 then (2, True) else (1, False))
     else if in_range 240 244 b then
       (if \<not> utf8_second b b1 then (0, False)
        else if \<not> is_cont b2 then (1, False)
        else if is_cont b3 then (3, True) else (2, False))
     else (0, False))"

definition utf8_extra :: "char \<Rightarrow> string \<Rightarrow> nat \<times> bool" where
  "utf8_extra c cs = utf8_class (code c) (byte_at cs 0) (byte_at cs 1) (byte_at cs 2)"

function utf8_chunks :: "string \<Rightarrow> (bool \<times> string) list" where
  "utf8_chunks [] = []"
| "utf8_chunks (c # cs) =
     (case utf8_extra c cs of (n, ok) \<Rightarrow>
        (ok, c # take n cs) # utf8_chunks (drop n cs))"
  by pat_completeness auto
termination
  by (relation "measure length") auto

text \<open>The bytes of one scalar value.\<close>

definition is_scalar :: "string \<Rightarrow> bool" where
  "is_scalar ch \<longleftrightarrow> utf8_chunks ch = [(True, ch)]"

definition str_chars :: "string \<Rightarrow> string list" where
  "str_chars s = map snd (utf8_chunks s)"

definition utf8_valid :: "string \<Rightarrow> bool" where
  "utf8_valid s \<longleftrightarrow> list_all fst (utf8_chunks s)"

definition from_utf8 :: "string \<Rightarrow> string option" where
  "from_utf8 s = (if utf8_valid s then Some s else None)"

definition replacement_char :: string where
  "replacement_char = [CHR 0xEF, CHR 0xBF, CHR 0xBD]"

definition from_utf8_lossy :: "string \<Rightarrow> string" where
  "from_utf8_lossy s =
     concat (map (\<lambda>(ok, b). if ok then b else replacement_char) (utf8_chunks s))"

text \<open>\<open>char::is_whitespace\<close> and \<open>char::is_control\<close>, on the bytes of one scalar value.\<close>

definition ch_is_whitespace :: "string \<Rightarrow> bool" where
  "ch_is_whitespace ch =
    (case map code ch of
       [b] \<Rightarrow> in_range 9 13 b \<or> b = 32
     | [b, c] \<Rightarrow> b = 194 \<and> (c = 133 \<or> c = 160)
     | [b, c, d] \<Rightarrow>
         (b = 225 \<and> c = 154 \<and> d = 128)
       \<or> (b = 226 \<and> c = 128 \<and> (in_range 128 138 d \<or> d = 168 \<or> d = 169 \<or> d = 175))
       \<or> (b = 226 \<and> c = 129 \<and> d = 159)
       \<or> (b = 227 \<and> c = 128 \<and> d = 128)
     | _ \<Rightarrow> False)"

definition ch_is_control :: "string \<Rightarrow> bool" where
  "ch_is_control ch =
    (case map code ch of
       [b] \<Rightarrow> b < 32 \<or> b = 127
     | [b, c] \<Rightarrow> b = 194 \<and> in_range 128 159 c
     | _ \<Rightarrow> False)"

definition has_control :: "string \<Rightarrow> bool" where
  "has_control s \<longleftrightarrow> list_ex ch_is_control (str_chars s)"

definition has_whitespace :: "string \<Rightarrow> bool" where
  "has_whitespace s \<longleftrightarrow> list_ex ch_is_whitespace (str_chars s)"

definition trim_start :: "string \<Rightarrow> string" where
  "trim_start s = concat (dropWhile ch_is_whitespace (str_chars s))"

definition trim_end :: "string \<Rightarrow> string" where
  "trim_end s = concat (rev (dropWhile ch_is_whitespace (rev (str_chars s))))"

definition trim :: "string \<Rightarrow> string" where
  "trim s =
     concat (rev (dropWhile ch_is_whitespace (rev (dropWhile ch_is_whitespace (str_chars s)))))"

section \<open>String operations\<close>

definition starts_with :: "string \<Rightarrow> string \<Rightarrow> bool" where
  "starts_with s p \<longleftrightarrow> take (length p) s = p"

definition ends_with :: "string \<Rightarrow> string \<Rightarrow> bool" where
  "ends_with s p \<longleftrightarrow> length p \<le> length s \<and> drop (length s - length p) s = p"

definition strip_prefix :: "string \<Rightarrow> string \<Rightarrow> string option" where
  "strip_prefix s p = (if starts_with s p then Some (drop (length p) s) else None)"

definition strip_suffix :: "string \<Rightarrow> string \<Rightarrow> string option" where
  "strip_suffix s p = (if ends_with s p then Some (take (length s - length p) s) else None)"

fun str_contains :: "string \<Rightarrow> string \<Rightarrow> bool" where
  "str_contains [] p = (p = [])"
| "str_contains (x # xs) p = (starts_with (x # xs) p \<or> str_contains xs p)"

fun split_on :: "char \<Rightarrow> string \<Rightarrow> string list" where
  "split_on c [] = [[]]"
| "split_on c (x # xs) =
     (if x = c then [] # split_on c xs
      else (case split_on c xs of [] \<Rightarrow> [[x]] | y # ys \<Rightarrow> (x # y) # ys))"

fun join :: "string \<Rightarrow> string list \<Rightarrow> string" where
  "join sep [] = []"
| "join sep [x] = x"
| "join sep (x # y # ys) = x @ sep @ join sep (y # ys)"

definition split_once :: "char \<Rightarrow> string \<Rightarrow> (string \<times> string) option" where
  "split_once c s =
     (if c \<in> set s then Some (takeWhile (\<lambda>x. x \<noteq> c) s, tl (dropWhile (\<lambda>x. x \<noteq> c) s)) else None)"

definition rsplit_once :: "char \<Rightarrow> string \<Rightarrow> (string \<times> string) option" where
  "rsplit_once c s =
     map_option (\<lambda>(b, a). (rev a, rev b)) (split_once c (rev s))"

text \<open>\<open>str::lines\<close>: every line up to its newline, less one carriage return before it; the text
  after the last newline is a line of its own unless it is empty, and keeps its carriage return.\<close>

definition strip_cr :: "string \<Rightarrow> string" where
  "strip_cr l = (case strip_suffix l [CR] of Some l' \<Rightarrow> l' | None \<Rightarrow> l)"

definition str_lines :: "string \<Rightarrow> string list" where
  "str_lines s =
     (let ps = split_on NL s in
      map strip_cr (butlast ps) @ (if last ps = [] then [] else [last ps]))"

text \<open>\<open>str::replace\<close> of one character by a string.\<close>

definition replace_char :: "char \<Rightarrow> string \<Rightarrow> string \<Rightarrow> string" where
  "replace_char c r s = concat (map (\<lambda>x. if x = c then r else [x]) s)"

text \<open>\<open>str::to_lowercase\<close>, exact on every scalar value whose lower case has an ASCII character:
  the ASCII letters, the Kelvin sign (a \<open>k\<close>) and the dotted capital I (an \<open>i\<close> and a combining
  dot), and on the Russian letters from U+0410 to U+042F. Other scalar values keep their bytes, so its result is
  used in comparisons with ASCII and Russian words only.\<close>

definition lower_ch :: "string \<Rightarrow> string" where
  "lower_ch ch =
     (case ch of
        [c] \<Rightarrow> if is_ascii_uppercase c then [char_of (code c + 32)] else [c]
      | _ \<Rightarrow> if ch = [CHR 0xE2, CHR 0x84, CHR 0xAA] then ''k''
             else if ch = [CHR 0xC4, CHR 0xB0] then [CHR ''i'', CHR 0xCC, CHR 0x87]
             else if length ch = 2 \<and> hd ch = CHR 0xD0 \<and> in_range 0x90 0x9F (byte_at ch 1)
               then [CHR 0xD0, char_of (byte_at ch 1 + 0x20)]
             else if length ch = 2 \<and> hd ch = CHR 0xD0 \<and> in_range 0xA0 0xAF (byte_at ch 1)
               then [CHR 0xD1, char_of (byte_at ch 1 - 0x20)]
             else ch)"

definition to_lowercase :: "string \<Rightarrow> string" where
  "to_lowercase s = concat (map lower_ch (str_chars s))"

section \<open>Numbers\<close>

text \<open>Decimal formatting of an unsigned integer.\<close>

definition digit_char :: "nat \<Rightarrow> char" where
  "digit_char d = char_of (48 + d)"

fun show_nat :: "nat \<Rightarrow> string" where
  "show_nat n = (if n < 10 then [digit_char n] else show_nat (n div 10) @ [digit_char (n mod 10)])"

declare show_nat.simps [simp del]

text \<open>\<open>from_str_radix\<close> on unsigned types of the given exclusive bound: an optional plus sign, at
  least one digit of the radix, no overflow.\<close>

definition digit_value :: "nat \<Rightarrow> char \<Rightarrow> nat option" where
  "digit_value radix c =
     (if is_ascii_digit c \<and> code c - 48 < radix then Some (code c - 48) else None)"

fun digits_value :: "nat \<Rightarrow> nat \<Rightarrow> string \<Rightarrow> nat option" where
  "digits_value radix acc [] = Some acc"
| "digits_value radix acc (c # cs) =
     (case digit_value radix c of
        None \<Rightarrow> None
      | Some d \<Rightarrow> digits_value radix (radix * acc + d) cs)"

definition parse_digits :: "nat \<Rightarrow> nat \<Rightarrow> string \<Rightarrow> nat option" where
  "parse_digits radix bound s =
     (if s = [] then None
      else case digits_value radix 0 s of
        None \<Rightarrow> None
      | Some n \<Rightarrow> if n < bound then Some n else None)"

definition parse_unsigned :: "nat \<Rightarrow> nat \<Rightarrow> string \<Rightarrow> nat option" where
  "parse_unsigned radix bound s =
     (case s of c # cs \<Rightarrow> if c = CHR ''+'' then parse_digits radix bound cs
                         else parse_digits radix bound s
      | [] \<Rightarrow> None)"

abbreviation U16 :: nat where "U16 \<equiv> 65536"
abbreviation U32 :: nat where "U32 \<equiv> 4294967296"
abbreviation U64 :: nat where "U64 \<equiv> 18446744073709551616"

text \<open>\<open>str::parse::<i64>\<close>: an optional sign, at least one digit, within the signed range.\<close>

definition parse_i64 :: "string \<Rightarrow> int option" where
  "parse_i64 s =
     (case s of
        [] \<Rightarrow> None
      | c # cs \<Rightarrow>
          if c = CHR ''-'' then
            map_option (\<lambda>n. - int n) (parse_digits 10 (2 ^ 63 + 1) cs)
          else if c = CHR ''+'' then map_option int (parse_digits 10 (2 ^ 63) cs)
          else map_option int (parse_digits 10 (2 ^ 63) s))"

text \<open>Saturating operations on \<open>usize\<close>/\<open>u64\<close> values held as \<open>nat\<close>.\<close>

definition sat_add :: "nat \<Rightarrow> nat \<Rightarrow> nat" where
  "sat_add a b = min (a + b) (U64 - 1)"

definition sat_mul :: "nat \<Rightarrow> nat \<Rightarrow> nat" where
  "sat_mul a b = min (a * b) (U64 - 1)"

section \<open>SSH channels\<close>

text \<open>The messages of an SSH channel that the sources tell apart; \<open>OtherMsg\<close> stands for every other
  one. A signal is named as in the protocol.\<close>

datatype signal =
    SIGHUP | SIGINT | SIGQUIT | SIGILL | SIGABRT | SIGFPE | SIGKILL | SIGUSR1
  | SIGSEGV | SIGPIPE | SIGALRM | SIGTERM | SIGCustom string

datatype channel_msg =
    Data string
  | ExtendedData nat string
  | ExitStatus nat
  | ExitSignal signal
  | Eof
  | Close
  | Failure
  | OtherMsg

text \<open>How a sequence of messages ends: the channel yields no more message, or the deadline of the
  reader passes first.\<close>

datatype channel_end = ChannelEnded | TimedOut

section \<open>State machines\<close>

text \<open>The states an event system reaches from its initial ones, and the contract of an inductive
  invariant: it holds initially and every step keeps it.\<close>

inductive reachable :: "('s \<Rightarrow> bool) \<Rightarrow> ('s \<Rightarrow> 's \<Rightarrow> bool) \<Rightarrow> 's \<Rightarrow> bool" for init step where
  reachable_init: "init s \<Longrightarrow> reachable init step s"
| reachable_step: "reachable init step s \<Longrightarrow> step s s' \<Longrightarrow> reachable init step s'"

locale inductive_invariant =
  fixes init :: "'s \<Rightarrow> bool" and step :: "'s \<Rightarrow> 's \<Rightarrow> bool" and inv :: "'s \<Rightarrow> bool"
  assumes init_inv: "init s \<Longrightarrow> inv s"
    and step_inv: "inv s \<Longrightarrow> step s s' \<Longrightarrow> inv s'"
begin

lemma reachable_inv: "reachable init step s \<Longrightarrow> inv s"
  by (induction rule: reachable.induct) (auto intro: init_inv step_inv)

lemma steps_inv: "inv s \<Longrightarrow> step\<^sup>*\<^sup>* s s' \<Longrightarrow> inv s'"
  by (rotate_tac 1, induction rule: rtranclp_induct) (auto intro: step_inv)

end

section \<open>Keyed stores\<close>

text \<open>The contract of a registry: a lookup returns what was inserted last under the key.\<close>

locale keyed_store =
  fixes get :: "'r \<Rightarrow> 'k \<Rightarrow> 'v option"
    and insert :: "'r \<Rightarrow> 'k \<Rightarrow> 'v \<Rightarrow> 'r"
    and remove :: "'r \<Rightarrow> 'k \<Rightarrow> 'r"
  assumes get_insert: "get (insert r k v) k' = (if k' = k then Some v else get r k')"
    and get_remove: "get (remove r k) k' = (if k' = k then None else get r k')"
begin

lemma get_insert_same: "get (insert r k v) k = Some v"
  by (simp add: get_insert)

lemma get_insert_other: "k' \<noteq> k \<Longrightarrow> get (insert r k v) k' = get r k'"
  by (simp add: get_insert)

lemma get_fold_remove:
  "get (fold (\<lambda>k r. remove r k) ks r) k' = (if k' \<in> set ks then None else get r k')"
  by (induction ks arbitrary: r) (auto simp: get_remove)

end

section \<open>Generic lemmas\<close>

lemma and_then_Ok_iff [simp]: "and_then r f = Ok b \<longleftrightarrow> (\<exists>a. r = Ok a \<and> f a = Ok b)"
  by (cases r) auto

lemma map_err_Ok_iff [simp]: "map_err g r = Ok a \<longleftrightarrow> r = Ok a"
  by (cases r) auto

lemma distinct_set_singleton: "distinct xs \<Longrightarrow> set xs = {a} \<Longrightarrow> xs = [a]"
proof (cases xs)
  case (Cons y ys)
  moreover assume "distinct xs" "set xs = {a}"
  ultimately have "y = a" "set ys \<subseteq> {a}" "a \<notin> set ys" by auto
  then have "y = a \<and> ys = []" by (cases ys) auto
  with Cons show ?thesis by simp
qed simp

lemma takeWhile_split_at: "c \<in> set xs \<Longrightarrow> \<exists>t. xs = takeWhile (\<lambda>x. x \<noteq> c) xs @ c # t"
  by (induction xs) auto

lemma takeWhile_stop: "c \<notin> set s \<Longrightarrow> takeWhile (\<lambda>x. x \<noteq> c) (s @ c # t) = s"
  by (induction s) auto

lemma takeWhile_all: "c \<notin> set s \<Longrightarrow> takeWhile (\<lambda>x. x \<noteq> c) s = s"
  by (induction s) auto

lemma dropWhile_prefix: "\<forall>x\<in>set a. P x \<Longrightarrow> b \<noteq> [] \<Longrightarrow> \<not> P (hd b) \<Longrightarrow> dropWhile P (a @ b) = b"
  by (induction a) (auto simp: neq_Nil_conv)

lemma split_on_not_Nil [simp]: "split_on c s \<noteq> []"
  by (induction s) (auto split: list.splits)

lemma join_split_on: "join [c] (split_on c s) = s"
proof (induction s)
  case Nil
  then show ?case by simp
next
  case (Cons x xs)
  obtain y ys where "split_on c xs = y # ys"
    by (cases "split_on c xs") auto
  with Cons show ?case by (cases ys) auto
qed

lemma split_on_no_sep: "c \<notin> set s \<Longrightarrow> split_on c s = [s]"
  by (induction s) auto

lemma split_on_append_gen: "split_on c (a @ c # b) = split_on c a @ split_on c b"
  by (induction a) (auto split: list.splits)

lemma split_on_append: "c \<notin> set a \<Longrightarrow> split_on c (a @ c # b) = a # split_on c b"
  by (induction a) (auto split: list.splits)

lemma split_on_join:
  "xs \<noteq> [] \<Longrightarrow> \<forall>x\<in>set xs. c \<notin> set x \<Longrightarrow> split_on c (join [c] xs) = xs"
  by (induction "[c]" xs rule: join.induct) (auto simp: split_on_no_sep split_on_append)

lemma split_on_parts: "x \<in> set (split_on c s) \<Longrightarrow> c \<notin> set x"
  by (induction s arbitrary: x) (fastforce split: list.splits if_splits)+

lemma join_append_single:
  "xs \<noteq> [] \<Longrightarrow> join sep (xs @ [y]) = join sep xs @ sep @ y"
  by (induction sep xs rule: join.induct) auto

lemma split_once_append: "c \<notin> set a \<Longrightarrow> split_once c (a @ c # b) = Some (a, b)"
  by (induction a) (auto simp: split_once_def)

lemma split_once_Some: "split_once c s = Some (a, b) \<longleftrightarrow> s = a @ c # b \<and> c \<notin> set a"
proof
  assume "split_once c s = Some (a, b)"
  then have c: "c \<in> set s" and a: "a = takeWhile (\<lambda>x. x \<noteq> c) s"
    by (auto simp: split_once_def split: if_splits)
  obtain t where t: "s = a @ c # t" using takeWhile_split_at[OF c] a by blast
  have "c \<notin> set a" unfolding a by (auto dest: set_takeWhileD)
  with split_once_append[of c a t] t \<open>split_once c s = Some (a, b)\<close> show "s = a @ c # b \<and> c \<notin> set a" by simp
qed (auto simp: split_once_append)

lemma rsplit_once_Some: "rsplit_once c s = Some (a, b) \<longleftrightarrow> s = a @ c # b \<and> c \<notin> set b"
proof -
  have "rsplit_once c s = Some (a, b) \<longleftrightarrow> split_once c (rev s) = Some (rev b, rev a)"
    by (cases "split_once c (rev s)") (auto simp: rsplit_once_def)
  also have "\<dots> \<longleftrightarrow> s = a @ c # b \<and> c \<notin> set b"
    by (auto simp: split_once_Some rev_swap)
  finally show ?thesis .
qed

lemma starts_with_append [simp]: "starts_with (p @ s) p"
  by (simp add: starts_with_def)

lemma starts_with_iff: "starts_with s p \<longleftrightarrow> (\<exists>t. s = p @ t)"
  unfolding starts_with_def by (metis append_eq_conv_conj)

lemma strip_prefix_append [simp]: "strip_prefix (p @ s) p = Some s"
  by (simp add: strip_prefix_def)

lemma strip_prefix_Some: "strip_prefix s p = Some t \<longleftrightarrow> s = p @ t"
  by (auto simp: strip_prefix_def starts_with_def) (metis append_take_drop_id)

lemma strip_suffix_append [simp]: "strip_suffix (s @ p) p = Some s"
  by (simp add: strip_suffix_def ends_with_def)

lemma strip_suffix_Some: "strip_suffix s p = Some t \<longleftrightarrow> s = t @ p"
  by (auto simp: strip_suffix_def ends_with_def) (metis append_take_drop_id)

lemma ends_with_append [simp]: "ends_with (s @ p) p"
  by (simp add: ends_with_def)

lemma ends_with_iff: "ends_with s p \<longleftrightarrow> (\<exists>t. s = t @ p)"
  by (metis ends_with_append ends_with_def append_take_drop_id)

subsection \<open>UTF-8\<close>

lemma byte_at_take_append: "i < n \<Longrightarrow> n \<le> length cs \<Longrightarrow> byte_at (take n cs @ s) i = byte_at cs i"
  by (simp add: byte_at_def nth_append)

lemma in_range_byte_at: "in_range lo hi (byte_at cs i) \<Longrightarrow> 0 < lo \<Longrightarrow> i < length cs"
  by (auto simp: byte_at_def in_range_def split: if_splits)

lemma utf8_second_is_cont: "utf8_second b b1 \<Longrightarrow> is_cont b1"
  by (auto simp: utf8_second_def is_cont_def in_range_def split: if_splits)

lemma is_cont_byte_at: "is_cont (byte_at cs i) \<Longrightarrow> i < length cs"
  by (auto simp: is_cont_def dest: in_range_byte_at)

lemma utf8_extra_length: "utf8_extra c cs = (n, ok) \<Longrightarrow> n \<le> length cs"
  by (auto simp: utf8_extra_def utf8_class_def Suc_le_eq split: if_splits
      dest!: is_cont_byte_at utf8_second_is_cont)

lemma utf8_class_local:
  assumes "utf8_class b b1 b2 b3 = (n, True)"
    and "n \<ge> 1 \<longrightarrow> c1 = b1" "n \<ge> 2 \<longrightarrow> c2 = b2" "n \<ge> 3 \<longrightarrow> c3 = b3"
  shows "utf8_class b c1 c2 c3 = (n, True)"
  using assms by (simp add: utf8_class_def split: if_splits)

lemma utf8_extra_append:
  assumes "utf8_extra c cs = (n, True)"
  shows "utf8_extra c (take n cs @ s) = (n, True)"
  using assms utf8_extra_length[OF assms] unfolding utf8_extra_def
  by (elim utf8_class_local) (simp_all add: byte_at_take_append)

lemma is_scalar_append:
  assumes "is_scalar ch" shows "utf8_chunks (ch @ s) = (True, ch) # utf8_chunks s"
proof -
  obtain c cs where ch: "ch = c # cs" using assms by (cases ch) (auto simp: is_scalar_def)
  obtain n ok where n: "utf8_extra c cs = (n, ok)" by (cases "utf8_extra c cs")
  with assms ch have ok: "ok" and "take n cs = cs" by (auto simp: is_scalar_def)
  then have "length (take n cs) = length cs" by simp
  with utf8_extra_length[OF n] have "n = length cs" by simp
  moreover from n ok have "utf8_extra c (cs @ s) = (n, True)"
    using utf8_extra_append[of c cs n s] \<open>take n cs = cs\<close> by simp
  ultimately show ?thesis using ch by simp
qed

lemma utf8_chunks_scalar: "(True, ch) \<in> set (utf8_chunks s) \<Longrightarrow> is_scalar ch"
proof (induction s rule: utf8_chunks.induct)
  case (2 c cs)
  obtain n ok where n: "utf8_extra c cs = (n, ok)" by (cases "utf8_extra c cs")
  have "is_scalar (c # take n cs)" if "ok"
    using utf8_extra_append[of c cs n "[]"] n that by (simp add: is_scalar_def)
  with 2 n show ?case by auto
qed simp

lemma utf8_chunks_concat_scalars:
  "list_all is_scalar chs \<Longrightarrow> utf8_chunks (concat chs) = map (Pair True) chs"
  by (induction chs) (simp_all add: is_scalar_append)

lemma str_chars_concat_scalars: "list_all is_scalar chs \<Longrightarrow> str_chars (concat chs) = chs"
  by (simp add: str_chars_def utf8_chunks_concat_scalars comp_def)

lemma utf8_valid_concat_scalars: "list_all is_scalar chs \<Longrightarrow> utf8_valid (concat chs)"
  by (simp add: utf8_valid_def utf8_chunks_concat_scalars list.pred_map list_all_iff)

lemma concat_str_chars: "concat (str_chars s) = s"
proof (induction s rule: utf8_chunks.induct)
  case (2 c cs)
  then show ?case by (cases "utf8_extra c cs") (simp add: str_chars_def)
qed (simp add: str_chars_def)

lemma utf8_valid_scalars: "utf8_valid s \<Longrightarrow> list_all is_scalar (str_chars s)"
  unfolding utf8_valid_def str_chars_def list_all_iff
  using utf8_chunks_scalar by fastforce

lemma dropWhile_idem [simp]: "dropWhile P (dropWhile P xs) = dropWhile P xs"
  by (induction xs) auto

lemma dropWhile_rev_dropWhile:
  "dropWhile P (rev (dropWhile P (rev (dropWhile P xs)))) = rev (dropWhile P (rev (dropWhile P xs)))"
proof -
  define ys where "ys = dropWhile P xs"
  define zs where "zs = rev (dropWhile P (rev ys))"
  have split: "ys = zs @ rev (takeWhile P (rev ys))"
    unfolding zs_def by (metis rev_append rev_rev_ident takeWhile_dropWhile_id)
  have "dropWhile P zs = zs"
  proof (cases zs)
    case (Cons z zs')
    with split have "hd ys = z" "ys \<noteq> []" by (metis append_Cons list.sel(1) list.distinct(1))+
    then have "\<not> P z" using hd_dropWhile[of P xs] unfolding ys_def by blast
    with Cons show ?thesis by simp
  qed simp
  then show ?thesis unfolding zs_def ys_def .
qed

lemma trim_scalars:
  assumes "utf8_valid s"
  shows "list_all is_scalar (rev (dropWhile ch_is_whitespace (rev (dropWhile ch_is_whitespace (str_chars s)))))"
  using utf8_valid_scalars[OF assms] by (auto simp: list_all_iff dest!: set_dropWhileD)

lemma trim_idem: "utf8_valid s \<Longrightarrow> trim (trim s) = trim s"
  by (subst (1) trim_def)
     (simp add: trim_def str_chars_concat_scalars[OF trim_scalars] dropWhile_rev_dropWhile)

lemma trim_valid: "utf8_valid s \<Longrightarrow> utf8_valid (trim s)"
  unfolding trim_def by (rule utf8_valid_concat_scalars[OF trim_scalars])

lemma utf8_class_cont:
  "utf8_class b b1 b2 b3 = (n, ok) \<Longrightarrow>
   (n \<ge> 1 \<longrightarrow> is_cont b1) \<and> (n \<ge> 2 \<longrightarrow> is_cont b2) \<and> (n \<ge> 3 \<longrightarrow> is_cont b3) \<and> n \<le> 3"
  by (auto simp: utf8_class_def split: if_splits dest: utf8_second_is_cont)

lemma utf8_extra_cont:
  assumes "utf8_extra c cs = (n, ok)" "y \<in> set (take n cs)"
  shows "128 \<le> code y"
proof -
  from assms(2) obtain i where i: "i < n" "i < length cs" "y = cs ! i"
    by (auto simp: in_set_conv_nth)
  note conts = utf8_class_cont[OF assms(1)[unfolded utf8_extra_def]]
  with i(1) consider "i = 0" | "i = 1" "n \<ge> 2" | "i = 2" "n \<ge> 3" by linarith
  then have "is_cont (byte_at cs i)" using conts i(1) by cases auto
  with i show ?thesis by (simp add: byte_at_def is_cont_def in_range_def)
qed

lemma str_chars_ascii [rust_str]: "code c < 128 \<Longrightarrow> str_chars (c # cs) = [c] # str_chars cs"
  by (simp add: str_chars_def utf8_extra_def utf8_class_def)

lemma str_chars_byte: "c \<in> set s \<Longrightarrow> code c < 128 \<Longrightarrow> [c] \<in> set (str_chars s)"
proof (induction s rule: utf8_chunks.induct)
  case (2 d cs)
  obtain n ok where x: "utf8_extra d cs = (n, ok)" by (cases "utf8_extra d cs")
  have split: "cs = take n cs @ drop n cs" by simp
  show ?case
  proof (cases "c = d")
    case True
    with "2.prems"(2) show ?thesis by (simp add: str_chars_ascii)
  next
    case False
    with "2.prems" utf8_extra_cont[OF x] have "c \<in> set (drop n cs)"
      by (metis UnE leD set_ConsD set_append split)
    with "2.IH"[OF x[symmetric]] "2.prems"(2) x show ?thesis
      by (simp add: str_chars_def)
  qed
qed simp

lemma str_chars_all_ascii: "\<forall>c\<in>set s. code c < 128 \<Longrightarrow> str_chars s = map (\<lambda>c. [c]) s"
  by (induction s) (simp_all add: str_chars_ascii, simp add: str_chars_def)

lemma utf8_valid_ascii: "\<forall>c\<in>set s. code c < 128 \<Longrightarrow> utf8_valid s"
  by (induction s) (simp_all add: utf8_valid_def utf8_extra_def utf8_class_def)

lemma utf8_valid_split_ascii:
  "utf8_valid (a @ c # b) \<Longrightarrow> code c < 128 \<Longrightarrow> utf8_valid a \<and> utf8_valid b"
proof (induction a rule: utf8_chunks.induct)
  case 1
  then show ?case by (simp add: utf8_valid_def utf8_extra_def utf8_class_def)
next
  case (2 d a)
  let ?cs = "a @ c # b"
  obtain n ok where n: "utf8_extra d ?cs = (n, ok)" by (cases "utf8_extra d ?cs")
  from "2.prems"(1) n have ok: ok and rest: "utf8_valid (drop n ?cs)"
    by (simp_all add: utf8_valid_def)
  have le: "n \<le> length a"
  proof (rule ccontr)
    assume "\<not> n \<le> length a"
    then have "c \<in> set (take n ?cs)" by (cases "n - length a") auto
    from utf8_extra_cont[OF n this] "2.prems"(2) show False by simp
  qed
  then have tk: "take n ?cs = take n a" and dr: "drop n ?cs = drop n a @ c # b" by simp_all
  have ex: "utf8_extra d a = (n, True)"
    using utf8_extra_append[of d ?cs n "drop n a"] n ok tk by simp
  have "utf8_valid (drop n a) \<and> utf8_valid b"
    by (rule "2.IH"[OF ex[symmetric]]) (use rest dr "2.prems"(2) in simp_all)
  with ex show ?case by (simp add: utf8_valid_def)
qed

lemma from_utf8_lossy_valid: "utf8_valid s \<Longrightarrow> from_utf8_lossy s = s"
proof -
  assume v: "utf8_valid s"
  have "from_utf8_lossy s = concat (map snd (utf8_chunks s))"
    unfolding from_utf8_lossy_def using v
    by (intro arg_cong[of _ _ concat] map_cong) (auto simp: utf8_valid_def list_all_iff split: prod.splits)
  then show ?thesis using concat_str_chars[of s] by (simp add: str_chars_def)
qed

lemma utf8_class_stops:
  "b1 < 128 \<Longrightarrow> c1 < 128 \<Longrightarrow> utf8_class b b1 b2 b3 = utf8_class b c1 c2 c3"
  "b2 < 128 \<Longrightarrow> c2 < 128 \<Longrightarrow> utf8_class b b1 b2 b3 = utf8_class b b1 c2 c3"
  "b3 < 128 \<Longrightarrow> c3 < 128 \<Longrightarrow> utf8_class b b1 b2 b3 = utf8_class b b1 b2 c3"
  by (simp_all add: utf8_class_def utf8_second_def is_cont_def in_range_def)

lemma utf8_extra_before_ascii: "code c < 128 \<Longrightarrow> utf8_extra d (a @ c # b) = utf8_extra d a"
proof -
  assume c: "code c < 128"
  consider "a = []" | x where "a = [x]" | x y where "a = [x, y]" | x y z t where "a = x # y # z # t"
    by (metis list.exhaust)
  then show ?thesis
  proof cases
    case 1
    then show ?thesis unfolding utf8_extra_def by (intro utf8_class_stops(1)) (use c in \<open>simp_all add: byte_at_def\<close>)
  next
    case 2
    then have "byte_at (a @ c # b) 0 = byte_at a 0" by (simp add: byte_at_def)
    then show ?thesis unfolding utf8_extra_def
      using 2 c by (simp only:) (intro utf8_class_stops(2), simp_all add: byte_at_def)
  next
    case 3
    then have "byte_at (a @ c # b) 0 = byte_at a 0" "byte_at (a @ c # b) 1 = byte_at a 1"
      by (simp_all add: byte_at_def)
    then show ?thesis unfolding utf8_extra_def
      using 3 c by (simp only:) (intro utf8_class_stops(3), simp_all add: byte_at_def)
  next
    case 4
    then show ?thesis by (simp add: utf8_extra_def byte_at_def nth_append)
  qed
qed

text \<open>An ASCII byte ends every sequence before it, so decoding can be split there.\<close>

lemma utf8_chunks_before_ascii:
  "code c < 128 \<Longrightarrow> utf8_chunks (a @ c # b) = utf8_chunks a @ (True, [c]) # utf8_chunks b"
proof (induction a rule: utf8_chunks.induct)
  case 1
  then show ?case by (simp add: utf8_extra_def utf8_class_def)
next
  case (2 d a)
  obtain n ok where n: "utf8_extra d a = (n, ok)" by (cases "utf8_extra d a")
  moreover from utf8_extra_length[OF n] have "n \<le> length a" .
  ultimately show ?case using "2.IH"[OF n[symmetric]] "2.prems" by (simp add: utf8_extra_before_ascii)
qed

lemma from_utf8_lossy_before_ascii:
  "code c < 128 \<Longrightarrow> from_utf8_lossy (a @ c # b) = from_utf8_lossy a @ c # from_utf8_lossy b"
  by (simp add: from_utf8_lossy_def utf8_chunks_before_ascii)

lemma str_lines_append_line: "str_lines (a @ NL # b) = str_lines (a @ [NL]) @ str_lines b"
  by (simp add: str_lines_def Let_def split_on_append_gen butlast_append)

lemma str_lines_snoc_not_Nil: "str_lines (a @ [NL]) \<noteq> []"
  by (simp add: str_lines_def Let_def split_on_append_gen)

subsection \<open>Decimal numbers\<close>

lemma code_digit_char [simp]: "d < 10 \<Longrightarrow> code (digit_char d) = 48 + d"
  by (simp add: code_def digit_char_def)

lemma digit_value_digit_char [simp]: "d < 10 \<Longrightarrow> digit_value 10 (digit_char d) = Some d"
  by (simp add: digit_value_def is_ascii_digit_def in_range_def)

lemma digits_value_append:
  "digits_value r acc (xs @ ys) =
     (case digits_value r acc xs of None \<Rightarrow> None | Some a \<Rightarrow> digits_value r a ys)"
  by (induction r acc xs rule: digits_value.induct) (auto split: option.splits)

lemma digits_value_show_nat: "digits_value 10 0 (show_nat n) = Some n"
proof (induction n rule: show_nat.induct)
  case (1 n)
  then show ?case by (cases "n < 10") (simp_all add: show_nat.simps[of n] digits_value_append)
qed

lemma show_nat_not_Nil [simp]: "show_nat n \<noteq> []"
  by (simp add: show_nat.simps)

lemma show_nat_digits: "c \<in> set (show_nat n) \<Longrightarrow> is_ascii_digit c"
proof (induction n rule: show_nat.induct)
  case (1 n)
  then show ?case
    by (subst (asm) show_nat.simps) (auto simp: is_ascii_digit_def in_range_def split: if_splits)
qed

lemma is_ascii_digit_code: "is_ascii_digit c \<Longrightarrow> 48 \<le> code c \<and> code c \<le> 57"
  by (simp add: is_ascii_digit_def in_range_def)

lemma parse_unsigned_show_nat: "n < bound \<Longrightarrow> parse_unsigned 10 bound (show_nat n) = Some n"
proof -
  assume "n < bound"
  moreover obtain c cs where s: "show_nat n = c # cs" by (cases "show_nat n") auto
  moreover have "c \<noteq> CHR ''+''"
    using show_nat_digits[of c n] s by (auto simp: is_ascii_digit_def in_range_def code_def)
  ultimately show ?thesis
    using digits_value_show_nat[of n] by (simp add: parse_unsigned_def parse_digits_def)
qed

lemma parse_unsigned_bound: "parse_unsigned radix bound s = Some n \<Longrightarrow> n < bound"
  by (auto simp: parse_unsigned_def parse_digits_def split: list.splits if_splits option.splits)

end
