(* ===== verification/Patch.thy ===== *)
theory Patch
  imports Prelude
begin

text \<open>
  The patch language of the \<open>apply_patch\<close> tools: \<open>src/src/validate.rs\<close> and
  \<open>src/src/patch.rs\<close>. \<open>parse_patch\<close> turns the text of a patch into file sections,
  \<open>plan\<close> computes the new content of one file, \<open>apply_hunks\<close> edits its lines. A Rust error
  message built by \<open>format!\<close> from a quoted (\<open>Debug\<close>) argument is kept as its arguments.
\<close>

section \<open>Definitions\<close>

subsection \<open>Path strings\<close>

definition validate_basic_path_str :: "string \<Rightarrow> string \<Rightarrow> (unit, string) result" where
  "validate_basic_path_str path field =
    (if path = [] then Err (field @ '' cannot be empty'')
     else if trim path = [] then Err (field @ '' must not be whitespace-only'')
     else if path \<noteq> trim path then
       Err (field @ '' must not have leading or trailing whitespace'')
     else if NUL \<in> set path then Err (field @ '' must not contain NUL'')
     else if has_control path then Err (field @ '' must not contain control characters'')
     else if starts_with path ''-'' then Err (field @ '' must not start with '' @ [SQ] @ ''-'' @ [SQ])
     else Ok ())"

subsection \<open>Data\<close>

definition BEGIN_PATCH :: string where "BEGIN_PATCH = ''*** Begin Patch''"
definition END_PATCH :: string where "END_PATCH = ''*** End Patch''"
definition ADD_FILE :: string where "ADD_FILE = ''*** Add File: ''"
definition UPDATE_FILE :: string where "UPDATE_FILE = ''*** Update File: ''"
definition DELETE_FILE :: string where "DELETE_FILE = ''*** Delete File: ''"
definition MOVE_TO :: string where "MOVE_TO = ''*** Move to:''"

datatype patch_operation_kind = KAdd | KUpdate | KDelete

fun kind_as_str :: "patch_operation_kind \<Rightarrow> string" where
  "kind_as_str KAdd = ''add''"
| "kind_as_str KUpdate = ''update''"
| "kind_as_str KDelete = ''delete''"

record patch_hunk =
  anchor :: "string option"
  old_lines :: "string list"
  new_lines :: "string list"

datatype patch_operation =
    Add string
  | Update "patch_hunk list"
  | Delete

record file_patch =
  fp_path :: string
  fp_operation :: patch_operation

record planned_patch =
  pp_path :: string
  pp_new_content :: "string option"
  pp_changed :: bool

datatype envelope_message = FirstLine | LastLine | SectionRequired

datatype hunk_message =
    HunkRequired | EmptyAnchor | ExpectedMarker string | PrefixRequired
  | InvalidPrefix string | ContextRequired | ChangeRequired

datatype patch_error =
    InvalidEnvelope envelope_message
  | InvalidSection string
  | DuplicatePath string
  | UnsupportedOperation string
  | InvalidPath string
  | InvalidHunk hunk_message
  | AlreadyExists string
  | NotFound string
  | ContextNotFound nat
  | AmbiguousContext nat

fun error_kind :: "patch_error \<Rightarrow> string" where
  "error_kind (InvalidEnvelope m) = ''invalid_patch''"
| "error_kind (InvalidSection s) = ''invalid_patch''"
| "error_kind (InvalidHunk m) = ''invalid_patch''"
| "error_kind (DuplicatePath p) = ''duplicate_path''"
| "error_kind (UnsupportedOperation s) = ''unsupported_operation''"
| "error_kind (InvalidPath p) = ''invalid_path''"
| "error_kind (AlreadyExists p) = ''already_exists''"
| "error_kind (NotFound p) = ''not_found''"
| "error_kind (ContextNotFound n) = ''context_not_found''"
| "error_kind (AmbiguousContext n) = ''ambiguous_context''"

subsection \<open>Parsing\<close>

definition section_tail_error :: "string \<Rightarrow> patch_error" where
  "section_tail_error line =
     (if starts_with line MOVE_TO then UnsupportedOperation ''Move File'' else InvalidSection line)"

definition validate_path :: "string \<Rightarrow> (unit, patch_error) result" where
  "validate_path path =
     and_then (map_err InvalidPath (validate_basic_path_str path ''patch path'')) (\<lambda>_.
       if \<not> starts_with path [SLASH] then Err (InvalidPath ''patch path must be absolute'')
       else if ends_with path [SLASH] then Err (InvalidPath ''patch path must identify a file'')
       else Ok ())"

fun parse_add_lines :: "string list \<Rightarrow> (string list, patch_error) result" where
  "parse_add_lines [] = Ok []"
| "parse_add_lines (line # lines) =
     (case strip_prefix line ''+'' of
        None \<Rightarrow> Err (section_tail_error line)
      | Some content \<Rightarrow> and_then (parse_add_lines lines) (\<lambda>cs. Ok (content # cs)))"

definition parse_add :: "string list \<Rightarrow> (string, patch_error) result" where
  "parse_add lines =
     and_then (parse_add_lines lines) (\<lambda>cs.
       if cs = [] then Ok [] else Ok (join [NL] cs @ [NL]))"

text \<open>The inner loop of \<open>parse_update\<close>: the lines of one hunk up to the next marker. It returns
  the old and the new lines, whether a line changes, and the lines that are left.\<close>

fun parse_hunk_body ::
  "string list \<Rightarrow> string list \<Rightarrow> string list \<Rightarrow> bool \<Rightarrow>
   (string list \<times> string list \<times> bool \<times> string list, patch_error) result" where
  "parse_hunk_body [] old new has_change = Ok (old, new, has_change, [])"
| "parse_hunk_body (line # lines) old new has_change =
     (if starts_with line ''@@'' then Ok (old, new, has_change, line # lines)
      else if starts_with line ''*** '' then Err (section_tail_error line)
      else case str_chars line of
        [] \<Rightarrow> Err (InvalidHunk PrefixRequired)
      | prefix # _ \<Rightarrow>
          let text = drop (length prefix) line in
          if prefix = '' '' then parse_hunk_body lines (old @ [text]) (new @ [text]) has_change
          else if prefix = ''-'' then parse_hunk_body lines (old @ [text]) new True
          else if prefix = ''+'' then parse_hunk_body lines old (new @ [text]) True
          else Err (InvalidHunk (InvalidPrefix prefix)))"

definition parse_marker :: "string \<Rightarrow> (string option, patch_error) result" where
  "parse_marker marker =
     (if starts_with marker ''*** '' then Err (section_tail_error marker)
      else if marker = ''@@'' then Ok None
      else case strip_prefix marker ''@@ '' of
        Some a \<Rightarrow> if a = [] then Err (InvalidHunk EmptyAnchor) else Ok (Some a)
      | None \<Rightarrow> Err (InvalidHunk (ExpectedMarker marker)))"

lemma parse_hunk_body_rest_length:
  "parse_hunk_body ls old new c = Ok (old', new', c', rest) \<Longrightarrow> length rest \<le> length ls"
  by (induction ls old new c rule: parse_hunk_body.induct)
     (auto split: if_splits list.splits simp: Let_def)

text \<open>The outer loop of \<open>parse_update\<close>, one hunk per turn.\<close>

function parse_hunks :: "string list \<Rightarrow> (patch_hunk list, patch_error) result" where
  "parse_hunks [] = Ok []"
| "parse_hunks (marker # lines) =
     (case parse_marker marker of
        Err e \<Rightarrow> Err e
      | Ok a \<Rightarrow>
        (case parse_hunk_body lines [] [] False of
           Err e \<Rightarrow> Err e
         | Ok (old, new, has_change, rest) \<Rightarrow>
             if old = [] then Err (InvalidHunk ContextRequired)
             else if \<not> has_change then Err (InvalidHunk ChangeRequired)
             else and_then (parse_hunks rest) (\<lambda>hs.
                    Ok (\<lparr>anchor = a, old_lines = old, new_lines = new\<rparr> # hs))))"
  by pat_completeness auto
termination
  by (relation "measure length") (auto dest: parse_hunk_body_rest_length)

definition parse_update :: "string list \<Rightarrow> (patch_hunk list, patch_error) result" where
  "parse_update lines = (if lines = [] then Err (InvalidHunk HunkRequired) else parse_hunks lines)"

text \<open>\<open>FilePatch::parse_section\<close> on a section's header line and its body.\<close>

definition parse_section :: "string \<Rightarrow> string list \<Rightarrow> (file_patch, patch_error) result" where
  "parse_section header body =
     and_then
       (case strip_prefix header ADD_FILE of
          Some path \<Rightarrow> and_then (parse_add body) (\<lambda>content. Ok (path, Add content))
        | None \<Rightarrow>
       (case strip_prefix header UPDATE_FILE of
          Some path \<Rightarrow> and_then (parse_update body) (\<lambda>hunks. Ok (path, Update hunks))
        | None \<Rightarrow>
       (case strip_prefix header DELETE_FILE of
          Some path \<Rightarrow>
            (case body of extra # _ \<Rightarrow> Err (section_tail_error extra) | [] \<Rightarrow> Ok (path, Delete))
        | None \<Rightarrow>
            if starts_with header MOVE_TO then Err (UnsupportedOperation ''Move File'')
            else Err (InvalidSection header))))
       (\<lambda>(path, operation).
          and_then (validate_path path) (\<lambda>_.
            Ok \<lparr>fp_path = path, fp_operation = operation\<rparr>))"

definition is_file_header :: "string \<Rightarrow> bool" where
  "is_file_header line \<longleftrightarrow>
     starts_with line ADD_FILE \<or> starts_with line UPDATE_FILE \<or> starts_with line DELETE_FILE"

text \<open>The loop \<open>for end in 2..lines.len()\<close>: \<open>section\<close> holds the lines \<open>lines[start..end]\<close>, of
  which the first is the header.\<close>

fun parse_loop ::
  "string \<Rightarrow> string list \<Rightarrow> string list \<Rightarrow> string set \<Rightarrow> (file_patch list, patch_error) result" where
  "parse_loop header body [] paths = Ok []"
| "parse_loop header body (line # rest) paths =
     (if rest = [] \<or> is_file_header line then
        and_then (parse_section header body) (\<lambda>patch.
          if fp_path patch \<in> paths then Err (DuplicatePath (fp_path patch))
          else and_then (parse_loop line [] rest (insert (fp_path patch) paths)) (\<lambda>patches.
                 Ok (patch # patches)))
      else parse_loop header (body @ [line]) rest paths)"

definition parse_patch :: "string \<Rightarrow> (file_patch list, patch_error) result" where
  "parse_patch input0 =
     (let input = (case strip_suffix input0 [NL] of Some s \<Rightarrow> s | None \<Rightarrow> input0);
          lines = split_on NL input in
      if hd lines \<noteq> BEGIN_PATCH then Err (InvalidEnvelope FirstLine)
      else if last lines \<noteq> END_PATCH then Err (InvalidEnvelope LastLine)
      else if length lines < 3 then Err (InvalidEnvelope SectionRequired)
      else parse_loop (lines ! 1) [] (drop 2 lines) {})"

subsection \<open>Planning\<close>

fun operation_kind :: "file_patch \<Rightarrow> patch_operation_kind" where
  "operation_kind fp =
     (case fp_operation fp of Add _ \<Rightarrow> KAdd | Update _ \<Rightarrow> KUpdate | Delete \<Rightarrow> KDelete)"

definition hunk_matches :: "patch_hunk \<Rightarrow> string list \<Rightarrow> nat \<Rightarrow> bool" where
  "hunk_matches hunk lines start \<longleftrightarrow>
     take (length (old_lines hunk)) (drop start lines) = old_lines hunk
   \<and> (case anchor hunk of
        None \<Rightarrow> True
      | Some a \<Rightarrow> list_ex (\<lambda>line. str_contains line a)
                   (take (start + length (old_lines hunk)) lines))"

definition candidates :: "patch_hunk \<Rightarrow> string list \<Rightarrow> nat list" where
  "candidates hunk lines =
     (if length (old_lines hunk) \<le> length lines
      then filter (hunk_matches hunk lines) [0..<length lines - length (old_lines hunk) + 1]
      else [])"

definition splice :: "string list \<Rightarrow> nat \<Rightarrow> nat \<Rightarrow> string list \<Rightarrow> string list" where
  "splice lines start len new = take start lines @ new @ drop (start + len) lines"

definition apply_hunk :: "nat \<Rightarrow> string list \<Rightarrow> patch_hunk \<Rightarrow> (string list, patch_error) result" where
  "apply_hunk index lines hunk =
     (case candidates hunk lines of
        [] \<Rightarrow> Err (ContextNotFound (index + 1))
      | [start] \<Rightarrow> Ok (splice lines start (length (old_lines hunk)) (new_lines hunk))
      | _ \<Rightarrow> Err (AmbiguousContext (index + 1)))"

fun apply_hunk_list ::
  "nat \<Rightarrow> string list \<Rightarrow> patch_hunk list \<Rightarrow> (string list, patch_error) result" where
  "apply_hunk_list index lines [] = Ok lines"
| "apply_hunk_list index lines (hunk # hunks) =
     and_then (apply_hunk index lines hunk) (\<lambda>lines'. apply_hunk_list (index + 1) lines' hunks)"

definition content_lines :: "string \<Rightarrow> string list" where
  "content_lines content =
     (if content = [] then []
      else split_on NL (case strip_suffix content [NL] of Some b \<Rightarrow> b | None \<Rightarrow> content))"

definition apply_hunks :: "string \<Rightarrow> patch_hunk list \<Rightarrow> (string, patch_error) result" where
  "apply_hunks content hunks =
     (let had_final_newline = ends_with content [NL] in
      and_then (apply_hunk_list 0 (content_lines content) hunks) (\<lambda>lines.
        Ok (join [NL] lines @ (if had_final_newline \<and> lines \<noteq> [] then [NL] else []))))"

definition plan :: "file_patch \<Rightarrow> string option \<Rightarrow> (planned_patch, patch_error) result" where
  "plan fp current =
     and_then
       (case (fp_operation fp, current) of
          (Add _, Some _) \<Rightarrow> Err (AlreadyExists (fp_path fp))
        | (Add content, None) \<Rightarrow> Ok (Some content, True)
        | (Update _, None) \<Rightarrow> Err (NotFound (fp_path fp))
        | (Delete, None) \<Rightarrow> Err (NotFound (fp_path fp))
        | (Update hunks, Some content) \<Rightarrow>
            and_then (apply_hunks content hunks) (\<lambda>updated. Ok (Some updated, updated \<noteq> content))
        | (Delete, Some _) \<Rightarrow> Ok (None, True))
       (\<lambda>(new_content, changed).
          Ok \<lparr>pp_path = fp_path fp, pp_new_content = new_content, pp_changed = changed\<rparr>)"

text \<open>What the parser promises of its result, and the canonical text of a patch: the printer
  writes the old lines of a hunk as removed and the new ones as added.\<close>

fun well_formed_hunk :: "patch_hunk \<Rightarrow> bool" where
  "well_formed_hunk h \<longleftrightarrow>
     old_lines h \<noteq> [] \<and> list_all (\<lambda>l. NL \<notin> set l) (old_lines h @ new_lines h)
   \<and> (case anchor h of None \<Rightarrow> True | Some a \<Rightarrow> a \<noteq> [] \<and> NL \<notin> set a)"

fun well_formed_operation :: "patch_operation \<Rightarrow> bool" where
  "well_formed_operation (Add content) = (content = [] \<or> ends_with content [NL])"
| "well_formed_operation (Update hunks) = (hunks \<noteq> [] \<and> list_all well_formed_hunk hunks)"
| "well_formed_operation Delete = True"

definition well_formed_patches :: "file_patch list \<Rightarrow> bool" where
  "well_formed_patches ps \<longleftrightarrow>
     ps \<noteq> [] \<and> distinct (map fp_path ps)
   \<and> list_all (\<lambda>p. validate_path (fp_path p) = Ok () \<and> well_formed_operation (fp_operation p)) ps"

definition print_hunk :: "patch_hunk \<Rightarrow> string list" where
  "print_hunk h =
     (case anchor h of None \<Rightarrow> ''@@'' | Some a \<Rightarrow> ''@@ '' @ a)
     # map (\<lambda>l. CHR ''-'' # l) (old_lines h) @ map (\<lambda>l. CHR ''+'' # l) (new_lines h)"

fun print_section :: "file_patch \<Rightarrow> string \<times> string list" where
  "print_section fp =
     (case fp_operation fp of
        Add content \<Rightarrow> (ADD_FILE @ fp_path fp, map (\<lambda>l. CHR ''+'' # l) (content_lines content))
      | Update hunks \<Rightarrow> (UPDATE_FILE @ fp_path fp, concat (map print_hunk hunks))
      | Delete \<Rightarrow> (DELETE_FILE @ fp_path fp, []))"

definition print_lines :: "file_patch list \<Rightarrow> string list" where
  "print_lines ps = concat (map (\<lambda>p. fst (print_section p) # snd (print_section p)) ps)"

definition print_patch :: "file_patch list \<Rightarrow> string" where
  "print_patch ps = join [NL] (BEGIN_PATCH # print_lines ps @ [END_PATCH])"

text \<open>The declarative reading of a candidate: the lines split into what precedes the old lines,
  the old lines, and the rest, and the anchor occurs in a line up to the end of the old lines.\<close>

definition occurs_between :: "patch_hunk \<Rightarrow> string list \<Rightarrow> string list \<Rightarrow> string list \<Rightarrow> bool" where
  "occurs_between h lines pre post \<longleftrightarrow>
     lines = pre @ old_lines h @ post
   \<and> (\<forall>a. anchor h = Some a \<longrightarrow> (\<exists>line \<in> set (pre @ old_lines h). str_contains line a))"

definition reverse_hunk :: "patch_hunk \<Rightarrow> patch_hunk" where
  "reverse_hunk h = \<lparr>anchor = None, old_lines = new_lines h, new_lines = old_lines h\<rparr>"

section \<open>Lemmas\<close>

lemmas header_defs = ADD_FILE_def UPDATE_FILE_def DELETE_FILE_def BEGIN_PATCH_def END_PATCH_def
  MOVE_TO_def

subsection \<open>Parsing\<close>

lemma parse_add_lines_Ok:
  "parse_add_lines ls = Ok cs \<longleftrightarrow> ls = map (\<lambda>l. CHR ''+'' # l) cs"
proof (induction ls arbitrary: cs)
  case Nil
  then show ?case by auto
next
  case (Cons l ls)
  show ?case
  proof (cases "strip_prefix l ''+''")
    case None
    then have "\<nexists>t. l = CHR ''+'' # t"
      by (metis append_Cons append_Nil strip_prefix_append option.distinct(1))
    with None show ?thesis by (auto simp: Cons_eq_map_conv)
  next
    case (Some t)
    then have "l = CHR ''+'' # t" by (simp add: strip_prefix_Some)
    with Some Cons show ?thesis by (auto simp: Cons_eq_map_conv)
  qed
qed

lemma content_lines_parse_add:
  assumes "content = [] \<or> ends_with content [NL]"
  shows "parse_add (map (\<lambda>l. CHR ''+'' # l) (content_lines content)) = Ok content"
proof -
  have "parse_add_lines (map (\<lambda>l. CHR ''+'' # l) (content_lines content))
      = Ok (content_lines content)"
    by (simp add: parse_add_lines_Ok)
  with assms show ?thesis
    by (auto simp: parse_add_def content_lines_def ends_with_iff join_split_on)
qed

lemma parse_add_well_formed: "parse_add ls = Ok c \<Longrightarrow> well_formed_operation (Add c)"
  by (auto simp: parse_add_def split: if_splits)

lemma parse_hunk_body_lines:
  "parse_hunk_body ls old new c = Ok (old', new', c', rest) \<Longrightarrow>
   \<forall>l\<in>set ls \<union> set old \<union> set new. NL \<notin> set l \<Longrightarrow>
   \<forall>l\<in>set old' \<union> set new' \<union> set rest. NL \<notin> set l"
proof (induction ls old new c rule: parse_hunk_body.induct)
  case (2 line lines old new has_change)
  have "set (drop n line) \<subseteq> set line" for n by (rule set_drop_subset)
  with "2.prems" "2.IH" show ?case
    by (fastforce split: if_splits list.splits simp: Let_def)
qed auto

lemma parse_marker_anchor:
  "parse_marker m = Ok (Some a) \<Longrightarrow> NL \<notin> set m \<Longrightarrow> a \<noteq> [] \<and> NL \<notin> set a"
  by (auto simp: parse_marker_def strip_prefix_Some split: if_splits option.splits)

lemma parse_hunks_well_formed:
  "parse_hunks ls = Ok hs \<Longrightarrow> \<forall>l\<in>set ls. NL \<notin> set l \<Longrightarrow> list_all well_formed_hunk hs"
proof (induction ls arbitrary: hs rule: parse_hunks.induct)
  case (2 marker lines)
  from "2.prems"(1) obtain a old new rest hs' where
    a: "parse_marker marker = Ok a" and
    b: "parse_hunk_body lines [] [] False = Ok (old, new, True, rest)" and
    ne: "old \<noteq> []" and r: "parse_hunks rest = Ok hs'" and
    hs: "hs = \<lparr>anchor = a, old_lines = old, new_lines = new\<rparr> # hs'"
    by (auto split: result.splits prod.splits if_splits)
  from parse_hunk_body_lines[OF b] "2.prems"(2)
  have nl: "\<forall>l\<in>set old \<union> set new \<union> set rest. NL \<notin> set l" by auto
  with "2.IH" a b ne r have "list_all well_formed_hunk hs'"
    by (auto simp del: well_formed_hunk.simps)
  moreover have "case a of None \<Rightarrow> True | Some x \<Rightarrow> x \<noteq> [] \<and> NL \<notin> set x"
    using a "2.prems"(2) by (auto split: option.splits dest: parse_marker_anchor)
  ultimately show ?case using hs ne nl by (auto simp: list_all_iff)
qed auto

lemma parse_hunks_not_Nil: "parse_hunks ls = Ok hs \<Longrightarrow> ls \<noteq> [] \<Longrightarrow> hs \<noteq> []"
  by (cases ls) (auto split: result.splits prod.splits if_splits)

lemma parse_section_well_formed:
  assumes "parse_section header body = Ok p" and "\<forall>l\<in>set body. NL \<notin> set l"
  shows "validate_path (fp_path p) = Ok () \<and> well_formed_operation (fp_operation p)"
  using assms
  by (auto simp: parse_section_def parse_update_def split: option.splits list.splits if_splits
      dest: parse_add_well_formed parse_hunks_well_formed parse_hunks_not_Nil)

lemma parse_loop_well_formed:
  "parse_loop header body ls paths = Ok ps \<Longrightarrow>
   \<forall>l\<in>set body \<union> set ls. NL \<notin> set l \<Longrightarrow>
   distinct (map fp_path ps) \<and> fp_path ` set ps \<inter> paths = {}
   \<and> list_all (\<lambda>p. validate_path (fp_path p) = Ok () \<and> well_formed_operation (fp_operation p)) ps
   \<and> (ls \<noteq> [] \<longrightarrow> ps \<noteq> [])"
proof (induction header body ls paths arbitrary: ps rule: parse_loop.induct)
  case (2 header body line rest paths)
  show ?case
  proof (cases "rest = [] \<or> is_file_header line")
    case True
    with "2.prems"(1) obtain p ps' where
      p: "parse_section header body = Ok p" and new: "fp_path p \<notin> paths" and
      r: "parse_loop line [] rest (insert (fp_path p) paths) = Ok ps'" and ps: "ps = p # ps'"
      by (auto split: if_splits)
    have nl: "\<forall>l\<in>set [] \<union> set rest. NL \<notin> set l" "\<forall>l\<in>set body. NL \<notin> set l"
      using "2.prems"(2) by auto
    from "2.IH"(1)[OF True new r nl(1)] parse_section_well_formed[OF p nl(2)]
    show ?thesis using ps new by auto
  next
    case False
    with "2.IH"(2)[OF False] "2.prems" show ?thesis by auto
  qed
qed auto

lemma split_on_all_NL_free: "\<forall>l\<in>set (split_on NL s). NL \<notin> set l"
  using split_on_parts by blast

subsection \<open>Printing\<close>

lemma parse_hunk_body_new:
  "rest = [] \<or> starts_with (hd rest) ''@@'' \<Longrightarrow>
   parse_hunk_body (map (\<lambda>l. CHR ''+'' # l) ns @ rest) old new c
     = Ok (old, new @ ns, c \<or> ns \<noteq> [], rest)"
proof (induction ns arbitrary: new c)
  case Nil
  then show ?case by (cases rest) auto
next
  case (Cons n ns)
  then show ?case
    by (simp add: str_chars_ascii code_def starts_with_def)
qed

lemma parse_hunk_body_old:
  "parse_hunk_body (map (\<lambda>l. CHR ''-'' # l) os @ rest) old new c
     = parse_hunk_body rest (old @ os) new (c \<or> os \<noteq> [])"
  by (induction os arbitrary: old c) (simp_all add: str_chars_ascii code_def starts_with_def)

lemma print_hunk_not_Nil [simp]: "print_hunk h \<noteq> []"
  by (simp add: print_hunk_def)

lemma hd_print_hunks:
  "concat (map print_hunk hs) = [] \<or> starts_with (hd (concat (map print_hunk hs))) ''@@''"
  by (cases hs) (auto simp: print_hunk_def starts_with_def split: option.splits)

lemma parse_marker_print:
  "(case a of None \<Rightarrow> True | Some x \<Rightarrow> x \<noteq> []) \<Longrightarrow>
   parse_marker (case a of None \<Rightarrow> ''@@'' | Some x \<Rightarrow> ''@@ '' @ x) = Ok a"
  by (cases a) (auto simp: parse_marker_def starts_with_def strip_prefix_def)

lemma parse_hunks_print:
  "list_all well_formed_hunk hs \<Longrightarrow> parse_hunks (concat (map print_hunk hs)) = Ok hs"
proof (induction hs)
  case (Cons h hs)
  have a: "parse_marker (case anchor h of None \<Rightarrow> ''@@'' | Some x \<Rightarrow> ''@@ '' @ x) = Ok (anchor h)"
    using Cons.prems by (intro parse_marker_print) (auto split: option.splits)
  have b: "parse_hunk_body (map (\<lambda>l. CHR ''-'' # l) (old_lines h)
        @ map (\<lambda>l. CHR ''+'' # l) (new_lines h) @ concat (map print_hunk hs)) [] [] False
      = Ok (old_lines h, new_lines h, True, concat (map print_hunk hs))"
    using Cons.prems hd_print_hunks[of hs]
    by (simp add: parse_hunk_body_old parse_hunk_body_new)
  have "concat (map print_hunk (h # hs))
      = (case anchor h of None \<Rightarrow> ''@@'' | Some x \<Rightarrow> ''@@ '' @ x)
        # map (\<lambda>l. CHR ''-'' # l) (old_lines h)
        @ map (\<lambda>l. CHR ''+'' # l) (new_lines h) @ concat (map print_hunk hs)"
    by (simp add: print_hunk_def)
  with Cons a b show ?case
    by (simp only: parse_hunks.simps) simp
qed simp

lemma strip_header [simp]:
  "strip_prefix (UPDATE_FILE @ p) ADD_FILE = None"
  "strip_prefix (DELETE_FILE @ p) ADD_FILE = None"
  "strip_prefix (DELETE_FILE @ p) UPDATE_FILE = None"
  by (simp_all add: strip_prefix_def starts_with_def header_defs)

lemma parse_section_print:
  assumes "validate_path (fp_path p) = Ok ()" and "well_formed_operation (fp_operation p)"
  shows "parse_section (fst (print_section p)) (snd (print_section p)) = Ok p"
proof (cases "fp_operation p")
  case (Add content)
  with assms show ?thesis
    by (cases p) (auto simp: parse_section_def content_lines_parse_add)
next
  case (Update hunks)
  with assms have "hunks \<noteq> []" by simp
  then have "concat (map print_hunk hunks) \<noteq> []" by (cases hunks) auto
  with assms Update show ?thesis
    by (cases p) (auto simp: parse_section_def parse_update_def parse_hunks_print)
next
  case Delete
  with assms show ?thesis
    by (cases p) (auto simp: parse_section_def)
qed

lemma parse_loop_body:
  "\<forall>l\<in>set bs. \<not> is_file_header l \<Longrightarrow> rest \<noteq> [] \<Longrightarrow>
   parse_loop header body (bs @ rest) paths = parse_loop header (body @ bs) rest paths"
  by (induction bs arbitrary: body) auto

lemma print_body_no_header: "l \<in> set (snd (print_section p)) \<Longrightarrow> \<not> is_file_header l"
  by (auto simp: print_hunk_def is_file_header_def starts_with_def header_defs
      split: patch_operation.splits option.splits)

lemma print_header_is_header: "is_file_header (fst (print_section p))"
  by (auto simp: is_file_header_def split: patch_operation.splits)

lemma print_lines_simps:
  "print_lines [] = []"
  "print_lines (p # ps) = fst (print_section p) # snd (print_section p) @ print_lines ps"
  by (simp_all add: print_lines_def)

lemma parse_loop_print:
  "distinct (map fp_path (p # ps)) \<Longrightarrow> fp_path ` set (p # ps) \<inter> paths = {} \<Longrightarrow>
   list_all (\<lambda>p. validate_path (fp_path p) = Ok () \<and> well_formed_operation (fp_operation p)) (p # ps) \<Longrightarrow>
   parse_loop (fst (print_section p)) [] (snd (print_section p) @ print_lines ps @ [END_PATCH]) paths
     = Ok (p # ps)"
proof (induction ps arbitrary: p paths)
  case Nil
  have sec: "parse_section (fst (print_section p)) (snd (print_section p)) = Ok p"
    using Nil.prems(3) by (intro parse_section_print) simp_all
  have "parse_loop (fst (print_section p)) [] (snd (print_section p) @ [END_PATCH]) paths
      = parse_loop (fst (print_section p)) (snd (print_section p)) [END_PATCH] paths"
    using parse_loop_body[of "snd (print_section p)" "[END_PATCH]"] print_body_no_header by simp
  with sec Nil.prems(2) show ?case by (simp add: print_lines_simps del: print_section.simps)
next
  case (Cons q ps)
  have sec: "parse_section (fst (print_section p)) (snd (print_section p)) = Ok p"
    using Cons.prems(3) by (intro parse_section_print) simp_all
  have "parse_loop (fst (print_section q)) []
      (snd (print_section q) @ print_lines ps @ [END_PATCH]) (insert (fp_path p) paths) = Ok (q # ps)"
    using Cons.prems by (intro Cons.IH) auto
  with sec Cons.prems(2) print_header_is_header[of q] print_body_no_header[of _ p] show ?case
    by (simp add: print_lines_simps parse_loop_body del: print_section.simps)
qed

lemma validate_basic_path_str_no_NL: "validate_basic_path_str path f = Ok () \<Longrightarrow> NL \<notin> set path"
  using str_chars_byte[of NL path]
  by (force simp: validate_basic_path_str_def has_control_def list_ex_iff ch_is_control_def code_def
      split: if_splits)

lemma validate_path_Ok:
  "validate_path path = Ok () \<longleftrightarrow>
     validate_basic_path_str path ''patch path'' = Ok ()
   \<and> starts_with path [SLASH] \<and> \<not> ends_with path [SLASH]"
  by (auto simp: validate_path_def)

lemma content_lines_no_NL: "l \<in> set (content_lines c) \<Longrightarrow> NL \<notin> set l"
  using split_on_parts by (auto simp: content_lines_def split: if_splits option.splits)

lemma print_lines_no_NL:
  assumes "list_all (\<lambda>p. validate_path (fp_path p) = Ok () \<and> well_formed_operation (fp_operation p)) ps"
    and "l \<in> set (print_lines ps)"
  shows "NL \<notin> set l"
  using assms
proof (induction ps)
  case (Cons p ps)
  from Cons.prems(1) have path: "NL \<notin> set (fp_path p)"
    by (auto simp: validate_path_Ok dest: validate_basic_path_str_no_NL)
  have "NL \<notin> set l" if "l \<in> set (snd (print_section p))"
    using that Cons.prems(1) content_lines_no_NL
    by (auto simp: print_hunk_def list_all_iff split: patch_operation.splits option.splits)
  moreover have "NL \<notin> set (fst (print_section p))"
    using path by (auto simp: header_defs split: patch_operation.splits)
  ultimately show ?case
    using Cons by (auto simp: print_lines_simps simp del: print_section.simps)
qed (simp add: print_lines_simps)

subsection \<open>Applying\<close>

lemma hunk_matches_at_prefix:
  assumes "lines = pre @ rest" and "length (old_lines h) \<le> length rest"
  shows "hunk_matches h lines (length pre)
   \<longleftrightarrow> occurs_between h lines pre (drop (length (old_lines h)) rest)"
proof -
  have "take (length (old_lines h)) rest = old_lines h
      \<longleftrightarrow> rest = old_lines h @ drop (length (old_lines h)) rest"
    using append_eq_conv_conj[of "old_lines h" "drop (length (old_lines h)) rest" rest] by auto
  then show ?thesis
    using assms unfolding hunk_matches_def occurs_between_def list_ex_iff
    by (cases "anchor h") auto
qed

lemma set_candidates:
  "start \<in> set (candidates h lines) \<longleftrightarrow>
     (\<exists>pre post. occurs_between h lines pre post \<and> start = length pre)"
proof
  assume l: "start \<in> set (candidates h lines)"
  then have le: "start + length (old_lines h) \<le> length lines" and m: "hunk_matches h lines start"
    by (auto simp: candidates_def split: if_splits)
  have split: "lines = take start lines @ drop start lines" by simp
  from m le hunk_matches_at_prefix[OF split, of h]
  show "\<exists>pre post. occurs_between h lines pre post \<and> start = length pre"
    by (intro exI[of _ "take start lines"]
        exI[of _ "drop (length (old_lines h)) (drop start lines)"]) simp
next
  assume "\<exists>pre post. occurs_between h lines pre post \<and> start = length pre"
  then obtain pre post where o: "occurs_between h lines pre post" and s: "start = length pre" by blast
  from o have "lines = pre @ (old_lines h @ post)" by (simp add: occurs_between_def)
  from hunk_matches_at_prefix[OF this, of h] o s
  show "start \<in> set (candidates h lines)"
    by (auto simp: candidates_def occurs_between_def)
qed

lemma distinct_candidates: "distinct (candidates h lines)"
  by (simp add: candidates_def)

lemma occurs_between_unique:
  assumes "occurs_between h lines pre post" "occurs_between h lines pre' post'"
    and "length pre = length pre'"
  shows "pre = pre' \<and> post = post'"
  using assms by (auto simp: occurs_between_def)

lemma candidates_singleton:
  "candidates h lines = [s] \<longleftrightarrow>
     (\<exists>pre post. occurs_between h lines pre post \<and> length pre = s
        \<and> (\<forall>pre' post'. occurs_between h lines pre' post' \<longrightarrow> pre' = pre \<and> post' = post))"
  (is "?l \<longleftrightarrow> ?r")
proof
  assume ?l
  then have mem: "\<And>x. x \<in> set (candidates h lines) \<longleftrightarrow> x = s" by simp
  then obtain pre post where o: "occurs_between h lines pre post" "length pre = s"
    unfolding set_candidates by blast
  moreover have "pre' = pre \<and> post' = post" if "occurs_between h lines pre' post'" for pre' post'
    using that o mem[of "length pre'"] occurs_between_unique[OF that o(1)]
    unfolding set_candidates by blast
  ultimately show ?r by blast
next
  assume ?r
  then have "x \<in> set (candidates h lines) \<longleftrightarrow> x = s" for x
    unfolding set_candidates by blast
  then have "set (candidates h lines) = {s}" by blast
  with distinct_candidates show ?l by (rule distinct_set_singleton)
qed

lemma apply_hunk_Ok:
  "apply_hunk i lines h = Ok lines' \<longleftrightarrow>
     (\<exists>pre post. occurs_between h lines pre post \<and> lines' = pre @ new_lines h @ post
        \<and> (\<forall>pre' post'. occurs_between h lines pre' post' \<longrightarrow> pre' = pre \<and> post' = post))"
  (is "?l \<longleftrightarrow> ?r")
proof
  assume ?l
  then obtain s where s: "candidates h lines = [s]"
    and l': "lines' = splice lines s (length (old_lines h)) (new_lines h)"
    by (auto simp: apply_hunk_def split: list.splits)
  from s obtain pre post where o: "occurs_between h lines pre post" "length pre = s"
    and u: "\<forall>pre' post'. occurs_between h lines pre' post' \<longrightarrow> pre' = pre \<and> post' = post"
    unfolding candidates_singleton by blast
  from o l' have "lines' = pre @ new_lines h @ post" by (auto simp: splice_def occurs_between_def)
  with o u show ?r by blast
next
  assume ?r
  then obtain pre post where o: "occurs_between h lines pre post"
    and l': "lines' = pre @ new_lines h @ post"
    and u: "\<forall>pre' post'. occurs_between h lines pre' post' \<longrightarrow> pre' = pre \<and> post' = post"
    by blast
  then have "candidates h lines = [length pre]" unfolding candidates_singleton by blast
  with o l' show ?l by (simp add: apply_hunk_def splice_def occurs_between_def)
qed

lemma content_lines_join:
  assumes "\<forall>l\<in>set ls. NL \<notin> set l"
  shows "content_lines (join [NL] ls @ (if ls \<noteq> [] then [NL] else [])) = ls"
  using assms by (auto simp: content_lines_def split_on_join)

lemma apply_hunk_NL_free:
  assumes "apply_hunk i lines h = Ok lines'" "well_formed_hunk h" "\<forall>l\<in>set lines. NL \<notin> set l"
  shows "\<forall>l\<in>set lines'. NL \<notin> set l"
  using assms unfolding apply_hunk_Ok occurs_between_def by (auto simp: list_all_iff)

lemma apply_hunk_list_NL_free:
  "apply_hunk_list i lines hs = Ok lines' \<Longrightarrow> list_all well_formed_hunk hs \<Longrightarrow>
   \<forall>l\<in>set lines. NL \<notin> set l \<Longrightarrow> \<forall>l\<in>set lines'. NL \<notin> set l"
proof (induction hs arbitrary: i lines)
  case (Cons h hs)
  then obtain ls where ls: "apply_hunk i lines h = Ok ls" "apply_hunk_list (i + 1) ls hs = Ok lines'"
    by auto
  have "\<forall>l\<in>set ls. NL \<notin> set l"
    by (rule apply_hunk_NL_free[OF ls(1) _ Cons.prems(3)]) (use Cons.prems(2) in \<open>simp only: list.pred_inject\<close>)
  then show ?case
    by (rule Cons.IH[OF ls(2), rotated]) (use Cons.prems(2) in \<open>simp only: list.pred_inject\<close>)
qed simp

section \<open>Properties\<close>

text \<open>C10: every patch that \<open>parse_patch\<close> accepts is well formed: it has at least one section, no
  two sections name the same path, every path is a valid absolute file path, added content is empty
  or ends with a newline, and every hunk of an update has an old line and a non-empty anchor if it
  has one.\<close>

theorem parse_patch_well_formed:
  assumes "parse_patch input = Ok ps"
  shows "well_formed_patches ps"
proof -
  define ls where "ls = split_on NL (case strip_suffix input [NL] of Some s \<Rightarrow> s | None \<Rightarrow> input)"
  have nl: "\<forall>l\<in>set ls. NL \<notin> set l" unfolding ls_def by (rule split_on_all_NL_free)
  from assms have loop: "parse_loop (ls ! 1) [] (drop 2 ls) {} = Ok ps" and len: "\<not> length ls < 3"
    by (auto simp: parse_patch_def ls_def Let_def split: if_splits)
  moreover have "\<forall>l\<in>set [] \<union> set (drop 2 ls). NL \<notin> set l"
    using nl by (auto dest: in_set_dropD)
  ultimately show ?thesis
    using parse_loop_well_formed[OF loop] by (auto simp: well_formed_patches_def)
qed

theorem parse_patch_well_formed_witness:
  "well_formed_patches
     [\<lparr>fp_path = ''/tmp/a'', fp_operation = Delete\<rparr>, \<lparr>fp_path = ''/b'', fp_operation = Add (''x'' @ [NL])\<rparr>]"
  by (rule parse_patch_well_formed[of
        "BEGIN_PATCH @ [NL] @ ''*** Delete File: /tmp/a'' @ [NL] @ ''*** Add File: /b'' @ [NL]
          @ ''+x'' @ [NL] @ END_PATCH @ [NL]"])
     code_simp

text \<open>C39: parsing the printed form of a well-formed list of sections gives that list back, so
  every well-formed patch can be expressed and its text determines it.\<close>

theorem parse_print_patch:
  assumes "well_formed_patches ps"
  shows "parse_patch (print_patch ps) = Ok ps"
proof -
  obtain p qs where ps: "ps = p # qs"
    using assms by (cases ps) (auto simp: well_formed_patches_def)
  define ls where "ls = BEGIN_PATCH # print_lines ps @ [END_PATCH]"
  have nl: "\<forall>l\<in>set ls. NL \<notin> set l"
    using assms print_lines_no_NL by (auto simp: ls_def header_defs well_formed_patches_def)
  have "print_patch ps = join [NL] (butlast ls) @ [NL] @ END_PATCH"
    using join_append_single[of "BEGIN_PATCH # print_lines ps" "[NL]" END_PATCH]
    by (simp add: print_patch_def ls_def butlast_append)
  then have "strip_suffix (print_patch ps) [NL] = None"
    by (auto simp: strip_suffix_def ends_with_iff END_PATCH_def)
  moreover have "split_on NL (print_patch ps) = ls"
    using nl split_on_join[of ls NL] by (simp add: print_patch_def ls_def)
  moreover have "parse_loop (fst (print_section p)) []
      (snd (print_section p) @ print_lines qs @ [END_PATCH]) {} = Ok (p # qs)"
    using assms ps by (intro parse_loop_print) (auto simp: well_formed_patches_def)
  ultimately show ?thesis
    by (simp add: parse_patch_def Let_def ls_def ps print_lines_simps del: print_section.simps)
qed

theorem parse_print_patch_witness:
  "parse_patch (print_patch [\<lparr>fp_path = ''/b'', fp_operation =
       Update [\<lparr>anchor = Some ''fn'', old_lines = [''-x'', []], new_lines = [''*** y'']\<rparr>]\<rparr>])
   = Ok [\<lparr>fp_path = ''/b'', fp_operation =
       Update [\<lparr>anchor = Some ''fn'', old_lines = [''-x'', []], new_lines = [''*** y'']\<rparr>]\<rparr>]"
  by (rule parse_print_patch) code_simp

text \<open>C3: a hunk applies exactly when its old lines occur at one and only one place that the
  anchor admits, and then the edit replaces precisely that occurrence and leaves every other line
  in place.\<close>

theorem apply_hunk_exact:
  "apply_hunk i lines h = Ok lines' \<longleftrightarrow>
     (\<exists>pre post. lines' = pre @ new_lines h @ post
        \<and> {(p, q). occurs_between h lines p q} = {(pre, post)})"
  unfolding apply_hunk_Ok by (simp add: set_eq_iff) blast

text \<open>An accepted edit can be undone: when the hunk with old and new lines exchanged applies
  to the result, it restores the lines the edit started from.\<close>

theorem apply_hunk_reverse:
  assumes "apply_hunk i lines h = Ok lines'"
    and "apply_hunk j lines' (reverse_hunk h) = Ok lines''"
  shows "lines'' = lines"
proof -
  from assms(1) obtain pre post where l: "lines = pre @ old_lines h @ post"
    and l': "lines' = pre @ new_lines h @ post"
    unfolding apply_hunk_Ok occurs_between_def by blast
  then have "occurs_between (reverse_hunk h) lines' pre post"
    by (simp add: occurs_between_def reverse_hunk_def)
  with assms(2) have "lines'' = pre @ new_lines (reverse_hunk h) @ post"
    unfolding apply_hunk_Ok by blast
  with l show ?thesis by (simp add: reverse_hunk_def)
qed

theorem apply_hunk_reverse_witness:
  "apply_hunk 0 [''a'', ''d'', ''c''] (reverse_hunk \<lparr>anchor = Some ''a'', old_lines = [''b''], new_lines = [''d'']\<rparr>)
     = Ok [''a'', ''b'', ''c'']"
proof -
  let ?h = "\<lparr>anchor = Some ''a'', old_lines = [''b''], new_lines = [''d'']\<rparr> :: patch_hunk"
  have 1: "apply_hunk 0 [''a'', ''b'', ''c''] ?h = Ok [''a'', ''d'', ''c'']" by code_simp
  have 2: "is_ok (apply_hunk 0 [''a'', ''d'', ''c''] (reverse_hunk ?h))" by code_simp
  then obtain l where "apply_hunk 0 [''a'', ''d'', ''c''] (reverse_hunk ?h) = Ok l"
    by (cases "apply_hunk 0 [''a'', ''d'', ''c''] (reverse_hunk ?h)") auto
  with apply_hunk_reverse[OF 1 this] show ?thesis by simp
qed

text \<open>Editing a file that ends with a newline works line by line: the lines of the new content
  are the lines the hunks produce from the lines of the old content, and the new content ends with a
  newline again unless every line was removed.\<close>

theorem apply_hunks_lines:
  assumes "ends_with content [NL]" and "list_all well_formed_hunk hunks"
  shows "apply_hunks content hunks = Ok updated \<longleftrightarrow>
    apply_hunk_list 0 (content_lines content) hunks = Ok (content_lines updated)
    \<and> (updated = [] \<or> ends_with updated [NL])"
proof
  assume "apply_hunks content hunks = Ok updated"
  with assms(1) obtain ls where ls: "apply_hunk_list 0 (content_lines content) hunks = Ok ls"
    and u: "updated = join [NL] ls @ (if ls \<noteq> [] then [NL] else [])"
    by (auto simp: apply_hunks_def)
  have "\<forall>l\<in>set ls. NL \<notin> set l"
    using apply_hunk_list_NL_free[OF ls assms(2)] content_lines_no_NL by blast
  then have "content_lines updated = ls" unfolding u by (rule content_lines_join)
  with ls u show "apply_hunk_list 0 (content_lines content) hunks = Ok (content_lines updated)
    \<and> (updated = [] \<or> ends_with updated [NL])" by auto
next
  assume "apply_hunk_list 0 (content_lines content) hunks = Ok (content_lines updated)
    \<and> (updated = [] \<or> ends_with updated [NL])"
  with assms(1) show "apply_hunks content hunks = Ok updated"
    by (auto simp: apply_hunks_def content_lines_def ends_with_iff join_split_on)
qed

theorem apply_hunks_lines_witness:
  "apply_hunks (''a'' @ [NL] @ ''b'' @ [NL])
     [\<lparr>anchor = None, old_lines = [''b''], new_lines = [''d'']\<rparr>] = Ok (''a'' @ [NL] @ ''d'' @ [NL])"
proof -
  have "apply_hunk_list 0 (content_lines (''a'' @ [NL] @ ''b'' @ [NL]))
      [\<lparr>anchor = None, old_lines = [''b''], new_lines = [''d'']\<rparr>]
      = Ok (content_lines (''a'' @ [NL] @ ''d'' @ [NL]))" by code_simp
  moreover have "ends_with (''a'' @ [NL] @ ''b'' @ [NL]) [NL]" by code_simp
  moreover have "ends_with (''a'' @ [NL] @ ''d'' @ [NL]) [NL]" by code_simp
  moreover have "list_all well_formed_hunk [\<lparr>anchor = None, old_lines = [''b''], new_lines = [''d'']\<rparr>]"
    by code_simp
  ultimately show ?thesis by (subst apply_hunks_lines) blast+
qed

end
