(* ===== verification/Shell.thy ===== *)
theory Shell
  imports Prelude
begin

text \<open>
  How command lines are built: \<open>src/src/shell_escape.rs\<close>, \<open>src/src/ssh/sanitize.rs\<close>,
  \<open>src/src/ssh/elevation.rs\<close>, \<open>src/src/background/wrapper.rs\<close> and the wrappers of
  \<open>src/src/ssh/command.rs\<close>. What a POSIX shell reads from such a line is specified here as well:
  the quoting rules of the shell grammar for simple commands, pipelines and sequences
  (\<open>sh_lex\<close>) and the three simple commands the background wrapper is made of (\<open>sh_run\<close>).
\<close>

section \<open>Definitions\<close>

subsection \<open>Escaping and wrapping\<close>

definition escape_for_shell :: "string \<Rightarrow> string" where
  "escape_for_shell s = replace_char SQ [SQ, DQ, SQ, DQ, SQ] s"

definition elevation_escape_for_shell :: "string \<Rightarrow> string" where
  "elevation_escape_for_shell s = escape_for_shell s"

definition escape_for_timeout_wrapper :: "string \<Rightarrow> string" where
  "escape_for_timeout_wrapper command = escape_for_shell command"

definition escape_command_for_shell :: "string \<Rightarrow> string" where
  "escape_command_for_shell command =
     escape_for_shell
       (replace_char (CHR ''|'') [BSL, CHR ''|'']
         (replace_char (CHR '')'') [BSL, CHR '')'']
           (replace_char (CHR ''('') [BSL, CHR ''('']
             (replace_char (CHR 0x60) [BSL, CHR 0x60]
               (replace_char (CHR ''$'') [BSL, CHR ''$'']
                 (replace_char BSL [BSL, BSL] command))))))"

datatype invalid_params =
    CommandEmpty
  | CommandTooLong nat nat
  | DurationInvalid

definition sanitize_command :: "string \<Rightarrow> nat option \<Rightarrow> (string, invalid_params) result" where
  "sanitize_command command max_chars =
     (let trimmed = trim command in
      if trimmed = [] then Err CommandEmpty
      else case max_chars of
        None \<Rightarrow> Ok trimmed
      | Some limit \<Rightarrow>
          if length trimmed > limit then Err (CommandTooLong limit (length trimmed)) else Ok trimmed)"

definition wrap_in_posix_shell :: "string \<Rightarrow> bool \<Rightarrow> string" where
  "wrap_in_posix_shell command login =
     (let escaped = escape_for_timeout_wrapper command in
      if login then ''sh -lc '' @ [SQ] @ escaped @ [SQ] else ''sh -c '' @ [SQ] @ escaped @ [SQ])"

definition wrap_sudo_command :: "string \<Rightarrow> string option \<Rightarrow> string" where
  "wrap_sudo_command command password =
     (let escaped_command = elevation_escape_for_shell command in
      case password of
        None \<Rightarrow> ''sudo -n sh -c '' @ [SQ] @ escaped_command @ [SQ]
      | Some pwd \<Rightarrow>
          let escaped_pwd = elevation_escape_for_shell pwd in
          ''printf '' @ [SQ] @ ''%s'' @ [BSL] @ ''n'' @ [SQ] @ '' '' @ [SQ] @ escaped_pwd @ [SQ]
          @ '' | sudo -S -p '' @ [SQ, SQ] @ '' sh -c '' @ [SQ] @ escaped_command @ [SQ])"

definition is_valid_password :: "string \<Rightarrow> bool" where
  "is_valid_password password \<longleftrightarrow> trim password \<noteq> [] \<and> NUL \<notin> set password"

definition sanitize_password :: "string option \<Rightarrow> string option" where
  "sanitize_password password =
     (case map_option trim password of
        None \<Rightarrow> None
      | Some p \<Rightarrow> if p \<noteq> [] then Some p else None)"

definition TIMEOUT_KILL_AFTER_SECS :: nat where
  "TIMEOUT_KILL_AFTER_SECS = 2"

text \<open>The duration is the decimal text that \<open>format!\<close> produces for the \<open>f64\<close>.\<close>

definition wrap_command_with_timeout :: "string \<Rightarrow> string \<Rightarrow> string" where
  "wrap_command_with_timeout command duration_secs =
     (let escaped_command = escape_for_timeout_wrapper command in
      ''timeout -k '' @ show_nat TIMEOUT_KILL_AFTER_SECS @ ''s '' @ duration_secs @ ''s sh -lc ''
      @ [SQ] @ escaped_command @ [SQ])"

definition wrap_command_for_channel_exec :: "string \<Rightarrow> string" where
  "wrap_command_for_channel_exec command = wrap_in_posix_shell command False"

text \<open>A \<open>Duration\<close> is a number of nanoseconds, so its seconds are finite; they are positive exactly
  when the duration is not zero.\<close>

definition validate_timeout_duration :: "nat \<Rightarrow> (nat, invalid_params) result" where
  "validate_timeout_duration nanos = (if nanos = 0 then Err DurationInvalid else Ok nanos)"

definition remote_job_log_path :: "string \<Rightarrow> string" where
  "remote_job_log_path job_id = ''/tmp/.ssh-mcp-job-'' @ job_id @ ''.log''"

definition printf_line :: "string \<Rightarrow> string" where
  "printf_line arg = ''printf '' @ [SQ] @ ''%s'' @ [NL] @ [SQ] @ '' '' @ [DQ] @ arg @ [DQ] @ ''; ''"

definition build_background_wrapper_script :: "string \<Rightarrow> string \<Rightarrow> string \<Rightarrow> string" where
  "build_background_wrapper_script job_id user_command log_path =
     (let escaped_user_command = escape_for_shell user_command;
          escaped_log_path = escape_for_shell log_path in
      ''LOG='' @ [SQ] @ escaped_log_path @ [SQ] @ ''; ''
      @ printf_line (''__SSH_MCP_JOB_ID='' @ job_id)
      @ printf_line ''__SSH_MCP_PID=$$''
      @ printf_line ''__SSH_MCP_LOG=$LOG''
      @ ''exec sh -c '' @ [SQ] @ ''set +m; '' @ escaped_user_command @ [SQ])"

subsection \<open>What a shell reads\<close>

text \<open>
  A word is a sequence of parts: a character outside or inside quotes, or an expansion inside double
  quotes. A character with a special meaning that the lines above never use unquoted (redirections,
  globs, substitutions, background jobs, comments, a backslash) makes the reading fail, so that a
  result says that the line has none of them outside quotes.
\<close>

datatype sh_part = Raw char | Quoted char | Var string | ShellPid

datatype sh_token = Word "sh_part list" | Pipe | Semi

datatype sh_mode = Unq | InSq | InDq

definition sh_special :: "char \<Rightarrow> bool" where
  "sh_special c \<longleftrightarrow> c \<in> set ''&<>()$*?[]#~!{}'' \<or> c = BSL \<or> c = CHR 0x60 \<or> c = NL \<or> c = NUL"

definition sh_name_char :: "char \<Rightarrow> bool" where
  "sh_name_char c \<longleftrightarrow> is_ascii_alphanumeric c \<or> c = CHR ''_''"

definition the_word :: "sh_part list option \<Rightarrow> sh_part list" where
  "the_word w = (case w of None \<Rightarrow> [] | Some ps \<Rightarrow> ps)"

definition flush :: "sh_part list option \<Rightarrow> sh_token list" where
  "flush w = (case w of None \<Rightarrow> [] | Some ps \<Rightarrow> [Word ps])"

function sh_lex :: "sh_mode \<Rightarrow> sh_part list option \<Rightarrow> string \<Rightarrow> sh_token list option" where
  "sh_lex Unq w [] = Some (flush w)"
| "sh_lex InSq w [] = None"
| "sh_lex InDq w [] = None"
| "sh_lex Unq w (c # cs) =
     (if c = SQ then sh_lex InSq (Some (the_word w)) cs
      else if c = DQ then sh_lex InDq (Some (the_word w)) cs
      else if c = CHR '' '' then map_option ((@) (flush w)) (sh_lex Unq None cs)
      else if c = CHR ''|'' then map_option ((@) (flush w @ [Pipe])) (sh_lex Unq None cs)
      else if c = CHR '';'' then map_option ((@) (flush w @ [Semi])) (sh_lex Unq None cs)
      else if sh_special c then None
      else sh_lex Unq (Some (the_word w @ [Raw c])) cs)"
| "sh_lex InSq w (c # cs) =
     (if c = SQ then sh_lex Unq w cs
      else sh_lex InSq (Some (the_word w @ [Quoted c])) cs)"
| "sh_lex InDq w (c # cs) =
     (if c = DQ then sh_lex Unq w cs
      else if c = CHR ''$'' then
        (if starts_with cs ''$'' then sh_lex InDq (Some (the_word w @ [ShellPid])) (drop 1 cs)
         else let name = takeWhile sh_name_char cs in
           if name = [] then None
           else sh_lex InDq (Some (the_word w @ [Var name])) (drop (length name) cs))
      else if c = CHR 0x60 \<or> c = BSL then None
      else sh_lex InDq (Some (the_word w @ [Quoted c])) cs)"
  by pat_completeness auto
termination
  by (relation "measure (\<lambda>(m, w, s). length s)") auto

definition sh_read :: "string \<Rightarrow> sh_token list option" where
  "sh_read line = sh_lex Unq None line"

fun expand :: "nat \<Rightarrow> (string \<rightharpoonup> string) \<Rightarrow> sh_part list \<Rightarrow> string" where
  "expand pid env [] = []"
| "expand pid env (Raw c # ps) = c # expand pid env ps"
| "expand pid env (Quoted c # ps) = c # expand pid env ps"
| "expand pid env (Var x # ps) = (case env x of None \<Rightarrow> [] | Some v \<Rightarrow> v) @ expand pid env ps"
| "expand pid env (ShellPid # ps) = show_nat pid @ expand pid env ps"

text \<open>The words of one simple command, when it has no expansion.\<close>

fun static_word :: "sh_part list \<Rightarrow> string option" where
  "static_word [] = Some []"
| "static_word (Raw c # ps) = map_option ((#) c) (static_word ps)"
| "static_word (Quoted c # ps) = map_option ((#) c) (static_word ps)"
| "static_word (Var x # ps) = None"
| "static_word (ShellPid # ps) = None"

text \<open>A pipeline of simple commands, each a list of words.\<close>

fun sh_pipeline :: "sh_token list \<Rightarrow> string list list option" where
  "sh_pipeline [] = Some [[]]"
| "sh_pipeline (Word w # ts) =
     (case (static_word w, sh_pipeline ts) of
        (Some x, Some (c # cs)) \<Rightarrow> Some ((x # c) # cs)
      | _ \<Rightarrow> None)"
| "sh_pipeline (Pipe # ts) = map_option ((#) []) (sh_pipeline ts)"
| "sh_pipeline (Semi # ts) = None"

definition sh_argv :: "string \<Rightarrow> string list list option" where
  "sh_argv line = (case sh_read line of None \<Rightarrow> None | Some ts \<Rightarrow> sh_pipeline ts)"

text \<open>
  Running a sequence of simple commands: an assignment (an unquoted name and \<open>=\<close> before the value),
  \<open>printf\<close> of one argument and a newline, and \<open>exec\<close>. The result is the text written and the argument
  vector that replaces the shell.
\<close>

fun unquoted_name :: "sh_part list \<Rightarrow> (string \<times> sh_part list) option" where
  "unquoted_name (Raw c # ps) =
     (if c = CHR ''='' then Some ([], ps)
      else if sh_name_char c then map_option (\<lambda>(n, r). (c # n, r)) (unquoted_name ps)
      else None)"
| "unquoted_name _ = None"

definition printf_format :: "string \<Rightarrow> bool" where
  "printf_format f \<longleftrightarrow> f = ''%s'' @ [NL] \<or> f = ''%s'' @ [BSL] @ ''n''"

fun sh_split :: "sh_token list \<Rightarrow> sh_part list list list option" where
  "sh_split [] = Some [[]]"
| "sh_split (Word w # ts) =
     (case sh_split ts of Some (c # cs) \<Rightarrow> Some ((w # c) # cs) | _ \<Rightarrow> None)"
| "sh_split (Semi # ts) = map_option ((#) []) (sh_split ts)"
| "sh_split (Pipe # ts) = None"

definition assignment :: "sh_part list list \<Rightarrow> (string \<times> sh_part list) option" where
  "assignment ws =
     (case ws of
        [w] \<Rightarrow> (case unquoted_name w of
                  Some (n, v) \<Rightarrow> if n = [] then None else Some (n, v)
                | None \<Rightarrow> None)
      | _ \<Rightarrow> None)"

fun sh_commands ::
  "nat \<Rightarrow> (string \<rightharpoonup> string) \<Rightarrow> string \<Rightarrow> sh_part list list list \<Rightarrow> (string \<times> string list option) option"
where
  "sh_commands pid env out [] = Some (out, None)"
| "sh_commands pid env out (ws # cmds) =
     (case assignment ws of
        Some (n, v) \<Rightarrow> sh_commands pid (env(n \<mapsto> expand pid env v)) out cmds
      | None \<Rightarrow>
        (case map (expand pid env) ws of
           [] \<Rightarrow> sh_commands pid env out cmds
         | cmd # args \<Rightarrow>
             if cmd = ''exec'' then Some (out, Some args)
             else if cmd = ''printf'' then
               (case args of
                  [f, a] \<Rightarrow> if printf_format f then sh_commands pid env (out @ a @ [NL]) cmds else None
                | _ \<Rightarrow> None)
             else None))"

definition sh_run :: "nat \<Rightarrow> string \<Rightarrow> (string \<times> string list option) option" where
  "sh_run pid script =
     (case sh_read script of
        None \<Rightarrow> None
      | Some ts \<Rightarrow> (case sh_split ts of None \<Rightarrow> None | Some cmds \<Rightarrow> sh_commands pid Map.empty [] cmds))"

text \<open>One character of \<open>escape_command_for_shell\<close>, and its inverse.\<close>

definition pattern_special :: "char \<Rightarrow> bool" where
  "pattern_special c \<longleftrightarrow> c = BSL \<or> c = CHR ''$'' \<or> c = CHR 0x60 \<or> c = CHR ''('' \<or> c = CHR '')'' \<or> c = CHR ''|''"

definition pattern_escape :: "string \<Rightarrow> string" where
  "pattern_escape s = concat (map (\<lambda>c. if pattern_special c then [BSL, c] else [c]) s)"

fun pattern_unescape :: "string \<Rightarrow> string" where
  "pattern_unescape [] = []"
| "pattern_unescape (c # cs) =
     (if c = BSL then (case cs of [] \<Rightarrow> [c] | d # ds \<Rightarrow> d # pattern_unescape ds)
      else c # pattern_unescape cs)"

section \<open>Lemmas\<close>

lemma escape_for_shell_simps [simp]:
  "escape_for_shell [] = []"
  "escape_for_shell (c # s) = (if c = SQ then [SQ, DQ, SQ, DQ, SQ] else [c]) @ escape_for_shell s"
  by (simp_all add: escape_for_shell_def replace_char_def)

lemmas wrapper_defs = elevation_escape_for_shell_def escape_for_timeout_wrapper_def
  wrap_in_posix_shell_def wrap_command_for_channel_exec_def wrap_command_with_timeout_def

lemma sh_lex_escaped:
  "sh_lex InSq (Some w) (escape_for_shell s @ SQ # rest) = sh_lex Unq (Some (w @ map Quoted s)) rest"
  by (induction s arbitrary: w) (simp_all add: the_word_def)

lemma sh_lex_dq_plain:
  "\<forall>c\<in>set s. c \<noteq> DQ \<and> c \<noteq> CHR ''$'' \<and> c \<noteq> CHR 0x60 \<and> c \<noteq> BSL \<Longrightarrow>
   sh_lex InDq (Some w) (s @ DQ # rest) = sh_lex Unq (Some (w @ map Quoted s)) rest"
  by (induction s arbitrary: w) (simp_all add: the_word_def)

lemma sh_lex_unq_plain:
  "\<forall>c\<in>set s. \<not> sh_special c \<and> c \<notin> {SQ, DQ, CHR '' '', CHR ''|'', CHR '';''} \<Longrightarrow>
   sh_lex Unq (Some w) (s @ rest) = sh_lex Unq (Some (w @ map Raw s)) rest"
  by (induction s arbitrary: w) (simp_all add: the_word_def)

lemma static_word_quoted [simp]: "static_word (map Quoted s) = Some s"
  by (induction s) simp_all

lemma static_word_raw [simp]: "static_word (map Raw s @ ps) = map_option ((@) s) (static_word ps)"
  by (induction s) (simp_all add: option.map_comp comp_def option.map_ident)

lemma expand_quoted [simp]: "expand pid env (map Quoted s) = s"
  by (induction s) simp_all

lemma replace_char_step:
  "replace_char c r (x # s) = (if x = c then r else [x]) @ replace_char c r s"
  "replace_char c r [] = []"
  by (simp_all add: replace_char_def)

lemmas sh_eval = the_word_def flush_def sh_special_def sh_name_char_def is_ascii_alphanumeric_def
  is_ascii_digit_def is_ascii_lowercase_def is_ascii_uppercase_def in_range_def code_def starts_with_def

lemma sh_argv_posix_shell:
  "sh_argv (wrap_in_posix_shell command login) = Some [[''sh'', if login then ''-lc'' else ''-c'', command]]"
  by (simp add: wrapper_defs sh_argv_def sh_read_def sh_eval sh_lex_escaped)

lemma sh_argv_sudo:
  "sh_argv (wrap_sudo_command command password) =
     Some (case password of
             None \<Rightarrow> [[''sudo'', ''-n'', ''sh'', ''-c'', command]]
           | Some pwd \<Rightarrow> [[''printf'', ''%s'' @ [BSL] @ ''n'', pwd],
                          [''sudo'', ''-S'', ''-p'', [], ''sh'', ''-c'', command]])"
  by (cases password)
     (simp_all add: wrapper_defs wrap_sudo_command_def sh_argv_def sh_read_def sh_eval sh_lex_escaped)

lemma plain_number_chars:
  assumes "\<forall>c\<in>set s. is_ascii_digit c \<or> c = CHR ''.''" "c \<in> set s"
  shows "\<not> sh_special c \<and> c \<notin> {SQ, DQ, CHR '' '', CHR ''|'', CHR '';''}"
  using assms by (auto simp: sh_eval)

lemma sh_lex_start:
  "d \<noteq> [] \<Longrightarrow> \<forall>c\<in>set d. is_ascii_digit c \<or> c = CHR ''.'' \<Longrightarrow>
   sh_lex Unq None (d @ rest) = sh_lex Unq (Some (map Raw d)) rest"
proof (cases d)
  case (Cons c cs)
  assume a: "\<forall>c\<in>set d. is_ascii_digit c \<or> c = CHR ''.''"
  have "sh_lex Unq None (d @ rest) = sh_lex Unq (Some [Raw c]) (cs @ rest)"
    using plain_number_chars[OF a, of c] Cons by (simp add: the_word_def)
  also have "\<dots> = sh_lex Unq (Some ([Raw c] @ map Raw cs)) rest"
    using plain_number_chars[OF a] Cons by (intro sh_lex_unq_plain) simp
  finally show ?thesis using Cons by simp
qed simp

lemma sh_argv_timeout:
  assumes "d \<noteq> []" "\<forall>c\<in>set d. is_ascii_digit c \<or> c = CHR ''.''"
  shows "sh_argv (wrap_command_with_timeout command d) =
     Some [[''timeout'', ''-k'', ''2s'', d @ ''s'', ''sh'', ''-lc'', command]]"
proof -
  have "show_nat TIMEOUT_KILL_AFTER_SECS = ''2''"
    by code_simp
  then show ?thesis
    by (simp add: wrapper_defs sh_argv_def sh_read_def sh_eval sh_lex_escaped
        sh_lex_start[OF assms] sh_lex_start[OF assms, unfolded sh_eval])
qed

lemma sh_lex_printf_line:
  "\<forall>c\<in>set s. c \<noteq> DQ \<and> c \<noteq> CHR ''$'' \<and> c \<noteq> CHR 0x60 \<and> c \<noteq> BSL \<Longrightarrow>
   sh_lex Unq None (printf_line s @ rest)
   = map_option ((@) [Word (map Raw ''printf''), Word (map Quoted (''%s'' @ [NL])), Word (map Quoted s), Semi])
       (sh_lex Unq None rest)"
  by (cases "sh_lex Unq None rest") (simp_all add: printf_line_def sh_eval sh_lex_dq_plain)

lemma sh_lex_printf_pid:
  "sh_lex Unq None (printf_line ''__SSH_MCP_PID=$$'' @ rest)
   = map_option ((@) [Word (map Raw ''printf''), Word (map Quoted (''%s'' @ [NL])),
        Word (map Quoted ''__SSH_MCP_PID='' @ [ShellPid]), Semi]) (sh_lex Unq None rest)"
  by (cases "sh_lex Unq None rest") (simp_all add: printf_line_def sh_eval)

lemma sh_lex_printf_log:
  "sh_lex Unq None (printf_line ''__SSH_MCP_LOG=$LOG'' @ rest)
   = map_option ((@) [Word (map Raw ''printf''), Word (map Quoted (''%s'' @ [NL])),
        Word (map Quoted ''__SSH_MCP_LOG='' @ [Var ''LOG'']), Semi]) (sh_lex Unq None rest)"
  by (cases "sh_lex Unq None rest") (simp_all add: printf_line_def sh_eval)

lemma sh_read_wrapper:
  assumes "\<forall>c\<in>set job_id. c \<noteq> DQ \<and> c \<noteq> CHR ''$'' \<and> c \<noteq> CHR 0x60 \<and> c \<noteq> BSL"
  shows "sh_read (build_background_wrapper_script job_id cmd log) = Some
    [Word (map Raw ''LOG='' @ map Quoted log), Semi,
     Word (map Raw ''printf''), Word (map Quoted (''%s'' @ [NL])), Word (map Quoted (''__SSH_MCP_JOB_ID='' @ job_id)), Semi,
     Word (map Raw ''printf''), Word (map Quoted (''%s'' @ [NL])), Word (map Quoted ''__SSH_MCP_PID='' @ [ShellPid]), Semi,
     Word (map Raw ''printf''), Word (map Quoted (''%s'' @ [NL])), Word (map Quoted ''__SSH_MCP_LOG='' @ [Var ''LOG'']), Semi,
     Word (map Raw ''exec''), Word (map Raw ''sh''), Word (map Raw ''-c''), Word (map Quoted (''set +m; '' @ cmd))]"
proof -
  have "sh_lex Unq None (''exec sh -c '' @ [SQ] @ ''set +m; '' @ escape_for_shell cmd @ [SQ]) = Some
    [Word (map Raw ''exec''), Word (map Raw ''sh''), Word (map Raw ''-c''), Word (map Quoted (''set +m; '' @ cmd))]"
    by (simp add: sh_eval sh_lex_escaped)
  moreover have "sh_lex Unq None (''LOG='' @ [SQ] @ escape_for_shell log @ [SQ] @ ''; '' @ rest)
    = map_option ((@) [Word (map Raw ''LOG='' @ map Quoted log), Semi]) (sh_lex Unq None rest)" for rest
    by (cases "sh_lex Unq None rest") (simp_all add: sh_eval sh_lex_escaped)
  moreover have "sh_lex Unq None (printf_line (''__SSH_MCP_JOB_ID='' @ job_id) @ rest)
    = map_option ((@) [Word (map Raw ''printf''), Word (map Quoted (''%s'' @ [NL])),
        Word (map Quoted (''__SSH_MCP_JOB_ID='' @ job_id)), Semi]) (sh_lex Unq None rest)" for rest
    using assms by (intro sh_lex_printf_line) auto
  ultimately show ?thesis
    by (simp only: sh_read_def build_background_wrapper_script_def Let_def
        sh_lex_printf_pid sh_lex_printf_log option.map append_assoc) simp
qed

lemma expand_append: "expand pid env (a @ b) = expand pid env a @ expand pid env b"
  by (induction pid env a rule: expand.induct) simp_all

lemma wrapper_script_run:
  assumes "\<forall>c\<in>set job_id. c \<noteq> DQ \<and> c \<noteq> CHR ''$'' \<and> c \<noteq> CHR 0x60 \<and> c \<noteq> BSL"
  shows "sh_run pid (build_background_wrapper_script job_id cmd log) = Some
    (''__SSH_MCP_JOB_ID='' @ job_id @ [NL] @ ''__SSH_MCP_PID='' @ show_nat pid @ [NL]
       @ ''__SSH_MCP_LOG='' @ log @ [NL],
     Some [''sh'', ''-c'', ''set +m; '' @ cmd])"
  by (simp add: sh_run_def sh_read_wrapper[OF assms] assignment_def printf_format_def
      sh_eval expand_append)

lemma replace_chain_is_pattern_escape:
  "escape_command_for_shell command = escape_for_shell (pattern_escape command)"
proof -
  have "replace_char (CHR ''|'') [BSL, CHR ''|'']
         (replace_char (CHR '')'') [BSL, CHR '')'']
           (replace_char (CHR ''('') [BSL, CHR ''('']
             (replace_char (CHR 0x60) [BSL, CHR 0x60]
               (replace_char (CHR ''$'') [BSL, CHR ''$'']
                 (replace_char BSL [BSL, BSL] command))))) = pattern_escape command"
    by (induction command) (auto simp: replace_char_step pattern_escape_def pattern_special_def)
  then show ?thesis by (simp add: escape_command_for_shell_def)
qed

lemma pattern_unescape_escape: "pattern_unescape (pattern_escape s) = s"
  by (induction s) (auto simp: pattern_escape_def pattern_special_def)

section \<open>Properties\<close>

text \<open>C20: no command text, whatever quotes, separators or expansions it contains, can leave the
  single-quoted argument the wrappers put it in: a POSIX shell reads from the wrapped line exactly
  one \<open>sh\<close> invocation whose last argument is the command, byte for byte.\<close>

theorem wrap_in_posix_shell_argv:
  "sh_argv (wrap_in_posix_shell command login)
   = Some [[''sh'', if login then ''-lc'' else ''-c'', command]]"
  by (rule sh_argv_posix_shell)

text \<open>The sudo wrapper runs \<open>sudo sh -c\<close> on exactly the given command, and the password reaches
  only the argument of \<open>printf\<close>, byte for byte; neither can break out of its argument.\<close>

theorem wrap_sudo_command_argv:
  "sh_argv (wrap_sudo_command command password) =
     Some (case password of
             None \<Rightarrow> [[''sudo'', ''-n'', ''sh'', ''-c'', command]]
           | Some pwd \<Rightarrow> [[''printf'', ''%s'' @ [BSL] @ ''n'', pwd],
                          [''sudo'', ''-S'', ''-p'', [], ''sh'', ''-c'', command]])"
  by (rule sh_argv_sudo)

text \<open>The timeout wrapper passes the kill delay, the duration and the command as separate
  arguments of \<open>timeout\<close>, and the command is not altered.\<close>

theorem wrap_command_with_timeout_argv:
  assumes "d \<noteq> []" "\<forall>c\<in>set d. is_ascii_digit c \<or> c = CHR ''.''"
  shows "sh_argv (wrap_command_with_timeout command d) =
     Some [[''timeout'', ''-k'', ''2s'', d @ ''s'', ''sh'', ''-lc'', command]]"
  using assms by (rule sh_argv_timeout)

theorem wrap_command_with_timeout_argv_witness:
  "sh_argv (wrap_command_with_timeout (''echo '' @ [SQ] @ ''$HOME'' @ [SQ] @ ''; rm x'') ''0.5'') =
     Some [[''timeout'', ''-k'', ''2s'', ''0.5s'', ''sh'', ''-lc'', ''echo '' @ [SQ] @ ''$HOME'' @ [SQ] @ ''; rm x'']]"
  using wrap_command_with_timeout_argv[of "''0.5''" "''echo '' @ [SQ] @ ''$HOME'' @ [SQ] @ ''; rm x''"]
  by (simp add: is_ascii_digit_def in_range_def code_def)

text \<open>The escaping of a process pattern loses nothing: a shell that reads it inside single
  quotes sees the command with a backslash before every backslash, dollar sign, backquote,
  parenthesis and bar and nothing else added, and removing those backslashes restores the command.\<close>

theorem escape_command_for_shell_roundtrip:
  "\<exists>p. sh_argv ([SQ] @ escape_command_for_shell command @ [SQ]) = Some [[p]]
     \<and> p = pattern_escape command \<and> pattern_unescape p = command"
  by (simp add: replace_chain_is_pattern_escape pattern_unescape_escape sh_argv_def sh_read_def
      the_word_def flush_def sh_lex_escaped)

text \<open>A command that \<open>sanitize_command\<close> accepts is not empty, has no surrounding white space
  left to remove, is within the limit, and is accepted unchanged when it is sanitized again.\<close>

theorem sanitize_command_stable:
  assumes "utf8_valid command" and "sanitize_command command limit = Ok cmd"
  shows "cmd \<noteq> [] \<and> cmd = trim command \<and> (\<forall>n. limit = Some n \<longrightarrow> length cmd \<le> n)
    \<and> sanitize_command cmd limit = Ok cmd"
  using assms by (auto simp: sanitize_command_def Let_def trim_idem split: if_splits option.splits)

theorem sanitize_command_stable_witness:
  "sanitize_command ''ls -la'' (Some 6) = Ok ''ls -la''"
proof -
  have "utf8_valid ''  ls -la  ''" by code_simp
  moreover have "sanitize_command ''  ls -la  '' (Some 6) = Ok ''ls -la''" by code_simp
  ultimately show ?thesis using sanitize_command_stable by blast
qed

end
