(* ===== verification/Markers.thy ===== *)
theory Markers
  imports Shell
begin

text \<open>
  The handshake of a background job: \<open>src/src/background/marker.rs\<close>. The wrapper script prints three
  marker lines before the user's command starts; the reader collects them from the channel in
  whatever pieces they arrive and hands back the bytes that follow them.
\<close>

section \<open>Definitions\<close>

record background_markers =
  bm_job_id :: string
  bm_pid :: nat
  bm_remote_log_path :: string

datatype marker_error =
    DuplicateMarker string
  | MissingMarker string
  | InvalidPid string
  | UnexpectedJobId string string
  | UnexpectedLogPath string string

datatype marker_stream_error =
    ChannelEndedEarly
  | InvalidUtf8
  | UnexpectedStderr string
  | ExitedEarly nat
  | MarkersTimedOut
  | MarkersUnparsable marker_error

definition trim_end_crs :: "string \<Rightarrow> string" where
  "trim_end_crs l = rev (dropWhile (\<lambda>c. c = CR) (rev l))"

type_synonym marker_slots = "string option \<times> nat option \<times> string option"

text \<open>The loop over the lines, with the three slots filled so far.\<close>

fun scan_markers :: "string list \<Rightarrow> marker_slots \<Rightarrow> (marker_slots, marker_error) result" where
  "scan_markers [] slots = Ok slots"
| "scan_markers (raw_line # ls) (job_id, pid, log_path) =
     (let line = trim_end_crs raw_line in
      case strip_prefix line ''__SSH_MCP_JOB_ID='' of
        Some rest \<Rightarrow>
          if job_id \<noteq> None then Err (DuplicateMarker ''__SSH_MCP_JOB_ID'')
          else scan_markers ls (Some rest, pid, log_path)
      | None \<Rightarrow>
      (case strip_prefix line ''__SSH_MCP_PID='' of
        Some rest \<Rightarrow>
          if pid \<noteq> None then Err (DuplicateMarker ''__SSH_MCP_PID'')
          else (case parse_unsigned 10 U32 rest of
                  None \<Rightarrow> Err (InvalidPid rest)
                | Some n \<Rightarrow> scan_markers ls (job_id, Some n, log_path))
      | None \<Rightarrow>
      (case strip_prefix line ''__SSH_MCP_LOG='' of
        Some rest \<Rightarrow>
          if log_path \<noteq> None then Err (DuplicateMarker ''__SSH_MCP_LOG'')
          else scan_markers ls (job_id, pid, Some rest)
      | None \<Rightarrow> scan_markers ls (job_id, pid, log_path))))"

definition parse_background_markers ::
  "string \<Rightarrow> string \<Rightarrow> string \<Rightarrow> (background_markers, marker_error) result" where
  "parse_background_markers stdout expected_job_id expected_log_path =
     and_then (scan_markers (str_lines stdout) (None, None, None)) (\<lambda>(job_id, pid, log_path).
       case job_id of None \<Rightarrow> Err (MissingMarker ''__SSH_MCP_JOB_ID'') | Some j \<Rightarrow>
       case pid of None \<Rightarrow> Err (MissingMarker ''__SSH_MCP_PID'') | Some p \<Rightarrow>
       case log_path of None \<Rightarrow> Err (MissingMarker ''__SSH_MCP_LOG'') | Some l \<Rightarrow>
         if p = 0 then Err (InvalidPid ''0'')
         else if j \<noteq> expected_job_id then Err (UnexpectedJobId j expected_job_id)
         else if l \<noteq> expected_log_path then Err (UnexpectedLogPath l expected_log_path)
         else Ok \<lparr>bm_job_id = j, bm_pid = p, bm_remote_log_path = l\<rparr>)"

text \<open>The local variables of the channel reader.\<close>

record marker_reader =
  stdout_buf :: string
  marker_stdout :: string
  parsed_lines :: nat
  line_start :: nat

definition reader_init :: marker_reader where
  "reader_init = \<lparr>stdout_buf = [], marker_stdout = [], parsed_lines = 0, line_start = 0\<rparr>"

definition find_newline :: "string \<Rightarrow> nat option" where
  "find_newline s = (if NL \<in> set s then Some (length (takeWhile (\<lambda>c. c \<noteq> NL) s)) else None)"

text \<open>The inner loop: consume complete lines until three are parsed.\<close>

function scan_lines :: "marker_reader \<Rightarrow> (marker_reader, marker_stream_error) result" where
  "scan_lines r =
     (if parsed_lines r < 3 then
        (case find_newline (drop (line_start r) (stdout_buf r)) of
           None \<Rightarrow> Ok r
         | Some rel_nl \<Rightarrow>
             let nl = line_start r + rel_nl;
                 line_bytes = take rel_nl (drop (line_start r) (stdout_buf r)) in
             (case from_utf8 line_bytes of
                None \<Rightarrow> Err InvalidUtf8
              | Some line \<Rightarrow>
                  scan_lines (r\<lparr>marker_stdout := marker_stdout r @ line @ [NL],
                                parsed_lines := parsed_lines r + 1,
                                line_start := nl + 1\<rparr>)))
      else Ok r)"
  by pat_completeness auto
termination
  by (relation "measure (\<lambda>r. 3 - parsed_lines r)") auto

declare scan_lines.simps [simp del]

text \<open>The outer loop over the messages of the channel. The result holds the markers, the bytes
  received after them, and the messages the channel still has to deliver.\<close>

fun read_loop ::
  "string \<Rightarrow> string \<Rightarrow> marker_reader \<Rightarrow> channel_msg list \<Rightarrow> channel_end \<Rightarrow>
   (background_markers \<times> string \<times> channel_msg list, marker_stream_error) result" where
  "read_loop job_id log_path r msgs fin =
     (if parsed_lines r < 3 then
        (case msgs of
           [] \<Rightarrow> Err (case fin of ChannelEnded \<Rightarrow> ChannelEndedEarly | TimedOut \<Rightarrow> MarkersTimedOut)
         | msg # msgs' \<Rightarrow>
             (case msg of
                Data data \<Rightarrow>
                  and_then (scan_lines (r\<lparr>stdout_buf := stdout_buf r @ data\<rparr>)) (\<lambda>r'.
                    read_loop job_id log_path r' msgs' fin)
              | ExtendedData _ data \<Rightarrow>
                  Err (UnexpectedStderr (concat (take 256 (str_chars (from_utf8_lossy data)))))
              | ExitStatus n \<Rightarrow> Err (ExitedEarly n)
              | _ \<Rightarrow> read_loop job_id log_path r msgs' fin))
      else
        and_then (map_err MarkersUnparsable
            (parse_background_markers (marker_stdout r) job_id log_path)) (\<lambda>markers.
          Ok (markers,
              if line_start r < length (stdout_buf r) then drop (line_start r) (stdout_buf r) else [],
              msgs)))"

declare read_loop.simps [simp del]

definition read_background_markers_from_channel ::
  "channel_msg list \<Rightarrow> channel_end \<Rightarrow> string \<Rightarrow> string \<Rightarrow>
   (background_markers \<times> string \<times> channel_msg list, marker_stream_error) result" where
  "read_background_markers_from_channel msgs fin expected_job_id expected_log_path =
     read_loop expected_job_id expected_log_path reader_init msgs fin"

text \<open>The bytes a list of messages carries on standard output, and the messages that can precede the
  markers without making the handshake fail.\<close>

fun data_of :: "channel_msg list \<Rightarrow> string" where
  "data_of [] = []"
| "data_of (Data d # ms) = d @ data_of ms"
| "data_of (_ # ms) = data_of ms"

fun harmless :: "channel_msg \<Rightarrow> bool" where
  "harmless (ExtendedData n d) = False"
| "harmless (ExitStatus n) = False"
| "harmless _ = True"

definition marker_lines :: "string \<Rightarrow> nat \<Rightarrow> string \<Rightarrow> string list" where
  "marker_lines job_id pid log_path =
     [''__SSH_MCP_JOB_ID='' @ job_id, ''__SSH_MCP_PID='' @ show_nat pid, ''__SSH_MCP_LOG='' @ log_path]"

definition unlines :: "string list \<Rightarrow> string" where
  "unlines ls = concat (map (\<lambda>l. l @ [NL]) ls)"

text \<open>Text that survives as one line: no newline, no carriage return at its end.\<close>

definition line_safe :: "string \<Rightarrow> bool" where
  "line_safe s \<longleftrightarrow> NL \<notin> set s \<and> (s = [] \<or> last s \<noteq> CR) \<and> utf8_valid s"

text \<open>The state of the reader after \<open>k\<close> of the lines \<open>ls\<close>, when \<open>upcoming\<close> is still to come and
  \<open>rest\<close> follows the lines.\<close>

definition reader_inv :: "string list \<Rightarrow> string \<Rightarrow> string \<Rightarrow> marker_reader \<Rightarrow> bool" where
  "reader_inv ls rest upcoming r \<longleftrightarrow>
     parsed_lines r \<le> length ls
   \<and> marker_stdout r = unlines (take (parsed_lines r) ls)
   \<and> line_start r = length (unlines (take (parsed_lines r) ls))
   \<and> line_start r \<le> length (stdout_buf r)
   \<and> stdout_buf r @ upcoming = unlines ls @ rest"

section \<open>Lemmas\<close>

lemma trim_end_crs_id: "l = [] \<or> last l \<noteq> CR \<Longrightarrow> trim_end_crs l = l"
  by (cases l rule: rev_cases) (auto simp: trim_end_crs_def)

lemma split_on_unlines:
  "\<forall>l\<in>set ls. NL \<notin> set l \<Longrightarrow> split_on NL (unlines ls @ rest) = ls @ split_on NL rest"
  by (induction ls) (simp_all add: unlines_def split_on_append)

lemma str_lines_unlines:
  assumes "\<forall>l\<in>set ls. NL \<notin> set l \<and> (l = [] \<or> last l \<noteq> CR)"
  shows "str_lines (unlines ls) = ls"
proof -
  have "strip_cr l = l" if "l \<in> set ls" for l
    using that assms by (auto simp: strip_cr_def strip_suffix_Some split: option.splits)
  moreover have "split_on NL (unlines ls) = ls @ [[]]"
    using split_on_unlines[of ls "[]"] assms by simp
  ultimately show ?thesis by (simp add: str_lines_def map_idI)
qed

lemma line_safe_append_prefix: "line_safe s \<Longrightarrow> \<forall>c\<in>set p. code c < 128 \<and> c \<noteq> NL \<and> c \<noteq> CR \<Longrightarrow> line_safe (p @ s)"
proof -
  assume s: "line_safe s" and p: "\<forall>c\<in>set p. code c < 128 \<and> c \<noteq> NL \<and> c \<noteq> CR"
  have "utf8_valid (p @ s)"
    using s p by (induction p) (simp_all add: line_safe_def utf8_valid_def utf8_extra_def utf8_class_def)
  moreover have "p @ s = [] \<or> last (p @ s) \<noteq> CR"
  proof (cases "s = []")
    case True
    with p last_in_set[of p] show ?thesis by (metis append_Nil2)
  next
    case False
    with s show ?thesis by (simp add: line_safe_def)
  qed
  ultimately show ?thesis using s p by (auto simp: line_safe_def)
qed

lemma line_safe_show_nat: "line_safe (show_nat n)"
proof -
  have "\<forall>c\<in>set (show_nat n). code c < 128 \<and> c \<noteq> NL \<and> c \<noteq> CR"
    using is_ascii_digit_code[OF show_nat_digits] by (fastforce simp: code_def)
  then have "line_safe (show_nat n @ [])"
    by (intro line_safe_append_prefix) (simp_all add: line_safe_def utf8_valid_def)
  then show ?thesis by simp
qed

lemma marker_lines_safe:
  "line_safe job_id \<Longrightarrow> line_safe log_path \<Longrightarrow> l \<in> set (marker_lines job_id pid log_path) \<Longrightarrow> line_safe l"
  by (auto simp: marker_lines_def code_def simp del: append.simps
      intro!: line_safe_append_prefix line_safe_show_nat)

lemma parse_marker_lines:
  assumes "line_safe job_id" "line_safe log_path" "0 < pid" "pid < U32"
  shows "parse_background_markers (unlines (marker_lines job_id pid log_path)) job_id log_path
    = Ok \<lparr>bm_job_id = job_id, bm_pid = pid, bm_remote_log_path = log_path\<rparr>"
proof -
  note safe = marker_lines_safe[OF assms(1,2), of _ pid]
  have lines: "str_lines (unlines (marker_lines job_id pid log_path)) = marker_lines job_id pid log_path"
    using safe by (intro str_lines_unlines) (auto simp: line_safe_def)
  have "trim_end_crs l = l" if "l \<in> set (marker_lines job_id pid log_path)" for l
    using safe[OF that] by (intro trim_end_crs_id) (auto simp: line_safe_def)
  then have "trim_end_crs (''__SSH_MCP_JOB_ID='' @ job_id) = ''__SSH_MCP_JOB_ID='' @ job_id"
    "trim_end_crs (''__SSH_MCP_PID='' @ show_nat pid) = ''__SSH_MCP_PID='' @ show_nat pid"
    "trim_end_crs (''__SSH_MCP_LOG='' @ log_path) = ''__SSH_MCP_LOG='' @ log_path"
    by (simp_all add: marker_lines_def del: append.simps)
  then have "scan_markers (marker_lines job_id pid log_path) (None, None, None)
      = Ok (Some job_id, Some pid, Some log_path)"
    using parse_unsigned_show_nat[OF assms(4)]
    by (simp add: marker_lines_def Let_def strip_prefix_def starts_with_def)
  with lines assms(3) show ?thesis by (simp add: parse_background_markers_def)
qed

lemma unlines_append: "unlines (xs @ ys) = unlines xs @ unlines ys"
  by (simp add: unlines_def)

lemma takeWhile_line:
  "x @ upcoming = l @ NL # t \<Longrightarrow> NL \<notin> set l \<Longrightarrow> NL \<in> set x \<Longrightarrow> takeWhile (\<lambda>c. c \<noteq> NL) x = l"
proof -
  assume eq: "x @ upcoming = l @ NL # t" and l: "NL \<notin> set l" and x: "NL \<in> set x"
  have "takeWhile (\<lambda>c. c \<noteq> NL) x = takeWhile (\<lambda>c. c \<noteq> NL) (x @ upcoming)"
    using x by (intro takeWhile_append1[symmetric]) auto
  also have "\<dots> = takeWhile (\<lambda>c. c \<noteq> NL) (l @ NL # t)" using eq by simp
  also have "\<dots> = l" using l by (subst takeWhile_append2) auto
  finally show ?thesis .
qed

lemma reader_inv_rest:
  assumes "reader_inv ls rest upcoming r"
  shows "drop (line_start r) (stdout_buf r) @ upcoming = unlines (drop (parsed_lines r) ls) @ rest"
proof -
  define a b where "a = unlines (take (parsed_lines r) ls)" and "b = unlines (drop (parsed_lines r) ls)"
  have "unlines ls = a @ b"
    unfolding a_def b_def by (simp flip: unlines_append)
  then have "drop (length a) (unlines ls @ rest) = b @ rest" by simp
  moreover have "length a = line_start r" "line_start r \<le> length (stdout_buf r)"
    "stdout_buf r @ upcoming = unlines ls @ rest"
    using assms by (simp_all add: reader_inv_def a_def)
  ultimately show ?thesis
    unfolding b_def by (metis drop_append diff_is_0_eq drop_0)
qed

lemma scan_lines_inv:
  assumes "length ls = 3" "\<forall>l\<in>set ls. NL \<notin> set l \<and> utf8_valid l" "reader_inv ls rest upcoming r"
  shows "\<exists>r'. scan_lines r = Ok r' \<and> reader_inv ls rest upcoming r' \<and> stdout_buf r' = stdout_buf r
    \<and> (parsed_lines r' < 3 \<longrightarrow> NL \<notin> set (drop (line_start r') (stdout_buf r')))"
  using assms(3)
proof (induction r rule: scan_lines.induct)
  case (1 r)
  let ?x = "drop (line_start r) (stdout_buf r)"
  show ?case
  proof (cases "parsed_lines r < 3 \<and> NL \<in> set ?x")
    case False
    with "1.prems" show ?thesis
      by (intro exI[of _ r]) (auto simp: scan_lines.simps[of r] find_newline_def)
  next
    case True
    define l where "l = ls ! parsed_lines r"
    from True assms(1) have dr: "drop (parsed_lines r) ls = l # drop (Suc (parsed_lines r)) ls"
      and tk: "take (Suc (parsed_lines r)) ls = take (parsed_lines r) ls @ [l]"
      unfolding l_def by (simp_all add: Cons_nth_drop_Suc take_Suc_conv_app_nth)
    from True assms(1,2) have l: "NL \<notin> set l" "utf8_valid l" unfolding l_def by auto
    have eq: "?x @ upcoming = l @ NL # (unlines (drop (Suc (parsed_lines r)) ls) @ rest)"
      using reader_inv_rest[OF "1.prems"] dr by (simp add: unlines_def)
    have tw: "takeWhile (\<lambda>c. c \<noteq> NL) ?x = l" using takeWhile_line[OF eq l(1)] True by blast
    then have find: "find_newline ?x = Some (length l)" using True by (simp add: find_newline_def)
    obtain t where x: "?x = l @ NL # t"
      using takeWhile_split_at[of NL ?x] True unfolding tw by blast
    have len: "line_start r + length l + 1 \<le> length (stdout_buf r)"
      using arg_cong[OF x, of length] by simp
    let ?r = "r\<lparr>marker_stdout := marker_stdout r @ l @ [NL], parsed_lines := parsed_lines r + 1,
                line_start := line_start r + length l + 1\<rparr>"
    have step: "scan_lines r = scan_lines ?r"
      using True find x l(2) by (subst scan_lines.simps) (simp add: from_utf8_def)
    have "reader_inv ls rest upcoming ?r"
      using "1.prems" True assms(1) len tk by (simp add: reader_inv_def unlines_append) (simp add: unlines_def)
    with "1.IH"[of "length l" "line_start r + length l" "take (length l) ?x" l] True find x l(2) step
    show ?thesis by (simp add: from_utf8_def)
  qed
qed

lemma read_loop_harmless:
  assumes "length ls = 3" "\<forall>l\<in>set ls. NL \<notin> set l \<and> utf8_valid l"
    and markers: "parse_background_markers (unlines ls) job_id log_path = Ok m"
  shows "list_all harmless pre \<Longrightarrow> reader_inv ls rest (data_of pre) r \<Longrightarrow>
    parsed_lines r < 3 \<longrightarrow> NL \<notin> set (drop (line_start r) (stdout_buf r)) \<Longrightarrow>
    \<exists>remaining mid. read_loop job_id log_path r (pre @ post) fin = Ok (m, remaining, mid @ post)
      \<and> remaining @ data_of mid = rest"
proof (induction pre arbitrary: r)
  case Nil
  note rest = reader_inv_rest[OF Nil.prems(2)]
  have "\<not> parsed_lines r < 3"
  proof
    assume "parsed_lines r < 3"
    with assms(1) have "drop (parsed_lines r) ls \<noteq> []" by simp
    then have "NL \<in> set (unlines (drop (parsed_lines r) ls))"
      by (cases "drop (parsed_lines r) ls") (auto simp: unlines_def)
    with rest Nil.prems(3) \<open>parsed_lines r < 3\<close> show False
      by (metis UnI1 append_Nil2 data_of.simps(1) set_append)
  qed
  moreover have "parsed_lines r \<le> 3" using Nil.prems(2) assms(1) by (simp add: reader_inv_def)
  ultimately have k: "parsed_lines r = 3" by simp
  with Nil.prems(2) assms(1) have "marker_stdout r = unlines ls" by (simp add: reader_inv_def)
  with k markers rest assms(1) show ?case
    by (intro exI[of _ "rest"] exI[of _ "[]"]) (auto simp: read_loop.simps unlines_def)
next
  case (Cons msg pre)
  show ?case
  proof (cases "parsed_lines r < 3")
    case False
    then have k: "parsed_lines r = 3" using Cons.prems(2) assms(1) by (simp add: reader_inv_def)
    with Cons.prems(2) assms(1) have "marker_stdout r = unlines ls" by (simp add: reader_inv_def)
    with k markers reader_inv_rest[OF Cons.prems(2)] assms(1) show ?thesis
      by (intro exI[of _ "drop (line_start r) (stdout_buf r)"] exI[of _ "msg # pre"])
         (auto simp: read_loop.simps unlines_def)
  next
    case True
    show ?thesis
    proof (cases "\<exists>d. msg = Data d")
      case False
      with Cons.prems(1) have "data_of (msg # pre) = data_of pre" by (cases msg) auto
      with Cons.prems have "\<exists>remaining mid. read_loop job_id log_path r (pre @ post) fin
          = Ok (m, remaining, mid @ post) \<and> remaining @ data_of mid = rest"
        by (intro Cons.IH) simp_all
      with True False Cons.prems(1) show ?thesis
        by (subst read_loop.simps) (cases msg; auto)
    next
      case True2: True
      then obtain d where d: "msg = Data d" by blast
      have "reader_inv ls rest (data_of pre) (r\<lparr>stdout_buf := stdout_buf r @ d\<rparr>)"
        using Cons.prems(2) d by (simp add: reader_inv_def)
      from scan_lines_inv[OF assms(1,2) this] obtain r' where
        r': "scan_lines (r\<lparr>stdout_buf := stdout_buf r @ d\<rparr>) = Ok r'" "reader_inv ls rest (data_of pre) r'"
          "parsed_lines r' < 3 \<longrightarrow> NL \<notin> set (drop (line_start r') (stdout_buf r'))"
        by blast
      have "list_all harmless pre" using Cons.prems(1) by simp
      from Cons.IH[OF this r'(2,3)] True d r'(1) show ?thesis
        by (subst read_loop.simps) simp
    qed
  qed
qed

section \<open>Properties\<close>

text \<open>The handshake works end to end. When a shell with process id \<open>pid\<close> runs the wrapper
  script of a job, it prints text from which the marker parser recovers exactly the job id, the
  process id and the log path, and then replaces itself by the user's command, unchanged but for the
  job-control prefix. Here the log path is any path of one line and the job id any plain name.\<close>

theorem background_handshake:
  assumes "line_safe job_id" "\<forall>c\<in>set job_id. c \<noteq> DQ \<and> c \<noteq> CHR ''$'' \<and> c \<noteq> CHR 0x60 \<and> c \<noteq> BSL"
    and "line_safe log_path" "0 < pid" "pid < U32"
  shows "\<exists>out. sh_run pid (build_background_wrapper_script job_id command log_path)
      = Some (out, Some [''sh'', ''-c'', ''set +m; '' @ command])
    \<and> parse_background_markers out job_id log_path
      = Ok \<lparr>bm_job_id = job_id, bm_pid = pid, bm_remote_log_path = log_path\<rparr>"
proof -
  have "''__SSH_MCP_JOB_ID='' @ job_id @ [NL] @ ''__SSH_MCP_PID='' @ show_nat pid @ [NL]
      @ ''__SSH_MCP_LOG='' @ log_path @ [NL] = unlines (marker_lines job_id pid log_path)"
    by (simp add: unlines_def marker_lines_def)
  then show ?thesis
    using wrapper_script_run[OF assms(2), of pid command log_path]
      parse_marker_lines[OF assms(1,3,4,5)] by simp
qed

theorem background_handshake_witness:
  "\<exists>out. sh_run 4711 (build_background_wrapper_script ''a-1'' (''echo '' @ [SQ] @ ''x'' @ [SQ]) ''/tmp/l'')
      = Some (out, Some [''sh'', ''-c'', ''set +m; '' @ ''echo '' @ [SQ] @ ''x'' @ [SQ]])
    \<and> parse_background_markers out ''a-1'' ''/tmp/l''
      = Ok \<lparr>bm_job_id = ''a-1'', bm_pid = 4711, bm_remote_log_path = ''/tmp/l''\<rparr>"
proof (rule background_handshake)
  show "line_safe ''a-1''" "line_safe ''/tmp/l''" by code_simp+
qed simp_all

text \<open>The channel reader does not depend on how the output is cut into messages. When the
  messages up to some point carry the three marker lines and more output after them, the reader
  returns the markers, and the bytes it hands back together with the bytes of the messages it has not
  read are exactly that further output: nothing is lost, repeated or reordered.\<close>

theorem read_background_markers_chunking:
  assumes "line_safe job_id" "line_safe log_path" "0 < pid" "pid < U32"
    and "list_all harmless pre" "data_of pre = unlines (marker_lines job_id pid log_path) @ rest"
  shows "\<exists>remaining mid. read_background_markers_from_channel (pre @ post) fin job_id log_path
      = Ok (\<lparr>bm_job_id = job_id, bm_pid = pid, bm_remote_log_path = log_path\<rparr>, remaining, mid @ post)
    \<and> remaining @ data_of mid = rest"
  unfolding read_background_markers_from_channel_def
proof (rule read_loop_harmless)
  show "length (marker_lines job_id pid log_path) = 3" by (simp add: marker_lines_def)
  show "\<forall>l\<in>set (marker_lines job_id pid log_path). NL \<notin> set l \<and> utf8_valid l"
    using marker_lines_safe[OF assms(1,2)] by (auto simp: line_safe_def)
  show "parse_background_markers (unlines (marker_lines job_id pid log_path)) job_id log_path
      = Ok \<lparr>bm_job_id = job_id, bm_pid = pid, bm_remote_log_path = log_path\<rparr>"
    by (rule parse_marker_lines[OF assms(1-4)])
  show "reader_inv (marker_lines job_id pid log_path) rest (data_of pre) reader_init"
    using assms(6) by (simp add: reader_inv_def reader_init_def unlines_def)
qed (simp_all add: assms(5) reader_init_def)

theorem read_background_markers_chunking_witness:
  "\<exists>remaining mid. read_background_markers_from_channel
      ([Data ''__SSH_MCP_JOB_'', Eof, Data (''ID=j'' @ [NL] @ ''__SSH_MCP_PID=7'' @ [NL] @ ''__SSH''),
        Data (''_MCP_LOG=/l'' @ [NL] @ ''hello''), Data ''!''] @ [ExitStatus 0]) ChannelEnded ''j'' ''/l''
      = Ok (\<lparr>bm_job_id = ''j'', bm_pid = 7, bm_remote_log_path = ''/l''\<rparr>, remaining, mid @ [ExitStatus 0])
    \<and> remaining @ data_of mid = ''hello!''"
proof (rule read_background_markers_chunking)
  show "line_safe ''j''" "line_safe ''/l''" by code_simp+
  show "data_of [Data ''__SSH_MCP_JOB_'', Eof, Data (''ID=j'' @ [NL] @ ''__SSH_MCP_PID=7'' @ [NL] @ ''__SSH''),
      Data (''_MCP_LOG=/l'' @ [NL] @ ''hello''), Data ''!''] = unlines (marker_lines ''j'' 7 ''/l'') @ ''hello!''"
    by code_simp
qed simp_all

end
