(* ===== verification/Paths.thy ===== *)
theory Paths
  imports Prelude
begin

text \<open>
  Paths and the local file system. The first part is the part of \<open>std::path\<close> that the sources use
  on Unix: \<open>components\<close>, \<open>join\<close>, \<open>strip_prefix\<close>, \<open>parent\<close>, \<open>file_name\<close>, \<open>extension\<close>,
  \<open>with_file_name\<close>. Two paths are equal when their components are. The second part is a file system
  with symbolic links: name resolution (\<open>walk\<close>) and the calls of \<open>std::fs\<close> on it. The third part is
  \<open>src/src/transfer/local_root.rs\<close>, which confines transfers to one directory.
\<close>

section \<open>Definitions\<close>

subsection \<open>Paths\<close>

datatype component = RootDir | CurDir | ParentDir | Normal string

definition comp_of :: "string \<Rightarrow> component" where
  "comp_of s = (if s = ''..'' then ParentDir else Normal s)"

definition body_components :: "string \<Rightarrow> component list" where
  "body_components p = map comp_of (filter (\<lambda>s. s \<noteq> [] \<and> s \<noteq> ''.'') (split_on SLASH p))"

definition has_root :: "string \<Rightarrow> bool" where
  "has_root p \<longleftrightarrow> starts_with p [SLASH]"

definition components :: "string \<Rightarrow> component list" where
  "components p =
     (if has_root p then [RootDir] else if hd (split_on SLASH p) = ''.'' then [CurDir] else [])
     @ body_components p"

definition path_join :: "string \<Rightarrow> string \<Rightarrow> string" where
  "path_join base p =
     (if has_root p then p
      else if base = [] then p
      else if ends_with base [SLASH] then base @ p
      else base @ [SLASH] @ p)"

definition path_strip_prefix :: "string \<Rightarrow> string \<Rightarrow> component list option" where
  "path_strip_prefix p base =
     (let ps = components p; bs = components base in
      if take (length bs) ps = bs then Some (drop (length bs) ps) else None)"

definition path_parent :: "string \<Rightarrow> component list option" where
  "path_parent p =
     (let cs = components p in if cs = [] \<or> last cs = RootDir then None else Some (butlast cs))"

definition file_name :: "string \<Rightarrow> string option" where
  "file_name p = (case rev (components p) of Normal s # _ \<Rightarrow> Some s | _ \<Rightarrow> None)"

definition extension :: "string \<Rightarrow> string option" where
  "extension p =
     (case file_name p of
        None \<Rightarrow> None
      | Some n \<Rightarrow> (case rsplit_once (CHR ''.'') n of
                     None \<Rightarrow> None
                   | Some (stem, ext) \<Rightarrow> if stem = [] then None else Some ext))"

subsection \<open>The file system\<close>

datatype node = NFile string | NDir | NLink string

type_synonym fs = "string list \<rightharpoonup> node"

datatype io_error = NotFoundE | AlreadyExistsE | NotADirectoryE | LoopE | OtherIoE

definition MAX_LINKS :: nat where
  "MAX_LINKS = 40"

text \<open>Resolution of a path from the directory \<open>cur\<close>. A link met on the way is replaced by its
  target; a link at the end is followed when \<open>follow\<close> holds. The fuel is the number of links that may
  be followed, the limit of the operating system.\<close>

function walk :: "nat \<Rightarrow> fs \<Rightarrow> bool \<Rightarrow> string list \<Rightarrow> component list \<Rightarrow> (string list, io_error) result" where
  "walk fuel fs follow cur [] = Ok cur"
| "walk fuel fs follow cur (RootDir # cs) = walk fuel fs follow [] cs"
| "walk fuel fs follow cur (CurDir # cs) = walk fuel fs follow cur cs"
| "walk fuel fs follow cur (ParentDir # cs) = walk fuel fs follow (butlast cur) cs"
| "walk fuel fs follow cur (Normal s # cs) =
     (case fs (cur @ [s]) of
        None \<Rightarrow> if cs = [] then Ok (cur @ [s]) else Err NotFoundE
      | Some (NFile b) \<Rightarrow> if cs = [] then Ok (cur @ [s]) else Err NotADirectoryE
      | Some NDir \<Rightarrow> walk fuel fs follow (cur @ [s]) cs
      | Some (NLink t) \<Rightarrow>
          if cs = [] \<and> \<not> follow then Ok (cur @ [s])
          else (case fuel of
                  0 \<Rightarrow> Err LoopE
                | Suc fuel' \<Rightarrow> walk fuel' fs follow cur (components t @ cs)))"
  by pat_completeness auto
termination
  by (relation "measures [\<lambda>(fuel, fs, follow, cur, cs). fuel, \<lambda>(fuel, fs, follow, cur, cs). length cs]")
     auto

definition node_at :: "fs \<Rightarrow> string list \<Rightarrow> (node, io_error) result" where
  "node_at fs p = (if p = [] then Ok NDir else case fs p of None \<Rightarrow> Err NotFoundE | Some n \<Rightarrow> Ok n)"

definition symlink_metadata :: "fs \<Rightarrow> string \<Rightarrow> (node, io_error) result" where
  "symlink_metadata fs p = and_then (walk MAX_LINKS fs False [] (components p)) (node_at fs)"

definition create_dir :: "fs \<Rightarrow> string \<Rightarrow> (fs, io_error) result" where
  "create_dir fs p =
     and_then (walk MAX_LINKS fs False [] (components p)) (\<lambda>q.
       case node_at fs q of
         Ok _ \<Rightarrow> Err AlreadyExistsE
       | Err _ \<Rightarrow> Ok (fs(q \<mapsto> NDir)))"

fun is_symlink :: "node \<Rightarrow> bool" where
  "is_symlink (NLink t) = True"
| "is_symlink _ = False"

fun is_dir :: "node \<Rightarrow> bool" where
  "is_dir NDir = True"
| "is_dir _ = False"

fun is_file :: "node \<Rightarrow> bool" where
  "is_file (NFile b) = True"
| "is_file _ = False"

subsection \<open>The local root\<close>

datatype local_path_error =
    LocalPathEmpty
  | OutsideLocalRoot string string
  | ContainsParent
  | IsLocalRoot
  | NotRelative
  | NormalizesToDot
  | NotWithinRoot
  | TraversesSymlink
  | NotRelativeWithinRoot
  | ParentNotDirectory
  | LocalIo io_error

text \<open>The loop over the components of a relative path: whether a normal one was seen.\<close>

fun scan_relative :: "component list \<Rightarrow> bool \<Rightarrow> (bool, local_path_error) result" where
  "scan_relative [] saw = Ok saw"
| "scan_relative (Normal s # cs) saw = scan_relative cs True"
| "scan_relative (CurDir # cs) saw = scan_relative cs saw"
| "scan_relative (ParentDir # cs) saw = Err ContainsParent"
| "scan_relative (RootDir # cs) saw = Err NotRelative"

definition safe_join_local_root :: "string \<Rightarrow> string \<Rightarrow> (string, local_path_error) result" where
  "safe_join_local_root local_root user_path =
     (let trimmed = trim user_path in
      if trimmed = [] then Err LocalPathEmpty
      else if has_root trimmed then
        (case path_strip_prefix trimmed local_root of
           None \<Rightarrow> Err (OutsideLocalRoot trimmed local_root)
         | Some stripped \<Rightarrow>
             if ParentDir \<in> set stripped then Err ContainsParent
             else if stripped = [] then Err IsLocalRoot
             else Ok trimmed)
      else
        and_then (scan_relative (components trimmed) False) (\<lambda>saw_normal_component.
          if \<not> saw_normal_component then Err NormalizesToDot
          else Ok (path_join local_root trimmed)))"

datatype transfer_operation = OpPut | OpGet

definition resolve_paths :: "string \<Rightarrow> transfer_operation \<Rightarrow> string \<Rightarrow> (string, local_path_error) result" where
  "resolve_paths local_root operation local_path =
     (case operation of
        OpGet \<Rightarrow> safe_join_local_root local_root local_path
      | OpPut \<Rightarrow> safe_join_local_root local_root local_path)"

text \<open>The loop of both validators: \<open>cursor\<close> grows by one component per turn.\<close>

fun check_no_symlinks :: "fs \<Rightarrow> string \<Rightarrow> component list \<Rightarrow> (unit, local_path_error) result" where
  "check_no_symlinks fs cursor [] = Ok ()"
| "check_no_symlinks fs cursor (Normal seg # cs) =
     (let cursor' = path_join cursor seg in
      case symlink_metadata fs cursor' of
        Ok meta \<Rightarrow> if is_symlink meta then Err TraversesSymlink else check_no_symlinks fs cursor' cs
      | Err _ \<Rightarrow> check_no_symlinks fs cursor' cs)"
| "check_no_symlinks fs cursor (CurDir # cs) = check_no_symlinks fs cursor cs"
| "check_no_symlinks fs cursor (ParentDir # cs) = Err NotRelativeWithinRoot"
| "check_no_symlinks fs cursor (RootDir # cs) = Err NotRelativeWithinRoot"

definition validate_put_source_no_symlinks :: "fs \<Rightarrow> string \<Rightarrow> string \<Rightarrow> (unit, local_path_error) result" where
  "validate_put_source_no_symlinks fs local_root absolute_source =
     (case path_strip_prefix absolute_source local_root of
        None \<Rightarrow> Err NotWithinRoot
      | Some rel \<Rightarrow> check_no_symlinks fs local_root rel)"

definition validate_get_target_no_symlinks :: "fs \<Rightarrow> string \<Rightarrow> string \<Rightarrow> (unit, local_path_error) result" where
  "validate_get_target_no_symlinks fs local_root absolute_target =
     (case path_strip_prefix absolute_target local_root of
        None \<Rightarrow> Err NotWithinRoot
      | Some rel \<Rightarrow> check_no_symlinks fs local_root rel)"

definition check_parent_meta :: "node \<Rightarrow> (unit, local_path_error) result" where
  "check_parent_meta meta =
     (if is_symlink meta then Err TraversesSymlink
      else if \<not> is_dir meta then Err ParentNotDirectory
      else Ok ())"

text \<open>The loop of \<open>ensure_parent_dirs_no_symlinks\<close>; the last component is skipped.\<close>

fun ensure_parents :: "fs \<Rightarrow> string \<Rightarrow> component list \<Rightarrow> (fs, local_path_error) result" where
  "ensure_parents fs cursor [] = Ok fs"
| "ensure_parents fs cursor [c] = Ok fs"
| "ensure_parents fs cursor (Normal seg # c # cs) =
     (let cursor' = path_join cursor seg in
      case symlink_metadata fs cursor' of
        Ok meta \<Rightarrow> and_then (check_parent_meta meta) (\<lambda>_. ensure_parents fs cursor' (c # cs))
      | Err NotFoundE \<Rightarrow>
          and_then
            (case create_dir fs cursor' of
               Ok fs' \<Rightarrow> Ok fs'
             | Err AlreadyExistsE \<Rightarrow> Ok fs
             | Err e \<Rightarrow> Err (LocalIo e))
            (\<lambda>fs'. and_then (map_err LocalIo (symlink_metadata fs' cursor')) (\<lambda>meta.
               and_then (check_parent_meta meta) (\<lambda>_. ensure_parents fs' cursor' (c # cs))))
      | Err e \<Rightarrow> Err (LocalIo e))"
| "ensure_parents fs cursor (CurDir # c # cs) = ensure_parents fs cursor (c # cs)"
| "ensure_parents fs cursor (ParentDir # c # cs) = Err NotRelativeWithinRoot"
| "ensure_parents fs cursor (RootDir # c # cs) = Err NotRelativeWithinRoot"

definition ensure_parent_dirs_no_symlinks :: "fs \<Rightarrow> string \<Rightarrow> string \<Rightarrow> (fs, local_path_error) result" where
  "ensure_parent_dirs_no_symlinks fs local_root absolute_target =
     (case path_strip_prefix absolute_target local_root of
        None \<Rightarrow> Err NotWithinRoot
      | Some rel \<Rightarrow> ensure_parents fs local_root rel)"

text \<open>The steps of the transfer engine in the order the code takes them.\<close>

definition resolve_and_validate_local_paths :: "fs \<Rightarrow> string \<Rightarrow> transfer_operation \<Rightarrow> string \<Rightarrow> (string \<times> fs, local_path_error) result" where
  "resolve_and_validate_local_paths fs local_root operation local_path =
     and_then (resolve_paths local_root operation local_path) (\<lambda>resolved.
       case operation of
         OpGet \<Rightarrow>
           and_then (validate_get_target_no_symlinks fs local_root resolved) (\<lambda>_.
             and_then (ensure_parent_dirs_no_symlinks fs local_root resolved) (\<lambda>fs'. Ok (resolved, fs')))
       | OpPut \<Rightarrow>
           and_then (validate_put_source_no_symlinks fs local_root resolved) (\<lambda>_. Ok (resolved, fs)))"

text \<open>A canonical directory: an absolute path of plain names whose prefixes are all directories.\<close>

definition canonical_dir :: "fs \<Rightarrow> string \<Rightarrow> string list \<Rightarrow> bool" where
  "canonical_dir fs p names \<longleftrightarrow>
     components p = RootDir # map Normal names \<and> (\<forall>k. 0 < k \<and> k \<le> length names \<longrightarrow> fs (take k names) = Some NDir)"

text \<open>A file system is a tree: every entry but the root's is in a directory.\<close>

definition fs_tree :: "fs \<Rightarrow> bool" where
  "fs_tree fs \<longleftrightarrow> (\<forall>p s. fs (p @ [s]) \<noteq> None \<longrightarrow> p = [] \<or> fs p = Some NDir)"

section \<open>Lemmas\<close>

lemma body_components_append: "body_components (a @ SLASH # b) = body_components a @ body_components b"
  by (simp add: body_components_def split_on_append_gen)

lemma has_root_Cons [simp]: "has_root (c # s) \<longleftrightarrow> c = SLASH" "\<not> has_root []"
  by (simp_all add: has_root_def starts_with_def)

lemma components_has_root: "has_root p \<Longrightarrow> components p = RootDir # body_components p"
  by (simp add: components_def)

lemma body_components_join:
  assumes "has_root base" "\<not> has_root p"
  shows "body_components (path_join base p) = body_components base @ body_components p"
proof (cases "ends_with base [SLASH]")
  case True
  then obtain b where b: "base = b @ [SLASH]" by (auto simp: ends_with_iff)
  have "body_components (b @ [SLASH]) = body_components b"
    using body_components_append[of b "[]"] by (simp add: body_components_def)
  with b True assms show ?thesis
    using body_components_append[of b p] by (simp add: path_join_def)
next
  case False
  with assms show ?thesis
    using body_components_append[of base p] by (auto simp: path_join_def)
qed

lemma components_join:
  assumes "has_root base" "\<not> has_root p"
  shows "components (path_join base p) = components base @ body_components p"
proof -
  have "has_root (path_join base p)"
    using assms by (cases base) (auto simp: path_join_def)
  with assms body_components_join show ?thesis by (simp add: components_has_root)
qed

lemma body_components_no_root: "RootDir \<notin> set (body_components p)" "CurDir \<notin> set (body_components p)"
  by (auto simp: body_components_def comp_of_def split: if_splits)

lemma Normal_in_components:
  "Normal s \<in> set (components p) \<Longrightarrow> s \<noteq> [] \<and> s \<noteq> ''.'' \<and> s \<noteq> ''..'' \<and> SLASH \<notin> set s"
  using split_on_parts[of s SLASH p]
  by (auto simp: components_def body_components_def comp_of_def split: if_splits)

lemma body_components_seg:
  "s \<noteq> [] \<Longrightarrow> s \<noteq> ''.'' \<Longrightarrow> s \<noteq> ''..'' \<Longrightarrow> SLASH \<notin> set s \<Longrightarrow> body_components s = [Normal s]"
  by (simp add: body_components_def split_on_no_sep comp_of_def)

lemma components_join_seg:
  assumes "has_root base" "s \<noteq> []" "s \<noteq> ''.''" "s \<noteq> ''..''" "SLASH \<notin> set s"
  shows "components (path_join base s) = components base @ [Normal s]"
    and "has_root (path_join base s)"
proof -
  have "\<not> has_root s" using assms by (cases s) auto
  then show "components (path_join base s) = components base @ [Normal s]"
    using components_join[OF assms(1)] body_components_seg[OF assms(2-5)] by simp
  show "has_root (path_join base s)"
    using assms by (cases base) (auto simp: path_join_def)
qed

lemma scan_relative_Ok:
  "scan_relative cs saw = Ok b \<Longrightarrow>
   ParentDir \<notin> set cs \<and> RootDir \<notin> set cs \<and> (b \<longleftrightarrow> saw \<or> (\<exists>s. Normal s \<in> set cs))"
  by (induction cs saw rule: scan_relative.induct) auto

lemma only_normal:
  "\<forall>c\<in>set cs. c \<noteq> ParentDir \<and> c \<noteq> RootDir \<and> c \<noteq> CurDir \<Longrightarrow> \<exists>names. cs = map Normal names"
proof (induction cs)
  case (Cons c cs)
  then obtain names where "cs = map Normal names" by auto
  moreover obtain s where "c = Normal s" using Cons.prems by (cases c) auto
  ultimately have "c # cs = map Normal (s # names)" by simp
  then show ?case by (rule exI)
qed simp

lemma safe_join_within:
  assumes "has_root local_root" "safe_join_local_root local_root user_path = Ok q"
  shows "\<exists>names. names \<noteq> [] \<and> has_root q \<and> components q = components local_root @ map Normal names"
proof (cases "has_root (trim user_path)")
  case True
  then obtain stripped where st: "path_strip_prefix q local_root = Some stripped"
    and q: "q = trim user_path" and np: "ParentDir \<notin> set stripped" and ne: "stripped \<noteq> []"
    using assms(2) by (auto simp: safe_join_local_root_def Let_def split: if_splits option.splits)
  from st have comps: "components q = components local_root @ stripped"
    by (auto simp: path_strip_prefix_def Let_def split: if_splits) (metis append_take_drop_id)
  from comps True q assms(1) have "\<exists>pre. body_components q = pre @ stripped"
    by (auto simp: components_has_root)
  then have "\<forall>c\<in>set stripped. c \<noteq> ParentDir \<and> c \<noteq> RootDir \<and> c \<noteq> CurDir"
    using np body_components_no_root[of q] by (metis Un_iff set_append)
  then obtain names where "stripped = map Normal names" using only_normal by blast
  with comps ne True q show ?thesis by auto
next
  case False
  then obtain saw where sc: "scan_relative (components (trim user_path)) False = Ok saw" and saw: "saw"
    and q: "q = path_join local_root (trim user_path)"
    using assms(2) by (auto simp: safe_join_local_root_def Let_def split: if_splits)
  note ok = scan_relative_Ok[OF sc]
  have "\<forall>c\<in>set (body_components (trim user_path)). c \<noteq> ParentDir \<and> c \<noteq> RootDir \<and> c \<noteq> CurDir"
    using ok body_components_no_root[of "trim user_path"] by (auto simp: components_def)
  then obtain names where n: "body_components (trim user_path) = map Normal names" using only_normal by blast
  moreover have "names \<noteq> []"
    using ok saw n False by (auto simp: components_def split: if_splits)
  moreover have "has_root q" using assms(1) False q by (cases local_root) (auto simp: path_join_def)
  ultimately show ?thesis using components_join[OF assms(1) False] q by auto
qed

lemma walk_dirs:
  "\<forall>k. 0 < k \<and> k \<le> length names \<longrightarrow> fs (cur @ take k names) = Some NDir \<Longrightarrow>
   walk fuel fs follow cur (map Normal names @ cs) = walk fuel fs follow (cur @ names) cs"
proof (induction names arbitrary: cur)
  case (Cons n names)
  from Cons.prems[rule_format, of 1] have n: "fs (cur @ [n]) = Some NDir" by simp
  have "\<forall>k. 0 < k \<and> k \<le> length names \<longrightarrow> fs ((cur @ [n]) @ take k names) = Some NDir"
    using Cons.prems by (metis append.assoc append_Cons append_Nil length_Cons not_less_eq_eq
        take_Suc_Cons zero_less_Suc)
  from Cons.IH[OF this] n show ?case by simp
qed simp

lemma walk_canonical:
  "canonical_dir fs p names \<Longrightarrow>
   walk fuel fs follow [] (components p @ cs) = walk fuel fs follow names cs"
  using walk_dirs[of names fs "[]"] by (simp add: canonical_dir_def)

lemma symlink_metadata_below:
  assumes "components p = components base @ [Normal s]" "canonical_dir fs base names"
  shows "symlink_metadata fs p = node_at fs (names @ [s])"
proof -
  have "walk MAX_LINKS fs False names [Normal s] = Ok (names @ [s])"
    by (simp split: option.splits node.splits)
  then show ?thesis
    unfolding symlink_metadata_def assms(1) walk_canonical[OF assms(2)] by (simp only: and_then.simps)
qed

lemma canonical_dir_extend:
  assumes "canonical_dir fs base names" "fs (names @ [s]) = Some NDir"
    and "components p = components base @ [Normal s]"
  shows "canonical_dir fs p (names @ [s])"
  unfolding canonical_dir_def
proof (intro conjI allI impI)
  show "components p = RootDir # map Normal (names @ [s])"
    using assms(1,3) by (simp add: canonical_dir_def)
  fix k assume k: "0 < k \<and> k \<le> length (names @ [s])"
  show "fs (take k (names @ [s])) = Some NDir"
  proof (cases "k \<le> length names")
    case True
    with assms(1) k show ?thesis by (simp add: canonical_dir_def)
  next
    case False
    with k have "k = length (names @ [s])" by simp
    with assms(2) show ?thesis by simp
  qed
qed

lemma node_at_snoc [simp]:
  "node_at fs (xs @ [s]) = (case fs (xs @ [s]) of None \<Rightarrow> Err NotFoundE | Some n \<Rightarrow> Ok n)"
  by (simp add: node_at_def)

text \<open>A path all of whose components passed the check resolves, if at all, to the place its names
  spell.\<close>

lemma check_no_symlinks_walk:
  assumes "check_no_symlinks fs cursor (map Normal names) = Ok ()"
    and "canonical_dir fs cursor base" "has_root cursor"
    and "\<forall>s\<in>set names. s \<noteq> [] \<and> s \<noteq> ''.'' \<and> s \<noteq> ''..'' \<and> SLASH \<notin> set s"
    and "walk fuel fs follow base (map Normal names) = Ok p"
  shows "p = base @ names"
  using assms
proof (induction names arbitrary: cursor base)
  case (Cons s names)
  let ?cursor = "path_join cursor s"
  from Cons.prems(4) have s: "s \<noteq> []" "s \<noteq> ''.''" "s \<noteq> ''..''" "SLASH \<notin> set s" by simp_all
  note comps = components_join_seg[OF Cons.prems(3) s]
  note meta = symlink_metadata_below[OF comps(1) Cons.prems(2)]
  show ?case
  proof (cases "fs (base @ [s])")
    case None
    with Cons.prems(5) show ?thesis by (auto split: if_splits)
  next
    case (Some n)
    then show ?thesis
    proof (cases n)
      case NDir
      with Some Cons.prems meta comps canonical_dir_extend[OF Cons.prems(2) _ comps(1)]
        Cons.IH[of ?cursor "base @ [s]"] show ?thesis by (auto simp: Let_def)
    next
      case (NFile b)
      with Some Cons.prems(5) show ?thesis by (auto split: if_splits)
    next
      case (NLink t)
      with Some Cons.prems(1) meta show ?thesis by (simp add: Let_def)
    qed
  qed
qed simp

lemma strip_prefix_components:
  "path_strip_prefix p base = Some rest \<longleftrightarrow> components p = components base @ rest"
  unfolding path_strip_prefix_def Let_def by auto (metis append_take_drop_id)

lemma names_plain:
  "components p = cs @ map Normal names \<Longrightarrow>
   \<forall>s\<in>set names. s \<noteq> [] \<and> s \<noteq> ''.'' \<and> s \<noteq> ''..'' \<and> SLASH \<notin> set s"
  using Normal_in_components[of _ p] by auto

text \<open>What creating the parents does: every parent is a directory afterwards, and only missing
  entries along the path were added.\<close>

lemma ensure_parents_dirs:
  assumes "ensure_parents fs cursor (map Normal names) = Ok fs'"
    and "canonical_dir fs cursor base" "has_root cursor"
    and "\<forall>s\<in>set names. s \<noteq> [] \<and> s \<noteq> ''.'' \<and> s \<noteq> ''..'' \<and> SLASH \<notin> set s"
  shows "(\<forall>k. 0 < k \<and> k < length names \<longrightarrow> fs' (base @ take k names) = Some NDir)
    \<and> (\<forall>p. fs' p \<noteq> fs p \<longrightarrow> fs p = None \<and> fs' p = Some NDir
          \<and> (\<exists>k. 0 < k \<and> k < length names \<and> p = base @ take k names))"
  using assms
proof (induction names arbitrary: cursor base fs)
  case (Cons s names)
  show ?case
  proof (cases names)
    case (Cons t ts)
    let ?cursor = "path_join cursor s"
    from Cons.prems(4) have s: "s \<noteq> []" "s \<noteq> ''.''" "s \<noteq> ''..''" "SLASH \<notin> set s" by simp_all
    note comps = components_join_seg[OF Cons.prems(3) s]
    note meta = symlink_metadata_below[OF comps(1)]
    have wk: "walk MAX_LINKS fs False [] (components ?cursor) = Ok (base @ [s])"
      if "fs (base @ [s]) = None"
      unfolding comps(1) walk_canonical[OF Cons.prems(2)] using that by simp
    have canon: "canonical_dir (fs(base @ [s] \<mapsto> NDir)) cursor base"
      using Cons.prems(2) by (auto simp: canonical_dir_def)
    have mk: "create_dir fs ?cursor = Ok (fs(base @ [s] \<mapsto> NDir))" if "fs (base @ [s]) = None"
      using wk[OF that] that by (simp add: create_dir_def)
    define gs where "gs = (case fs (base @ [s]) of None \<Rightarrow> fs(base @ [s] \<mapsto> NDir) | Some _ \<Rightarrow> fs)"
    have gs: "ensure_parents gs ?cursor (map Normal names) = Ok fs'" "gs (base @ [s]) = Some NDir"
      "canonical_dir gs cursor base"
      using Cons.prems(1,2) meta[OF Cons.prems(2)] meta[OF canon] mk canon \<open>names = t # ts\<close>
      by (auto simp: gs_def Let_def check_parent_meta_def split: option.splits if_splits node.splits
          elim: is_dir.elims)
    from Cons.IH[OF gs(1) canonical_dir_extend[OF gs(3,2) comps(1)] comps(2)] Cons.prems(4)
    have ih: "\<forall>k. 0 < k \<and> k < length names \<longrightarrow> fs' ((base @ [s]) @ take k names) = Some NDir"
      "\<forall>p. fs' p \<noteq> gs p \<longrightarrow> gs p = None \<and> fs' p = Some NDir
          \<and> (\<exists>k. 0 < k \<and> k < length names \<and> p = (base @ [s]) @ take k names)"
      by simp_all
    have first: "fs' (base @ [s]) = Some NDir" using ih(2) gs(2) by (metis option.distinct(1))
    show ?thesis
    proof (intro conjI allI impI)
      fix k assume k: "0 < k \<and> k < length (s # names)"
      show "fs' (base @ take k (s # names)) = Some NDir"
        using first ih(1)[rule_format, of "k - 1"] k by (cases k) (auto, cases "k - 1 = 0", auto)
    next
      fix p assume ch: "fs' p \<noteq> fs p"
      have "fs p = None \<and> fs' p = Some NDir"
      proof (cases "p = base @ [s]")
        case True
        with ch first gs(2) show ?thesis by (cases "fs (base @ [s])") (simp_all add: gs_def)
      next
        case False
        then have "gs p = fs p" by (cases "fs (base @ [s])") (simp_all add: gs_def)
        with ch ih(2) show ?thesis by metis
      qed
      then show "fs p = None" "fs' p = Some NDir" by simp_all
      show "\<exists>k>0. k < length (s # names) \<and> p = base @ take k (s # names)"
      proof (cases "p = base @ [s]")
        case True
        then show ?thesis using \<open>names = t # ts\<close> by (intro exI[of _ 1]) simp
      next
        case False
        with ch have "fs' p \<noteq> gs p" by (auto simp: gs_def split: option.splits)
        with ih(2) obtain k where "0 < k" "k < length names" "p = (base @ [s]) @ take k names" by blast
        then show ?thesis by (intro exI[of _ "Suc k"]) simp
      qed
    qed
  qed (use Cons.prems(1) in auto)
qed simp

lemma canonical_dir_mono:
  assumes "canonical_dir fs p names" "\<And>q. fs' q \<noteq> fs q \<Longrightarrow> fs q = None"
  shows "canonical_dir fs' p names"
  using assms unfolding canonical_dir_def by (metis option.distinct(1))

lemma walk_last:
  "\<not> (\<exists>t. fs (cur @ [s]) = Some (NLink t)) \<Longrightarrow> walk fuel fs follow cur [Normal s] = Ok (cur @ [s])"
  by (auto split: option.splits node.splits)

text \<open>The last component of a checked path is no link, as long as its parents are directories.\<close>

lemma check_no_symlinks_last:
  assumes "check_no_symlinks fs cursor (map Normal names) = Ok ()"
    and "canonical_dir fs cursor base" "has_root cursor"
    and "\<forall>s\<in>set names. s \<noteq> [] \<and> s \<noteq> ''.'' \<and> s \<noteq> ''..'' \<and> SLASH \<notin> set s"
    and "names \<noteq> []" "\<forall>k. 0 < k \<and> k < length names \<longrightarrow> fs (base @ take k names) = Some NDir"
  shows "fs (base @ names) \<noteq> Some (NLink t)"
  using assms
proof (induction names arbitrary: cursor base)
  case (Cons s names)
  from Cons.prems(4) have s: "s \<noteq> []" "s \<noteq> ''.''" "s \<noteq> ''..''" "SLASH \<notin> set s" by simp_all
  note comps = components_join_seg[OF Cons.prems(3) s]
  note meta = symlink_metadata_below[OF comps(1) Cons.prems(2)]
  show ?case
  proof (cases "names = []")
    case True
    with Cons.prems(1) meta show ?thesis by (auto simp: Let_def)
  next
    case False
    have d: "fs (base @ [s]) = Some NDir" using Cons.prems(6)[rule_format, of 1] False by simp
    have "\<forall>k. 0 < k \<and> k < length names \<longrightarrow> fs ((base @ [s]) @ take k names) = Some NDir"
      using Cons.prems(6) by (metis append.assoc append_Cons append_Nil length_Cons not_less_eq
          take_Suc_Cons zero_less_Suc)
    with Cons.IH[OF _ canonical_dir_extend[OF Cons.prems(2) d comps(1)] comps(2) _ False]
      Cons.prems(1,4) meta d show ?thesis by (simp add: Let_def)
  qed
qed simp

lemma fs_tree_parents:
  assumes "fs_tree fs" "fs (base @ names) \<noteq> None" "0 < k" "k < length names"
  shows "fs (base @ take k names) = Some NDir"
  using assms(2,4)
proof (induction names rule: rev_induct)
  case (snoc s names)
  from assms(1) snoc.prems(1) assms(3) snoc.prems(2)
  have d: "fs (base @ names) = Some NDir"
    unfolding fs_tree_def by (metis append.assoc append_is_Nil_conv length_append_singleton list.size(3)
        less_Suc0 less_numeral_extra(3))
  with snoc show ?case by (cases "k < length names") auto
qed simp

section \<open>Properties\<close>

text \<open>A path that \<open>safe_join_local_root\<close> accepts lies below the local root by its spelling:
  its components are those of the root followed by at least one plain name, and no \<open>..\<close>.\<close>

theorem safe_join_local_root_confined:
  assumes "has_root local_root" "safe_join_local_root local_root user_path = Ok q"
  shows "\<exists>names. names \<noteq> [] \<and> components q = components local_root @ map Normal names"
  using safe_join_within[OF assms] by blast

theorem safe_join_local_root_confined_witness:
  "\<exists>names. names \<noteq> [] \<and> components ''/srv/data/./a//b'' = components ''/srv/data/'' @ map Normal names"
proof -
  have "safe_join_local_root ''/srv/data/'' '' ./a//b '' = Ok ''/srv/data/./a//b''" by code_simp
  then show ?thesis
    by (intro safe_join_local_root_confined) (simp_all add: has_root_def starts_with_def)
qed

text \<open>C21: no transfer leaves the local root through a symbolic link that exists when the path is
  checked. Preparing a download creates only missing directories below the root, and afterwards the
  destination, wherever links elsewhere point, resolves to the physical place below the root that its
  names spell.\<close>

theorem resolve_get_confined:
  assumes "canonical_dir fs local_root rs" "has_root local_root" "fs_tree fs"
    and "resolve_and_validate_local_paths fs local_root OpGet user_path = Ok (q, fs')"
  shows "\<exists>names. names \<noteq> [] \<and> components q = components local_root @ map Normal names
    \<and> (\<forall>fuel follow. walk fuel fs' follow [] (components q) = Ok (rs @ names))
    \<and> (\<forall>p. fs' p \<noteq> fs p \<longrightarrow>
          fs p = None \<and> fs' p = Some NDir \<and> (\<exists>k. 0 < k \<and> k < length names \<and> p = rs @ take k names))"
proof -
  from assms(4) have sj: "safe_join_local_root local_root user_path = Ok q"
    and val: "validate_get_target_no_symlinks fs local_root q = Ok ()"
    and ens: "ensure_parent_dirs_no_symlinks fs local_root q = Ok fs'"
    by (auto simp: resolve_and_validate_local_paths_def resolve_paths_def)
  from safe_join_within[OF assms(2) sj] obtain names where ne: "names \<noteq> []"
    and comps: "components q = components local_root @ map Normal names" by blast
  then have strip: "path_strip_prefix q local_root = Some (map Normal names)"
    by (simp add: strip_prefix_components)
  note plain = names_plain[OF comps]
  from ens strip have "ensure_parents fs local_root (map Normal names) = Ok fs'"
    by (simp add: ensure_parent_dirs_no_symlinks_def)
  note dirs = ensure_parents_dirs[OF this assms(1,2) plain]
  have canon: "canonical_dir fs' local_root rs"
    using canonical_dir_mono[OF assms(1)] dirs by blast
  have "check_no_symlinks fs local_root (map Normal names) = Ok ()"
    using val strip by (simp add: validate_get_target_no_symlinks_def)
  then have "fs (rs @ names) \<noteq> Some (NLink t)" for t
    using check_no_symlinks_last[OF _ assms(1,2) plain ne] fs_tree_parents[OF assms(3)]
    by (metis option.distinct(1))
  moreover have "fs' (rs @ names) = fs (rs @ names)"
  proof (rule ccontr)
    assume "fs' (rs @ names) \<noteq> fs (rs @ names)"
    with dirs obtain k where k: "k < length names" and "rs @ names = rs @ take k names" by blast
    from arg_cong[OF this(2), of length] k show False by simp
  qed
  ultimately have nolink: "\<not> (\<exists>t. fs' ((rs @ butlast names) @ [last names]) = Some (NLink t))"
    using ne by simp
  have "walk fuel fs' follow [] (components q) = Ok (rs @ names)" for fuel follow
  proof -
    have "walk fuel fs' follow [] (components q)
        = walk fuel fs' follow rs (map Normal (butlast names) @ [Normal (last names)])"
      using ne unfolding comps walk_canonical[OF canon] by (metis append_butlast_last_id list.simps(8,9) map_append)
    also have "\<dots> = walk fuel fs' follow (rs @ butlast names) [Normal (last names)]"
      using dirs by (intro walk_dirs) (auto simp: take_butlast)
    also have "\<dots> = Ok (rs @ names)" using walk_last[of fs' "rs @ butlast names" "last names"] nolink ne by simp
    finally show ?thesis .
  qed
  with ne comps dirs show ?thesis by blast
qed

theorem resolve_get_confined_witness:
  "\<exists>fs'. resolve_and_validate_local_paths [[''srv''] \<mapsto> NDir, [''out''] \<mapsto> NLink ''/etc''] ''/srv'' OpGet ''d/e/f''
      = Ok (''/srv/d/e/f'', fs')
    \<and> walk 0 fs' True [] (components ''/srv/d/e/f'') = Ok [''srv'', ''d'', ''e'', ''f'']"
proof -
  let ?fs = "[[''srv''] \<mapsto> NDir, [''out''] \<mapsto> NLink ''/etc''] :: fs"
  have root: "components ''/srv'' = RootDir # map Normal [''srv'']" by code_simp
  then have canon: "canonical_dir ?fs ''/srv'' [''srv'']"
    unfolding canonical_dir_def by (auto simp: le_Suc_eq)
  have tree: "fs_tree ?fs"
    by (auto simp: fs_tree_def Cons_eq_append_conv append_eq_Cons_conv split: if_splits)
  have "case resolve_and_validate_local_paths ?fs ''/srv'' OpGet ''d/e/f'' of
      Ok (q, g) \<Rightarrow> q = ''/srv/d/e/f'' | Err e \<Rightarrow> False" by code_simp
  then obtain fs' where r: "resolve_and_validate_local_paths ?fs ''/srv'' OpGet ''d/e/f'' = Ok (''/srv/d/e/f'', fs')"
    by (auto split: result.splits)
  have comps: "components ''/srv/d/e/f'' = RootDir # map Normal [''srv'', ''d'', ''e'', ''f'']" by code_simp
  from resolve_get_confined[OF canon _ tree r] obtain names where
    "components ''/srv/d/e/f'' = components ''/srv'' @ map Normal names"
    "walk 0 fs' True [] (components ''/srv/d/e/f'') = Ok ([''srv''] @ names)" by auto
  with root comps have "names = [''d'', ''e'', ''f'']" by (auto simp: map_eq_Cons_conv)
  with r \<open>walk 0 fs' True [] _ = _\<close> show ?thesis by auto
qed

end
