(* ===== verification/Jobs.thy ===== *)
theory Jobs
  imports Paths
begin

text \<open>
  Background jobs: \<open>src/src/background/job.rs\<close>, \<open>registry.rs\<close> and \<open>stream.rs\<close>, and the
  reconciliation of a job with its remote process, \<open>check_process\<close> of \<open>src/src/ssh/command.rs\<close>.

  A \<open>SystemTime\<close> is an integer number of nanoseconds from the Unix epoch; the clock is an argument of
  the operations that read it. A shared job (\<open>Arc<Mutex<JobState>>\<close>) is a reference into a heap, so
  that two registry entries can be told apart by pointer. What happens between two acquisitions of a
  job's lock is an explicit step.
\<close>

section \<open>Definitions\<close>

subsection \<open>Job state\<close>

datatype job_status = Running | Completed | Failed | StateLost

fun status_as_str :: "job_status \<Rightarrow> string" where
  "status_as_str Running = ''running''"
| "status_as_str Completed = ''completed''"
| "status_as_str Failed = ''failed''"
| "status_as_str StateLost = ''state_lost''"

record job_state =
  job_id :: string
  pid :: nat
  log_path :: string
  exit_code :: "int option"
  status :: job_status
  state_reason :: "string option"
  start_time :: int
  completed_at :: "int option"
  command :: string
  connection_id :: string

record persisted_job_state =
  p_version :: nat
  p_job_id :: string
  p_pid :: nat
  p_log_path :: string
  p_exit_code :: "int option"
  p_status :: job_status
  p_state_reason :: "string option"
  p_start_time_unix_ms :: nat
  p_completed_at_unix_ms :: "nat option"
  p_command :: string
  p_connection_id :: string

record new_running_job =
  n_job_id :: string
  n_pid :: nat
  n_log_path :: string
  n_command :: string
  n_connection_id :: string

definition two_digits :: "nat \<Rightarrow> string" where
  "two_digits n = (if n < 10 then ''0'' @ show_nat n else show_nat n)"

definition format_ps_elapsed :: "nat \<Rightarrow> string" where
  "format_ps_elapsed total_secs =
     (let days = total_secs div 86400;
          hours = (total_secs mod 86400) div 3600;
          minutes = (total_secs mod 3600) div 60;
          seconds = total_secs mod 60 in
      if days > 0 then
        show_nat days @ ''-'' @ two_digits hours @ '':'' @ two_digits minutes @ '':'' @ two_digits seconds
      else if hours > 0 then
        two_digits hours @ '':'' @ two_digits minutes @ '':'' @ two_digits seconds
      else two_digits minutes @ '':'' @ two_digits seconds)"

definition new_running :: "int \<Rightarrow> new_running_job \<Rightarrow> job_state" where
  "new_running now opts =
     \<lparr>job_id = n_job_id opts, pid = n_pid opts, log_path = n_log_path opts, exit_code = None,
      status = Running, state_reason = None, start_time = now, completed_at = None,
      command = n_command opts, connection_id = n_connection_id opts\<rparr>"

definition is_terminal :: "job_state \<Rightarrow> bool" where
  "is_terminal j \<longleftrightarrow> status j = Completed \<or> status j = Failed \<or> status j = StateLost"

definition elapsed_time :: "int \<Rightarrow> job_state \<Rightarrow> string" where
  "elapsed_time now j =
     (let end_time = (case completed_at j of Some t \<Rightarrow> t | None \<Rightarrow> now);
          elapsed = (if end_time < start_time j then 0 else nat (end_time - start_time j)) in
      format_ps_elapsed (elapsed div 10 ^ 9))"

definition get_or_insert :: "'a option \<Rightarrow> 'a \<Rightarrow> 'a option" where
  "get_or_insert x d = (case x of None \<Rightarrow> Some d | Some v \<Rightarrow> Some v)"

definition mark_exit :: "int \<Rightarrow> int \<Rightarrow> job_state \<Rightarrow> job_state" where
  "mark_exit now rc j =
     j\<lparr>exit_code := Some rc,
       completed_at := get_or_insert (completed_at j) now,
       status := (if rc = 0 then Completed else Failed),
       state_reason := None\<rparr>"

definition mark_state_lost :: "int \<Rightarrow> string \<Rightarrow> job_state \<Rightarrow> job_state" where
  "mark_state_lost now reason j =
     j\<lparr>exit_code := None,
       completed_at := get_or_insert (completed_at j) now,
       status := StateLost,
       state_reason := Some reason\<rparr>"

definition system_time_to_unix_ms :: "int \<Rightarrow> nat" where
  "system_time_to_unix_ms t = (if t < 0 then 0 else min (nat t div 10 ^ 6) (U64 - 1))"

definition unix_ms_to_system_time :: "nat \<Rightarrow> int" where
  "unix_ms_to_system_time ms = int ms * 10 ^ 6"

definition to_persisted :: "job_state \<Rightarrow> persisted_job_state" where
  "to_persisted j =
     \<lparr>p_version = 1, p_job_id = job_id j, p_pid = pid j, p_log_path = from_utf8_lossy (log_path j),
      p_exit_code = exit_code j, p_status = status j, p_state_reason = state_reason j,
      p_start_time_unix_ms = system_time_to_unix_ms (start_time j),
      p_completed_at_unix_ms = map_option system_time_to_unix_ms (completed_at j),
      p_command = command j, p_connection_id = connection_id j\<rparr>"

definition from_persisted :: "persisted_job_state \<Rightarrow> (job_state, string) result" where
  "from_persisted p =
     (if p_version p \<noteq> 1 then Err ''unsupported persisted job state version''
      else Ok
        \<lparr>job_id = p_job_id p, pid = p_pid p, log_path = p_log_path p, exit_code = p_exit_code p,
         status = p_status p, state_reason = p_state_reason p,
         start_time = unix_ms_to_system_time (p_start_time_unix_ms p),
         completed_at = map_option unix_ms_to_system_time (p_completed_at_unix_ms p),
         command = p_command p, connection_id = p_connection_id p\<rparr>)"

subsection \<open>The registry\<close>

type_synonym heap = "nat \<rightharpoonup> job_state"

record job_registry =
  jobs :: "string \<rightharpoonup> nat"
  completed_retention :: nat

definition registry_new :: "nat \<Rightarrow> job_registry" where
  "registry_new retention = \<lparr>jobs = Map.empty, completed_retention = retention\<rparr>"

definition registry_insert :: "job_registry \<Rightarrow> string \<Rightarrow> nat \<Rightarrow> job_registry" where
  "registry_insert r jid ref = r\<lparr>jobs := (jobs r)(jid \<mapsto> ref)\<rparr>"

definition registry_get :: "job_registry \<Rightarrow> string \<Rightarrow> nat option" where
  "registry_get r jid = jobs r jid"

definition registry_remove :: "job_registry \<Rightarrow> string \<Rightarrow> job_registry" where
  "registry_remove r jid = r\<lparr>jobs := (jobs r)(jid := None)\<rparr>"

definition expired :: "int \<Rightarrow> nat \<Rightarrow> job_state \<Rightarrow> int option" where
  "expired now retention j =
     (if \<not> is_terminal j then None
      else case completed_at j of
        None \<Rightarrow> None
      | Some t \<Rightarrow> if now < t then None else if nat (now - t) > retention then Some t else None)"

text \<open>The first pass of \<open>prune_expired\<close>: a snapshot of the entries, each job locked in turn. \<open>ids\<close> is
  the order in which the hash map yields its keys.\<close>

fun prune_scan ::
  "int \<Rightarrow> job_registry \<Rightarrow> heap \<Rightarrow> string list \<Rightarrow> (string \<times> nat \<times> int) list" where
  "prune_scan now r h [] = []"
| "prune_scan now r h (jid # ids) =
     (case registry_get r jid of
        None \<Rightarrow> prune_scan now r h ids
      | Some ref \<Rightarrow>
        (case h ref of
           None \<Rightarrow> prune_scan now r h ids
         | Some j \<Rightarrow>
           (case expired now (completed_retention r) j of
              None \<Rightarrow> prune_scan now r h ids
            | Some t \<Rightarrow> (jid, ref, t) # prune_scan now r h ids)))"

text \<open>The second pass, under the write lock; the registry and the heap may have changed in between,
  and \<open>locked\<close> says which jobs another task holds.\<close>

fun prune_sweep ::
  "int \<Rightarrow> (nat \<Rightarrow> bool) \<Rightarrow> heap \<Rightarrow> (string \<times> nat \<times> int) list \<Rightarrow> job_registry \<Rightarrow> nat \<Rightarrow> job_registry \<times> nat" where
  "prune_sweep now locked h [] r removed = (r, removed)"
| "prune_sweep now locked h ((jid, ref, t) # es) r removed =
     (case registry_get r jid of
        None \<Rightarrow> prune_sweep now locked h es r removed
      | Some current \<Rightarrow>
          if current \<noteq> ref then prune_sweep now locked h es r removed
          else if locked current then prune_sweep now locked h es r removed
          else (case h current of
             None \<Rightarrow> prune_sweep now locked h es r removed
           | Some j \<Rightarrow>
               if \<not> is_terminal j then prune_sweep now locked h es r removed
               else if completed_at j \<noteq> Some t then prune_sweep now locked h es r removed
               else if now < t then prune_sweep now locked h es r removed
               else if nat (now - t) \<le> completed_retention r then prune_sweep now locked h es r removed
               else prune_sweep now locked h es (registry_remove r jid) (removed + 1)))"

definition prune_expired :: "int \<Rightarrow> string list \<Rightarrow> heap \<Rightarrow> job_registry \<Rightarrow> job_registry \<times> nat" where
  "prune_expired now ids h r =
     (let es = prune_scan now r h ids in
      if es = [] then (r, 0) else prune_sweep now (\<lambda>_. False) h es r 0)"

subsection \<open>Streaming output\<close>

datatype job_terminal_update = UpdateExit int | UpdateStateLost string

definition STATE_REASON_LIMIT_CHARS :: nat where
  "STATE_REASON_LIMIT_CHARS = 160"

definition truncate_state_reason :: "string \<Rightarrow> string" where
  "truncate_state_reason input = concat (take STATE_REASON_LIMIT_CHARS (str_chars input))"

definition clamp_exit_status :: "nat \<Rightarrow> int" where
  "clamp_exit_status exit_status = (if exit_status > 255 then 255 else int exit_status)"

fun signal_code :: "signal \<Rightarrow> int" where
  "signal_code SIGHUP = 129"
| "signal_code SIGINT = 130"
| "signal_code SIGQUIT = 131"
| "signal_code SIGILL = 132"
| "signal_code SIGABRT = 134"
| "signal_code SIGFPE = 136"
| "signal_code SIGKILL = 137"
| "signal_code SIGUSR1 = 138"
| "signal_code SIGSEGV = 139"
| "signal_code SIGPIPE = 141"
| "signal_code SIGALRM = 142"
| "signal_code SIGTERM = 143"
| "signal_code (SIGCustom s) = 128"

datatype log_error = LogIsSymlink | LogNotRegular | LogIo io_error

definition raw_open_append :: "fs \<Rightarrow> string \<Rightarrow> (fs \<times> string list, io_error) result" where
  "raw_open_append fs path =
     and_then (walk MAX_LINKS fs False [] (components path)) (\<lambda>p.
       case fs p of
         None \<Rightarrow> if p = [] then Err OtherIoE else Ok (fs(p \<mapsto> NFile []), p)
       | Some (NFile b) \<Rightarrow> Ok (fs, p)
       | Some NDir \<Rightarrow> Err OtherIoE
       | Some (NLink t) \<Rightarrow> Err LoopE)"

definition open_append_no_symlink :: "fs \<Rightarrow> string \<Rightarrow> (fs \<times> string list, log_error) result" where
  "open_append_no_symlink fs path =
     and_then
       (case symlink_metadata fs path of
          Ok meta \<Rightarrow> if is_symlink meta then Err LogIsSymlink else Ok ()
        | Err NotFoundE \<Rightarrow> Ok ()
        | Err e \<Rightarrow> Err (LogIo e))
       (\<lambda>_. case raw_open_append fs path of
          Ok f \<Rightarrow> Ok f
        | Err e \<Rightarrow>
            (case symlink_metadata fs path of
               Ok meta \<Rightarrow> if is_symlink meta then Err LogIsSymlink else Err (LogIo e)
             | Err _ \<Rightarrow> Err (LogIo e)))"

text \<open>Appending to an open file; the device may refuse.\<close>

definition write_all :: "(string \<Rightarrow> bool) \<Rightarrow> fs \<Rightarrow> string list \<Rightarrow> string \<Rightarrow> (fs, log_error) result" where
  "write_all accepts fs p d =
     (case fs p of
        Some (NFile b) \<Rightarrow> if accepts d then Ok (fs(p \<mapsto> NFile (b @ d))) else Err (LogIo OtherIoE)
      | _ \<Rightarrow> Err (LogIo OtherIoE))"

text \<open>What \<open>channel.wait()\<close> delivers: a message, or no message for the 200 ms the loop grants once
  the exit status is known.\<close>

datatype wait_event = Arrives channel_msg | Silence

fun stream_loop ::
  "(string \<Rightarrow> bool) \<Rightarrow> string list \<Rightarrow> fs \<Rightarrow> int option \<Rightarrow> bool \<Rightarrow> wait_event list \<Rightarrow>
   fs \<times> (int option, log_error) result" where
  "stream_loop accepts p fs rc saw_close_or_eof [] = (fs, Ok rc)"
| "stream_loop accepts p fs rc saw_close_or_eof (Silence # es) =
     (if rc \<noteq> None \<and> \<not> saw_close_or_eof then (fs, Ok rc)
      else stream_loop accepts p fs rc saw_close_or_eof es)"
| "stream_loop accepts p fs rc saw_close_or_eof (Arrives msg # es) =
     (case msg of
        Data d \<Rightarrow>
          (case write_all accepts fs p d of
             Err e \<Rightarrow> (fs, Err e)
           | Ok fs' \<Rightarrow> stream_loop accepts p fs' rc saw_close_or_eof es)
      | ExtendedData _ d \<Rightarrow>
          (case write_all accepts fs p d of
             Err e \<Rightarrow> (fs, Err e)
           | Ok fs' \<Rightarrow> stream_loop accepts p fs' rc saw_close_or_eof es)
      | ExitStatus n \<Rightarrow> stream_loop accepts p fs (Some (clamp_exit_status n)) saw_close_or_eof es
      | ExitSignal s \<Rightarrow> stream_loop accepts p fs (Some (signal_code s)) saw_close_or_eof es
      | Close \<Rightarrow> if rc \<noteq> None then (fs, Ok rc) else stream_loop accepts p fs rc True es
      | Eof \<Rightarrow> if rc \<noteq> None then (fs, Ok rc) else stream_loop accepts p fs rc True es
      | Failure \<Rightarrow> stream_loop accepts p fs rc saw_close_or_eof es
      | OtherMsg \<Rightarrow> stream_loop accepts p fs rc saw_close_or_eof es)"

definition stream_channel_inner ::
  "(string \<Rightarrow> bool) \<Rightarrow> fs \<Rightarrow> string \<Rightarrow> string \<Rightarrow> wait_event list \<Rightarrow> fs \<times> (int option, log_error) result" where
  "stream_channel_inner accepts fs local_log_path initial_stdout es =
     (case open_append_no_symlink fs local_log_path of
        Err e \<Rightarrow> (fs, Err e)
      | Ok (fs1, p) \<Rightarrow>
          if initial_stdout = [] then stream_loop accepts p fs1 None False es
          else (case write_all accepts fs1 p initial_stdout of
                  Err e \<Rightarrow> (fs1, Err e)
                | Ok fs2 \<Rightarrow> stream_loop accepts p fs2 None False es))"

definition apply_update :: "int \<Rightarrow> job_terminal_update \<Rightarrow> job_state \<Rightarrow> job_state" where
  "apply_update now update j =
     (case update of
        UpdateExit rc \<Rightarrow> mark_exit now rc j
      | UpdateStateLost reason \<Rightarrow> mark_state_lost now reason j)"

text \<open>\<open>update_job_terminal\<close>: the new heap, and the state handed to the spooler if the job is
  registered (a failure to store it is only logged).\<close>

definition update_job_terminal ::
  "int \<Rightarrow> job_registry \<Rightarrow> heap \<Rightarrow> string \<Rightarrow> job_terminal_update \<Rightarrow> heap \<times> job_state option" where
  "update_job_terminal now r h jid update =
     (case registry_get r jid of
        None \<Rightarrow> (h, None)
      | Some ref \<Rightarrow>
        (case h ref of
           None \<Rightarrow> (h, None)
         | Some j \<Rightarrow> let j' = apply_update now update j in (h(ref \<mapsto> j'), Some j')))"

text \<open>The text of an error is the argument \<open>error_text\<close>.\<close>

definition terminal_update :: "(log_error \<Rightarrow> string) \<Rightarrow> (int option, log_error) result \<Rightarrow> job_terminal_update" where
  "terminal_update error_text res =
     (case res of
        Ok (Some rc) \<Rightarrow> UpdateExit rc
      | Ok None \<Rightarrow> UpdateStateLost ''background_channel_closed_without_exit_status''
      | Err e \<Rightarrow> UpdateStateLost (''background_stream_error: '' @ truncate_state_reason (error_text e)))"

definition stream_channel ::
  "(string \<Rightarrow> bool) \<Rightarrow> (log_error \<Rightarrow> string) \<Rightarrow> int \<Rightarrow> job_registry \<Rightarrow> heap \<Rightarrow> fs \<Rightarrow> string \<Rightarrow> string \<Rightarrow> string \<Rightarrow>
   wait_event list \<Rightarrow> fs \<times> heap \<times> job_state option \<times> (int option, log_error) result" where
  "stream_channel accepts error_text now r h fs jid local_log_path initial_stdout es =
     (case stream_channel_inner accepts fs local_log_path initial_stdout es of
        (fs', res) \<Rightarrow>
          (case update_job_terminal now r h jid (terminal_update error_text res) of
             (h', persisted) \<Rightarrow> (fs', h', persisted, res)))"

subsection \<open>Checking a process\<close>

definition job_status_from_exit_code :: "int \<Rightarrow> job_status" where
  "job_status_from_exit_code rc = (if rc = 0 then Completed else Failed)"

record effective_state =
  e_running :: bool
  e_status :: job_status
  e_exit_code :: "int option"
  e_reason :: "string option"

definition unwrap_or :: "'a option \<Rightarrow> 'a \<Rightarrow> 'a" where
  "unwrap_or x d = (case x of None \<Rightarrow> d | Some v \<Rightarrow> v)"

definition exited :: "int \<Rightarrow> effective_state" where
  "exited rc = \<lparr>e_running = False, e_status = job_status_from_exit_code rc, e_exit_code = Some rc, e_reason = None\<rparr>"

definition lost :: "string option \<Rightarrow> string \<Rightarrow> effective_state" where
  "lost reason fallback =
     \<lparr>e_running = False, e_status = StateLost, e_exit_code = None, e_reason = Some (unwrap_or reason fallback)\<rparr>"

text \<open>The decision table: \<open>j\<close> is the job as first read, \<open>pid_running\<close> the answer of the remote host,
  \<open>settled\<close> the job as read again 150 ms later (\<open>await_running_job_settle\<close>).\<close>

definition effective_settled :: "job_state \<Rightarrow> effective_state" where
  "effective_settled settled =
     (case status settled of
        Running \<Rightarrow>
          (case exit_code settled of
             Some rc \<Rightarrow> exited rc
           | None \<Rightarrow> lost (state_reason settled) ''pid_not_running_and_no_exit_status'')
      | StateLost \<Rightarrow> lost (state_reason settled) ''state_lost''
      | _ \<Rightarrow>
          (case exit_code settled of
             Some rc \<Rightarrow> exited rc
           | None \<Rightarrow> lost (state_reason settled) ''missing_exit_code_for_terminal_state''))"

definition effective :: "job_state \<Rightarrow> bool \<Rightarrow> job_state \<Rightarrow> effective_state" where
  "effective j pid_running settled =
     (case status j of
        Running \<Rightarrow>
          if pid_running then \<lparr>e_running = True, e_status = Running, e_exit_code = None, e_reason = None\<rparr>
          else (case exit_code j of
                  Some rc \<Rightarrow> exited rc
                | None \<Rightarrow> effective_settled settled)
      | StateLost \<Rightarrow> lost (state_reason j) ''state_lost''
      | _ \<Rightarrow>
          (case exit_code j of
             Some rc \<Rightarrow> exited rc
           | None \<Rightarrow> lost (state_reason j) ''missing_exit_code_for_terminal_state''))"

definition needs_update :: "job_state \<Rightarrow> effective_state \<Rightarrow> bool" where
  "needs_update j e \<longleftrightarrow> status j \<noteq> e_status e \<or> exit_code j \<noteq> e_exit_code e \<or> state_reason j \<noteq> e_reason e"

text \<open>The write under the second lock: \<open>current\<close> is the job at that moment.\<close>

definition reconcile :: "int \<Rightarrow> effective_state \<Rightarrow> job_state \<Rightarrow> job_state" where
  "reconcile now e current =
     (case e_status e of
        Running \<Rightarrow> current\<lparr>status := Running, exit_code := None, state_reason := None\<rparr>
      | StateLost \<Rightarrow> mark_state_lost now (unwrap_or (e_reason e) ''state_lost'') current
      | _ \<Rightarrow> (case e_exit_code e of Some rc \<Rightarrow> mark_exit now rc current | None \<Rightarrow> current))"

record process_status =
  ps_pid :: nat
  ps_state :: string
  ps_running :: bool
  ps_exit_code :: "nat option"
  ps_state_reason :: "string option"
  ps_elapsed_time :: string
  ps_command :: string
  ps_log_path :: string

definition reported_exit_code :: "effective_state \<Rightarrow> nat option" where
  "reported_exit_code e =
     (if e_running e \<or> e_status e = StateLost then None
      else case e_exit_code e of
        None \<Rightarrow> None
      | Some rc \<Rightarrow> if 0 \<le> rc then Some (nat rc) else None)"

datatype check_error = JobNotFound string | RecoverFailed string | ProbeFailed string

text \<open>
  The whole handler. \<open>load\<close> is the spooler's answer for a job that is not registered, \<open>fresh\<close> an
  unused heap reference for it, \<open>probe\<close> the remote check of a process id (with the connection it
  needs), \<open>env\<close> what other tasks do to the heap during the 150 ms of the settling wait. The result
  of the handler holds the new registry and heap, the state handed to the spooler, and the report without the log
  tail, which is read from the log file afterwards.
\<close>

definition find_job ::
  "job_registry \<Rightarrow> heap \<Rightarrow> nat \<Rightarrow> (job_state option, string) result \<Rightarrow> string \<Rightarrow>
   (job_registry \<times> heap \<times> nat, check_error) result" where
  "find_job r h fresh load jid =
     (case registry_get r jid of
        Some ref \<Rightarrow> Ok (r, h, ref)
      | None \<Rightarrow>
        (case load of
           Ok (Some recovered) \<Rightarrow> Ok (registry_insert r jid fresh, h(fresh \<mapsto> recovered), fresh)
         | Ok None \<Rightarrow> Err (JobNotFound jid)
         | Err e \<Rightarrow> Err (RecoverFailed e)))"

definition settle_and_update ::
  "int \<Rightarrow> (heap \<Rightarrow> heap) \<Rightarrow> heap \<Rightarrow> nat \<Rightarrow> job_state \<Rightarrow> bool \<Rightarrow> heap \<times> job_state option \<times> process_status" where
  "settle_and_update now env h ref j pid_running =
     (let h' = (if status j = Running \<and> \<not> pid_running \<and> exit_code j = None then env h else h);
          settled = unwrap_or (h' ref) j;
          e = effective j pid_running settled;
          j' = reconcile now e settled in
      (if needs_update j e then h'(ref \<mapsto> j') else h',
       if needs_update j e then Some j' else None,
       \<lparr>ps_pid = pid j, ps_state = status_as_str (e_status e), ps_running = e_running e,
        ps_exit_code = reported_exit_code e, ps_state_reason = e_reason e,
        ps_elapsed_time = elapsed_time now j, ps_command = command j,
        ps_log_path = from_utf8_lossy (log_path j)\<rparr>))"

definition check_process ::
  "int \<Rightarrow> (nat \<Rightarrow> (bool, string) result) \<Rightarrow> (heap \<Rightarrow> heap) \<Rightarrow> nat \<Rightarrow> (job_state option, string) result \<Rightarrow>
   job_registry \<Rightarrow> heap \<Rightarrow> string \<Rightarrow>
   (job_registry \<times> heap \<times> job_state option \<times> process_status, check_error) result" where
  "check_process now probe env fresh load r h jid =
     and_then (find_job r h fresh load jid) (\<lambda>(r1, h1, ref).
       case h1 ref of
         None \<Rightarrow> Err (JobNotFound jid)
       | Some j \<Rightarrow>
           and_then (if status j = Running then map_err ProbeFailed (probe (pid j)) else Ok False)
             (\<lambda>pid_running. Ok (r1, settle_and_update now env h1 ref j pid_running)))"

subsection \<open>One job under concurrent tasks\<close>

text \<open>
  One job, the task that streams its output, and any number of checks. A check holds what it has read
  so far: the job at its first lock with the answer about the process, then also the effective state
  after the settling wait; it writes in a later step.
\<close>

datatype check_phase = CheckRead job_state bool | CheckDecided job_state effective_state

record job_system =
  sys_job :: job_state
  sys_streaming :: bool
  sys_checks :: "check_phase list"

inductive job_step :: "job_system \<Rightarrow> job_system \<Rightarrow> bool" where
  stream_ends: "sys_streaming s \<Longrightarrow>
     job_step s (s\<lparr>sys_job := apply_update now update (sys_job s), sys_streaming := False\<rparr>)"
| check_reads:
    "job_step s (s\<lparr>sys_checks := CheckRead (sys_job s) pid_running # sys_checks s\<rparr>)"
| check_decides: "sys_checks s = xs @ CheckRead j pid_running # ys \<Longrightarrow>
     job_step s (s\<lparr>sys_checks := xs @ CheckDecided j (effective j pid_running (sys_job s)) # ys\<rparr>)"
| check_writes: "sys_checks s = xs @ CheckDecided j e # ys \<Longrightarrow>
     job_step s (s\<lparr>sys_job := (if needs_update j e then reconcile now e (sys_job s) else sys_job s),
                   sys_checks := xs @ ys\<rparr>)"

definition job_start :: "job_system \<Rightarrow> bool" where
  "job_start s \<longleftrightarrow>
     (\<exists>now opts. sys_job s = new_running now opts) \<and> sys_streaming s \<and> sys_checks s = []"

text \<open>The invariant of a job: the four states are told apart by exit code, reason and completion
  time.\<close>

definition job_ok :: "job_state \<Rightarrow> bool" where
  "job_ok j =
     (case status j of
        Running \<Rightarrow> exit_code j = None \<and> state_reason j = None \<and> completed_at j = None
      | Completed \<Rightarrow> exit_code j = Some 0 \<and> state_reason j = None \<and> completed_at j \<noteq> None
      | Failed \<Rightarrow> (\<exists>rc. exit_code j = Some rc \<and> rc \<noteq> 0) \<and> state_reason j = None \<and> completed_at j \<noteq> None
      | StateLost \<Rightarrow> exit_code j = None \<and> state_reason j \<noteq> None \<and> completed_at j \<noteq> None)"

definition effective_ok :: "effective_state \<Rightarrow> bool" where
  "effective_ok e \<longleftrightarrow>
     (e_running e \<longleftrightarrow> e_status e = Running)
   \<and> (case e_status e of
        Running \<Rightarrow> e_exit_code e = None \<and> e_reason e = None
      | Completed \<Rightarrow> e_exit_code e = Some 0 \<and> e_reason e = None
      | Failed \<Rightarrow> (\<exists>rc. e_exit_code e = Some rc \<and> rc \<noteq> 0) \<and> e_reason e = None
      | StateLost \<Rightarrow> e_exit_code e = None \<and> e_reason e \<noteq> None)"

fun phase_ok :: "check_phase \<Rightarrow> bool" where
  "phase_ok (CheckRead j r) = job_ok j"
| "phase_ok (CheckDecided j e) = (job_ok j \<and> effective_ok e \<and> (e_running e \<longrightarrow> status j = Running))"

definition job_system_ok :: "job_system \<Rightarrow> bool" where
  "job_system_ok s \<longleftrightarrow> job_ok (sys_job s) \<and> list_all phase_ok (sys_checks s)"

text \<open>An entry that the second pass removes.\<close>

definition removable :: "int \<Rightarrow> (nat \<Rightarrow> bool) \<Rightarrow> heap \<Rightarrow> job_registry \<Rightarrow> string \<Rightarrow> nat \<Rightarrow> int \<Rightarrow> bool" where
  "removable now locked h r jid ref t \<longleftrightarrow>
     registry_get r jid = Some ref \<and> \<not> locked ref
   \<and> (\<exists>j. h ref = Some j \<and> expired now (completed_retention r) j = Some t)"

fun output_of :: "wait_event list \<Rightarrow> string" where
  "output_of [] = []"
| "output_of (Arrives (Data d) # es) = d @ output_of es"
| "output_of (Arrives (ExtendedData n d) # es) = d @ output_of es"
| "output_of (_ # es) = output_of es"

fun final_status :: "int option \<Rightarrow> wait_event list \<Rightarrow> int option" where
  "final_status s [] = s"
| "final_status s (Arrives (ExitStatus n) # es) = final_status (Some (clamp_exit_status n)) es"
| "final_status s (Arrives (ExitSignal g) # es) = final_status (Some (signal_code g)) es"
| "final_status s (_ # es) = final_status s es"

text \<open>What the streaming loop achieves on the file \<open>p\<close> with content \<open>b\<close>: it reads a prefix of the
  events, all of them if it learns no exit status, and appends their output.\<close>

definition streamed ::
  "fs \<Rightarrow> string list \<Rightarrow> string \<Rightarrow> int option \<Rightarrow> wait_event list \<Rightarrow> fs \<times> (int option, log_error) result \<Rightarrow> bool" where
  "streamed fs p b rc es out \<longleftrightarrow>
     (\<exists>pre post. es = pre @ post \<and> (final_status rc pre = None \<longrightarrow> post = [])
        \<and> out = (fs(p \<mapsto> NFile (b @ output_of pre)), Ok (final_status rc pre)))"

definition heap_ok :: "heap \<Rightarrow> bool" where
  "heap_ok h \<longleftrightarrow> (\<forall>ref j. h ref = Some j \<longrightarrow> job_ok j)"

section \<open>Lemmas\<close>

lemmas job_defs = job_ok_def mark_exit_def mark_state_lost_def get_or_insert_def

inductive_cases job_stepE: "job_step s s'"

lemma new_running_ok: "job_ok (new_running now opts)"
  by (simp add: job_ok_def new_running_def)

lemma mark_exit_ok [intro, simp]: "job_ok (mark_exit now rc j)"
  by (simp add: job_defs split: option.splits)

lemma mark_state_lost_ok [intro, simp]: "job_ok (mark_state_lost now reason j)"
  by (simp add: job_defs split: option.splits)

lemma apply_update_ok [intro, simp]: "job_ok (apply_update now u j)"
  by (simp add: apply_update_def split: job_terminal_update.splits)

lemma exited_ok [simp]: "effective_ok (exited rc)"
  by (simp add: effective_ok_def exited_def job_status_from_exit_code_def)

lemma lost_ok [simp]: "effective_ok (lost reason d)"
  by (simp add: effective_ok_def lost_def)

lemma effective_settled_ok [simp]: "effective_ok (effective_settled j)"
  by (simp add: effective_settled_def split: job_status.splits option.splits)

lemma effective_is_ok: "effective_ok (effective j r settled)"
  by (auto simp: effective_def split: job_status.splits option.splits)
     (simp_all add: effective_ok_def)

lemma effective_running: "e_running (effective j r settled) \<longleftrightarrow> status j = Running \<and> r"
  by (auto simp: effective_def effective_settled_def exited_def lost_def
      split: job_status.splits option.splits)

lemma effective_running_no_update:
  "job_ok j \<Longrightarrow> effective_ok e \<Longrightarrow> e_running e \<Longrightarrow> status j = Running \<Longrightarrow> \<not> needs_update j e"
  by (auto simp: job_ok_def effective_ok_def needs_update_def)

lemma reconcile_ok:
  assumes "job_ok j" "effective_ok e" "e_running e \<longrightarrow> status j = Running" "job_ok current"
  shows "job_ok (if needs_update j e then reconcile now e current else current)"
proof (cases "e_status e = Running")
  case True
  with assms effective_running_no_update[OF assms(1,2)] show ?thesis by (auto simp: effective_ok_def)
next
  case False
  with assms(4) show ?thesis
    by (auto simp: reconcile_def split: job_status.splits option.splits)
qed

lemma reconcile_stores:
  assumes "effective_ok e" "e_status e \<noteq> Running"
  shows "status (reconcile now e j) = e_status e \<and> exit_code (reconcile now e j) = e_exit_code e
    \<and> state_reason (reconcile now e j) = e_reason e"
  using assms
  by (auto simp: effective_ok_def reconcile_def mark_exit_def mark_state_lost_def unwrap_or_def
      split: job_status.splits option.splits)

interpretation job_sys: inductive_invariant job_start job_step job_system_ok
proof
  fix s assume "job_start s"
  then show "job_system_ok s" by (auto simp: job_start_def job_system_ok_def new_running_ok)
next
  fix s s' assume inv: "job_system_ok s" and st: "job_step s s'"
  from st show "job_system_ok s'"
  proof (cases rule: job_step.cases)
    case (check_decides xs j r ys)
    with inv show ?thesis
      by (auto simp: job_system_ok_def effective_is_ok effective_running)
  next
    case (check_writes xs j e ys now)
    with inv show ?thesis
      using reconcile_ok[of j e "sys_job s" now] by (auto simp: job_system_ok_def)
  qed (use inv in \<open>auto simp: job_system_ok_def\<close>)
qed

subsection \<open>The registry\<close>

interpretation job_reg: keyed_store registry_get registry_insert registry_remove
  by unfold_locales (simp_all add: registry_get_def registry_insert_def registry_remove_def)

lemma registry_remove_retention [simp]: "completed_retention (registry_remove r jid) = completed_retention r"
  by (simp add: registry_remove_def)

lemma prune_sweep_step:
  "prune_sweep now locked h ((jid, ref, t) # es) r n =
     (if removable now locked h r jid ref t
      then prune_sweep now locked h es (registry_remove r jid) (n + 1)
      else prune_sweep now locked h es r n)"
proof (cases "registry_get r jid = Some ref")
  case False
  then show ?thesis by (cases "registry_get r jid") (simp_all add: removable_def)
next
  case True
  show ?thesis
  proof (cases "h ref")
    case None
    with True show ?thesis by (simp add: removable_def)
  next
    case (Some j)
    with True show ?thesis
      by (cases "completed_at j") (simp_all add: removable_def expired_def)
  qed
qed

declare prune_sweep.simps(2) [simp del]

lemma prune_sweep_removes_expired:
  "prune_sweep now locked h es r n = (r', m) \<Longrightarrow> registry_get r' jid \<noteq> registry_get r jid \<Longrightarrow>
   registry_get r' jid = None \<and> (\<exists>ref t. (jid, ref, t) \<in> set es \<and> removable now locked h r jid ref t)"
proof (induction es arbitrary: r n)
  case (Cons e es)
  obtain k ref t where e: "e = (k, ref, t)" by (cases e)
  show ?case
  proof (cases "removable now locked h r k ref t")
    case False
    with Cons e show ?thesis by (fastforce simp: prune_sweep_step)
  next
    case True
    with Cons.prems e have sw: "prune_sweep now locked h es (registry_remove r k) (n + 1) = (r', m)"
      by (simp add: prune_sweep_step)
    show ?thesis
    proof (cases "jid = k")
      case same: True
      have "registry_get r' jid = None"
      proof (rule ccontr)
        assume ne: "registry_get r' jid \<noteq> None"
        then have "registry_get r' jid \<noteq> registry_get (registry_remove r k) jid"
          using same by (simp add: job_reg.get_remove)
        from Cons.IH[OF sw this] ne show False by simp
      qed
      with True same e show ?thesis by auto
    next
      case False
      then have "registry_get r' jid \<noteq> registry_get (registry_remove r k) jid"
        using Cons.prems(2) by (simp add: job_reg.get_remove)
      from Cons.IH[OF sw this] False e show ?thesis
        by (auto simp: removable_def job_reg.get_remove)
    qed
  qed
qed simp

lemma prune_scan_entries:
  "(jid, ref, t) \<in> set (prune_scan now r h ids) \<longleftrightarrow>
     jid \<in> set ids \<and> removable now (\<lambda>_. False) h r jid ref t"
  by (induction ids) (auto simp: removable_def split: option.splits)

lemma prune_scan_keys: "map fst (prune_scan now r h ids)
    = filter (\<lambda>jid. \<exists>ref t. removable now (\<lambda>_. False) h r jid ref t) ids"
  by (induction ids) (auto simp: removable_def split: option.splits)

lemma prune_sweep_all:
  "distinct (map fst es) \<Longrightarrow> \<forall>(jid, ref, t)\<in>set es. removable now (\<lambda>_. False) h r jid ref t \<Longrightarrow>
   prune_sweep now (\<lambda>_. False) h es r n
     = (fold (\<lambda>k r. registry_remove r k) (map fst es) r, n + length es)"
proof (induction es arbitrary: r n)
  case (Cons e es)
  obtain k ref t where e: "e = (k, ref, t)" by (cases e)
  have "\<forall>(jid, ref, t)\<in>set es. removable now (\<lambda>_. False) h (registry_remove r k) jid ref t"
  proof (clarify)
    fix a b c assume m: "(a, b, c) \<in> set es"
    with Cons.prems(1) e have "a \<noteq> k" by force
    moreover have "removable now (\<lambda>_. False) h r a b c" using Cons.prems(2) m by auto
    ultimately show "removable now (\<lambda>_. False) h (registry_remove r k) a b c"
      by (simp add: removable_def job_reg.get_remove)
  qed
  with Cons e show ?case by (simp add: prune_sweep_step)
qed simp

subsection \<open>Streaming\<close>

lemma final_status_range:
  "final_status s es = Some rc \<Longrightarrow> (\<And>x. s = Some x \<Longrightarrow> 0 \<le> x \<and> x \<le> 255) \<Longrightarrow> 0 \<le> rc \<and> rc \<le> 255"
proof (induction s es rule: final_status.induct)
  case (2 s n es)
  then show ?case by (auto simp: clamp_exit_status_def split: if_splits)
next
  case (3 s g es)
  moreover have "0 \<le> signal_code g \<and> signal_code g \<le> 255" by (cases g) simp_all
  ultimately show ?case by auto
qed simp_all

lemma streamed_stop:
  "fs p = Some (NFile b) \<Longrightarrow> rc \<noteq> None \<or> es = [] \<Longrightarrow> streamed fs p b rc es (fs, Ok rc)"
  unfolding streamed_def
  by (intro exI[of _ "[] :: wait_event list"] exI[of _ es]) (auto simp: fun_upd_idem)

lemma streamed_step:
  assumes "streamed fs' p (b @ output_of [e]) rc' es out" "fs' = fs(p \<mapsto> NFile (b @ output_of [e]))"
    and "\<And>xs. final_status rc (e # xs) = final_status rc' xs"
    and "\<And>xs. output_of (e # xs) = output_of [e] @ output_of xs"
  shows "streamed fs p b rc (e # es) out"
proof -
  from assms(1) obtain pre post where pp: "es = pre @ post" "final_status rc' pre = None \<longrightarrow> post = []"
    "out = (fs'(p \<mapsto> NFile ((b @ output_of [e]) @ output_of pre)), Ok (final_status rc' pre))"
    unfolding streamed_def by (elim exE conjE)
  have "fs'(p \<mapsto> NFile ((b @ output_of [e]) @ output_of pre)) = fs(p \<mapsto> NFile (b @ output_of (e # pre)))"
    unfolding assms(2) assms(4)[of pre] by simp
  with pp assms(3)[of pre] show ?thesis
    unfolding streamed_def by (intro exI[of _ "e # pre"] exI[of _ post]) simp
qed

lemma stream_loop_spec:
  assumes "\<And>d. accepts d"
  shows "fs p = Some (NFile b) \<Longrightarrow> streamed fs p b rc es (stream_loop accepts p fs rc saw es)"
proof (induction es arbitrary: fs b rc saw)
  case Nil
  then show ?case by (simp add: streamed_stop)
next
  case (Cons e es)
  have go: "streamed fs p b rc (e # es) (stream_loop accepts p (fs(p \<mapsto> NFile (b @ output_of [e]))) rc' saw' es)"
    if "\<And>xs. final_status rc (e # xs) = final_status rc' xs"
      and "\<And>xs. output_of (e # xs) = output_of [e] @ output_of xs" for rc' saw'
    by (rule streamed_step[OF Cons.IH refl that]) simp
  have same: "fs(p \<mapsto> NFile b) = fs" using Cons.prems by (simp add: fun_upd_idem)
  note stop = streamed_stop[of fs p b rc "e # es"]
  show ?case
  proof (cases e)
    case Silence
    with stop go[of rc saw] Cons.prems same show ?thesis by simp
  next
    case (Arrives m)
    show ?thesis
    proof (cases m)
      case (Data d)
      with Arrives go[of rc saw] Cons.prems assms[of d] show ?thesis by (simp add: write_all_def)
    next
      case (ExtendedData n d)
      with Arrives go[of rc saw] Cons.prems assms[of d] show ?thesis by (simp add: write_all_def)
    next
      case (ExitStatus n)
      with Arrives go[of "Some (clamp_exit_status n)" saw] same show ?thesis by simp
    next
      case (ExitSignal g)
      with Arrives go[of "Some (signal_code g)" saw] same show ?thesis by simp
    next
      case Eof
      with Arrives stop go[of rc True] Cons.prems same show ?thesis by (cases rc) simp_all
    next
      case Close
      with Arrives stop go[of rc True] Cons.prems same show ?thesis by (cases rc) simp_all
    next
      case Failure
      with Arrives go[of rc saw] same show ?thesis by simp
    next
      case OtherMsg
      with Arrives go[of rc saw] same show ?thesis by simp
    qed
  qed
qed

section \<open>Properties\<close>

text \<open>C24: however the streaming task and any number of checks interleave, a job is always in one of
  four consistent states: running with no exit code, completed with exit code 0, failed with another
  exit code, or lost with a reason; and exactly the last three have a completion time.\<close>

theorem job_always_consistent:
  assumes "reachable job_start job_step s"
  shows "job_ok (sys_job s)"
  using job_sys.reachable_inv[OF assms] by (simp add: job_system_ok_def)

theorem job_always_consistent_witness:
  "job_ok (apply_update 9 (UpdateExit 0) (new_running 5 \<lparr>n_job_id = ''j'', n_pid = 7, n_log_path = ''/l'',
     n_command = ''c'', n_connection_id = ''x''\<rparr>))"
proof -
  let ?j = "new_running 5 \<lparr>n_job_id = ''j'', n_pid = 7, n_log_path = ''/l'', n_command = ''c'', n_connection_id = ''x''\<rparr>"
  let ?s = "\<lparr>sys_job = ?j, sys_streaming = True, sys_checks = []\<rparr>"
  have "reachable job_start job_step ?s" by (rule reachable_init) (auto simp: job_start_def)
  then have "reachable job_start job_step
      (?s\<lparr>sys_job := apply_update 9 (UpdateExit 0) (sys_job ?s), sys_streaming := False\<rparr>)"
    by (rule reachable_step) (rule stream_ends, simp)
  from job_always_consistent[OF this] show ?thesis by simp
qed

text \<open>A check can destroy an exit status. There is a run in which the streaming task has
  recorded that the job completed with exit code 0, and the write of a check that had decided before
  turns the job into a lost one and drops the exit code.\<close>

theorem check_overwrites_exit_status:
  "\<exists>s s'. reachable job_start job_step s \<and> status (sys_job s) = Completed \<and> exit_code (sys_job s) = Some 0
     \<and> job_step s s' \<and> status (sys_job s') = StateLost \<and> exit_code (sys_job s') = None"
proof -
  let ?j = "new_running 5 \<lparr>n_job_id = ''j'', n_pid = 7, n_log_path = ''/l'', n_command = ''c'', n_connection_id = ''x''\<rparr>"
  let ?e = "lost None ''pid_not_running_and_no_exit_status''"
  let ?s0 = "\<lparr>sys_job = ?j, sys_streaming = True, sys_checks = []\<rparr>"
  let ?s1 = "\<lparr>sys_job = ?j, sys_streaming = True, sys_checks = [CheckRead ?j False]\<rparr>"
  let ?s2 = "\<lparr>sys_job = ?j, sys_streaming = True, sys_checks = [CheckDecided ?j ?e]\<rparr>"
  let ?s3 = "\<lparr>sys_job = mark_exit 9 0 ?j, sys_streaming = False, sys_checks = [CheckDecided ?j ?e]\<rparr>"
  let ?s4 = "\<lparr>sys_job = reconcile 9 ?e (mark_exit 9 0 ?j), sys_streaming = False, sys_checks = []\<rparr>"
  have e: "effective ?j False ?j = ?e"
    by (simp add: effective_def effective_settled_def new_running_def)
  have u: "needs_update ?j ?e" by (simp add: needs_update_def lost_def new_running_def)
  have "reachable job_start job_step ?s0" by (rule reachable_init) (auto simp: job_start_def)
  moreover have "job_step ?s0 ?s1" using check_reads[of ?s0 False] by simp
  moreover have "job_step ?s1 ?s2" using check_decides[of ?s1 "[]" ?j False "[]"] e by simp
  moreover have "job_step ?s2 ?s3"
    using stream_ends[of ?s2 9 "UpdateExit 0"] by (simp add: apply_update_def)
  ultimately have "reachable job_start job_step ?s3" by (blast intro: reachable_step)
  moreover have "job_step ?s3 ?s4" using check_writes[of ?s3 "[]" ?j ?e "[]" 9] u by simp
  ultimately show ?thesis
    by (intro exI[of _ ?s3] exI[of _ ?s4])
       (simp add: mark_exit_def reconcile_def lost_def mark_state_lost_def)
qed

text \<open>What \<open>check_process\<close> reports is consistent, and it is what it stores: the job is reported
  as running exactly in the state \<open>running\<close>, an exit code only for a completed (0) or failed (not 0)
  job, a reason exactly for a lost one, and after the check the registered job has the reported state,
  exit code and reason, whatever other tasks did to it during the settling wait.\<close>

theorem check_process_report:
  assumes "check_process now probe env fresh load r h jid = Ok (r', h', persisted, ps)"
    and "heap_ok h" "\<And>j. load = Ok (Some j) \<Longrightarrow> job_ok j" "\<And>g. heap_ok g \<Longrightarrow> heap_ok (env g)"
  shows "\<exists>e ref j. effective_ok e \<and> ps_state ps = status_as_str (e_status e) \<and> ps_running ps = e_running e
    \<and> ps_state_reason ps = e_reason e \<and> ps_exit_code ps = reported_exit_code e
    \<and> registry_get r' jid = Some ref \<and> h' ref = Some j \<and> job_ok j
    \<and> status j = e_status e \<and> exit_code j = e_exit_code e \<and> state_reason j = e_reason e"
proof -
  from assms(1) obtain h1 ref j pr where
    find: "find_job r h fresh load jid = Ok (r', h1, ref)" and j: "h1 ref = Some j"
    and res: "settle_and_update now env h1 ref j pr = (h', persisted, ps)"
    by (auto simp: check_process_def split: option.splits)
  have ok1: "heap_ok h1" and reg: "registry_get r' jid = Some ref"
    using find assms(2,3)
    by (auto simp: find_job_def heap_ok_def job_reg.get_insert split: option.splits result.splits if_splits)
  define h2 where "h2 = (if status j = Running \<and> \<not> pr \<and> exit_code j = None then env h1 else h1)"
  define settled where "settled = unwrap_or (h2 ref) j"
  define e where "e = effective j pr settled"
  have jok: "job_ok j" using ok1 j by (auto simp: heap_ok_def)
  have sok: "job_ok settled"
    using jok ok1 assms(4)[OF ok1] j
    by (auto simp: settled_def h2_def heap_ok_def unwrap_or_def split: option.splits)
  have eok: "effective_ok e" unfolding e_def by (rule effective_is_ok)
  have h': "h' = (if needs_update j e then h2(ref \<mapsto> reconcile now e settled) else h2)"
    and ps: "ps_state ps = status_as_str (e_status e)" "ps_running ps = e_running e"
      "ps_state_reason ps = e_reason e" "ps_exit_code ps = reported_exit_code e"
    using res unfolding settle_and_update_def Let_def
    by (auto simp: h2_def[symmetric] settled_def[symmetric] e_def[symmetric])
  have stored: "\<exists>j'. h' ref = Some j' \<and> job_ok j' \<and> status j' = e_status e
      \<and> exit_code j' = e_exit_code e \<and> state_reason j' = e_reason e"
  proof (cases "needs_update j e")
    case True
    have run: "e_running e \<longrightarrow> status j = Running" unfolding e_def by (simp add: effective_running)
    have "e_status e \<noteq> Running"
      using True effective_running_no_update[OF jok eok] run eok by (auto simp: effective_ok_def)
    then show ?thesis
      using True eok reconcile_stores[OF eok, of now settled] reconcile_ok[OF jok eok run sok, of now]
      by (auto simp: h')
  next
    case False
    then have "\<not> (status j = Running \<and> \<not> pr)"
      using eok by (auto simp: needs_update_def e_def effective_ok_def effective_running)
    then have "h' = h1" using False by (auto simp: h' h2_def)
    with False j jok show ?thesis by (auto simp: needs_update_def)
  qed
  with stored ps eok reg show ?thesis by blast
qed

theorem check_process_report_witness:
  "\<exists>e ref j. effective_ok e \<and> ''state_lost'' = status_as_str (e_status e) \<and> False = e_running e
    \<and> Some ''pid_not_running_and_no_exit_status'' = e_reason e \<and> None = reported_exit_code e
    \<and> registry_get (registry_insert (registry_new 0) ''j'' 0) ''j'' = Some ref
    \<and> [0 \<mapsto> reconcile 9 (lost None ''pid_not_running_and_no_exit_status'') (new_running 5 \<lparr>n_job_id = ''j'',
        n_pid = 7, n_log_path = ''/l'', n_command = ''c'', n_connection_id = ''x''\<rparr>)] ref = Some j \<and> job_ok j
    \<and> status j = e_status e \<and> exit_code j = e_exit_code e \<and> state_reason j = e_reason e"
proof -
  let ?j = "new_running 5 \<lparr>n_job_id = ''j'', n_pid = 7, n_log_path = ''/l'', n_command = ''c'', n_connection_id = ''x''\<rparr>"
  let ?e = "lost None ''pid_not_running_and_no_exit_status''"
  let ?r = "registry_insert (registry_new 0) ''j'' 0"
  let ?ps = "\<lparr>ps_pid = 7, ps_state = ''state_lost'', ps_running = False, ps_exit_code = None,
     ps_state_reason = Some ''pid_not_running_and_no_exit_status'', ps_elapsed_time = elapsed_time 9 ?j,
     ps_command = ''c'', ps_log_path = from_utf8_lossy ''/l''\<rparr>"
  have "check_process 9 (\<lambda>_. Ok False) id 1 (Ok None) ?r [0 \<mapsto> ?j] ''j''
      = Ok (?r, [0 \<mapsto> reconcile 9 ?e ?j], Some (reconcile 9 ?e ?j), ?ps)"
    by (simp add: check_process_def settle_and_update_def find_job_def registry_insert_def registry_get_def new_running_def
        effective_def effective_settled_def unwrap_or_def lost_def needs_update_def reported_exit_code_def Let_def)
  from check_process_report[OF this] new_running_ok show ?thesis
    by (auto simp: heap_ok_def)
qed

text \<open>Pruning never drops a live job. Whatever happens to the registry and the jobs between its
  two passes, an entry disappears only if it still refers to the job that the first pass saw, that job
  is unlocked and terminal, and its completion lies further back than the retention time; every other
  entry stays as it was.\<close>

theorem prune_sweep_safe:
  assumes "prune_sweep now locked h (prune_scan now r0 h0 ids) r 0 = (r', n)"
    and "registry_get r' jid \<noteq> registry_get r jid"
  shows "registry_get r' jid = None \<and> (\<exists>ref j t. registry_get r0 jid = Some ref \<and> registry_get r jid = Some ref
    \<and> \<not> locked ref \<and> h ref = Some j \<and> is_terminal j \<and> completed_at j = Some t
    \<and> now - t > int (completed_retention r))"
proof -
  from prune_sweep_removes_expired[OF assms] obtain ref t where
    "registry_get r' jid = None" "(jid, ref, t) \<in> set (prune_scan now r0 h0 ids)"
    "removable now locked h r jid ref t" by blast
  then show ?thesis
    by (auto simp: prune_scan_entries removable_def expired_def split: if_splits option.splits)
qed

theorem prune_sweep_safe_witness:
  "\<exists>ref j t. registry_get (registry_insert (registry_new 3) ''a'' 0) ''a'' = Some ref
    \<and> [0 \<mapsto> mark_exit 10 0 (new_running 5 \<lparr>n_job_id = ''a'', n_pid = 7, n_log_path = ''/l'',
         n_command = ''c'', n_connection_id = ''x''\<rparr>)] ref = Some j
    \<and> is_terminal j \<and> completed_at j = Some t \<and> 14 - t > 3"
proof -
  let ?j = "mark_exit 10 0 (new_running 5 \<lparr>n_job_id = ''a'', n_pid = 7, n_log_path = ''/l'', n_command = ''c'', n_connection_id = ''x''\<rparr>)"
  let ?r = "registry_insert (registry_new 3) ''a'' 0"
  have sc: "prune_scan 14 ?r [0 \<mapsto> ?j] [''a''] = [(''a'', 0, 10)]"
    by (simp add: registry_get_def registry_insert_def registry_new_def expired_def is_terminal_def
        mark_exit_def new_running_def get_or_insert_def)
  have "removable 14 (\<lambda>_. False) [0 \<mapsto> ?j] ?r ''a'' 0 10"
    using sc prune_scan_entries[of "''a''" 0 10 14 ?r "[0 \<mapsto> ?j]" "[''a'']"] by simp
  then have sw: "prune_sweep 14 (\<lambda>_. False) [0 \<mapsto> ?j] (prune_scan 14 ?r [0 \<mapsto> ?j] [''a'']) ?r 0
      = (registry_remove ?r ''a'', 1)"
    unfolding sc by (simp add: prune_sweep_step)
  have "registry_get (registry_remove ?r ''a'') ''a'' \<noteq> registry_get ?r ''a''"
    by (simp add: job_reg.get_remove job_reg.get_insert)
  from prune_sweep_safe[OF sw this] show ?thesis
    by (auto simp: registry_insert_def registry_new_def)
qed

text \<open>When nothing interferes, pruning removes exactly the expired terminal jobs, keeps all
  others, and counts what it removed.\<close>

theorem prune_expired_exact:
  assumes "distinct ids" "set ids = dom (jobs r)"
  shows "case prune_expired now ids h r of (r', n) \<Rightarrow>
      (\<forall>jid. registry_get r' jid =
         (if \<exists>ref j t. registry_get r jid = Some ref \<and> h ref = Some j \<and> is_terminal j
               \<and> completed_at j = Some t \<and> now - t > int (completed_retention r)
          then None else registry_get r jid))
    \<and> n = card {jid \<in> dom (jobs r). registry_get r' jid = None}"
proof -
  define gone where "gone jid \<longleftrightarrow> (\<exists>ref t. removable now (\<lambda>_. False) h r jid ref t)" for jid
  define es where "es = prune_scan now r h ids"
  have keys: "map fst es = filter gone ids" unfolding es_def gone_def by (rule prune_scan_keys)
  have "\<forall>(jid, ref, t)\<in>set es. removable now (\<lambda>_. False) h r jid ref t"
    unfolding es_def by (auto simp: prune_scan_entries)
  moreover have "distinct (map fst es)" using assms(1) keys by simp
  ultimately have sweep: "prune_sweep now (\<lambda>_. False) h es r 0
      = (fold (\<lambda>k r. registry_remove r k) (filter gone ids) r, length es)"
    using prune_sweep_all[of es now h r 0] keys by simp
  have len: "length es = card (set (filter gone ids))"
    using keys assms(1) by (metis distinct_card distinct_filter length_map)
  obtain r' n where pr: "prune_expired now ids h r = (r', n)" by (cases "prune_expired now ids h r")
  have rn: "r' = fold (\<lambda>k r. registry_remove r k) (filter gone ids) r" "n = length es"
    using pr sweep keys by (auto simp: prune_expired_def es_def[symmetric] Let_def split: if_splits)
  have in_dom: "gone jid \<Longrightarrow> jid \<in> set ids" for jid
    using assms(2) by (auto simp: gone_def removable_def registry_get_def)
  have get: "registry_get r' jid = (if gone jid then None else registry_get r jid)" for jid
    using in_dom by (auto simp: rn job_reg.get_fold_remove)
  have gone_iff: "gone jid \<longleftrightarrow> (\<exists>ref j t. registry_get r jid = Some ref \<and> h ref = Some j \<and> is_terminal j
      \<and> completed_at j = Some t \<and> now - t > int (completed_retention r))" for jid
    by (fastforce simp: gone_def removable_def expired_def split: if_splits option.splits)
  have "{jid \<in> dom (jobs r). registry_get r' jid = None} = set (filter gone ids)"
    using in_dom assms(2) get[unfolded registry_get_def] by (auto simp: registry_get_def)
  with get gone_iff rn len pr show ?thesis by auto
qed

theorem prune_expired_exact_witness:
  "registry_get (fst (prune_expired 14 [''a''] [0 \<mapsto> mark_exit 10 0 (new_running 5 \<lparr>n_job_id = ''a'', n_pid = 7,
     n_log_path = ''/l'', n_command = ''c'', n_connection_id = ''x''\<rparr>)] (registry_insert (registry_new 3) ''a'' 0))) ''a'' = None"
proof -
  let ?j = "mark_exit 10 0 (new_running 5 \<lparr>n_job_id = ''a'', n_pid = 7, n_log_path = ''/l'', n_command = ''c'', n_connection_id = ''x''\<rparr>)"
  let ?r = "registry_insert (registry_new 3) ''a'' 0"
  have "set [''a''] = dom (jobs ?r)" by (simp add: registry_insert_def registry_new_def)
  note ex = prune_expired_exact[OF _ this, where now = 14 and h = "[0 \<mapsto> ?j]"]
  have "registry_get ?r ''a'' = Some 0 \<and> is_terminal ?j \<and> completed_at ?j = Some 10 \<and> 14 - (10::int) > int (completed_retention ?r)"
    by (simp add: registry_get_def registry_insert_def registry_new_def is_terminal_def mark_exit_def
        new_running_def get_or_insert_def)
  then have "\<exists>ref j t. registry_get ?r ''a'' = Some ref \<and> [0 \<mapsto> ?j] ref = Some j \<and> is_terminal j
      \<and> completed_at j = Some t \<and> 14 - t > int (completed_retention ?r)" by auto
  with ex show ?thesis by (auto split: prod.splits)
qed

text \<open>The log is complete and the exit status is the last one reported. When the log file opens
  and accepts writes, the streaming task appends the output it was handed at the start and then
  exactly the output of the events it reads, standard output and standard error in their order of
  arrival; it stops before the channel ends only when it knows the exit status; and it records that
  status, which lies between 0 and 255, in the registered job.\<close>

theorem stream_channel_complete:
  assumes "\<And>d. accepts d" "open_append_no_symlink fs path = Ok (fs1, p)" "fs1 p = Some (NFile b)"
    and "registry_get r jid = Some ref" "h ref = Some j"
  shows "\<exists>pre post. es = pre @ post \<and> (final_status None pre = None \<longrightarrow> post = [])
    \<and> stream_channel accepts error_text now r h fs jid path initial es
      = (fs1(p \<mapsto> NFile (b @ initial @ output_of pre)),
         h(ref \<mapsto> apply_update now (terminal_update error_text (Ok (final_status None pre))) j),
         Some (apply_update now (terminal_update error_text (Ok (final_status None pre))) j),
         Ok (final_status None pre))
    \<and> (\<forall>rc. final_status None pre = Some rc \<longrightarrow> 0 \<le> rc \<and> rc \<le> 255)"
proof -
  define fs2 where "fs2 = fs1(p \<mapsto> NFile (b @ initial))"
  have "stream_channel_inner accepts fs path initial es = stream_loop accepts p fs2 None False es"
    using assms(1-3) by (auto simp: stream_channel_inner_def write_all_def fs2_def fun_upd_idem)
  moreover have "streamed fs2 p (b @ initial) None es (stream_loop accepts p fs2 None False es)"
    using stream_loop_spec[of accepts fs2 p "b @ initial" None es False] assms(1) by (simp add: fs2_def)
  then obtain pre post where pp: "es = pre @ post" "final_status None pre = None \<longrightarrow> post = []"
    "stream_loop accepts p fs2 None False es = (fs2(p \<mapsto> NFile ((b @ initial) @ output_of pre)), Ok (final_status None pre))"
    unfolding streamed_def by (elim exE conjE)
  ultimately have "stream_channel_inner accepts fs path initial es
      = (fs1(p \<mapsto> NFile (b @ initial @ output_of pre)), Ok (final_status None pre))"
    by (simp add: fs2_def)
  then have "stream_channel accepts error_text now r h fs jid path initial es
      = (fs1(p \<mapsto> NFile (b @ initial @ output_of pre)),
         h(ref \<mapsto> apply_update now (terminal_update error_text (Ok (final_status None pre))) j),
         Some (apply_update now (terminal_update error_text (Ok (final_status None pre))) j),
         Ok (final_status None pre))"
    using assms(4,5) by (simp add: stream_channel_def update_job_terminal_def Let_def)
  moreover have "\<forall>rc. final_status None pre = Some rc \<longrightarrow> 0 \<le> rc \<and> rc \<le> 255"
    using final_status_range by blast
  ultimately show ?thesis using pp(1,2) by (intro exI[of _ pre] exI[of _ post]) (simp only: simp_thms)
qed

theorem stream_channel_complete_witness:
  "\<exists>pre post. [Arrives (Data ''o''), Arrives (ExitStatus 700), Silence, Arrives (Data ''late'')] = pre @ post
    \<and> (final_status None pre = None \<longrightarrow> post = [])
    \<and> stream_channel (\<lambda>_. True) (\<lambda>_. []) 9 (registry_insert (registry_new 3) ''a'' 0)
        [0 \<mapsto> new_running 5 \<lparr>n_job_id = ''a'', n_pid = 7, n_log_path = ''/l'', n_command = ''c'', n_connection_id = ''x''\<rparr>]
        Map.empty ''a'' ''/l'' ''i'' [Arrives (Data ''o''), Arrives (ExitStatus 700), Silence, Arrives (Data ''late'')]
      = ((Map.empty([''l''] \<mapsto> NFile []))([''l''] \<mapsto> NFile ([] @ ''i'' @ output_of pre)),
         [0 \<mapsto> new_running 5 \<lparr>n_job_id = ''a'', n_pid = 7, n_log_path = ''/l'', n_command = ''c'', n_connection_id = ''x''\<rparr>]
           (0 \<mapsto> apply_update 9 (terminal_update (\<lambda>_. []) (Ok (final_status None pre)))
              (new_running 5 \<lparr>n_job_id = ''a'', n_pid = 7, n_log_path = ''/l'', n_command = ''c'', n_connection_id = ''x''\<rparr>)),
         Some (apply_update 9 (terminal_update (\<lambda>_. []) (Ok (final_status None pre)))
              (new_running 5 \<lparr>n_job_id = ''a'', n_pid = 7, n_log_path = ''/l'', n_command = ''c'', n_connection_id = ''x''\<rparr>)),
         Ok (final_status None pre))
    \<and> (\<forall>rc. final_status None pre = Some rc \<longrightarrow> 0 \<le> rc \<and> rc \<le> 255)"
proof (rule stream_channel_complete)
  have "components ''/l'' = [RootDir, Normal ''l'']" by code_simp
  then show "open_append_no_symlink Map.empty ''/l'' = Ok (Map.empty([''l''] \<mapsto> NFile []), [''l''])"
    by (simp add: open_append_no_symlink_def symlink_metadata_def raw_open_append_def node_at_def)
qed (simp_all add: registry_get_def registry_insert_def)

end
