(* ===== verification/Spooler.thy ===== *)
theory Spooler
  imports Jobs Patch
begin

text \<open>
  The spool directory: \<open>src/src/background/spooler.rs\<close>, and the check of log paths of
  \<open>src/src/server/validation/common.rs\<close>. The state is the file system with the owner and the mode of
  each entry. The JSON encoder and decoder are arguments; the round trip assumes of them that decoding
  inverts encoding.
\<close>

unbundle bit_operations_syntax

section \<open>Definitions\<close>

subsection \<open>Names\<close>

datatype background_error =
    BgIo io_error
  | InvalidJobId string
  | InvalidState string

definition is_job_id_byte :: "char \<Rightarrow> bool" where
  "is_job_id_byte b \<longleftrightarrow> is_ascii_alphanumeric b \<or> b = CHR ''-'' \<or> b = CHR ''_''"

definition validate_job_id :: "string \<Rightarrow> (unit, background_error) result" where
  "validate_job_id jid =
     (if jid = [] \<or> length jid > 128 then Err (InvalidJobId jid)
      else if NUL \<in> set jid then Err (InvalidJobId jid)
      else case components jid of
        [Normal _] \<Rightarrow>
          if \<not> list_all is_job_id_byte jid then Err (InvalidJobId jid) else Ok ()
      | _ \<Rightarrow> Err (InvalidJobId jid))"

definition split_spool_file_name :: "string \<Rightarrow> (string \<times> string) option" where
  "split_spool_file_name name =
     (case rsplit_once (CHR ''.'') name of
        None \<Rightarrow> None
      | Some (stem, ext) \<Rightarrow> if stem = [] \<or> ext = [] then None else Some (stem, ext))"

definition default_spool_dir :: "string option \<Rightarrow> string \<Rightarrow> nat \<Rightarrow> string" where
  "default_spool_dir runtime_dir temp_dir effective_uid =
     (case runtime_dir of
        Some d \<Rightarrow>
          if has_root d then path_join d ''ssh-mcp''
          else path_join (if has_root temp_dir then temp_dir else ''/tmp'') (''ssh-mcp-'' @ show_nat effective_uid)
      | None \<Rightarrow>
          path_join (if has_root temp_dir then temp_dir else ''/tmp'') (''ssh-mcp-'' @ show_nat effective_uid))"

definition log_path_for :: "string \<Rightarrow> string \<Rightarrow> (string, background_error) result" where
  "log_path_for base_dir jid =
     and_then (validate_job_id jid) (\<lambda>_. Ok (path_join base_dir (jid @ ''.log'')))"

definition state_path_for :: "string \<Rightarrow> string \<Rightarrow> (string, background_error) result" where
  "state_path_for base_dir jid =
     and_then (validate_job_id jid) (\<lambda>_. Ok (path_join base_dir (jid @ ''.state'')))"

datatype log_path_error =
    LogPathString string | LogPathNotAbsolute | LogPathDots | LogPathNotUnder string | LogPathExtension

definition validate_background_log_path :: "string \<Rightarrow> string \<Rightarrow> (unit, log_path_error) result" where
  "validate_background_log_path base_dir path =
     and_then (map_err LogPathString (validate_basic_path_str path ''log_path'')) (\<lambda>_.
       if \<not> has_root path then Err LogPathNotAbsolute
       else if list_ex (\<lambda>c. c = CurDir \<or> c = ParentDir) (components path) then Err LogPathDots
       else if path_parent path \<noteq> Some (components base_dir) then Err (LogPathNotUnder base_dir)
       else if extension path \<noteq> Some ''log'' then Err LogPathExtension
       else Ok ())"

subsection \<open>The directory\<close>

record disk =
  d_fs :: fs
  d_uid :: "string list \<Rightarrow> nat"
  d_mode :: "string list \<Rightarrow> nat"

text \<open>\<open>creator\<close> is the effective user, \<open>new_mode\<close> the mode 0700 less the process's umask.\<close>

definition create_spool_dir :: "nat \<Rightarrow> nat \<Rightarrow> disk \<Rightarrow> string \<Rightarrow> (disk, io_error) result" where
  "create_spool_dir creator new_mode d path =
     and_then (walk MAX_LINKS (d_fs d) False [] (components path)) (\<lambda>q.
       and_then (create_dir (d_fs d) path) (\<lambda>fs'.
         Ok (d\<lparr>d_fs := fs', d_uid := (d_uid d)(q := creator), d_mode := (d_mode d)(q := new_mode)\<rparr>)))"

definition validate_spool_dir_meta :: "node \<Rightarrow> (unit, background_error) result" where
  "validate_spool_dir_meta meta =
     (if is_symlink meta then Err (InvalidState ''spool directory is a symlink'')
      else if \<not> is_dir meta then Err (InvalidState ''spool path exists but is not a directory'')
      else Ok ())"

definition validate_spool_dir_owner :: "nat \<Rightarrow> nat \<Rightarrow> (unit, background_error) result" where
  "validate_spool_dir_owner uid expected_uid =
     (if uid \<noteq> expected_uid
      then Err (InvalidState ''spool directory is not owned by the effective user'') else Ok ())"

definition ensure_dir_inner :: "nat \<Rightarrow> string \<Rightarrow> nat \<Rightarrow> disk \<Rightarrow> (disk, background_error) result" where
  "ensure_dir_inner new_mode base_dir expected_uid d =
     and_then
       (case create_spool_dir expected_uid new_mode d base_dir of
          Ok d1 \<Rightarrow> Ok (d1, True)
        | Err AlreadyExistsE \<Rightarrow> Ok (d, False)
        | Err e \<Rightarrow> Err (BgIo e))
       (\<lambda>(d1, created).
          and_then (map_err BgIo (walk MAX_LINKS (d_fs d1) False [] (components base_dir))) (\<lambda>q.
          and_then (map_err BgIo (node_at (d_fs d1) q)) (\<lambda>meta.
          and_then (validate_spool_dir_meta meta) (\<lambda>_.
          and_then (validate_spool_dir_owner (d_uid d1 q) expected_uid) (\<lambda>_.
            if \<not> created \<and> d_mode d1 q AND 18 \<noteq> 0
            then Err (InvalidState ''spool directory is group- or world-writable'')
            else if d_mode d1 q AND 511 \<noteq> 448
            then Ok (d1\<lparr>d_mode := (d_mode d1)(q := 448)\<rparr>)
            else Ok d1)))))"

subsection \<open>State files\<close>

definition raw_open_write :: "fs \<Rightarrow> string \<Rightarrow> (string list, io_error) result" where
  "raw_open_write fs path =
     and_then (walk MAX_LINKS fs False [] (components path)) (\<lambda>p.
       case node_at fs p of
         Err _ \<Rightarrow> Ok p
       | Ok (NFile b) \<Rightarrow> Ok p
       | Ok NDir \<Rightarrow> Err OtherIoE
       | Ok (NLink t) \<Rightarrow> Err LoopE)"

definition open_spool_write_no_symlink :: "fs \<Rightarrow> string \<Rightarrow> (string list, background_error) result" where
  "open_spool_write_no_symlink fs path =
     and_then
       (case symlink_metadata fs path of
          Ok meta \<Rightarrow> if is_symlink meta then Err (InvalidState ''spool metadata path is a symlink'') else Ok ()
        | Err NotFoundE \<Rightarrow> Ok ()
        | Err e \<Rightarrow> Err (BgIo e))
       (\<lambda>_. case raw_open_write fs path of
          Ok p \<Rightarrow> Ok p
        | Err e \<Rightarrow>
            (case symlink_metadata fs path of
               Ok meta \<Rightarrow>
                 if is_symlink meta then Err (InvalidState ''spool metadata path is a symlink'') else Err (BgIo e)
             | Err _ \<Rightarrow> Err (BgIo e)))"

definition open_spool_read_no_symlink :: "fs \<Rightarrow> string \<Rightarrow> (string option, background_error) result" where
  "open_spool_read_no_symlink fs path =
     (case symlink_metadata fs path of
        Ok meta \<Rightarrow>
          if is_symlink meta then Err (InvalidState ''spool metadata path is a symlink'')
          else (case meta of
                  NFile b \<Rightarrow> Ok (Some b)
                | _ \<Rightarrow> Err (InvalidState ''spool metadata path is not a regular file''))
      | Err NotFoundE \<Rightarrow> Ok None
      | Err e \<Rightarrow> Err (BgIo e))"

definition persist_job_state ::
  "(persisted_job_state \<Rightarrow> string option) \<Rightarrow> nat \<Rightarrow> string \<Rightarrow> nat \<Rightarrow> disk \<Rightarrow> job_state \<Rightarrow>
   (disk, background_error) result" where
  "persist_job_state to_json new_mode base_dir uid d job =
     and_then (ensure_dir_inner new_mode base_dir uid d) (\<lambda>d1.
       if path_parent (log_path job) \<noteq> Some (components base_dir)
       then Err (InvalidState ''job log path is outside spool directory'')
       else
         and_then (state_path_for base_dir (job_id job)) (\<lambda>path.
         and_then (case to_json (to_persisted job) of
                     None \<Rightarrow> Err (InvalidState ''failed to serialize persisted job state'')
                   | Some payload \<Rightarrow> Ok payload) (\<lambda>payload.
         and_then (open_spool_write_no_symlink (d_fs d1) path) (\<lambda>p.
           Ok (d1\<lparr>d_fs := (d_fs d1)(p \<mapsto> NFile payload)\<rparr>)))))"

definition load_job_state ::
  "(string \<Rightarrow> persisted_job_state option) \<Rightarrow> nat \<Rightarrow> string \<Rightarrow> nat \<Rightarrow> disk \<Rightarrow> string \<Rightarrow>
   (disk \<times> job_state option, background_error) result" where
  "load_job_state from_json new_mode base_dir uid d jid =
     and_then (ensure_dir_inner new_mode base_dir uid d) (\<lambda>d1.
     and_then (state_path_for base_dir jid) (\<lambda>path.
     and_then (open_spool_read_no_symlink (d_fs d1) path) (\<lambda>file.
       case file of
         None \<Rightarrow> Ok (d1, None)
       | Some payload \<Rightarrow>
           and_then (case from_json payload of
                       None \<Rightarrow> Err (InvalidState ''failed to parse persisted job state'')
                     | Some persisted \<Rightarrow> map_err InvalidState (from_persisted persisted)) (\<lambda>job.
             if job_id job \<noteq> jid
             then Err (InvalidState ''persisted job id does not match requested job id'')
             else if path_parent (log_path job) \<noteq> Some (components base_dir)
             then Err (InvalidState ''persisted log path is outside spool directory'')
             else Ok (d1, Some job)))))"

subsection \<open>Cleaning up\<close>

text \<open>One entry of the directory as the loop sees it: its name (absent when it is not UTF-8), its
  metadata if they can be read, its modification time, and whether it can be removed.\<close>

record spool_entry =
  s_name :: "string option"
  s_meta :: "node option"
  s_modified :: "int option"
  s_removable :: bool

fun cleanup_loop :: "int \<Rightarrow> nat \<Rightarrow> spool_entry list \<Rightarrow> nat \<Rightarrow> spool_entry list \<times> nat" where
  "cleanup_loop now max_age [] removed = ([], removed)"
| "cleanup_loop now max_age (e # es) removed =
     (let keep = (case cleanup_loop now max_age es removed of (rest, n) \<Rightarrow> (e # rest, n)) in
      case s_name e of None \<Rightarrow> keep | Some name \<Rightarrow>
      case split_spool_file_name name of None \<Rightarrow> keep | Some (jid, ext) \<Rightarrow>
      if \<not> is_ok (validate_job_id jid) then keep
      else if ext \<noteq> ''log'' \<and> ext \<noteq> ''exit'' \<and> ext \<noteq> ''state'' then keep
      else case s_meta e of None \<Rightarrow> keep | Some meta \<Rightarrow>
      if is_symlink meta \<or> \<not> is_file meta then keep
      else case s_modified e of None \<Rightarrow> keep | Some modified \<Rightarrow>
      if now < modified then keep
      else if nat (now - modified) \<le> max_age then keep
      else if s_removable e then cleanup_loop now max_age es (removed + 1)
      else keep)"

definition cleanup_old_logs :: "int \<Rightarrow> nat \<Rightarrow> spool_entry list \<Rightarrow> spool_entry list \<times> nat" where
  "cleanup_old_logs now max_age entries = cleanup_loop now max_age entries 0"

text \<open>The entries that should go.\<close>

definition stale_spool_file :: "int \<Rightarrow> nat \<Rightarrow> spool_entry \<Rightarrow> bool" where
  "stale_spool_file now max_age e \<longleftrightarrow>
     (\<exists>jid ext b t. s_name e = Some (jid @ ''.'' @ ext) \<and> validate_job_id jid = Ok ()
        \<and> ext \<in> {''log'', ''exit'', ''state''} \<and> s_meta e = Some (NFile b)
        \<and> s_modified e = Some t \<and> now - t > int max_age)"

text \<open>The job a state file gives back: times cut to milliseconds.\<close>

definition rounded :: "job_state \<Rightarrow> job_state" where
  "rounded j = j\<lparr>start_time := unix_ms_to_system_time (system_time_to_unix_ms (start_time j)),
     completed_at := map_option (unix_ms_to_system_time \<circ> system_time_to_unix_ms) (completed_at j)\<rparr>"

text \<open>What the spool directory looks like once it has been ensured: a directory itself, not a link to
  one, that belongs to the user and is closed to everyone else.\<close>

definition private_dir :: "disk \<Rightarrow> string \<Rightarrow> nat \<Rightarrow> bool" where
  "private_dir d base_dir uid \<longleftrightarrow>
     (\<exists>q. walk MAX_LINKS (d_fs d) False [] (components base_dir) = Ok q
        \<and> node_at (d_fs d) q = Ok NDir \<and> d_uid d q = uid \<and> d_mode d q AND 511 = 448)"

section \<open>Lemmas\<close>

lemma from_to_persisted:
  "utf8_valid (log_path j) \<Longrightarrow> from_persisted (to_persisted j) = Ok (rounded j)"
  by (simp add: from_persisted_def to_persisted_def rounded_def from_utf8_lossy_valid option.map_comp)

lemma walk_write_file:
  "walk fuel fs follow cur cs = Ok q \<Longrightarrow> fs p = None \<or> (\<exists>b. fs p = Some (NFile b)) \<Longrightarrow>
   walk fuel (fs(p \<mapsto> NFile x)) follow cur cs = Ok q"
proof (induction fuel fs follow cur cs rule: walk.induct)
  case (5 fuel fs follow cur s cs)
  then show ?case
    by (cases "cur @ [s] = p") (auto split: option.splits node.splits if_splits nat.splits)
qed simp_all

lemma mode_0700: "(m :: nat) AND 511 = 448 \<Longrightarrow> m AND 18 = 0"
proof -
  assume m: "m AND 511 = 448"
  have "(511 :: nat) AND 18 = 18" by simp
  then have "m AND 18 = (m AND 511) AND 18" by (simp only: and.assoc)
  then show ?thesis unfolding m by simp
qed

lemma ensure_dir_private:
  assumes "ensure_dir_inner new_mode base_dir uid d = Ok d'"
  shows "private_dir d' base_dir uid"
proof -
  from assms obtain d1 created q where
    q: "walk MAX_LINKS (d_fs d1) False [] (components base_dir) = Ok q" "node_at (d_fs d1) q = Ok NDir"
      "d_uid d1 q = uid"
    and d': "d' = (if d_mode d1 q AND 511 \<noteq> 448 then d1\<lparr>d_mode := (d_mode d1)(q := 448)\<rparr> else d1)"
    by (auto simp: ensure_dir_inner_def validate_spool_dir_meta_def validate_spool_dir_owner_def
        elim!: is_dir.elims split: if_splits)
  from d' have "d_fs d' = d_fs d1" "d_uid d' = d_uid d1" "d_mode d' q AND 511 = 448" by auto
  with q show ?thesis unfolding private_dir_def by auto
qed

lemma ensure_dir_stable:
  assumes "private_dir d base_dir uid"
  shows "ensure_dir_inner new_mode base_dir uid d = Ok d"
proof -
  from assms obtain q where
    q: "walk MAX_LINKS (d_fs d) False [] (components base_dir) = Ok q" "node_at (d_fs d) q = Ok NDir"
      "d_uid d q = uid" "d_mode d q AND 511 = 448" by (auto simp: private_dir_def)
  have "create_spool_dir uid new_mode d base_dir = Err AlreadyExistsE"
    using q by (simp add: create_spool_dir_def create_dir_def)
  with q mode_0700[OF q(4)] show ?thesis
    by (simp add: ensure_dir_inner_def validate_spool_dir_meta_def validate_spool_dir_owner_def)
qed

lemma private_dir_write_file:
  assumes "private_dir d base_dir uid" "d_fs d p = None \<or> (\<exists>b. d_fs d p = Some (NFile b))" "p \<noteq> []"
  shows "private_dir (d\<lparr>d_fs := (d_fs d)(p \<mapsto> NFile x)\<rparr>) base_dir uid"
proof -
  from assms(1) obtain q where
    q: "walk MAX_LINKS (d_fs d) False [] (components base_dir) = Ok q" "node_at (d_fs d) q = Ok NDir"
      "d_uid d q = uid" "d_mode d q AND 511 = 448" by (auto simp: private_dir_def)
  have "node_at ((d_fs d)(p \<mapsto> NFile x)) q = Ok NDir"
    using q(2) assms(2,3) by (auto simp: node_at_def split: option.splits if_splits)
  with q walk_write_file[OF q(1) assms(2)] show ?thesis by (auto simp: private_dir_def)
qed

lemma open_write_target:
  assumes "open_spool_write_no_symlink fs path = Ok p"
  shows "walk MAX_LINKS fs False [] (components path) = Ok p" "fs p = None \<or> (\<exists>b. fs p = Some (NFile b))" "p \<noteq> []"
  using assms
  by (auto simp: open_spool_write_no_symlink_def raw_open_write_def node_at_def
      split: result.splits if_splits io_error.splits option.splits node.splits)

lemma read_after_write:
  assumes "open_spool_write_no_symlink fs path = Ok p"
  shows "open_spool_read_no_symlink (fs(p \<mapsto> NFile x)) path = Ok (Some x)"
  using walk_write_file[OF open_write_target(1,2)[OF assms], of x] open_write_target(3)[OF assms]
  by (simp add: open_spool_read_no_symlink_def symlink_metadata_def node_at_def)

lemma validate_job_id_iff:
  "validate_job_id jid = Ok () \<longleftrightarrow> jid \<noteq> [] \<and> length jid \<le> 128 \<and> list_all is_job_id_byte jid"
proof -
  have "components jid = [Normal jid]" if "jid \<noteq> []" "list_all is_job_id_byte jid"
  proof -
    have no: "SLASH \<notin> set jid" "CHR ''.'' \<notin> set jid"
      using that by (auto simp: list_all_iff is_job_id_byte_def is_ascii_alphanumeric_def is_ascii_digit_def
          is_ascii_lowercase_def is_ascii_uppercase_def in_range_def code_def)
    then have "jid \<noteq> ''.''" "jid \<noteq> ''..''" by auto
    with no that show ?thesis
      by (cases jid) (auto simp: components_def body_components_def split_on_no_sep comp_of_def)
  qed
  moreover have "NUL \<notin> set jid" if "list_all is_job_id_byte jid"
    using that by (auto simp: list_all_iff is_job_id_byte_def is_ascii_alphanumeric_def is_ascii_digit_def
        is_ascii_lowercase_def is_ascii_uppercase_def in_range_def code_def)
  ultimately show ?thesis
    by (auto simp: validate_job_id_def split: list.splits component.splits if_splits)
qed

lemma is_ok_unit: "is_ok r \<longleftrightarrow> r = Ok ()"
  by (cases r) simp_all

lemma is_file_not_symlink: "is_file n \<Longrightarrow> \<not> is_symlink n"
  by (cases n) simp_all

lemma stale_spool_file_iff:
  "stale_spool_file now max_age e \<longleftrightarrow> (\<exists>name jid ext meta t. s_name e = Some name
     \<and> split_spool_file_name name = Some (jid, ext) \<and> validate_job_id jid = Ok ()
     \<and> (ext = ''log'' \<or> ext = ''exit'' \<or> ext = ''state'') \<and> s_meta e = Some meta \<and> is_file meta
     \<and> s_modified e = Some t \<and> \<not> now < t \<and> nat (now - t) > max_age)" (is "?l \<longleftrightarrow> ?r")
proof
  assume ?l
  then obtain jid ext b t where
    s: "s_name e = Some (jid @ ''.'' @ ext)" "validate_job_id jid = Ok ()"
      "ext \<in> {''log'', ''exit'', ''state''}" "s_meta e = Some (NFile b)" "s_modified e = Some t"
      "now - t > int max_age"
    unfolding stale_spool_file_def by blast
  have "split_spool_file_name (jid @ ''.'' @ ext) = Some (jid, ext)"
    using s(2,3) rsplit_once_Some[of "CHR ''.''" "jid @ ''.'' @ ext" jid ext]
    by (auto simp: split_spool_file_name_def validate_job_id_iff)
  moreover have "\<not> now < t" "nat (now - t) > max_age" using s(6) by linarith+
  ultimately show ?r
    using s by (intro exI[of _ "jid @ ''.'' @ ext"] exI[of _ jid] exI[of _ ext] exI[of _ "NFile b"] exI[of _ t]) auto
next
  assume ?r
  then obtain name jid ext meta t where
    g: "s_name e = Some name" "split_spool_file_name name = Some (jid, ext)" "validate_job_id jid = Ok ()"
      "ext = ''log'' \<or> ext = ''exit'' \<or> ext = ''state''" "s_meta e = Some meta" "is_file meta"
      "s_modified e = Some t" "\<not> now < t" "nat (now - t) > max_age"
    by blast
  from g(2) have "name = jid @ ''.'' @ ext"
    by (auto simp: split_spool_file_name_def rsplit_once_Some split: option.splits if_splits)
  moreover obtain b where "meta = NFile b" using g(6) by (cases meta) auto
  moreover have "now - t > int max_age" using g(8,9) by linarith
  ultimately show ?l unfolding stale_spool_file_def using g by auto
qed

lemma cleanup_loop_spec:
  assumes "\<forall>e\<in>set es. s_removable e"
  shows "cleanup_loop now max_age es n =
    (filter (\<lambda>e. \<not> stale_spool_file now max_age e) es, n + length (filter (stale_spool_file now max_age) es))"
  using assms
proof (induction es arbitrary: n)
  case (Cons e es)
  have "cleanup_loop now max_age (e # es) n =
     (if stale_spool_file now max_age e then cleanup_loop now max_age es (n + 1)
      else (case cleanup_loop now max_age es n of (rest, k) \<Rightarrow> (e # rest, k)))"
    using Cons.prems is_file_not_symlink unfolding stale_spool_file_iff cleanup_loop.simps Let_def is_ok_unit
    by (auto split: option.splits if_splits)
  with Cons show ?case by simp
qed simp

section \<open>Properties\<close>

text \<open>A job survives a restart. When the state of a job has been stored, loading it by its id
  finds it again with the same process id, command, status, exit code and reason; its times are cut
  to whole milliseconds. The file system is otherwise unchanged, and decoding is assumed to invert
  encoding.\<close>

theorem persist_load_roundtrip:
  assumes "persist_job_state to_json new_mode base_dir uid d job = Ok d'"
    and "\<And>p s. to_json p = Some s \<Longrightarrow> from_json s = Some p" "utf8_valid (log_path job)"
  shows "load_job_state from_json new_mode base_dir uid d' (job_id job) = Ok (d', Some (rounded job))"
proof -
  from assms(1) obtain d1 path payload p where
    d1: "ensure_dir_inner new_mode base_dir uid d = Ok d1" and parent: "path_parent (log_path job) = Some (components base_dir)"
    and path: "state_path_for base_dir (job_id job) = Ok path" and payload: "to_json (to_persisted job) = Some payload"
    and p: "open_spool_write_no_symlink (d_fs d1) path = Ok p"
    and d': "d' = d1\<lparr>d_fs := (d_fs d1)(p \<mapsto> NFile payload)\<rparr>"
    by (auto simp: persist_job_state_def split: if_splits option.splits)
  have "private_dir d' base_dir uid"
    unfolding d' by (rule private_dir_write_file[OF ensure_dir_private[OF d1] open_write_target(2,3)[OF p]])
  then have "ensure_dir_inner new_mode base_dir uid d' = Ok d'" by (rule ensure_dir_stable)
  moreover have "open_spool_read_no_symlink (d_fs d') path = Ok (Some payload)"
    using read_after_write[OF p] by (simp add: d')
  moreover have "from_persisted (to_persisted job) = Ok (rounded job)"
    by (rule from_to_persisted[OF assms(3)])
  ultimately show ?thesis
    using path assms(2)[OF payload] parent by (simp add: load_job_state_def) (simp add: rounded_def)
qed

theorem persist_load_roundtrip_witness:
  "\<exists>d'. load_job_state (\<lambda>s. if s = ''x'' then Some (to_persisted (mark_exit 10 3 (new_running 5 \<lparr>n_job_id = ''j'',
        n_pid = 7, n_log_path = ''/s/j.log'', n_command = ''c'', n_connection_id = ''k''\<rparr>))) else None) 448 ''/s'' 1000 d' ''j''
     = Ok (d', Some (rounded (mark_exit 10 3 (new_running 5 \<lparr>n_job_id = ''j'', n_pid = 7, n_log_path = ''/s/j.log'',
         n_command = ''c'', n_connection_id = ''k''\<rparr>))))"
proof -
  let ?j = "mark_exit 10 3 (new_running 5 \<lparr>n_job_id = ''j'', n_pid = 7, n_log_path = ''/s/j.log'',
     n_command = ''c'', n_connection_id = ''k''\<rparr>)"
  let ?to = "\<lambda>p. if p = to_persisted ?j then Some ''x'' else None"
  let ?d = "\<lparr>d_fs = Map.empty, d_uid = (\<lambda>_. 0), d_mode = (\<lambda>_. 0)\<rparr>"
  have c: "components ''/s'' = [RootDir, Normal ''s'']" "path_parent ''/s/j.log'' = Some [RootDir, Normal ''s'']"
    "components ''/s/j.state'' = [RootDir, Normal ''s'', Normal ''j.state'']"
    "state_path_for ''/s'' ''j'' = Ok ''/s/j.state''"
    by code_simp+
  have j: "job_id ?j = ''j''" "log_path ?j = ''/s/j.log''" by (simp_all add: mark_exit_def new_running_def)
  have "\<exists>d'. persist_job_state ?to 448 ''/s'' 1000 ?d ?j = Ok d'"
    by (simp add: persist_job_state_def ensure_dir_inner_def create_spool_dir_def create_dir_def c j
        node_at_def validate_spool_dir_meta_def validate_spool_dir_owner_def open_spool_write_no_symlink_def
        raw_open_write_def symlink_metadata_def)
  then obtain d' where d': "persist_job_state ?to 448 ''/s'' 1000 ?d ?j = Ok d'" by blast
  have "utf8_valid (log_path ?j)" unfolding j by code_simp
  then have "load_job_state (\<lambda>s. if s = ''x'' then Some (to_persisted ?j) else None) 448 ''/s'' 1000 d' (job_id ?j)
      = Ok (d', Some (rounded ?j))"
    by (rule persist_load_roundtrip[OF d', rotated]) (simp split: if_splits)
  then show ?thesis unfolding j(1) by (rule exI[where x = d'])
qed

text \<open>The spool directory is private whenever \<open>ensure_dir\<close> succeeds: the path names a directory
  and no link, it belongs to the effective user, and its mode is 0700; and then nothing has to be done
  to ensure it again.\<close>

theorem ensure_dir_makes_private:
  assumes "ensure_dir_inner new_mode base_dir uid d = Ok d'"
  shows "(\<exists>q. walk MAX_LINKS (d_fs d') False [] (components base_dir) = Ok q \<and> node_at (d_fs d') q = Ok NDir
      \<and> d_uid d' q = uid \<and> d_mode d' q AND 511 = 448)
    \<and> ensure_dir_inner new_mode base_dir uid d' = Ok d'"
  using ensure_dir_private[OF assms] ensure_dir_stable by (auto simp: private_dir_def)

theorem ensure_dir_makes_private_witness:
  "\<exists>d'. ensure_dir_inner 448 ''/s'' 1000 \<lparr>d_fs = [[''s''] \<mapsto> NDir], d_uid = (\<lambda>_. 1000), d_mode = (\<lambda>_. 493)\<rparr> = Ok d'
     \<and> ensure_dir_inner 448 ''/s'' 1000 d' = Ok d'"
proof -
  have c: "components ''/s'' = [RootDir, Normal ''s'']" by code_simp
  have "ensure_dir_inner 448 ''/s'' 1000 \<lparr>d_fs = [[''s''] \<mapsto> NDir], d_uid = (\<lambda>_. 1000), d_mode = (\<lambda>_. 493)\<rparr>
    = Ok \<lparr>d_fs = [[''s''] \<mapsto> NDir], d_uid = (\<lambda>_. 1000), d_mode = (\<lambda>_. 493)([''s''] := 448)\<rparr>"
    by (simp add: ensure_dir_inner_def create_spool_dir_def create_dir_def c
        node_at_def validate_spool_dir_meta_def validate_spool_dir_owner_def)
  with ensure_dir_makes_private[OF this] show ?thesis by blast
qed

text \<open>Cleaning up the spool directory removes exactly the regular files named after a valid job
  id with the extension \<open>log\<close>, \<open>exit\<close> or \<open>state\<close> that are older than the limit, and counts them.
  Links, directories and foreign files are never touched.\<close>

theorem cleanup_removes_exactly_stale:
  assumes "\<forall>e\<in>set entries. s_removable e"
  shows "cleanup_old_logs now max_age entries =
    (filter (\<lambda>e. \<not> stale_spool_file now max_age e) entries,
     length (filter (stale_spool_file now max_age) entries))"
  using cleanup_loop_spec[OF assms] by (simp add: cleanup_old_logs_def)

theorem cleanup_removes_exactly_stale_witness:
  "snd (cleanup_old_logs 100 5 [\<lparr>s_name = Some ''j.log'', s_meta = Some (NFile []), s_modified = Some 1, s_removable = True\<rparr>,
      \<lparr>s_name = Some ''j.log'', s_meta = Some (NLink ''x''), s_modified = Some 1, s_removable = True\<rparr>])
   = length (filter (stale_spool_file 100 5)
      [\<lparr>s_name = Some ''j.log'', s_meta = Some (NFile []), s_modified = Some 1, s_removable = True\<rparr>,
       \<lparr>s_name = Some ''j.log'', s_meta = Some (NLink ''x''), s_modified = Some 1, s_removable = True\<rparr>])"
  by (subst cleanup_removes_exactly_stale) simp_all

end
