(* ===== verification/Tar.thy ===== *)
theory Tar
  imports Paths "HOL-Library.Char_ord" "HOL-Library.List_Lexorder" "HOL-Library.Multiset"
begin

text \<open>
  The tar streams of directory transfers: \<open>src/src/transfer/tar.rs\<close>. A stream is the list of its
  bytes; a header block is the concatenation of its fields in the order of their offsets. A local
  directory is a tree; what extraction does to the destination is the sequence of its file system
  operations.
\<close>

section \<open>Definitions\<close>

subsection \<open>Header fields\<close>

definition TAR_BLOCK :: nat where
  "TAR_BLOCK = 512"

datatype tar_error =
    NotADirectory
  | SymlinkUnsupported
  | FileTypeUnsupported
  | PathTooLong
  | LocalFileShort
  | TarHeaderShort
  | TarTrailerShort
  | TarStreamShort
  | TarPaddingShort
  | InvalidOctal string
  | InvalidChecksum nat nat
  | TarPathEmpty
  | TarPathParent
  | TarPathNotRelative
  | TarPathDot
  | DirectoryWithContent
  | EntryTypeUnsupported

text \<open>\<open>write_bytes\<close> into a zeroed field of the given width.\<close>

definition write_bytes :: "nat \<Rightarrow> string \<Rightarrow> string" where
  "write_bytes width src = take width src @ replicate (width - length src) NUL"

text \<open>The digit loop of \<open>write_octal\<close>, from the last digit to the first; it stops when nothing is left
  and the remaining places keep their zeros.\<close>

fun octal_digits :: "nat \<Rightarrow> nat \<Rightarrow> string" where
  "octal_digits 0 v = []"
| "octal_digits (Suc w) v =
     (if v div 8 = 0 then replicate w (CHR ''0'') @ [digit_char (v mod 8)]
      else octal_digits w (v div 8) @ [digit_char (v mod 8)])"

definition write_octal :: "nat \<Rightarrow> nat \<Rightarrow> string" where
  "write_octal width_digits v = octal_digits width_digits v @ [NUL]"

fun checksum_digits :: "nat \<Rightarrow> nat \<Rightarrow> string" where
  "checksum_digits 0 v = []"
| "checksum_digits (Suc w) v = checksum_digits w (v div 8) @ [digit_char (v mod 8)]"

definition write_octal_checksum :: "nat \<Rightarrow> string" where
  "write_octal_checksum v = checksum_digits 6 v @ [NUL, CHR '' '']"

definition split_ustar_path :: "string \<Rightarrow> (string \<times> string option, tar_error) result" where
  "split_ustar_path path =
     (if length path \<le> 100 then Ok (path, None)
      else case rsplit_once SLASH path of
        Some (pfx, name) \<Rightarrow>
          if length name \<le> 100 \<and> length pfx \<le> 155 then Ok (name, Some pfx) else Err PathTooLong
      | None \<Rightarrow> Err PathTooLong)"

definition byte_sum :: "string \<Rightarrow> nat" where
  "byte_sum bs = sum_list (map code bs)"

text \<open>The fields before and after the checksum.\<close>

definition header_front :: "string \<Rightarrow> nat \<Rightarrow> nat \<Rightarrow> nat \<Rightarrow> string" where
  "header_front name sz mode mtime =
     write_bytes 100 name @ write_octal 7 mode @ write_octal 7 0 @ write_octal 7 0
     @ write_octal 11 sz @ write_octal 11 mtime"

definition header_back :: "char \<Rightarrow> string option \<Rightarrow> string" where
  "header_back typeflag pfx =
     [typeflag] @ replicate 100 NUL @ ''ustar'' @ [NUL] @ ''00'' @ replicate 80 NUL
     @ write_bytes 155 (case pfx of Some p \<Rightarrow> p | None \<Rightarrow> []) @ replicate 12 NUL"

definition write_header ::
  "string \<Rightarrow> nat \<Rightarrow> nat \<Rightarrow> nat \<Rightarrow> char \<Rightarrow> (string, tar_error) result" where
  "write_header path sz mode mtime typeflag =
     and_then (split_ustar_path path) (\<lambda>(name, pfx).
       let front = header_front name sz mode mtime;
           rear = header_back typeflag pfx;
           checksum = byte_sum (front @ replicate 8 (CHR '' '') @ rear) in
       Ok (front @ write_octal_checksum checksum @ rear))"

definition padding_len :: "nat \<Rightarrow> nat" where
  "padding_len sz = (TAR_BLOCK - sz mod TAR_BLOCK) mod TAR_BLOCK"

definition write_padding :: "nat \<Rightarrow> string" where
  "write_padding sz = replicate (padding_len sz) NUL"

subsection \<open>Writing a directory\<close>

text \<open>A file has a mode, a modification time, the length that its metadata report, and the bytes that
  reading it yields.\<close>

datatype ftree =
    FFile nat nat nat string
  | FDir nat nat "(string \<times> ftree) list"
  | FLink
  | FOther

record tar_counts =
  tc_bytes :: nat
  tc_files :: nat
  tc_directories :: nat

definition no_counts :: tar_counts where
  "no_counts = \<lparr>tc_bytes = 0, tc_files = 0, tc_directories = 0\<rparr>"

definition copy_exact_len :: "string \<Rightarrow> nat \<Rightarrow> (string, tar_error) result" where
  "copy_exact_len input remaining =
     (if length input < remaining then Err LocalFileShort else Ok (take remaining input))"

definition read_entries :: "(string \<times> ftree) list \<Rightarrow> (string \<times> ftree) list" where
  "read_entries es = sort_key fst (map (\<lambda>(n, t). (from_utf8_lossy n, t)) es)"

definition archive_path :: "string \<Rightarrow> string \<Rightarrow> string" where
  "archive_path pfx name = (if pfx = [] then name else pfx @ [SLASH] @ name)"

fun tree_weight :: "ftree \<Rightarrow> nat" where
  "tree_weight (FDir m t es) = 2 + sum_list (map (\<lambda>e. tree_weight (snd e)) es)"
| "tree_weight _ = 1"

definition frame_weight :: "string \<times> (string \<times> ftree) list \<Rightarrow> nat" where
  "frame_weight f = 1 + sum_list (map (\<lambda>e. tree_weight (snd e)) (snd f))"

lemma sum_list_read_entries:
  fixes f :: "ftree \<Rightarrow> nat"
  shows "sum_list (map (\<lambda>e. f (snd e)) (read_entries es)) = sum_list (map (\<lambda>e. f (snd e)) es)"
proof -
  have "mset (map (\<lambda>e. f (snd e)) (read_entries es)) = mset (map (\<lambda>e. f (snd e)) es)"
    by (simp add: read_entries_def image_mset.compositionality comp_def case_prod_beta)
  then show ?thesis by (metis sum_mset_sum_list)
qed

text \<open>The loop over the stack of frames; a frame is its prefix and the entries still to be visited.\<close>

function tar_loop ::
  "(string \<times> (string \<times> ftree) list) list \<Rightarrow> string \<Rightarrow> tar_counts \<Rightarrow> (string \<times> tar_counts, tar_error) result" where
  "tar_loop [] out c = Ok (out, c)"
| "tar_loop ((pfx, []) # st) out c = tar_loop st out c"
| "tar_loop ((pfx, (name, t) # es) # st) out c =
     (let path = archive_path pfx name in
      case t of
        FLink \<Rightarrow> Err SymlinkUnsupported
      | FDir mode mtime sub \<Rightarrow>
          (case write_header (path @ [SLASH]) 0 mode mtime (CHR ''5'') of
             Err e \<Rightarrow> Err e
           | Ok h \<Rightarrow> tar_loop ((path, read_entries sub) # (pfx, es) # st) (out @ h)
                      (c\<lparr>tc_directories := tc_directories c + 1\<rparr>))
      | FFile mode mtime sz content \<Rightarrow>
          (case write_header path sz mode mtime (CHR ''0'') of
             Err e \<Rightarrow> Err e
           | Ok h \<Rightarrow>
             (case copy_exact_len content sz of
                Err e \<Rightarrow> Err e
              | Ok bytes \<Rightarrow> tar_loop ((pfx, es) # st) (out @ h @ bytes @ write_padding sz)
                  (c\<lparr>tc_files := tc_files c + 1, tc_bytes := tc_bytes c + sz\<rparr>)))
      | FOther \<Rightarrow> Err FileTypeUnsupported)"
  by pat_completeness auto
termination
  by (relation "measure (\<lambda>(st, out, c). sum_list (map frame_weight st))")
     (auto simp: frame_weight_def sum_list_read_entries)

definition write_dir_as_tar :: "ftree \<Rightarrow> (string \<times> tar_counts, tar_error) result" where
  "write_dir_as_tar root =
     (case root of
        FDir mode mtime es \<Rightarrow>
          and_then (tar_loop [([], read_entries es)] [] no_counts) (\<lambda>(out, c).
            Ok (out @ replicate TAR_BLOCK NUL @ replicate TAR_BLOCK NUL, c))
      | _ \<Rightarrow> Err NotADirectory)"

subsection \<open>Reading a header\<close>

record tar_entry_header =
  te_path :: string
  te_size :: nat
  te_typeflag :: char

definition slice :: "string \<Rightarrow> nat \<Rightarrow> nat \<Rightarrow> string" where
  "slice bs lo hi = take (hi - lo) (drop lo bs)"

definition parse_string :: "string \<Rightarrow> string" where
  "parse_string field = from_utf8_lossy (takeWhile (\<lambda>b. b \<noteq> NUL) field)"

definition is_nul_or_space :: "char \<Rightarrow> bool" where
  "is_nul_or_space c \<longleftrightarrow> c = NUL \<or> c = CHR '' ''"

definition trim_nul_space :: "string \<Rightarrow> string" where
  "trim_nul_space s = rev (dropWhile is_nul_or_space (rev (dropWhile is_nul_or_space s)))"

definition parse_octal :: "string \<Rightarrow> (nat, tar_error) result" where
  "parse_octal field =
     (let s = trim_nul_space (from_utf8_lossy field) in
      if s = [] then Ok 0
      else case parse_unsigned 8 U64 s of None \<Rightarrow> Err (InvalidOctal s) | Some n \<Rightarrow> Ok n)"

definition compute_tar_checksum :: "string \<Rightarrow> nat" where
  "compute_tar_checksum block = byte_sum (slice block 0 148) + 8 * 32 + byte_sum (drop 156 block)"

definition validate_tar_header :: "string \<Rightarrow> (bool, tar_error) result" where
  "validate_tar_header block =
     (if list_all (\<lambda>b. b = NUL) block then Ok True
      else
        let magic = slice block 257 263; version = slice block 263 265;
            is_ustar = (magic = ''ustar'' @ [NUL] \<or> magic = ''ustar '')
              \<and> (version = ''00'' \<or> version = ''  '' \<or> version = [NUL, NUL]
                 \<or> version = [CHR ''0'', NUL] \<or> version = ''0 '');
            is_old_gnu = (magic = ''ustar  '') in
        and_then (parse_octal (slice block 148 156)) (\<lambda>stored.
          let computed = compute_tar_checksum block in
          if stored \<noteq> computed then Err (InvalidChecksum computed stored)
          else Ok (is_ustar \<or> is_old_gnu)))"

definition parse_header :: "string \<Rightarrow> (tar_entry_header, tar_error) result" where
  "parse_header block =
     and_then (validate_tar_header block) (\<lambda>is_ustar.
       let name = parse_string (slice block 0 100);
           pfx = parse_string (slice block 345 500);
           path = (if is_ustar \<and> pfx \<noteq> [] then pfx @ [SLASH] @ name else name) in
       and_then (parse_octal (slice block 124 136)) (\<lambda>sz.
         Ok \<lparr>te_path = path, te_size = sz, te_typeflag = block ! 156\<rparr>))"

subsection \<open>Extracting\<close>

function strip_dot_slash :: "string \<Rightarrow> string" where
  "strip_dot_slash p = (case strip_prefix p ''./'' of Some rest \<Rightarrow> strip_dot_slash rest | None \<Rightarrow> p)"
  by pat_completeness auto
termination
  by (relation "measure length") (auto simp: strip_prefix_Some)

declare strip_dot_slash.simps [simp del]

fun collect_segments :: "component list \<Rightarrow> (string list, tar_error) result" where
  "collect_segments [] = Ok []"
| "collect_segments (Normal seg # cs) = and_then (collect_segments cs) (\<lambda>ss. Ok (seg # ss))"
| "collect_segments (CurDir # cs) = collect_segments cs"
| "collect_segments (ParentDir # cs) = Err TarPathParent"
| "collect_segments (RootDir # cs) = Err TarPathNotRelative"

definition sanitize_tar_path :: "string \<Rightarrow> (string list, tar_error) result" where
  "sanitize_tar_path path =
     (let p = strip_dot_slash path in
      if p = [] then Err TarPathEmpty
      else and_then (collect_segments (components p)) (\<lambda>out.
        if out = [] then Err TarPathDot else Ok out))"

definition read_exact :: "tar_error \<Rightarrow> nat \<Rightarrow> string \<Rightarrow> (string \<times> string, tar_error) result" where
  "read_exact e n input = (if length input < n then Err e else Ok (take n input, drop n input))"

definition discard_stream_len :: "nat \<Rightarrow> string \<Rightarrow> (string, tar_error) result" where
  "discard_stream_len n input = and_then (read_exact TarStreamShort n input) (\<lambda>(_, rest). Ok rest)"

definition skip_padding :: "nat \<Rightarrow> string \<Rightarrow> (string, tar_error) result" where
  "skip_padding sz input = and_then (read_exact TarPaddingShort (padding_len sz) input) (\<lambda>(_, rest). Ok rest)"

definition discard_entry :: "nat \<Rightarrow> string \<Rightarrow> (string, tar_error) result" where
  "discard_entry sz input = and_then (discard_stream_len sz input) (skip_padding sz)"

text \<open>The operations on the destination, by path below it: \<open>create_dir_all\<close>, and the creation of a
  file with its content (its parents are created first). They are returned also when extraction fails,
  since what was created stays; a file whose content breaks off keeps the bytes that arrived.\<close>

datatype extract_op = CreateDirAll "string list" | CreateFile "string list" string

lemma read_exact_length: "read_exact e n input = Ok (a, rest) \<Longrightarrow> length rest \<le> length input"
  by (auto simp: read_exact_def split: if_splits)

lemma discard_entry_length: "discard_entry n input = Ok rest \<Longrightarrow> length rest \<le> length input"
  unfolding discard_entry_def discard_stream_len_def skip_padding_def
  by (auto dest!: read_exact_length)

definition extract_entry ::
  "tar_entry_header \<Rightarrow> string \<Rightarrow> extract_op list \<Rightarrow> tar_counts
     \<Rightarrow> extract_op list \<times> (tar_counts \<times> string, tar_error) result" where
  "extract_entry entry rest ops c =
     (let sz = te_size entry in
      case sanitize_tar_path (te_path entry) of
        Err e \<Rightarrow>
          if e = TarPathEmpty then (ops, and_then (discard_entry sz rest) (\<lambda>rest'. Ok (c, rest')))
          else (ops, Err e)
      | Ok rel \<Rightarrow>
          if te_typeflag entry = CHR ''5'' then
            (if sz \<noteq> 0 then (ops, and_then (discard_entry sz rest) (\<lambda>_. Err DirectoryWithContent))
             else (ops @ [CreateDirAll rel],
                   and_then (skip_padding sz rest) (\<lambda>rest'.
                     Ok (c\<lparr>tc_directories := tc_directories c + 1\<rparr>, rest'))))
          else if te_typeflag entry = CHR ''0'' \<or> te_typeflag entry = NUL then
            (case read_exact TarStreamShort sz rest of
               Err e \<Rightarrow> (ops @ [CreateFile rel rest], Err e)
             | Ok (content, rest1) \<Rightarrow>
                 (ops @ [CreateFile rel content],
                  and_then (skip_padding sz rest1) (\<lambda>rest2.
                    Ok (c\<lparr>tc_bytes := tc_bytes c + sz, tc_files := tc_files c + 1\<rparr>, rest2))))
          else if te_typeflag entry = CHR ''x'' \<or> te_typeflag entry = CHR ''g'' then
            (ops, and_then (discard_entry sz rest) (\<lambda>rest'. Ok (c, rest')))
          else (ops, and_then (discard_entry sz rest) (\<lambda>_. Err EntryTypeUnsupported)))"

lemma extract_entry_length:
  "extract_entry entry rest ops c = (ops', Ok (c', rest')) \<Longrightarrow> length rest' \<le> length rest"
  unfolding extract_entry_def Let_def
  by (auto simp: skip_padding_def dest!: read_exact_length discard_entry_length
      split: result.splits if_splits)

function extract_loop ::
  "string \<Rightarrow> extract_op list \<Rightarrow> tar_counts \<Rightarrow> extract_op list \<times> (tar_counts \<times> string, tar_error) result" where
  "extract_loop input ops c =
     (case read_exact TarHeaderShort TAR_BLOCK input of
        Err e \<Rightarrow> (ops, Err e)
      | Ok (header, rest) \<Rightarrow>
          if list_all (\<lambda>b. b = NUL) header then
            (ops, and_then (read_exact TarTrailerShort TAR_BLOCK rest) (\<lambda>(_, rest'). Ok (c, rest')))
          else
          (case parse_header header of
             Err e \<Rightarrow> (ops, Err e)
           | Ok entry \<Rightarrow>
             (case extract_entry entry rest ops c of
                (ops', Err e) \<Rightarrow> (ops', Err e)
              | (ops', Ok (c', rest')) \<Rightarrow> extract_loop rest' ops' c')))"
  by pat_completeness auto
termination
proof (relation "measure (\<lambda>(input, ops, c). length input)")
qed (auto simp: read_exact_def TAR_BLOCK_def dest!: extract_entry_length[OF sym] split: if_splits)

declare extract_loop.simps [simp del]

definition extract_tar_to_dir :: "string \<Rightarrow> extract_op list \<times> (tar_counts, tar_error) result" where
  "extract_tar_to_dir input =
     (let (ops, r) = extract_loop input [] no_counts in (ops, and_then r (\<lambda>(c, _). Ok c)))"

text \<open>A non-empty sequence of octal digits.\<close>

definition octal_text :: "string \<Rightarrow> bool" where
  "octal_text s \<longleftrightarrow> s \<noteq> [] \<and> (\<forall>c\<in>set s. in_range 48 55 (code c))"

text \<open>The file names a directory can hold, and the trees that can be transferred: every name is plain
  UTF-8, there are no links, every file has the length its metadata say, which an 11-digit octal field
  can express.\<close>

definition good_name :: "string \<Rightarrow> bool" where
  "good_name n \<longleftrightarrow> n \<noteq> [] \<and> n \<noteq> ''.'' \<and> n \<noteq> ''..'' \<and> SLASH \<notin> set n \<and> NUL \<notin> set n \<and> utf8_valid n"

fun good_tree :: "ftree \<Rightarrow> bool" where
  "good_tree (FFile mode mtime sz content) = (sz = length content \<and> sz < 8 ^ 11)"
| "good_tree (FDir mode mtime es) = (\<forall>e\<in>set es. good_name (fst e) \<and> good_tree (snd e))"
| "good_tree FLink = False"
| "good_tree FOther = False"

text \<open>The operations that recreate a tree at the place \<open>segs\<close>, in the order of the traversal.\<close>

function tree_ops :: "string list \<Rightarrow> ftree \<Rightarrow> extract_op list" where
  "tree_ops segs (FFile mode mtime sz content) = [CreateFile segs content]"
| "tree_ops segs (FDir mode mtime es) =
     CreateDirAll segs # concat (map (\<lambda>e. tree_ops (segs @ [fst e]) (snd e)) (read_entries es))"
| "tree_ops segs FLink = []"
| "tree_ops segs FOther = []"
  by pat_completeness auto
termination
proof (relation "measure (\<lambda>(segs, t). tree_weight t)", simp)
  fix segs mode mtime es e assume "e \<in> set (read_entries es)"
  then have "tree_weight (snd e) \<le> sum_list (map (\<lambda>e. tree_weight (snd e)) (read_entries es))"
    by (intro member_le_sum_list) auto
  then show "((segs @ [fst e], snd e), segs, FDir mode mtime es) \<in> measure (\<lambda>(segs, t). tree_weight t)"
    by (simp add: sum_list_read_entries)
qed

definition entries_ops :: "string list \<Rightarrow> (string \<times> ftree) list \<Rightarrow> extract_op list" where
  "entries_ops segs es = concat (map (\<lambda>e. tree_ops (segs @ [fst e]) (snd e)) es)"

text \<open>Where an operation works, and the plain names of files.\<close>

fun op_path :: "extract_op \<Rightarrow> string list" where
  "op_path (CreateDirAll segs) = segs"
| "op_path (CreateFile segs content) = segs"

definition plain_segment :: "string \<Rightarrow> bool" where
  "plain_segment s \<longleftrightarrow> s \<noteq> [] \<and> s \<noteq> ''.'' \<and> s \<noteq> ''..'' \<and> SLASH \<notin> set s"

definition confined_op :: "extract_op \<Rightarrow> bool" where
  "confined_op op \<longleftrightarrow> op_path op \<noteq> [] \<and> list_all plain_segment (op_path op)"

definition add_counts :: "tar_counts \<Rightarrow> tar_counts \<Rightarrow> tar_counts" where
  "add_counts a b = \<lparr>tc_bytes = tc_bytes a + tc_bytes b, tc_files = tc_files a + tc_files b,
     tc_directories = tc_directories a + tc_directories b\<rparr>"

text \<open>A piece of a stream that performs the given operations, wherever it is read.\<close>

definition extracts :: "string \<Rightarrow> extract_op list \<Rightarrow> tar_counts \<Rightarrow> bool" where
  "extracts body ops d \<longleftrightarrow>
     (\<forall>rest ops0 c. extract_loop (body @ rest) ops0 c = extract_loop rest (ops0 @ ops) (add_counts c d))"

fun stack_ops :: "(string list \<times> (string \<times> ftree) list) list \<Rightarrow> extract_op list" where
  "stack_ops [] = []"
| "stack_ops ((segs, es) # st) = entries_ops segs es @ stack_ops st"

definition good_frame :: "string list \<times> (string \<times> ftree) list \<Rightarrow> bool" where
  "good_frame f \<longleftrightarrow> (\<forall>s\<in>set (fst f). good_name s) \<and> (\<forall>e\<in>set (snd f). good_name (fst e) \<and> good_tree (snd e))"

definition produces :: "string \<Rightarrow> tar_counts \<Rightarrow> string \<Rightarrow> tar_counts \<Rightarrow> extract_op list \<Rightarrow> bool" where
  "produces out c out' c' ops \<longleftrightarrow>
     (\<exists>body d. out' = out @ body \<and> c' = add_counts c d \<and> extracts body ops d)"

section \<open>Lemmas\<close>

subsection \<open>Octal fields\<close>

lemma digit_value_octal [simp]: "d < 8 \<Longrightarrow> digit_value 8 (digit_char d) = Some d"
  by (simp add: digit_value_def is_ascii_digit_def in_range_def)

lemma code_digit_char_octal: "d < 8 \<Longrightarrow> in_range 48 55 (code (digit_char d))"
  by (simp add: in_range_def)

lemma code_zero [simp]: "code (CHR ''0'') = 48" "code NUL = 0" "code (CHR '' '') = 32"
  by (simp_all add: code_def)

lemma digits_value_zeros: "digits_value 8 0 (replicate w (CHR ''0'')) = Some 0"
  by (induction w) (simp_all add: digit_value_def is_ascii_digit_def in_range_def)

lemma mod_pow_Suc: "(v :: nat) mod 8 ^ Suc w = 8 * (v div 8 mod 8 ^ w) + v mod 8"
  by (simp add: mod_mult2_eq)

lemma octal_digits_value: "digits_value 8 0 (octal_digits w v) = Some (v mod 8 ^ w)"
proof (induction w arbitrary: v)
  case (Suc w)
  show ?case
  proof (cases "v div 8 = 0")
    case True
    then show ?thesis
      by (simp add: digits_value_append digits_value_zeros mod_pow_Suc del: power_Suc)
  next
    case False
    with Suc show ?thesis by (simp add: digits_value_append mod_pow_Suc del: power_Suc)
  qed
qed simp

lemma checksum_digits_value: "digits_value 8 0 (checksum_digits w v) = Some (v mod 8 ^ w)"
  by (induction w arbitrary: v) (simp_all add: digits_value_append mod_pow_Suc del: power_Suc)

lemma octal_digits_text: "0 < w \<Longrightarrow> octal_text (octal_digits w v)" "length (octal_digits w v) = w"
proof -
  show "length (octal_digits w v) = w" by (induction w arbitrary: v) auto
  show "0 < w \<Longrightarrow> octal_text (octal_digits w v)"
    by (induction w arbitrary: v) (fastforce simp: octal_text_def code_digit_char_octal in_range_def)+
qed

lemma checksum_digits_text: "0 < w \<Longrightarrow> octal_text (checksum_digits w v)" "length (checksum_digits w v) = w"
proof -
  show "length (checksum_digits w v) = w" by (induction w arbitrary: v) auto
  show "0 < w \<Longrightarrow> octal_text (checksum_digits w v)"
    by (induction w arbitrary: v) (fastforce simp: octal_text_def code_digit_char_octal in_range_def)+
qed

lemma parse_octal_text:
  assumes "octal_text ds" "digits_value 8 0 ds = Some n" "n < U64" "\<forall>c\<in>set pad. is_nul_or_space c"
  shows "parse_octal (ds @ pad) = Ok n"
proof -
  have ascii: "\<forall>c\<in>set (ds @ pad). code c < 128"
  proof
    fix c assume "c \<in> set (ds @ pad)"
    then consider "c \<in> set ds" | "is_nul_or_space c" using assms(4) by auto
    then show "code c < 128"
    proof cases
      case 1
      with assms(1) have "in_range 48 55 (code c)" unfolding octal_text_def by blast
      then show ?thesis by (simp add: in_range_def)
    next
      case 2
      then show ?thesis by (auto simp: is_nul_or_space_def)
    qed
  qed
  have lossy: "from_utf8_lossy (ds @ pad) = ds @ pad"
    by (rule from_utf8_lossy_valid[OF utf8_valid_ascii[OF ascii]])
  obtain c cs where c: "ds = c # cs" using assms(1) by (cases ds) (auto simp: octal_text_def)
  have digit: "\<not> is_nul_or_space x" if "x \<in> set ds" for x
  proof -
    from that assms(1) have "in_range 48 55 (code x)" unfolding octal_text_def by blast
    then show ?thesis by (auto simp: in_range_def is_nul_or_space_def)
  qed
  have "dropWhile is_nul_or_space (ds @ pad) = ds @ pad" using digit c by simp
  moreover have "dropWhile is_nul_or_space (rev pad @ rev ds) = rev ds"
  proof (rule dropWhile_prefix)
    show "\<forall>x\<in>set (rev pad). is_nul_or_space x" using assms(4) by simp
    show "rev ds \<noteq> []" using c by simp
    show "\<not> is_nul_or_space (hd (rev ds))" using digit[of "last ds"] c by (metis hd_rev last_in_set list.distinct(1))
  qed
  ultimately have trim: "trim_nul_space (from_utf8_lossy (ds @ pad)) = ds"
    unfolding lossy trim_nul_space_def by simp
  have "c \<noteq> CHR ''+''" using assms(1) c by (auto simp: octal_text_def in_range_def code_def)
  with trim assms(2,3) c show ?thesis
    by (simp add: parse_octal_def parse_unsigned_def parse_digits_def)
qed

lemma parse_write_octal:
  "0 < w \<Longrightarrow> w \<le> 21 \<Longrightarrow> parse_octal (write_octal w v) = Ok (v mod 8 ^ w)"
proof -
  assume w: "0 < w" "w \<le> 21"
  have "v mod 8 ^ w < 8 ^ w" by simp
  also have "(8 :: nat) ^ w \<le> 8 ^ 21" using w by (intro power_increasing) auto
  finally have "v mod 8 ^ w < U64" by simp
  with w show ?thesis unfolding write_octal_def
    by (intro parse_octal_text) (auto simp: octal_digits_text octal_digits_value is_nul_or_space_def)
qed

lemma parse_write_checksum: "v < 8 ^ 6 \<Longrightarrow> parse_octal (write_octal_checksum v) = Ok v"
  unfolding write_octal_checksum_def
  by (intro parse_octal_text) (auto simp: checksum_digits_text checksum_digits_value is_nul_or_space_def)

subsection \<open>Headers\<close>

lemma parse_string_write_bytes:
  assumes "length s \<le> w" "NUL \<notin> set s" "utf8_valid s"
  shows "parse_string (write_bytes w s) = s"
proof -
  have "takeWhile (\<lambda>b. b \<noteq> NUL) (s @ replicate (w - length s) NUL) = s"
    using assms(2) by (cases "w - length s") (simp_all add: takeWhile_stop takeWhile_all)
  then show ?thesis
    using assms by (simp add: parse_string_def write_bytes_def from_utf8_lossy_valid)
qed

lemma field_lengths [simp]:
  "length (write_bytes w s) = w" "length (write_octal w v) = Suc w" "length (write_octal_checksum v) = 8"
  by (auto simp: write_bytes_def write_octal_def write_octal_checksum_def octal_digits_text checksum_digits_text)

lemma header_lengths:
  "length (header_front name sz mode mtime) = 148" "length (header_back tf pfx) = 356"
  by (simp_all add: header_front_def header_back_def)

lemma header_front_slices:
  "slice (header_front name sz mode mtime @ rest) 0 100 = write_bytes 100 name"
  "slice (header_front name sz mode mtime @ rest) 124 136 = write_octal 11 sz"
  by (simp_all add: header_front_def slice_def)

lemma header_back_slices:
  assumes "length front = 156"
  shows "slice (front @ header_back tf pfx) 345 500 = write_bytes 155 (case pfx of Some p \<Rightarrow> p | None \<Rightarrow> [])"
    "slice (front @ header_back tf pfx) 257 263 = ''ustar'' @ [NUL]"
    "slice (front @ header_back tf pfx) 263 265 = ''00''"
    "(front @ header_back tf pfx) ! 156 = tf"
  using assms by (simp_all add: header_back_def slice_def nth_append)

lemma byte_sum_append [simp]: "byte_sum (a @ b) = byte_sum a + byte_sum b"
  by (simp add: byte_sum_def sum_list_replicate)

lemma byte_sum_bound: "byte_sum bs \<le> 255 * length bs"
proof (induction bs)
  case (Cons b bs)
  have "code b < 256" by (simp add: code_def)
  with Cons show ?case by (simp add: byte_sum_def sum_list_replicate)
qed (simp add: byte_sum_def)

lemma header_not_zero: "\<not> list_all (\<lambda>b. b = NUL) (front @ header_back tf pfx)"
  by (simp add: header_back_def)

lemma validate_written_header:
  assumes "length front = 148" "length rear = 356" "rear = header_back tf pfx"
  shows "validate_tar_header
      (front @ write_octal_checksum (byte_sum (front @ replicate 8 (CHR '' '') @ rear)) @ rear) = Ok True"
proof -
  define sum where "sum = byte_sum (front @ replicate 8 (CHR '' '') @ rear)"
  define h where "h = (front @ write_octal_checksum sum) @ rear"
  have len: "length (front @ write_octal_checksum sum) = 156" using assms(1) by simp
  have "sum \<le> 255 * length (front @ replicate 8 (CHR '' '') @ rear)"
    unfolding sum_def by (rule byte_sum_bound)
  then have small: "sum < 8 ^ 6" using assms(1,2) by simp
  have "byte_sum (replicate 8 (CHR '' '')) = 256" by (simp add: byte_sum_def sum_list_replicate)
  then have computed: "compute_tar_checksum h = sum"
    using assms(1) len by (simp add: compute_tar_checksum_def sum_def h_def slice_def)
  have stored: "parse_octal (slice h 148 156) = Ok sum"
    using parse_write_checksum[OF small] assms(1) by (simp add: h_def slice_def)
  have "\<not> list_all (\<lambda>b. b = NUL) h" unfolding h_def assms(3) by (rule header_not_zero)
  then show ?thesis
    using stored computed header_back_slices(2,3)[OF len, of tf pfx]
    unfolding sum_def[symmetric] by (simp add: validate_tar_header_def h_def assms(3))
qed

lemma split_ustar_path_join:
  assumes "split_ustar_path path = Ok (name, pfx)" "\<not> has_root path"
  shows "path = (case pfx of None \<Rightarrow> name | Some p \<Rightarrow> p @ [SLASH] @ name)
    \<and> length name \<le> 100 \<and> (\<forall>p. pfx = Some p \<longrightarrow> length p \<le> 155 \<and> p \<noteq> [])"
  using assms
  by (auto simp: split_ustar_path_def rsplit_once_Some split: if_splits option.splits prod.splits)

lemma parse_written_header:
  assumes "write_header path sz mode mtime tf = Ok h"
    and "\<not> has_root path" "NUL \<notin> set path" "utf8_valid path"
  shows "parse_header h = Ok \<lparr>te_path = path, te_size = sz mod 8 ^ 11, te_typeflag = tf\<rparr>
    \<and> length h = TAR_BLOCK \<and> \<not> list_all (\<lambda>b. b = NUL) h"
proof -
  from assms(1) obtain name pfx where sp: "split_ustar_path path = Ok (name, pfx)" by (auto simp: write_header_def)
  define front where "front = header_front name sz mode mtime"
  define rear where "rear = header_back tf pfx"
  define chk where "chk = write_octal_checksum (byte_sum (front @ replicate 8 (CHR '' '') @ rear))"
  have h: "h = front @ chk @ rear"
    using assms(1) sp by (simp add: write_header_def front_def rear_def chk_def Let_def)
  have len: "length front = 148" "length rear = 356" "length (front @ chk) = 156"
    by (simp_all add: front_def rear_def chk_def header_lengths)
  note join = split_ustar_path_join[OF sp assms(2)]
  define p where "p = (case pfx of Some p \<Rightarrow> p | None \<Rightarrow> [])"
  have parts: "NUL \<notin> set name \<and> utf8_valid name \<and> NUL \<notin> set p \<and> utf8_valid p \<and> length p \<le> 155"
  proof (cases pfx)
    case None
    with join assms(3,4) show ?thesis by (simp add: p_def utf8_valid_def)
  next
    case (Some q)
    then have path: "path = q @ SLASH # name" and q: "length q \<le> 155" using join by simp_all
    from utf8_valid_split_ascii[of q SLASH name] assms(4) path have "utf8_valid q \<and> utf8_valid name"
      by (simp add: code_def)
    with Some path q assms(3) show ?thesis by (simp add: p_def)
  qed
  have name: "parse_string (slice h 0 100) = name"
    unfolding h front_def header_front_slices using join parts by (intro parse_string_write_bytes) simp_all
  have "slice h 345 500 = write_bytes 155 p"
    using header_back_slices(1)[OF len(3)] by (simp add: h rear_def p_def)
  then have pre: "parse_string (slice h 345 500) = p"
    using parts by (simp add: parse_string_write_bytes)
  have "validate_tar_header h = Ok True"
    using validate_written_header[OF len(1,2) rear_def] by (simp add: h chk_def)
  moreover have "parse_octal (slice h 124 136) = Ok (sz mod 8 ^ 11)"
    unfolding h front_def header_front_slices by (rule parse_write_octal) simp_all
  moreover have "h ! 156 = tf" using header_back_slices(4)[OF len(3)] by (simp add: h rear_def)
  ultimately have "parse_header h = Ok \<lparr>te_path = path, te_size = sz mod 8 ^ 11, te_typeflag = tf\<rparr>"
    using name pre join by (cases pfx) (simp_all add: parse_header_def Let_def p_def)
  moreover have "\<not> list_all (\<lambda>b. b = NUL) h"
    using header_not_zero[of "front @ chk"] by (simp add: h rear_def)
  ultimately show ?thesis using len by (simp add: h TAR_BLOCK_def)
qed

subsection \<open>Paths of members\<close>

lemma split_join_slash:
  "segs \<noteq> [] \<Longrightarrow> \<forall>s\<in>set segs. good_name s \<Longrightarrow> split_on SLASH (join [SLASH] segs) = segs"
  by (intro split_on_join) (auto simp: good_name_def)

lemma split_join_slash_trailing:
  assumes "segs \<noteq> []" "\<forall>s\<in>set segs. good_name s"
  shows "split_on SLASH (join [SLASH] segs @ [SLASH]) = segs @ [[]]"
  using split_on_append_gen[of SLASH "join [SLASH] segs" "[]"] split_join_slash[OF assms] by simp

lemma collect_normal: "collect_segments (map Normal segs) = Ok segs"
  by (induction segs) simp_all

lemma sanitize_segments:
  assumes "split_on SLASH p = segs \<or> split_on SLASH p = segs @ [[]]"
    and "segs \<noteq> []" "\<forall>s\<in>set segs. good_name s"
  shows "sanitize_tar_path p = Ok segs \<and> \<not> has_root p"
proof -
  obtain s ss where segs: "segs = s # ss" using assms(2) by (cases segs) auto
  have s: "s \<noteq> []" "s \<noteq> ''.''" using assms(3) segs by (auto simp: good_name_def)
  have hd: "hd (split_on SLASH p) = s" using assms(1) segs by auto
  have root: "\<not> has_root p"
  proof
    assume "has_root p"
    then obtain q where "p = SLASH # q" by (auto simp: has_root_def starts_with_iff)
    then have "hd (split_on SLASH p) = []" by simp
    with hd s show False by simp
  qed
  have "strip_prefix p ''./'' = None"
  proof (rule ccontr)
    assume "strip_prefix p ''./'' \<noteq> None"
    then obtain q where "p = ''.'' @ SLASH # q" by (auto simp: strip_prefix_Some)
    then have "hd (split_on SLASH p) = ''.''" by (simp add: split_on_append)
    with hd s show False by simp
  qed
  then have strip: "strip_dot_slash p = p" by (simp add: strip_dot_slash.simps)
  have "p \<noteq> []" using hd s by auto
  moreover have "filter (\<lambda>s. s \<noteq> [] \<and> s \<noteq> ''.'') segs = segs"
    using assms(3) by (intro filter_True ballI) (simp add: good_name_def)
  then have "filter (\<lambda>s. s \<noteq> [] \<and> s \<noteq> ''.'') (split_on SLASH p) = segs"
    using assms(1) by (elim disjE) simp_all
  then have "body_components p = map Normal segs"
    using assms(3) by (simp add: body_components_def) (auto simp: comp_of_def good_name_def)
  then have "components p = map Normal segs" using root hd s by (simp add: components_def)
  ultimately show ?thesis
    using strip root assms(2) by (simp add: sanitize_tar_path_def collect_normal)
qed

lemma utf8_valid_append_slash: "utf8_valid a \<Longrightarrow> utf8_valid b \<Longrightarrow> utf8_valid (a @ SLASH # b)"
proof -
  assume "utf8_valid a" "utf8_valid b"
  then have "utf8_valid (concat (str_chars a @ [[SLASH]] @ str_chars b))"
    by (intro utf8_valid_concat_scalars)
       (simp add: utf8_valid_scalars list_all_append is_scalar_def utf8_extra_def utf8_class_def code_def)
  then show ?thesis by (simp add: concat_str_chars)
qed

lemma utf8_valid_Nil: "utf8_valid []"
  by (simp add: utf8_valid_def utf8_chunks.simps)

lemma utf8_valid_snoc_slash: "utf8_valid p \<Longrightarrow> utf8_valid (p @ [SLASH])"
  by (intro utf8_valid_append_slash utf8_valid_Nil)

lemma join_plain:
  "\<forall>s\<in>set segs. good_name s \<Longrightarrow> NUL \<notin> set (join [SLASH] segs) \<and> utf8_valid (join [SLASH] segs)"
proof (induction "[SLASH]" segs rule: join.induct)
  case (3 x y ys)
  then have "good_name x" "NUL \<notin> set (join [SLASH] (y # ys))" "utf8_valid (join [SLASH] (y # ys))" by simp_all
  then show ?case using utf8_valid_append_slash by (simp add: good_name_def)
qed (simp_all add: good_name_def utf8_valid_Nil)

lemma join_Nil_iff: "\<forall>s\<in>set segs. good_name s \<Longrightarrow> join [SLASH] segs = [] \<longleftrightarrow> segs = []"
  by (induction "[SLASH]" segs rule: join.induct) (auto simp: good_name_def)

lemma archive_path_join:
  "\<forall>s\<in>set segs. good_name s \<Longrightarrow> archive_path (join [SLASH] segs) n = join [SLASH] (segs @ [n])"
  using join_append_single[of segs "[SLASH]" n] join_Nil_iff[of segs] by (auto simp: archive_path_def)

lemma read_entries_good:
  assumes "\<forall>e\<in>set es. good_name (fst e) \<and> good_tree (snd e)"
  shows "\<forall>e\<in>set (read_entries es). good_name (fst e) \<and> good_tree (snd e)"
proof
  fix e assume "e \<in> set (read_entries es)"
  then obtain n t where "(n, t) \<in> set es" "e = (from_utf8_lossy n, t)" by (auto simp: read_entries_def)
  with assms show "good_name (fst e) \<and> good_tree (snd e)" by (force simp: good_name_def from_utf8_lossy_valid)
qed

subsection \<open>Confinement\<close>

lemma collect_segments_plain:
  "collect_segments cs = Ok segs \<Longrightarrow> (\<And>s. Normal s \<in> set cs \<Longrightarrow> plain_segment s) \<Longrightarrow> list_all plain_segment segs"
  by (induction cs arbitrary: segs rule: collect_segments.induct) auto

lemma sanitize_plain:
  "sanitize_tar_path p = Ok rel \<Longrightarrow> rel \<noteq> [] \<and> list_all plain_segment rel"
  unfolding sanitize_tar_path_def
  by (auto simp: Let_def plain_segment_def split: if_splits
      dest!: collect_segments_plain Normal_in_components)

lemma extract_entry_confined:
  "list_all confined_op ops \<Longrightarrow> list_all confined_op (fst (extract_entry entry rest ops c))"
  using sanitize_plain[of "te_path entry"]
  by (auto simp: extract_entry_def Let_def confined_op_def split: result.split)

lemma extract_loop_confined:
  "list_all confined_op ops \<Longrightarrow> list_all confined_op (fst (extract_loop input ops c))"
proof (induction input ops c rule: extract_loop.induct)
  case (1 input ops c)
  have "list_all confined_op ops'" if "extract_entry entry rest ops c = (ops', r)" for entry rest ops' r
    using extract_entry_confined[OF "1.prems", of entry rest c] that by simp
  then show ?case
    by (subst extract_loop.simps) (use 1 in \<open>simp split: result.split prod.split\<close>)
qed

subsection \<open>Round trip\<close>

lemma extract_header_step:
  assumes "write_header path sz mode mtime tf = Ok h" "\<not> has_root path" "NUL \<notin> set path" "utf8_valid path"
  shows "read_exact TarHeaderShort TAR_BLOCK (h @ rest) = Ok (h, rest)" "\<not> list_all (\<lambda>b. b = NUL) h"
    "parse_header h = Ok \<lparr>te_path = path, te_size = sz mod 8 ^ 11, te_typeflag = tf\<rparr>"
  using parse_written_header[OF assms] by (simp_all add: read_exact_def)

lemma add_counts_simps:
  "add_counts c no_counts = c" "add_counts no_counts c = c"
  "add_counts (add_counts a b) d = add_counts a (add_counts b d)"
  "c\<lparr>tc_directories := tc_directories c + 1\<rparr> = add_counts c (no_counts\<lparr>tc_directories := 1\<rparr>)"
  "c\<lparr>tc_files := tc_files c + 1, tc_bytes := tc_bytes c + n\<rparr>
     = add_counts c (no_counts\<lparr>tc_files := 1, tc_bytes := n\<rparr>)"
  "c\<lparr>tc_bytes := tc_bytes c + n, tc_files := tc_files c + 1\<rparr>
     = add_counts c (no_counts\<lparr>tc_files := 1, tc_bytes := n\<rparr>)"
  by (simp_all add: add_counts_def no_counts_def)

lemma extracts_dir:
  assumes "segs \<noteq> []" "\<forall>s\<in>set segs. good_name s"
    and "write_header (join [SLASH] segs @ [SLASH]) 0 mode mtime (CHR ''5'') = Ok h"
  shows "extracts h [CreateDirAll segs] (no_counts\<lparr>tc_directories := 1\<rparr>)"
proof -
  have san: "sanitize_tar_path (join [SLASH] segs @ [SLASH]) = Ok segs \<and> \<not> has_root (join [SLASH] segs @ [SLASH])"
    using split_join_slash_trailing[OF assms(1,2)] assms(1,2) by (intro sanitize_segments) simp_all
  have "NUL \<notin> set (join [SLASH] segs @ [SLASH])" "utf8_valid (join [SLASH] segs @ [SLASH])"
    using join_plain[OF assms(2)] utf8_valid_snoc_slash by auto
  note step = extract_header_step[OF assms(3) conjunct2[OF san] this]
  show ?thesis
    unfolding extracts_def add_counts_simps(4)[symmetric] using step san
    by (simp add: extract_loop.simps[of "h @ _"] extract_entry_def skip_padding_def padding_len_def read_exact_def)
qed

lemma extracts_file:
  assumes "segs \<noteq> []" "\<forall>s\<in>set segs. good_name s" "length content < 8 ^ 11"
    and "write_header (join [SLASH] segs) (length content) mode mtime (CHR ''0'') = Ok h"
  shows "extracts (h @ content @ write_padding (length content)) [CreateFile segs content]
    (no_counts\<lparr>tc_files := 1, tc_bytes := length content\<rparr>)"
proof -
  have san: "sanitize_tar_path (join [SLASH] segs) = Ok segs \<and> \<not> has_root (join [SLASH] segs)"
    using split_join_slash[OF assms(1,2)] assms(1,2) by (intro sanitize_segments) simp_all
  have "NUL \<notin> set (join [SLASH] segs)" "utf8_valid (join [SLASH] segs)"
    using join_plain[OF assms(2)] by auto
  note step = extract_header_step[OF assms(4) conjunct2[OF san] this]
  have body: "read_exact TarStreamShort (length content) (content @ r) = Ok (content, r)" for r
    by (simp add: read_exact_def)
  have pad: "skip_padding (length content) (write_padding (length content) @ r) = Ok r" for r
    by (simp add: skip_padding_def read_exact_def write_padding_def)
  show ?thesis
    unfolding extracts_def add_counts_simps(6)[symmetric] using step san assms(3)
    by (simp add: extract_loop.simps[of "h @ _"] extract_entry_def body pad)
qed

lemma produces_done: "produces out c out c []"
  unfolding produces_def extracts_def
  by (intro exI[of _ "[]"] exI[of _ no_counts]) (simp add: add_counts_simps)

lemma produces_step:
  assumes "extracts x ops1 d1" "produces (out @ x) (add_counts c d1) out' c' ops2"
  shows "produces out c out' c' (ops1 @ ops2)"
proof -
  from assms(2) obtain body d where "out' = (out @ x) @ body" "c' = add_counts (add_counts c d1) d"
    "extracts body ops2 d" unfolding produces_def by blast
  with assms(1) show ?thesis
    unfolding produces_def extracts_def
    by (intro exI[of _ "x @ body"] exI[of _ "add_counts d1 d"]) (simp add: add_counts_simps)
qed

lemma tar_loop_produces:
  "tar_loop (map (\<lambda>(segs, es). (join [SLASH] segs, es)) st) out c = Ok (out', c') \<Longrightarrow> list_all good_frame st \<Longrightarrow>
   produces out c out' c' (stack_ops st)"
proof (induction st arbitrary: out c rule: measure_induct_rule[of "\<lambda>st. sum_list (map (\<lambda>(segs, es). frame_weight ([], es)) st)"])
  case (less st)
  consider (empty) "st = []" | (pop) segs st' where "st = (segs, []) # st'"
    | (entry) segs name t es st' where "st = (segs, (name, t) # es) # st'"
    by (metis list.exhaust surj_pair)
  then show ?case
  proof cases
    case empty
    with less.prems produces_done show ?thesis by simp
  next
    case pop
    with less.prems less.IH[of st'] show ?thesis by (simp add: frame_weight_def entries_ops_def)
  next
    case entry
    have frames: "good_frame (segs, (name, t) # es)" "list_all good_frame st'"
      using less.prems(2) entry by simp_all
    then have good: "\<forall>s\<in>set segs. good_name s" "good_tree t" "good_frame (segs, es)" "list_all good_frame st'"
      and all: "\<forall>s\<in>set (segs @ [name]). good_name s"
      by (simp_all add: good_frame_def ball_Un)
    note path = archive_path_join[OF good(1)]
    show ?thesis
    proof (cases t)
      case (FFile mode mtime sz content)
      with good(2) have sz: "sz = length content" "length content < 8 ^ 11" by simp_all
      from less.prems(1) entry FFile sz(1) path obtain h where
        h: "write_header (join [SLASH] (segs @ [name])) (length content) mode mtime (CHR ''0'') = Ok h"
        and rest: "tar_loop (map (\<lambda>(segs, es). (join [SLASH] segs, es)) ((segs, es) # st'))
          (out @ (h @ content @ write_padding (length content)))
          (add_counts c (no_counts\<lparr>tc_files := 1, tc_bytes := length content\<rparr>)) = Ok (out', c')"
        unfolding add_counts_simps(5)[symmetric]
        by (cases "write_header (join [SLASH] (segs @ [name])) (length content) mode mtime (CHR ''0'')")
           (simp_all add: Let_def copy_exact_len_def)
      have "produces (out @ (h @ content @ write_padding (length content)))
          (add_counts c (no_counts\<lparr>tc_files := 1, tc_bytes := length content\<rparr>)) out' c' (stack_ops ((segs, es) # st'))"
        using good entry FFile by (intro less.IH[OF _ rest]) (simp_all add: frame_weight_def)
      from produces_step[OF extracts_file[OF _ all sz(2) h] this] show ?thesis
        using entry FFile by (simp add: entries_ops_def)
    next
      case (FDir mode mtime sub)
      from less.prems(1) entry FDir path obtain h where
        h: "write_header (join [SLASH] (segs @ [name]) @ [SLASH]) 0 mode mtime (CHR ''5'') = Ok h"
        and rest: "tar_loop (map (\<lambda>(segs, es). (join [SLASH] segs, es))
            ((segs @ [name], read_entries sub) # (segs, es) # st')) (out @ h)
          (add_counts c (no_counts\<lparr>tc_directories := 1\<rparr>)) = Ok (out', c')"
        unfolding add_counts_simps(4)[symmetric]
        by (cases "write_header (join [SLASH] (segs @ [name]) @ [SLASH]) 0 mode mtime (CHR ''5'')")
           (simp_all add: Let_def)
      have "good_frame (segs @ [name], read_entries sub)"
        using good(2) all FDir read_entries_good[of sub] by (simp add: good_frame_def)
      then have "produces (out @ h) (add_counts c (no_counts\<lparr>tc_directories := 1\<rparr>)) out' c'
          (stack_ops ((segs @ [name], read_entries sub) # (segs, es) # st'))"
        using good entry FDir by (intro less.IH[OF _ rest]) (simp_all add: frame_weight_def sum_list_read_entries)
      from produces_step[OF extracts_dir[OF _ all h] this] show ?thesis
        using entry FDir by (simp add: entries_ops_def)
    qed (use good(2) in simp_all)
  qed
qed

section \<open>Properties\<close>

text \<open>What the header writer writes, the header reader reads back: the path, whether it fits the
  name field or is split between name and prefix, the type flag, and the size as far as eleven octal
  digits can express it; the block has 512 bytes and passes the checksum test.\<close>

theorem tar_header_roundtrip:
  assumes "write_header path sz mode mtime tf = Ok h"
    and "\<not> has_root path" "NUL \<notin> set path" "utf8_valid path"
  shows "length h = TAR_BLOCK \<and>
    parse_header h = Ok \<lparr>te_path = path, te_size = sz mod 8 ^ 11, te_typeflag = tf\<rparr>"
  using parse_written_header[OF assms] by simp

theorem tar_header_roundtrip_witness:
  "\<exists>h. length h = TAR_BLOCK \<and> parse_header h = Ok \<lparr>te_path = ''a/b'', te_size = 5, te_typeflag = CHR ''0''\<rparr>"
proof -
  have "is_ok (write_header ''a/b'' 5 420 0 (CHR ''0''))"
    by (simp add: write_header_def split_ustar_path_def Let_def)
  then obtain h where h: "write_header ''a/b'' 5 420 0 (CHR ''0'') = Ok h"
    by (cases "write_header ''a/b'' 5 420 0 (CHR ''0'')") auto
  have "utf8_valid ''a/b''" by code_simp
  from tar_header_roundtrip[OF h _ _ this] show ?thesis by (intro exI[of _ h]) simp
qed

text \<open>C23: a directory survives the transfer. When a tree of plain files and directories has been
  written as a tar stream, extracting the stream creates exactly its directories and its files with
  their contents, in the order of the traversal, a directory before what it holds; nothing else is
  created, and both sides count the same files, directories and bytes.\<close>

theorem tar_roundtrip:
  assumes "good_tree (FDir mode mtime es)" "write_dir_as_tar (FDir mode mtime es) = Ok (bytes, c)"
  shows "extract_tar_to_dir bytes = (tl (tree_ops [] (FDir mode mtime es)), Ok c)"
proof -
  from assms(2) obtain out where
    loop: "tar_loop [([], read_entries es)] [] no_counts = Ok (out, c)"
    and bytes: "bytes = out @ replicate TAR_BLOCK NUL @ replicate TAR_BLOCK NUL"
    by (auto simp: write_dir_as_tar_def)
  have "good_frame ([], read_entries es)"
    using assms(1) read_entries_good[of es] by (simp add: good_frame_def)
  with tar_loop_produces[of "[([], read_entries es)]" "[]" no_counts out c] loop
  have "produces [] no_counts out c (entries_ops [] (read_entries es))" by simp
  then have ex: "extracts out (entries_ops [] (read_entries es)) c"
    by (auto simp: produces_def add_counts_simps)
  have "extract_loop bytes [] no_counts
      = extract_loop (replicate TAR_BLOCK NUL @ replicate TAR_BLOCK NUL) (entries_ops [] (read_entries es)) (add_counts no_counts c)"
    using ex unfolding extracts_def bytes by simp
  also have "\<dots> = (entries_ops [] (read_entries es), Ok (c, []))"
    by (simp add: extract_loop.simps read_exact_def list_all_iff add_counts_simps)
  finally show ?thesis
    by (simp add: extract_tar_to_dir_def entries_ops_def)
qed
theorem tar_roundtrip_witness:
  "\<exists>bytes c. write_dir_as_tar (FDir 493 0 [(''d'', FDir 493 0 [(''a'', FFile 420 0 2 ''hi'')])]) = Ok (bytes, c)
     \<and> extract_tar_to_dir bytes = ([CreateDirAll [''d''], CreateFile [''d'', ''a''] ''hi''], Ok c)"
proof -
  let ?t = "[(''d'', FDir 493 0 [(''a'', FFile 420 0 2 ''hi'')])]"
  have names: "good_name ''d''" "good_name ''a''" by (code_simp, code_simp)
  then have lossy: "from_utf8_lossy ''d'' = ''d''" "from_utf8_lossy ''a'' = ''a''"
    by (simp_all add: good_name_def from_utf8_lossy_valid)
  then have "is_ok (write_dir_as_tar (FDir 493 0 ?t))"
    by (simp add: write_dir_as_tar_def read_entries_def archive_path_def write_header_def split_ustar_path_def
        copy_exact_len_def Let_def)
  then obtain bytes c where ok: "write_dir_as_tar (FDir 493 0 ?t) = Ok (bytes, c)"
    by (cases "write_dir_as_tar (FDir 493 0 ?t)") auto
  have "good_tree (FDir 493 0 ?t)" using names by simp
  from tar_roundtrip[OF this ok] ok show ?thesis
    by (intro exI[of _ bytes] exI[of _ c]) (simp add: entries_ops_def read_entries_def lossy)
qed

text \<open>A file of 8 GiB or more is announced with a wrong size: the header of a file of exactly
  8 GiB reads back as that of an empty file.\<close>

theorem tar_size_truncated:
  "\<exists>h. write_header ''big'' (8 ^ 11) mode mtime (CHR ''0'') = Ok h
     \<and> parse_header h = Ok \<lparr>te_path = ''big'', te_size = 0, te_typeflag = CHR ''0''\<rparr>"
proof -
  have "is_ok (write_header ''big'' (8 ^ 11) mode mtime (CHR ''0''))"
    by (simp add: write_header_def split_ustar_path_def Let_def)
  then obtain h where h: "write_header ''big'' (8 ^ 11) mode mtime (CHR ''0'') = Ok h"
    by (cases "write_header ''big'' (8 ^ 11) mode mtime (CHR ''0'')") auto
  have "utf8_valid ''big''" by code_simp
  from parse_written_header[OF h _ _ this] h show ?thesis by (intro exI[of _ h]) simp
qed

text \<open>C22: whatever the bytes of the stream, and also when extraction fails halfway, every directory and
  file it creates is named by plain segments: none is empty, \<open>.\<close> or \<open>..\<close>, none holds a separator, so no
  operation is addressed outside the destination.\<close>

theorem extract_tar_confined:
  "list_all confined_op (fst (extract_tar_to_dir bytes))"
  using extract_loop_confined[of "[]" bytes no_counts] by (simp add: extract_tar_to_dir_def case_prod_beta)

end
