(* ===== verification/Output.thy ===== *)
theory Output
  imports Jobs
begin

text \<open>
  How the output of a remote command is collected and bounded: \<open>collect_channel_output\<close>, the raw
  streams' bounded error text and \<open>read_local_log_tail\<close> of \<open>src/src/ssh/command.rs\<close>, the native
  collector of \<open>src/src/ssh/routeros.rs\<close>, the bounded buffer of \<open>src/src/ssh/environment.rs\<close> and
  the snippets of \<open>src/src/background/response.rs\<close>. A string slice that is not on a character
  boundary panics; the panic is a value of the result.
\<close>

section \<open>Definitions\<close>

subsection \<open>Character boundaries\<close>

definition is_char_boundary :: "string \<Rightarrow> nat \<Rightarrow> bool" where
  "is_char_boundary s i \<longleftrightarrow> i = 0 \<or> i = length s \<or> (i < length s \<and> \<not> is_cont (byte_at s i))"

text \<open>The loops that move an index down to a boundary.\<close>

fun floor_boundary :: "string \<Rightarrow> nat \<Rightarrow> nat" where
  "floor_boundary s 0 = 0"
| "floor_boundary s (Suc n) = (if is_char_boundary s (Suc n) then Suc n else floor_boundary s n)"

text \<open>\<open>char_indices\<close>: the offsets at which the characters start.\<close>

fun starts_from :: "nat \<Rightarrow> string list \<Rightarrow> nat list" where
  "starts_from i [] = []"
| "starts_from i (ch # chs) = i # starts_from (i + length ch) chs"

definition char_indices :: "string \<Rightarrow> nat list" where
  "char_indices s = starts_from 0 (str_chars s)"

subsection \<open>Command output\<close>

record command_output =
  co_stdout :: string
  co_stderr :: string
  co_exit_code :: "nat option"
  co_stdout_truncated :: bool
  co_stderr_truncated :: bool
  co_stdout_total_tokens :: nat
  co_stderr_total_tokens :: nat

definition command_output_new :: command_output where
  "command_output_new = \<lparr>co_stdout = [], co_stderr = [], co_exit_code = None, co_stdout_truncated = False,
     co_stderr_truncated = False, co_stdout_total_tokens = 0, co_stderr_total_tokens = 0\<rparr>"

definition success :: "command_output \<Rightarrow> bool" where
  "success out \<longleftrightarrow> (case co_exit_code out of Some rc \<Rightarrow> rc = 0 | None \<Rightarrow> False)"

definition combined_output :: "command_output \<Rightarrow> string" where
  "combined_output out =
     (if co_stderr out = [] then co_stdout out
      else if co_stdout out = [] then co_stderr out
      else co_stdout out @ [NL] @ co_stderr out)"

subsection \<open>Bounded error text of raw streams\<close>

definition RAW_STREAM_BYTES_PER_TOKEN :: nat where
  "RAW_STREAM_BYTES_PER_TOKEN = 4"

definition RAW_STREAM_STDERR_HARD_MAX_BYTES :: nat where
  "RAW_STREAM_STDERR_HARD_MAX_BYTES = 1024 * 1024"

definition resolve_raw_stream_stderr_limit :: "nat option \<Rightarrow> nat" where
  "resolve_raw_stream_stderr_limit max_output_tokens =
     min (case max_output_tokens of
            Some tokens \<Rightarrow>
              (let bytes = tokens * RAW_STREAM_BYTES_PER_TOKEN in
               if bytes < U64 \<and> bytes > 0 then bytes else RAW_STREAM_STDERR_HARD_MAX_BYTES)
          | None \<Rightarrow> RAW_STREAM_STDERR_HARD_MAX_BYTES)
       RAW_STREAM_STDERR_HARD_MAX_BYTES"

definition utf8_prefix_len :: "string \<Rightarrow> nat \<Rightarrow> nat" where
  "utf8_prefix_len input max_bytes =
     (if length input \<le> max_bytes then length input else floor_boundary input max_bytes)"

definition append_bounded_lossy_stderr :: "string \<Rightarrow> string \<Rightarrow> nat \<Rightarrow> string \<times> bool" where
  "append_bounded_lossy_stderr stderr chunk max_len =
     (if length stderr \<ge> max_len then (stderr, True)
      else
        let chunk_str = from_utf8_lossy chunk; remaining = max_len - length stderr in
        if length chunk_str \<le> remaining then (stderr @ chunk_str, False)
        else (stderr @ take (utf8_prefix_len chunk_str remaining) chunk_str, True))"

subsection \<open>Collecting a channel\<close>

datatype collect_error = SlicePanic | ClosedWithoutExitStatus

definition BYTES_PER_TOKEN :: nat where
  "BYTES_PER_TOKEN = 4"

definition TAIL_BYTES :: nat where
  "TAIL_BYTES = 512"

text \<open>\<open>&s[..n]\<close> and \<open>&s[n..]\<close>.\<close>

definition str_prefix :: "string \<Rightarrow> nat \<Rightarrow> (string, collect_error) result" where
  "str_prefix s n = (if is_char_boundary s n then Ok (take n s) else Err SlicePanic)"

definition str_suffix :: "string \<Rightarrow> nat \<Rightarrow> (string, collect_error) result" where
  "str_suffix s n = (if is_char_boundary s n then Ok (drop n s) else Err SlicePanic)"

text \<open>What the collector keeps for one of the two streams: the text, the truncation flag and the token
  total of the output, the running token total, whether the notice was added, and the tail.\<close>

record stream_buf =
  sb_text :: string
  sb_truncated :: bool
  sb_reported_tokens :: nat
  sb_total_tokens :: nat
  sb_truncation_added :: bool
  sb_tail :: string

definition stream_buf_new :: stream_buf where
  "stream_buf_new = \<lparr>sb_text = [], sb_truncated = False, sb_reported_tokens = 0, sb_total_tokens = 0,
     sb_truncation_added = False, sb_tail = []\<rparr>"

definition push_tail :: "string \<Rightarrow> string \<Rightarrow> string" where
  "push_tail buf chunk =
     (if chunk = [] then buf
      else
        let b = buf @ chunk in
        if length b > TAIL_BYTES then drop (floor_boundary b (length b - TAIL_BYTES)) b else b)"

definition truncation_notice :: "nat \<Rightarrow> string" where
  "truncation_notice tokens =
     [NL] @ ''[Output truncated: '' @ show_nat tokens @ '' tokens total]''
     @ [NL] @ ''[Tip: Use '' @ [SQ] @ ''head -n 100'' @ [SQ] @ '' for first lines, '' @ [SQ] @ ''tail -n 100'' @ [SQ]
     @ '' for last lines]''
     @ [NL] @ ''[Tip: For large output use SFTP/SCP tools to download files]''"

definition take_len :: "string \<Rightarrow> nat \<Rightarrow> nat" where
  "take_len data_str remaining =
     (let safe_end = (case find (\<lambda>i. i > remaining) (char_indices data_str) of
                        Some i \<Rightarrow> i | None \<Rightarrow> length data_str) in
      min safe_end remaining)"

definition count_tokens :: "string \<Rightarrow> stream_buf \<Rightarrow> stream_buf" where
  "count_tokens data b = b\<lparr>sb_total_tokens := sat_add (sb_total_tokens b) (length data div BYTES_PER_TOKEN)\<rparr>"

definition push_limited :: "nat option \<Rightarrow> string \<Rightarrow> stream_buf \<Rightarrow> (stream_buf, collect_error) result" where
  "push_limited max_bytes data_str b =
     (case max_bytes of
        None \<Rightarrow> Ok (b\<lparr>sb_text := sb_text b @ data_str\<rparr>)
      | Some limit \<Rightarrow>
          let current_len = length (sb_text b) in
          if sat_add current_len (length data_str) > limit then
            (if \<not> sb_truncation_added b then
               let remaining = limit - current_len;
                   n = (if remaining > 0 then take_len data_str remaining else 0) in
               and_then (if remaining > 0 then str_prefix data_str n else Ok []) (\<lambda>kept.
               and_then (str_suffix data_str n) (\<lambda>rest.
                 Ok (b\<lparr>sb_text := sb_text b @ kept @ truncation_notice (sb_total_tokens b), sb_truncated := True,
                       sb_reported_tokens := sb_total_tokens b, sb_truncation_added := True,
                       sb_tail := push_tail (sb_tail b) rest\<rparr>)))
             else Ok (b\<lparr>sb_tail := push_tail (sb_tail b) data_str\<rparr>))
          else Ok (b\<lparr>sb_text := sb_text b @ data_str\<rparr>))"

record collect_state =
  cs_stdout :: stream_buf
  cs_stderr :: stream_buf
  cs_exit_code :: "nat option"

definition collect_msg :: "nat option \<Rightarrow> channel_msg \<Rightarrow> collect_state \<Rightarrow> (collect_state, collect_error) result" where
  "collect_msg max_bytes msg st =
     (case msg of
        Data d \<Rightarrow>
          and_then (push_limited max_bytes (from_utf8_lossy d) (count_tokens d (cs_stdout st))) (\<lambda>b.
            Ok (st\<lparr>cs_stdout := b\<rparr>))
      | ExtendedData ext d \<Rightarrow>
          let counted = count_tokens d (cs_stderr st) in
          if ext = 1 then
            and_then (push_limited max_bytes (from_utf8_lossy d) counted) (\<lambda>b. Ok (st\<lparr>cs_stderr := b\<rparr>))
          else
            Ok (st\<lparr>cs_stderr := counted,
                   cs_stdout := (cs_stdout st)\<lparr>sb_text := sb_text (cs_stdout st) @ from_utf8_lossy d\<rparr>\<rparr>)
      | ExitStatus n \<Rightarrow> Ok (st\<lparr>cs_exit_code := Some n\<rparr>)
      | ExitSignal s \<Rightarrow> Ok (st\<lparr>cs_exit_code := Some (nat (signal_code s))\<rparr>)
      | _ \<Rightarrow> Ok st)"

fun collect_loop :: "nat option \<Rightarrow> channel_msg list \<Rightarrow> collect_state \<Rightarrow> (collect_state, collect_error) result" where
  "collect_loop max_bytes [] st = Ok st"
| "collect_loop max_bytes (msg # msgs) st = and_then (collect_msg max_bytes msg st) (collect_loop max_bytes msgs)"

definition final_text :: "stream_buf \<Rightarrow> string" where
  "final_text b = (if sb_truncated b \<and> sb_tail b \<noteq> [] then sb_text b @ [NL] @ sb_tail b else sb_text b)"

definition final_tokens :: "stream_buf \<Rightarrow> nat" where
  "final_tokens b = (if sb_reported_tokens b = 0 then sb_total_tokens b else sb_reported_tokens b)"

definition collect_channel_output :: "nat option \<Rightarrow> channel_msg list \<Rightarrow> (command_output, collect_error) result" where
  "collect_channel_output max_output_tokens msgs =
     (let max_bytes = map_option (\<lambda>tokens. sat_mul tokens BYTES_PER_TOKEN) max_output_tokens in
      and_then (collect_loop max_bytes msgs \<lparr>cs_stdout = stream_buf_new, cs_stderr = stream_buf_new, cs_exit_code = None\<rparr>)
        (\<lambda>st. case cs_exit_code st of
           None \<Rightarrow> Err ClosedWithoutExitStatus
         | Some rc \<Rightarrow>
             Ok \<lparr>co_stdout = final_text (cs_stdout st), co_stderr = final_text (cs_stderr st), co_exit_code = Some rc,
                 co_stdout_truncated = sb_truncated (cs_stdout st), co_stderr_truncated = sb_truncated (cs_stderr st),
                 co_stdout_total_tokens = final_tokens (cs_stdout st),
                 co_stderr_total_tokens = final_tokens (cs_stderr st)\<rparr>))"

subsection \<open>The native collector\<close>

record byte_prefix =
  bp_bytes :: string
  bp_total_bytes :: nat

definition byte_prefix_append :: "byte_prefix \<Rightarrow> string \<Rightarrow> nat option \<Rightarrow> byte_prefix" where
  "byte_prefix_append b data limit =
     (let n = (case limit of Some l \<Rightarrow> min (l - length (bp_bytes b)) (length data) | None \<Rightarrow> length data) in
      b\<lparr>bp_total_bytes := sat_add (bp_total_bytes b) (length data), bp_bytes := bp_bytes b @ take n data\<rparr>)"

definition byte_prefix_finish :: "byte_prefix \<Rightarrow> string \<times> bool \<times> nat" where
  "byte_prefix_finish b =
     (from_utf8_lossy (bp_bytes b), bp_total_bytes b > length (bp_bytes b),
      (bp_total_bytes b + (BYTES_PER_TOKEN - 1)) div BYTES_PER_TOKEN)"

record collector =
  c_stdout :: byte_prefix
  c_stderr :: byte_prefix
  c_limit :: "nat option"
  c_exit_code :: "nat option"
  c_exit_signal :: "signal option"
  c_may_have_run :: bool

datatype native_error =
    ExecRejected
  | ExitedWithSignal signal
  | ClosedWithoutStatus
  | EndedWithoutClose
  | StoppedBy string

definition collector_new :: "nat option \<Rightarrow> collector" where
  "collector_new max_tokens =
     \<lparr>c_stdout = \<lparr>bp_bytes = [], bp_total_bytes = 0\<rparr>, c_stderr = \<lparr>bp_bytes = [], bp_total_bytes = 0\<rparr>,
      c_limit = map_option (\<lambda>tokens. sat_mul tokens BYTES_PER_TOKEN) max_tokens,
      c_exit_code = None, c_exit_signal = None, c_may_have_run = False\<rparr>"

definition collector_event :: "collector \<Rightarrow> channel_msg option \<Rightarrow> collector \<times> (unit, native_error) result option" where
  "collector_event c message =
     (case message of
        Some (Data d) \<Rightarrow> (c\<lparr>c_stdout := byte_prefix_append (c_stdout c) d (c_limit c)\<rparr>, None)
      | Some (ExtendedData ext d) \<Rightarrow>
          if ext = 1 then (c\<lparr>c_stderr := byte_prefix_append (c_stderr c) d (c_limit c)\<rparr>, None)
          else (c\<lparr>c_stdout := byte_prefix_append (c_stdout c) d (c_limit c)\<rparr>, None)
      | Some (ExitStatus n) \<Rightarrow> (c\<lparr>c_exit_code := Some n\<rparr>, None)
      | Some (ExitSignal s) \<Rightarrow> (c\<lparr>c_exit_signal := Some s\<rparr>, None)
      | Some Failure \<Rightarrow> (c\<lparr>c_may_have_run := False\<rparr>, Some (Err ExecRejected))
      | Some Close \<Rightarrow>
          (c, Some (case c_exit_signal c of
                      Some s \<Rightarrow> Err (ExitedWithSignal s)
                    | None \<Rightarrow> if c_exit_code c = None then Err ClosedWithoutStatus else Ok ()))
      | None \<Rightarrow> (c, Some (Err EndedWithoutClose))
      | Some _ \<Rightarrow> (c, None))"

definition collector_finish ::
  "collector \<Rightarrow> (unit, native_error) result \<Rightarrow> (command_output, command_output \<times> native_error \<times> bool) result" where
  "collector_finish c r =
     (let (stdout, stdout_truncated, stdout_total_tokens) = byte_prefix_finish (c_stdout c);
          (stderr, stderr_truncated, stderr_total_tokens) = byte_prefix_finish (c_stderr c);
          out = \<lparr>co_stdout = stdout, co_stderr = stderr, co_exit_code = c_exit_code c,
                 co_stdout_truncated = stdout_truncated, co_stderr_truncated = stderr_truncated,
                 co_stdout_total_tokens = stdout_total_tokens, co_stderr_total_tokens = stderr_total_tokens\<rparr> in
      case r of
        Ok _ \<Rightarrow> Ok out
      | Err message \<Rightarrow> Err (out, message, c_may_have_run c))"

text \<open>The loop of \<open>routeros_owner\<close>: each wait yields a message, or the reason for which the request
  stops. When the messages of the channel are exhausted it has ended.\<close>

datatype native_wait = Waited channel_msg | Stopped string

fun native_loop :: "native_wait list \<Rightarrow> collector \<Rightarrow> collector \<times> (unit, native_error) result" where
  "native_loop [] c =
     (case collector_event c None of (c', Some r) \<Rightarrow> (c', r) | (c', None) \<Rightarrow> (c', Err EndedWithoutClose))"
| "native_loop (Stopped reason # es) c = (c, Err (StoppedBy reason))"
| "native_loop (Waited msg # es) c =
     (case collector_event c (Some msg) of
        (c', Some r) \<Rightarrow> (c', r)
      | (c', None) \<Rightarrow> native_loop es c')"

definition native_exec ::
  "nat option \<Rightarrow> native_wait list \<Rightarrow> (command_output, command_output \<times> native_error \<times> bool) result" where
  "native_exec max_output_tokens es =
     (let (c, r) = native_loop es ((collector_new max_output_tokens)\<lparr>c_may_have_run := True\<rparr>) in
      collector_finish c r)"

subsection \<open>Bounded buffers\<close>

definition append_bounded :: "string \<Rightarrow> string \<Rightarrow> nat \<Rightarrow> string \<times> bool" where
  "append_bounded output data limit =
     (let remaining = limit - length output in
      (output @ take (min (length data) remaining) data, length data > remaining))"

definition truncate_with_flag :: "string \<Rightarrow> nat \<Rightarrow> string \<times> bool" where
  "truncate_with_flag input limit_chars =
     (concat (take limit_chars (str_chars input)), length (str_chars input) > limit_chars)"

subsection \<open>The tail of a log\<close>

definition log_file_exists :: "fs \<Rightarrow> string \<Rightarrow> (bool, log_error) result" where
  "log_file_exists fs path =
     (case symlink_metadata fs path of
        Ok meta \<Rightarrow> if is_symlink meta then Err LogIsSymlink else Ok (is_file meta)
      | Err NotFoundE \<Rightarrow> Ok False
      | Err e \<Rightarrow> Err (LogIo e))"

text \<open>Opening for reading with \<open>O_NOFOLLOW\<close>: the contents of a regular file. The file system does not
  change between the test and the opening; the check of the opened handle repeats the first.\<close>

definition open_log_read_no_symlink :: "fs \<Rightarrow> string \<Rightarrow> (string option, log_error) result" where
  "open_log_read_no_symlink fs path =
     (case symlink_metadata fs path of
        Ok meta \<Rightarrow>
          if is_symlink meta then Err LogIsSymlink
          else (case meta of NFile b \<Rightarrow> Ok (Some b) | _ \<Rightarrow> Err LogNotRegular)
      | Err NotFoundE \<Rightarrow> Ok None
      | Err e \<Rightarrow> Err (LogIo e))"

definition CHUNK_SIZE :: nat where
  "CHUNK_SIZE = 8192"

definition MAX_READ_BYTES :: nat where
  "MAX_READ_BYTES = 1024 * 1024"

definition count_newlines :: "string \<Rightarrow> nat" where
  "count_newlines s = length (filter (\<lambda>b. b = NL) s)"

text \<open>Reading backwards in chunks. The chunk is cut at its end when the buffer would exceed its bound.\<close>

function tail_loop :: "string \<Rightarrow> nat \<Rightarrow> nat \<Rightarrow> nat \<Rightarrow> string \<Rightarrow> string" where
  "tail_loop content lines pos newlines buf =
     (if pos > 0 \<and> newlines \<le> lines \<and> length buf < MAX_READ_BYTES then
        let read_len = min CHUNK_SIZE pos;
            pos' = pos - read_len;
            chunk = take read_len (drop pos' content) in
        if chunk = [] then buf
        else
          let newlines' = newlines + count_newlines chunk;
              kept = (if length chunk + length buf > MAX_READ_BYTES
                      then take (MAX_READ_BYTES - length buf) chunk else chunk) in
          tail_loop content lines pos' newlines' (kept @ buf)
      else buf)"
  by pat_completeness auto
termination
  by (relation "measure (\<lambda>(content, lines, pos, newlines, buf). pos)") (auto simp: CHUNK_SIZE_def)

declare tail_loop.simps [simp del]

definition last_lines :: "nat \<Rightarrow> string list \<Rightarrow> string" where
  "last_lines n ls = join [NL] (drop (length ls - n) ls)"

definition read_local_log_tail :: "fs \<Rightarrow> string \<Rightarrow> nat \<Rightarrow> (string, log_error) result" where
  "read_local_log_tail fs path lines =
     (if lines = 0 then Ok []
      else
        and_then (open_log_read_no_symlink fs path) (\<lambda>file.
          case file of
            None \<Rightarrow> Ok []
          | Some content \<Rightarrow>
              let buf = tail_loop content lines (length content) 0 [];
                  all_lines = str_lines (from_utf8_lossy buf) in
              if all_lines = [] then Ok [] else Ok (last_lines lines all_lines)))"

subsection \<open>Reference descriptions\<close>

text \<open>What the messages carry for each stream, decoded message by message, and the last status.\<close>

fun stdout_part :: "channel_msg \<Rightarrow> string" where
  "stdout_part (Data d) = from_utf8_lossy d"
| "stdout_part (ExtendedData ext d) = (if ext = 1 then [] else from_utf8_lossy d)"
| "stdout_part _ = []"

fun stderr_part :: "channel_msg \<Rightarrow> string" where
  "stderr_part (ExtendedData ext d) = (if ext = 1 then from_utf8_lossy d else [])"
| "stderr_part _ = []"

fun exit_part :: "channel_msg \<Rightarrow> nat option" where
  "exit_part (ExitStatus n) = Some n"
| "exit_part (ExitSignal s) = Some (nat (signal_code s))"
| "exit_part _ = None"

definition stdout_of :: "channel_msg list \<Rightarrow> string" where
  "stdout_of msgs = concat (map stdout_part msgs)"

definition stderr_of :: "channel_msg list \<Rightarrow> string" where
  "stderr_of msgs = concat (map stderr_part msgs)"

fun last_exit :: "nat option \<Rightarrow> channel_msg list \<Rightarrow> nat option" where
  "last_exit rc [] = rc"
| "last_exit rc (m # ms) = last_exit (case exit_part m of Some n \<Rightarrow> Some n | None \<Rightarrow> rc) ms"

text \<open>The token totals: a quarter of the bytes of each message; other extended data count for the error
  stream.\<close>

fun stdout_tokens :: "channel_msg \<Rightarrow> nat \<Rightarrow> nat" where
  "stdout_tokens (Data d) n = sat_add n (length d div 4)"
| "stdout_tokens _ n = n"

fun stderr_tokens :: "channel_msg \<Rightarrow> nat \<Rightarrow> nat" where
  "stderr_tokens (ExtendedData ext d) n = sat_add n (length d div 4)"
| "stderr_tokens _ n = n"

definition within_limit :: "nat option \<Rightarrow> string \<Rightarrow> bool" where
  "within_limit max_bytes s \<longleftrightarrow> (case max_bytes of None \<Rightarrow> True | Some limit \<Rightarrow> length s \<le> limit)"

definition last_bytes :: "nat \<Rightarrow> string \<Rightarrow> string" where
  "last_bytes n s = drop (length s - n) s"

text \<open>The bytes of each stream as the native collector sees them.\<close>

fun stdout_bytes :: "channel_msg \<Rightarrow> string" where
  "stdout_bytes (Data d) = d"
| "stdout_bytes (ExtendedData ext d) = (if ext = 1 then [] else d)"
| "stdout_bytes _ = []"

fun stderr_bytes :: "channel_msg \<Rightarrow> string" where
  "stderr_bytes (ExtendedData ext d) = (if ext = 1 then d else [])"
| "stderr_bytes _ = []"

section \<open>Lemmas\<close>

subsection \<open>Buffers with a bound\<close>

text \<open>The contract of a bounded buffer: an append adds what fits. Then the contents do not depend on how
  the input is cut.\<close>

locale bounded_append =
  fixes append :: "'b \<Rightarrow> string \<Rightarrow> 'b" and contents :: "'b \<Rightarrow> string" and limit :: nat
  assumes contents_append: "contents (append b d) = contents b @ take (limit - length (contents b)) d"
begin

lemma contents_fold:
  "length (contents b) \<le> limit \<Longrightarrow> contents (fold (\<lambda>d b. append b d) ds b) = take limit (contents b @ concat ds)"
proof (induction ds arbitrary: b)
  case (Cons d ds)
  have "length (contents (append b d)) \<le> limit" using Cons.prems by (simp add: contents_append)
  with Cons.IH[of "append b d"] Cons.prems show ?case
    by (cases "length (contents b) + length d \<le> limit") (simp_all add: contents_append)
qed simp

end

interpretation env_buffer: bounded_append "\<lambda>b d. fst (append_bounded b d limit)" "\<lambda>b. b" limit for limit
  by unfold_locales (simp add: append_bounded_def Let_def min_def)

interpretation native_buffer: bounded_append "\<lambda>b d. byte_prefix_append b d (Some limit)" bp_bytes limit for limit
  by unfold_locales (simp add: byte_prefix_append_def Let_def min_def)

subsection \<open>Slices of ASCII text\<close>

definition all_ascii :: "string \<Rightarrow> bool" where
  "all_ascii s \<longleftrightarrow> (\<forall>c\<in>set s. code c < 128)"

lemma ascii_boundary: "all_ascii s \<Longrightarrow> i \<le> length s \<Longrightarrow> is_char_boundary s i"
  using nth_mem[of i s] by (fastforce simp: is_char_boundary_def all_ascii_def byte_at_def is_cont_def in_range_def)

lemma floor_boundary_ascii: "all_ascii s \<Longrightarrow> i \<le> length s \<Longrightarrow> floor_boundary s i = i"
  by (cases i) (auto simp: ascii_boundary)

lemma lossy_ascii: "all_ascii s \<Longrightarrow> from_utf8_lossy s = s"
  by (simp add: all_ascii_def from_utf8_lossy_valid utf8_valid_ascii)

lemma all_ascii_append [simp]: "all_ascii (a @ b) \<longleftrightarrow> all_ascii a \<and> all_ascii b"
  by (auto simp: all_ascii_def)

lemma all_ascii_sub: "all_ascii s \<Longrightarrow> all_ascii (take n s)" "all_ascii s \<Longrightarrow> all_ascii (drop n s)"
  using set_take_subset[of n s] set_drop_subset[of n s] by (auto simp: all_ascii_def)

lemma push_tail_ascii:
  "all_ascii t \<Longrightarrow> all_ascii c \<Longrightarrow> length t \<le> TAIL_BYTES \<Longrightarrow> push_tail t c = last_bytes TAIL_BYTES (t @ c)"
  by (auto simp: push_tail_def Let_def floor_boundary_ascii last_bytes_def)

lemma last_bytes_last_bytes: "last_bytes n (last_bytes n a @ b) = last_bytes n (a @ b)"
  by (cases "length a \<le> n") (simp_all add: last_bytes_def add.commute)

lemma all_ascii_last_bytes: "all_ascii s \<Longrightarrow> all_ascii (last_bytes n s)"
  by (simp add: last_bytes_def all_ascii_sub)

lemma length_last_bytes: "length (last_bytes n s) \<le> n"
  by (simp add: last_bytes_def)

lemma take_len_remaining: "length s > r \<Longrightarrow> take_len s r = r"
  by (auto simp: take_len_def Let_def min_def find_Some_iff split: option.split)

subsection \<open>Collecting within the limit\<close>

lemma push_limited_fits:
  "within_limit mb (sb_text b @ s) \<Longrightarrow> push_limited mb s b = Ok (b\<lparr>sb_text := sb_text b @ s\<rparr>)"
  by (auto simp: push_limited_def within_limit_def sat_add_def Let_def split: option.split)

lemma within_limit_prefix: "within_limit mb (a @ b) \<Longrightarrow> within_limit mb a"
  by (auto simp: within_limit_def split: option.splits)

lemma collect_msg_fits:
  assumes "within_limit mb (sb_text (cs_stdout st) @ stdout_part m)" "within_limit mb (sb_text (cs_stderr st) @ stderr_part m)"
  shows "collect_msg mb m st = Ok \<lparr>
    cs_stdout = (cs_stdout st)\<lparr>sb_text := sb_text (cs_stdout st) @ stdout_part m,
                                sb_total_tokens := stdout_tokens m (sb_total_tokens (cs_stdout st))\<rparr>,
    cs_stderr = (cs_stderr st)\<lparr>sb_text := sb_text (cs_stderr st) @ stderr_part m,
                                sb_total_tokens := stderr_tokens m (sb_total_tokens (cs_stderr st))\<rparr>,
    cs_exit_code = (case exit_part m of Some rc \<Rightarrow> Some rc | None \<Rightarrow> cs_exit_code st)\<rparr>"
  using assms by (cases st; cases "cs_stdout st"; cases "cs_stderr st"; cases m)
    (simp_all add: collect_msg_def count_tokens_def push_limited_fits Let_def BYTES_PER_TOKEN_def split: if_splits)

lemma collect_loop_fits:
  assumes "within_limit mb (sb_text (cs_stdout st) @ stdout_of msgs)" "within_limit mb (sb_text (cs_stderr st) @ stderr_of msgs)"
  shows "collect_loop mb msgs st = Ok \<lparr>
    cs_stdout = (cs_stdout st)\<lparr>sb_text := sb_text (cs_stdout st) @ stdout_of msgs,
                                sb_total_tokens := fold stdout_tokens msgs (sb_total_tokens (cs_stdout st))\<rparr>,
    cs_stderr = (cs_stderr st)\<lparr>sb_text := sb_text (cs_stderr st) @ stderr_of msgs,
                                sb_total_tokens := fold stderr_tokens msgs (sb_total_tokens (cs_stderr st))\<rparr>,
    cs_exit_code = last_exit (cs_exit_code st) msgs\<rparr>"
  using assms
proof (induction msgs arbitrary: st)
  case Nil
  then show ?case
    by (cases st) (simp add: stdout_of_def stderr_of_def)
next
  case (Cons m ms)
  have "within_limit mb ((sb_text (cs_stdout st) @ stdout_part m) @ stdout_of ms)"
    "within_limit mb ((sb_text (cs_stderr st) @ stderr_part m) @ stderr_of ms)"
    using Cons.prems by (simp_all add: stdout_of_def stderr_of_def)
  note rest = this this[THEN within_limit_prefix]
  show ?case
    using collect_msg_fits[OF rest(3,4)] rest(1,2) Cons.IH by (simp add: stdout_of_def stderr_of_def)
qed

subsection \<open>Collecting beyond the limit\<close>

text \<open>The state after the bytes \<open>a\<close>, all ASCII.\<close>

definition collected :: "nat \<Rightarrow> string \<Rightarrow> stream_buf \<Rightarrow> bool" where
  "collected limit a b \<longleftrightarrow>
     (if length a \<le> limit then sb_text b = a \<and> \<not> sb_truncation_added b \<and> sb_tail b = []
      else sb_truncated b \<and> sb_truncation_added b \<and> sb_tail b = last_bytes TAIL_BYTES (drop limit a)
           \<and> (\<exists>k. sb_text b = take limit a @ truncation_notice k))"

lemma collected_push:
  assumes "collected limit a b" "all_ascii a" "all_ascii d" "limit < U64 - 1"
  shows "\<exists>b'. push_limited (Some limit) d b = Ok b' \<and> collected limit (a @ d) b'"
proof -
  have over: "sat_add x y > limit \<longleftrightarrow> x + y > limit" for x y
    using assms(4) by (auto simp: sat_add_def)
  consider (fits) "length a + length d \<le> limit" | (first) "length a \<le> limit" "length a + length d > limit"
    | (later) "length a > limit" by linarith
  then show ?thesis
  proof cases
    case fits
    with assms(1) show ?thesis by (simp add: collected_def push_limited_def Let_def over)
  next
    case first
    with assms(1) have b: "sb_text b = a" "\<not> sb_truncation_added b" "sb_tail b = []" by (simp_all add: collected_def)
    define n where "n = limit - length a"
    have n: "n < length d" using first by (simp add: n_def)
    have "push_tail [] (drop n d) = last_bytes TAIL_BYTES (drop n d)"
      using push_tail_ascii[of "[]" "drop n d"] assms(3) all_ascii_sub(2) by (simp add: all_ascii_def)
    then show ?thesis
      using b first n assms(3)
      by (auto simp: push_limited_def Let_def over collected_def str_prefix_def str_suffix_def take_len_remaining
          ascii_boundary n_def[symmetric])
  next
    case later
    with assms(1) obtain k where b: "sb_text b = take limit a @ truncation_notice k" "sb_truncation_added b" "sb_truncated b"
      "sb_tail b = last_bytes TAIL_BYTES (drop limit a)" by (auto simp: collected_def)
    have "limit < length (sb_text b)" using later b(1) by (simp add: truncation_notice_def)
    moreover have "push_tail (sb_tail b) d = last_bytes TAIL_BYTES (drop limit (a @ d))"
      using later b(4) assms(2,3)
      by (simp add: push_tail_ascii length_last_bytes all_ascii_sub all_ascii_last_bytes last_bytes_last_bytes)
    ultimately show ?thesis using later b
      by (auto simp: push_limited_def Let_def over collected_def)
  qed
qed

lemma collected_loop:
  assumes "collected limit a (cs_stdout st)" "all_ascii a" "\<forall>d\<in>set ds. all_ascii d" "limit < U64 - 1"
  shows "\<exists>b. collect_loop (Some limit) (map Data ds @ ms) st = collect_loop (Some limit) ms (st\<lparr>cs_stdout := b\<rparr>)
    \<and> collected limit (a @ concat ds) b"
  using assms
proof (induction ds arbitrary: a st)
  case Nil
  then show ?case by (intro exI[of _ "cs_stdout st"]) simp
next
  case (Cons d ds)
  have "collected limit a (count_tokens d (cs_stdout st))"
    using Cons.prems(1) by (simp add: collected_def count_tokens_def)
  from collected_push[OF this Cons.prems(2) _ Cons.prems(4)] Cons.prems(3) obtain b where
    b: "push_limited (Some limit) d (count_tokens d (cs_stdout st)) = Ok b" "collected limit (a @ d) b" by auto
  have "from_utf8_lossy d = d" using Cons.prems(3) by (simp add: lossy_ascii)
  with b Cons.IH[of "a @ d" "st\<lparr>cs_stdout := b\<rparr>"] Cons.prems show ?case by (simp add: collect_msg_def)
qed

subsection \<open>The native collector\<close>

text \<open>A message that neither ends nor fails a native request.\<close>

definition native_part :: "channel_msg \<Rightarrow> bool" where
  "native_part m \<longleftrightarrow> m \<noteq> Close \<and> m \<noteq> Failure \<and> (case m of ExitSignal s \<Rightarrow> False | _ \<Rightarrow> True)"

definition bounded :: "nat option \<Rightarrow> string \<Rightarrow> string" where
  "bounded limit s = (case limit of None \<Rightarrow> s | Some l \<Rightarrow> take l s)"

definition prefix_ok :: "nat option \<Rightarrow> string \<Rightarrow> byte_prefix \<Rightarrow> bool" where
  "prefix_ok limit s b \<longleftrightarrow> bp_bytes b = bounded limit s \<and> bp_total_bytes b = min (length s) (U64 - 1)"

lemma prefix_ok_append: "prefix_ok limit s b \<Longrightarrow> prefix_ok limit (s @ d) (byte_prefix_append b d limit)"
proof (cases limit)
  case None
  assume "prefix_ok limit s b"
  with None show ?thesis
    by (auto simp: prefix_ok_def bounded_def byte_prefix_append_def sat_add_def Let_def)
next
  case (Some l)
  assume "prefix_ok limit s b"
  moreover have "take (l - min (length s) l) d = take (l - length s) d" by (simp add: min_def)
  ultimately show ?thesis using Some native_buffer.contents_append[of b d l]
    by (auto simp: prefix_ok_def bounded_def byte_prefix_append_def sat_add_def Let_def)
qed

definition native_ok :: "nat option \<Rightarrow> channel_msg list \<Rightarrow> collector \<Rightarrow> bool" where
  "native_ok limit ms c \<longleftrightarrow>
     prefix_ok limit (concat (map stdout_bytes ms)) (c_stdout c) \<and> prefix_ok limit (concat (map stderr_bytes ms)) (c_stderr c)
     \<and> c_limit c = limit \<and> c_exit_code c = last_exit None ms \<and> c_exit_signal c = None"

lemma last_exit_snoc: "last_exit rc (ms @ [m]) = (case exit_part m of Some n \<Rightarrow> Some n | None \<Rightarrow> last_exit rc ms)"
  by (induction ms arbitrary: rc) (auto split: option.split)

lemma collector_event_part:
  assumes "native_part m" "native_ok limit ms c"
  shows "\<exists>c'. collector_event c (Some m) = (c', None) \<and> native_ok limit (ms @ [m]) c'"
proof -
  have "prefix_ok limit (s @ d) (byte_prefix_append b d (c_limit c))" if "prefix_ok limit s b" for s b d
    using prefix_ok_append[OF that] assms(2) by (simp add: native_ok_def)
  with assms show ?thesis
    by (cases m) (auto simp: native_part_def native_ok_def collector_event_def last_exit_snoc)
qed

lemma native_loop_parts:
  assumes "list_all native_part ms" "native_ok limit ms0 c"
  shows "\<exists>c'. native_loop (map Waited ms @ es) c = native_loop es c' \<and> native_ok limit (ms0 @ ms) c'"
  using assms
proof (induction ms arbitrary: c ms0)
  case (Cons m ms)
  from collector_event_part[of m limit ms0 c] Cons.prems obtain c1 where
    "collector_event c (Some m) = (c1, None)" "native_ok limit (ms0 @ [m]) c1" by auto
  with Cons.IH[of "ms0 @ [m]" c1] Cons.prems show ?case by simp
qed auto

subsection \<open>Reading a tail\<close>

lemma count_newlines_append [simp]: "count_newlines (a @ b) = count_newlines a + count_newlines b"
  by (simp add: count_newlines_def)

lemma count_newlines_split: "0 < count_newlines s \<Longrightarrow> \<exists>a b. s = a @ NL # b \<and> count_newlines s = Suc (count_newlines b)"
proof (induction s)
  case (Cons c s)
  show ?case
  proof (cases "c = NL")
    case True
    then show ?thesis by (intro exI[of _ "[]"] exI[of _ s]) (simp add: count_newlines_def)
  next
    case False
    with Cons obtain a b where "s = a @ NL # b" "count_newlines s = Suc (count_newlines b)"
      by (auto simp: count_newlines_def)
    with False show ?thesis by (intro exI[of _ "c # a"] exI[of _ b]) (simp add: count_newlines_def)
  qed
qed (simp add: count_newlines_def)

lemma lossy_line: "from_utf8_lossy (a @ NL # b) = from_utf8_lossy a @ NL # from_utf8_lossy b"
  by (rule from_utf8_lossy_before_ascii) (simp add: code_def)

lemma lines_at_least_newlines: "count_newlines s \<le> length (str_lines (from_utf8_lossy s))"
proof (induction "count_newlines s" arbitrary: s)
  case (Suc n)
  then obtain a b where s: "s = a @ NL # b" "count_newlines s = Suc (count_newlines b)"
    using count_newlines_split[of s] by force
  have "count_newlines b \<le> length (str_lines (from_utf8_lossy b))" using Suc s by auto
  moreover have "str_lines (from_utf8_lossy a @ [NL]) \<noteq> []" by (rule str_lines_snoc_not_Nil)
  moreover have "str_lines (from_utf8_lossy s) = str_lines (from_utf8_lossy a @ [NL]) @ str_lines (from_utf8_lossy b)"
    unfolding s(1) lossy_line by (rule str_lines_append_line)
  ultimately show ?case using s(2) by (cases "str_lines (from_utf8_lossy a @ [NL])") simp_all
qed simp

text \<open>The last lines do not change when text is put before a suffix with enough newlines.\<close>

lemma last_lines_prepend:
  assumes "n < count_newlines s"
  shows "last_lines n (str_lines (from_utf8_lossy (p @ s))) = last_lines n (str_lines (from_utf8_lossy s))"
proof -
  obtain a b where s: "s = a @ NL # b" "count_newlines s = Suc (count_newlines b)"
    using assms count_newlines_split[of s] by auto
  have "n \<le> length (str_lines (from_utf8_lossy b))" using assms s(2) lines_at_least_newlines[of b] by simp
  then have "last_lines n (str_lines (from_utf8_lossy (q @ NL # b))) = last_lines n (str_lines (from_utf8_lossy b))" for q
    unfolding lossy_line last_lines_def by (subst (1 2) str_lines_append_line) simp
  from this[of a] this[of "p @ a"] show ?thesis by (simp add: s)
qed

definition tail_ok :: "string \<Rightarrow> nat \<Rightarrow> string \<Rightarrow> bool" where
  "tail_ok content lines buf \<longleftrightarrow>
     buf = last_bytes MAX_READ_BYTES content
     \<or> (\<exists>p. last_bytes MAX_READ_BYTES content = p @ buf \<and> lines < count_newlines buf)"

lemma tail_loop_ok:
  assumes "pos \<le> length content" "buf = drop pos content" "newlines = count_newlines buf"
    and "length buf \<le> MAX_READ_BYTES" "CHUNK_SIZE dvd length buf \<or> pos = 0"
  shows "tail_ok content lines (tail_loop content lines pos newlines buf)"
  using assms
proof (induction pos arbitrary: newlines buf rule: less_induct)
  case (less pos)
  show ?case
  proof (cases "pos > 0 \<and> newlines \<le> lines \<and> length buf < MAX_READ_BYTES")
    case True
    define n where "n = min CHUNK_SIZE pos"
    define chunk where "chunk = take n (drop (pos - n) content)"
    have n: "0 < n" "n \<le> pos" "n = CHUNK_SIZE \<or> pos - n = 0" using True by (auto simp: n_def CHUNK_SIZE_def)
    have len: "length chunk = n" using n less.prems(1) by (simp add: chunk_def)
    then have ne: "chunk \<noteq> []" using n by auto
    have dvd: "CHUNK_SIZE dvd length buf" using less.prems(5) True by auto
    have fits: "n + length buf \<le> MAX_READ_BYTES"
    proof -
      obtain k where k: "length buf = CHUNK_SIZE * k" using dvd by (auto elim: dvdE)
      then have "n + length buf \<le> CHUNK_SIZE * (k + 1)" by (simp add: n_def)
      moreover have "k < 128" using k True by (simp add: CHUNK_SIZE_def MAX_READ_BYTES_def)
      ultimately show ?thesis by (simp add: CHUNK_SIZE_def MAX_READ_BYTES_def)
    qed
    have "drop (pos - n) content = chunk @ drop n (drop (pos - n) content)" unfolding chunk_def by (simp only: append_take_drop_id)
    then have suffix: "chunk @ buf = drop (pos - n) content" using n less.prems(2) by simp
    have inside: "pos - n < length content" using n less.prems(1) by simp
    have step: "tail_loop content lines pos newlines buf
        = tail_loop content lines (pos - n) (newlines + count_newlines chunk) (chunk @ buf)"
      by (subst tail_loop.simps) (use True ne len fits n(1) inside in \<open>simp add: Let_def n_def[symmetric] chunk_def[symmetric]\<close>)
    have "tail_ok content lines (tail_loop content lines (pos - n) (newlines + count_newlines chunk) (chunk @ buf))"
    proof (rule less.IH)
      show "chunk @ buf = drop (pos - n) content" by (rule suffix)
      show "newlines + count_newlines chunk = count_newlines (chunk @ buf)" using less.prems(3) by simp
      show "length (chunk @ buf) \<le> MAX_READ_BYTES" using len fits by simp
      show "CHUNK_SIZE dvd length (chunk @ buf) \<or> pos - n = 0" using n(3) len dvd by auto
    qed (use n True less.prems(1) in auto)
    with step show ?thesis by simp
  next
    case False
    then have stop: "tail_loop content lines pos newlines buf = buf" by (subst tail_loop.simps) auto
    have whole: "buf = last_bytes MAX_READ_BYTES content" if "pos = 0 \<or> length buf = MAX_READ_BYTES"
    proof -
      have "length content - MAX_READ_BYTES = pos" using that less.prems(1,2,4) by auto
      with less.prems(2) show ?thesis by (simp add: last_bytes_def)
    qed
    have "last_bytes MAX_READ_BYTES content = drop (length content - MAX_READ_BYTES) (take pos content) @ buf"
      using less.prems(1,2,4) drop_append[of "length content - MAX_READ_BYTES" "take pos content" "drop pos content"]
      by (simp add: last_bytes_def)
    with False whole less.prems stop show ?thesis by (auto simp: tail_ok_def)
  qed
qed

lemma stream_buf_new_final:
  "final_text stream_buf_new = []" "final_tokens stream_buf_new = 0" "\<not> sb_truncated stream_buf_new"
  by (simp_all add: final_text_def final_tokens_def stream_buf_new_def)

section \<open>Properties\<close>

text \<open>Output that stays within the limit is reported unchanged: the two texts are the decoded
  messages in their order, nothing is marked truncated, the exit status is the last one received; and
  a channel that closes without a status is an error, whatever it printed.\<close>

theorem collect_within_limit:
  assumes "within_limit (map_option (\<lambda>t. sat_mul t 4) max_tokens) (stdout_of msgs)"
    and "within_limit (map_option (\<lambda>t. sat_mul t 4) max_tokens) (stderr_of msgs)"
  shows "collect_channel_output max_tokens msgs =
    (case last_exit None msgs of
       None \<Rightarrow> Err ClosedWithoutExitStatus
     | Some rc \<Rightarrow> Ok \<lparr>co_stdout = stdout_of msgs, co_stderr = stderr_of msgs, co_exit_code = Some rc,
         co_stdout_truncated = False, co_stderr_truncated = False,
         co_stdout_total_tokens = fold stdout_tokens msgs 0, co_stderr_total_tokens = fold stderr_tokens msgs 0\<rparr>)"
proof -
  let ?st = "\<lparr>cs_stdout = stream_buf_new, cs_stderr = stream_buf_new, cs_exit_code = None\<rparr>"
  have "sb_text stream_buf_new = []" by (simp add: stream_buf_new_def)
  then have "collect_loop (map_option (\<lambda>t. sat_mul t BYTES_PER_TOKEN) max_tokens) msgs ?st = Ok \<lparr>
      cs_stdout = stream_buf_new\<lparr>sb_text := stdout_of msgs, sb_total_tokens := fold stdout_tokens msgs 0\<rparr>,
      cs_stderr = stream_buf_new\<lparr>sb_text := stderr_of msgs, sb_total_tokens := fold stderr_tokens msgs 0\<rparr>,
      cs_exit_code = last_exit None msgs\<rparr>"
    using collect_loop_fits[of "map_option (\<lambda>t. sat_mul t 4) max_tokens" ?st msgs] assms
    by (simp add: BYTES_PER_TOKEN_def stream_buf_new_def)
  then show ?thesis
    by (simp add: collect_channel_output_def final_text_def final_tokens_def stream_buf_new_def split: option.split)
qed

theorem collect_within_limit_witness:
  "collect_channel_output (Some 2) [Data ''hello'', ExtendedData 1 ''warn'', Eof, ExitStatus 3, Close] =
     Ok \<lparr>co_stdout = ''hello'', co_stderr = ''warn'', co_exit_code = Some 3, co_stdout_truncated = False,
       co_stderr_truncated = False, co_stdout_total_tokens = 1, co_stderr_total_tokens = 1\<rparr>"
proof -
  let ?ms = "[Data ''hello'', ExtendedData 1 ''warn'', Eof, ExitStatus 3, Close]"
  have l: "from_utf8_lossy ''hello'' = ''hello''" "from_utf8_lossy ''warn'' = ''warn''" by code_simp+
  have "collect_channel_output (Some 2) ?ms = (case last_exit None ?ms of
       None \<Rightarrow> Err ClosedWithoutExitStatus
     | Some rc \<Rightarrow> Ok \<lparr>co_stdout = stdout_of ?ms, co_stderr = stderr_of ?ms, co_exit_code = Some rc,
         co_stdout_truncated = False, co_stderr_truncated = False,
         co_stdout_total_tokens = fold stdout_tokens ?ms 0, co_stderr_total_tokens = fold stderr_tokens ?ms 0\<rparr>)"
    by (rule collect_within_limit) (simp_all add: within_limit_def stdout_of_def stderr_of_def sat_mul_def l)
  then show ?thesis by (simp add: stdout_of_def stderr_of_def l sat_add_def)
qed

text \<open>ASCII output beyond the limit is cut exactly at the limit, followed by the notice and the last
  512 bytes of what was cut, however the channel splits it into messages.\<close>

theorem collect_truncates:
  assumes "\<forall>d\<in>set ds. all_ascii d" "t * 4 < length (concat ds)" "t * 4 < U64 - 1"
  shows "\<exists>out k. collect_channel_output (Some t) (map Data ds @ [ExitStatus rc]) = Ok out
    \<and> co_stdout out = take (t * 4) (concat ds) @ truncation_notice k @ [NL] @ last_bytes 512 (drop (t * 4) (concat ds))
    \<and> co_stdout_truncated out \<and> co_stderr out = [] \<and> co_exit_code out = Some rc"
proof -
  let ?st = "\<lparr>cs_stdout = stream_buf_new, cs_stderr = stream_buf_new, cs_exit_code = None\<rparr>"
  have lim: "sat_mul t BYTES_PER_TOKEN = t * 4" using assms(3) by (simp add: sat_mul_def BYTES_PER_TOKEN_def)
  have "collected (t * 4) [] (cs_stdout ?st)" by (simp add: collected_def stream_buf_new_def)
  from collected_loop[OF this _ assms(1,3), of "[ExitStatus rc]"] obtain b where
    b: "collect_loop (Some (t * 4)) (map Data ds @ [ExitStatus rc]) ?st
        = Ok (?st\<lparr>cs_stdout := b, cs_exit_code := Some rc\<rparr>)" "collected (t * 4) (concat ds) b"
    by (auto simp: collect_msg_def all_ascii_def)
  then have "last_bytes TAIL_BYTES (drop (t * 4) (concat ds)) \<noteq> []"
    using assms(2) by (simp add: last_bytes_def TAIL_BYTES_def)
  with b assms(2) obtain k where
    "final_text b = take (t * 4) (concat ds) @ truncation_notice k @ [NL] @ last_bytes 512 (drop (t * 4) (concat ds))"
    "sb_truncated b"
    by (auto simp: collected_def final_text_def TAIL_BYTES_def)
  with b(1) show ?thesis
    by (intro exI[of _ "\<lparr>co_stdout = final_text b, co_stderr = [], co_exit_code = Some rc,
          co_stdout_truncated = sb_truncated b, co_stderr_truncated = False,
          co_stdout_total_tokens = final_tokens b, co_stderr_total_tokens = 0\<rparr>"] exI[of _ k])
       (simp add: collect_channel_output_def lim stream_buf_new_final)
qed

theorem collect_truncates_witness:
  "\<exists>out k. collect_channel_output (Some 1) [Data ''abc'', Data ''defg'', ExitStatus 0] = Ok out
    \<and> co_stdout out = ''abcd'' @ truncation_notice k @ [NL] @ ''efg''
    \<and> co_stdout_truncated out \<and> co_stderr out = [] \<and> co_exit_code out = Some 0"
  using collect_truncates[of "[''abc'', ''defg'']" 1 0] by (simp add: all_ascii_def code_def last_bytes_def)

text \<open>Text that is not ASCII can make the collector panic: with a limit of one token, four bytes,
  the output \<open>abc\<close> followed by a three-byte character is sliced inside that character.\<close>

theorem collect_panics_inside_char:
  "collect_channel_output (Some 1) [Data (''abc'' @ [CHR 0xE2, CHR 0x82, CHR 0xAC]), ExitStatus 0] = Err SlicePanic"
proof -
  let ?s = "''abc'' @ [CHR 0xE2, CHR 0x82, CHR 0xAC]"
  have "from_utf8_lossy ?s = ?s" "\<not> is_char_boundary ?s 4" by code_simp+
  moreover have "take_len ?s 4 = 4" by (simp add: take_len_remaining)
  ultimately show ?thesis
    by (simp add: collect_channel_output_def collect_msg_def push_limited_def count_tokens_def stream_buf_new_def
        sat_add_def sat_mul_def BYTES_PER_TOKEN_def str_prefix_def)
qed

text \<open>The native collector does not depend on how the channel cuts the output: each text is the
  decoding of the first bytes of its stream up to the limit, so a character is not damaged by falling
  on two messages; a stream is marked truncated exactly when it was longer; the token totals round up.\<close>

theorem native_exec_output:
  assumes "list_all native_part ms" "last_exit None ms = Some rc"
    and "length (concat (map stdout_bytes ms)) < U64" "length (concat (map stderr_bytes ms)) < U64"
  shows "native_exec max_tokens (map Waited ms @ Waited Close # es) =
    (let out = concat (map stdout_bytes ms); err = concat (map stderr_bytes ms);
         limit = map_option (\<lambda>t. sat_mul t 4) max_tokens in
     Ok \<lparr>co_stdout = from_utf8_lossy (bounded limit out), co_stderr = from_utf8_lossy (bounded limit err),
         co_exit_code = Some rc, co_stdout_truncated = (\<not> within_limit limit out),
         co_stderr_truncated = (\<not> within_limit limit err),
         co_stdout_total_tokens = (length out + 3) div 4, co_stderr_total_tokens = (length err + 3) div 4\<rparr>)"
proof -
  define limit where "limit = map_option (\<lambda>t. sat_mul t 4) max_tokens"
  define c0 where "c0 = (collector_new max_tokens)\<lparr>c_may_have_run := True\<rparr>"
  have "native_ok limit [] c0"
    by (simp add: native_ok_def c0_def collector_new_def prefix_ok_def bounded_def limit_def BYTES_PER_TOKEN_def
        split: option.split)
  from native_loop_parts[OF assms(1) this, of "Waited Close # es"] obtain c where
    c: "native_loop (map Waited ms @ Waited Close # es) c0 = native_loop (Waited Close # es) c" "native_ok limit ms c"
    by auto
  have fin: "byte_prefix_finish b = (from_utf8_lossy (bounded limit s), \<not> within_limit limit s, (length s + 3) div 4)"
    if "prefix_ok limit s b" "length s < U64" for s b
    using that by (auto simp: prefix_ok_def byte_prefix_finish_def within_limit_def bounded_def BYTES_PER_TOKEN_def
        split: option.split)
  have "native_loop (Waited Close # es) c = (c, Ok ())"
    using c(2) assms(2) by (simp add: native_ok_def collector_event_def)
  moreover have "byte_prefix_finish (c_stdout c) = (let s = concat (map stdout_bytes ms) in
      (from_utf8_lossy (bounded limit s), \<not> within_limit limit s, (length s + 3) div 4))"
    "byte_prefix_finish (c_stderr c) = (let s = concat (map stderr_bytes ms) in
      (from_utf8_lossy (bounded limit s), \<not> within_limit limit s, (length s + 3) div 4))"
    using fin[OF _ assms(3)] fin[OF _ assms(4)] c(2) by (simp_all only: Let_def native_ok_def)
  moreover have "c_exit_code c = Some rc" using c(2) assms(2) by (simp add: native_ok_def)
  ultimately show ?thesis
    using c(1) by (simp add: native_exec_def c0_def[symmetric] collector_finish_def Let_def limit_def[symmetric])
qed

theorem native_exec_output_witness:
  "native_exec None (map Waited [Data [CHR 0xE2, CHR 0x82], Data [CHR 0xAC], ExitStatus 0] @ Waited Close # []) =
     Ok \<lparr>co_stdout = [CHR 0xE2, CHR 0x82, CHR 0xAC], co_stderr = [], co_exit_code = Some 0,
         co_stdout_truncated = False, co_stderr_truncated = False, co_stdout_total_tokens = 1, co_stderr_total_tokens = 0\<rparr>"
proof -
  have "from_utf8_lossy [CHR 0xE2, CHR 0x82, CHR 0xAC] = [CHR 0xE2, CHR 0x82, CHR 0xAC]" "from_utf8_lossy [] = []"
    by code_simp+
  then show ?thesis
    by (subst native_exec_output) (simp_all add: native_part_def bounded_def within_limit_def)
qed

text \<open>Reading the tail of a log backwards in chunks gives what reading its last MiB at once would
  give: the last lines, joined by newlines.\<close>

theorem read_local_log_tail_exact:
  assumes "symlink_metadata fs path = Ok (NFile content)"
  shows "read_local_log_tail fs path lines
    = Ok (last_lines lines (str_lines (from_utf8_lossy (last_bytes MAX_READ_BYTES content))))"
proof -
  define buf where "buf = tail_loop content lines (length content) 0 []"
  have "tail_ok content lines buf"
    unfolding buf_def by (rule tail_loop_ok) (simp_all add: count_newlines_def)
  then have "last_lines lines (str_lines (from_utf8_lossy (last_bytes MAX_READ_BYTES content)))
      = last_lines lines (str_lines (from_utf8_lossy buf))"
    unfolding tail_ok_def using last_lines_prepend by metis
  then show ?thesis
    using assms by (auto simp: read_local_log_tail_def open_log_read_no_symlink_def buf_def[symmetric] last_lines_def Let_def)
qed

theorem read_local_log_tail_exact_witness:
  "read_local_log_tail [[''l''] \<mapsto> NFile (''a'' @ [NL] @ ''b'' @ [NL] @ ''c'' @ [NL])] ''/l'' 2 = Ok (''b'' @ [NL] @ ''c'')"
proof -
  have meta: "symlink_metadata [[''l''] \<mapsto> NFile (''a'' @ [NL] @ ''b'' @ [NL] @ ''c'' @ [NL])] ''/l''
      = Ok (NFile (''a'' @ [NL] @ ''b'' @ [NL] @ ''c'' @ [NL]))"
    by (simp add: symlink_metadata_def node_at_def components_def body_components_def comp_of_def)
  have "last_bytes MAX_READ_BYTES (''a'' @ [NL] @ ''b'' @ [NL] @ ''c'' @ [NL]) = ''a'' @ [NL] @ ''b'' @ [NL] @ ''c'' @ [NL]"
    by (simp add: last_bytes_def MAX_READ_BYTES_def)
  moreover have "last_lines 2 (str_lines (from_utf8_lossy (''a'' @ [NL] @ ''b'' @ [NL] @ ''c'' @ [NL]))) = ''b'' @ [NL] @ ''c''"
    by code_simp
  ultimately have "last_lines 2 (str_lines (from_utf8_lossy (last_bytes MAX_READ_BYTES (''a'' @ [NL] @ ''b'' @ [NL] @ ''c'' @ [NL]))))
      = ''b'' @ [NL] @ ''c''" by (simp only:)
  with read_local_log_tail_exact[OF meta, of 2] show ?thesis by simp
qed

end
