(* ===== verification/Engine.thy ===== *)
theory Engine
  imports Patch Paths
begin

text \<open>
  The transfer engine: requests, responses and events (\<open>src/src/transfer/types.rs\<close>), the exclusion of
  concurrent transfers to one destination and the run of one transfer (\<open>src/src/transfer/mod.rs\<close>),
  background transfer jobs and their registry (\<open>src/src/background/transfer.rs\<close>), and the guard that
  settles a job when its task ends (\<open>src/src/server.rs\<close>). Instants are milliseconds of a monotonic
  clock. The three transports are arguments of the engine.
\<close>

section \<open>Definitions\<close>

subsection \<open>Requests and responses\<close>

datatype transfer_transport = ExecRaw | Sftp | Scp | Rsync

datatype transfer_kind = KindFile | KindDirectory

text \<open>The errors of a transfer; a response carries the value whose rendering the code stores as text.\<close>

datatype engine_error =
    RemotePathInvalid string
  | LocalPathInvalid local_path_error
  | LocalIoError io_error
  | DestinationBusy string
  | HomeUnresolved string
  | KindUnresolved engine_error
  | TokenFailed string
  | ProbeFailed string
  | KeyRequired transfer_transport
  | JumpKeyRequired transfer_transport
  | KindMismatch transfer_kind
  | TransportFailed string
  | TransferCancelled
  | TransferTimeout nat
  | StoppedUnexpectedly

record rsync_options =
  ro_checksum :: bool
  ro_compress :: bool
  ro_delete :: bool
  ro_inplace :: bool
  ro_partial :: bool
  ro_bwlimit :: "nat option"

definition rsync_options_default :: rsync_options where
  "rsync_options_default = \<lparr>ro_checksum = True, ro_compress = False, ro_delete = False, ro_inplace = True,
     ro_partial = True, ro_bwlimit = None\<rparr>"

record transfer_params =
  tp_operation :: transfer_operation
  tp_local_path :: string
  tp_remote_path :: string
  tp_transport :: transfer_transport
  tp_kind :: "transfer_kind option"
  tp_overwrite :: bool
  tp_timeout_ms :: "nat option"
  tp_background :: bool
  tp_verbose :: bool
  tp_rsync_options :: rsync_options

datatype transfer_progress_target = TargetLocal string | TargetRemote string

datatype transfer_event =
    EvPreparing
  | EvTransferring transfer_transport
  | EvFileStage transfer_progress_target "nat option"
  | EvFinalizing

record transfer_counts =
  tr_bytes :: nat
  tr_files :: nat
  tr_directories :: nat

record staging_local =
  sl_staging_path :: string
  sl_backup_path :: "string option"
  sl_final_path :: string

record staging_remote =
  sr_staging_path :: string
  sr_backup_path :: "string option"
  sr_final_path :: string
  sr_staging_base_home :: string

record transfer_staging =
  ts_local :: "staging_local option"
  ts_remote :: "staging_remote option"

record transfer_response =
  rs_ok :: bool
  rs_error :: "engine_error option"
  rs_params :: transfer_params
  rs_kind :: "transfer_kind option"
  rs_transport_used :: transfer_transport
  rs_remote_home :: "string option"
  rs_local_root :: string
  rs_resolved_paths :: "string option"
  rs_staging :: "transfer_staging option"
  rs_counts :: "transfer_counts option"
  rs_elapsed_ms :: "nat option"
  rs_semantics :: "string option"

definition ok_stub :: "transfer_params \<Rightarrow> transfer_transport \<Rightarrow> string \<Rightarrow> string \<Rightarrow> transfer_response" where
  "ok_stub params transport_used remote_home local_root =
     \<lparr>rs_ok = False, rs_error = None, rs_params = params, rs_kind = None, rs_transport_used = transport_used,
      rs_remote_home = Some remote_home, rs_local_root = local_root, rs_resolved_paths = None, rs_staging = None,
      rs_counts = None, rs_elapsed_ms = None, rs_semantics = None\<rparr>"

definition error_response :: "transfer_params \<Rightarrow> string \<Rightarrow> engine_error \<Rightarrow> transfer_response" where
  "error_response params local_root msg =
     \<lparr>rs_ok = False, rs_error = Some msg, rs_params = params, rs_kind = None, rs_transport_used = tp_transport params,
      rs_remote_home = None, rs_local_root = local_root, rs_resolved_paths = None, rs_staging = None,
      rs_counts = None, rs_elapsed_ms = None, rs_semantics = None\<rparr>"

definition set_error :: "engine_error \<Rightarrow> transfer_response \<Rightarrow> transfer_response" where
  "set_error msg r = r\<lparr>rs_ok := False, rs_error := Some msg\<rparr>"

record compact_response =
  cr_ok :: bool
  cr_error :: "engine_error option"
  cr_kind :: "transfer_kind option"
  cr_transport_used :: transfer_transport
  cr_local_path :: string
  cr_remote_path :: string
  cr_counts :: "transfer_counts option"
  cr_elapsed_ms :: "nat option"

definition to_compact :: "transfer_response \<Rightarrow> compact_response" where
  "to_compact r =
     \<lparr>cr_ok = rs_ok r, cr_error = rs_error r, cr_kind = rs_kind r, cr_transport_used = rs_transport_used r,
      cr_local_path = tp_local_path (rs_params r), cr_remote_path = tp_remote_path (rs_params r),
      cr_counts = rs_counts r, cr_elapsed_ms = rs_elapsed_ms r\<rparr>"

subsection \<open>Destinations\<close>

fun norm_parts :: "bool \<Rightarrow> string list \<Rightarrow> string list \<Rightarrow> string list" where
  "norm_parts absolute parts [] = parts"
| "norm_parts absolute parts (part # ps) =
     (if part = [] \<or> part = ''.'' then norm_parts absolute parts ps
      else if part = ''..'' \<and> parts \<noteq> [] \<and> last parts \<noteq> ''..'' then norm_parts absolute (butlast parts) ps
      else if part = ''..'' \<and> \<not> absolute then norm_parts absolute (parts @ [part]) ps
      else if part = ''..'' then norm_parts absolute parts ps
      else norm_parts absolute (parts @ [part]) ps)"

definition normalize_remote_path :: "string \<Rightarrow> string" where
  "normalize_remote_path path =
     (let absolute = starts_with path [SLASH];
          joined = join [SLASH] (norm_parts absolute [] (split_on SLASH path)) in
      if absolute then SLASH # joined
      else if joined = [] then ''.''
      else joined)"

definition validate_remote_user_path :: "string \<Rightarrow> string \<Rightarrow> (unit, engine_error) result" where
  "validate_remote_user_path path field = map_err RemotePathInvalid (validate_basic_path_str path field)"

definition validate_remote_user_file_path :: "string \<Rightarrow> string \<Rightarrow> (unit, engine_error) result" where
  "validate_remote_user_file_path path field =
     and_then (validate_remote_user_path path field) (\<lambda>_.
       if ends_with path [SLASH]
       then Err (RemotePathInvalid (field @ '' must not end with '' @ [SQ] @ ''/'' @ [SQ] @ '' for file transfers''))
       else Ok ())"

definition destination_key :: "string \<Rightarrow> transfer_params \<Rightarrow> (string, engine_error) result" where
  "destination_key local_root params =
     (case tp_operation params of
        OpPut \<Rightarrow>
          and_then (validate_remote_user_path (tp_remote_path params) ''remote_path'') (\<lambda>_.
            Ok (''put:'' @ normalize_remote_path (tp_remote_path params)))
      | OpGet \<Rightarrow>
          and_then (map_err LocalPathInvalid (resolve_paths local_root OpGet (tp_local_path params))) (\<lambda>resolved.
            Ok (''get:'' @ resolved)))"

definition reserve_destination ::
  "string \<Rightarrow> transfer_params \<Rightarrow> string set \<Rightarrow> (string \<times> string set, engine_error) result" where
  "reserve_destination local_root params active =
     and_then (destination_key local_root params) (\<lambda>key.
       if key \<in> active then
         Err (DestinationBusy (case tp_operation params of
                OpPut \<Rightarrow> tp_remote_path params | OpGet \<Rightarrow> tp_local_path params))
       else Ok (key, insert key active))"

text \<open>The drop of the guard.\<close>

definition release_destination :: "string \<Rightarrow> string set \<Rightarrow> string set" where
  "release_destination key active = active - {key}"

subsection \<open>One transfer\<close>

definition resolve_kind ::
  "fs \<Rightarrow> string \<Rightarrow> (string \<Rightarrow> (transfer_kind, engine_error) result) \<Rightarrow> transfer_params \<Rightarrow>
   (transfer_kind, engine_error) result" where
  "resolve_kind fs local_root probe_remote_kind params =
     (case tp_kind params of
        Some kind \<Rightarrow> Ok kind
      | None \<Rightarrow>
          (case tp_operation params of
             OpPut \<Rightarrow>
               and_then (map_err LocalPathInvalid (safe_join_local_root local_root (tp_local_path params))) (\<lambda>local_src.
               and_then (map_err LocalIoError (symlink_metadata fs local_src)) (\<lambda>meta.
                 Ok (if is_dir meta then KindDirectory else KindFile)))
           | OpGet \<Rightarrow> probe_remote_kind (tp_remote_path params)))"

text \<open>What a transport is called with (the attempt's token, the resolved local path, the kind and the
  request), and what it reports: where it staged, and what it counted.\<close>

type_synonym transport_op =
  "fs \<Rightarrow> string \<Rightarrow> string \<Rightarrow> transfer_kind \<Rightarrow> transfer_params \<Rightarrow>
   fs \<times> (transfer_staging \<times> transfer_counts, engine_error) result"

text \<open>The checks that \<open>run_openssh\<close> and \<open>run_rsync\<close> make before anything else: the key of the target and,
  behind a jump host, its key; \<open>jump_key\<close> is absent without a jump host.\<close>

definition openssh_preflight ::
  "transfer_transport \<Rightarrow> string option \<Rightarrow> string option option \<Rightarrow> (unit, engine_error) result" where
  "openssh_preflight transport key_path jump_key =
     (if key_path = None then Err (KeyRequired transport)
      else if jump_key = Some None then Err (JumpKeyRequired transport)
      else Ok ())"

definition get_semantics :: string where
  "get_semantics =
     ''directory transfer writes into an exclusively created sibling staging directory under local_root, then installs it with rollback-protected rename; local_path must not normalize to '' @ [SQ] @ ''.'' @ [SQ]"

definition put_semantics :: string where
  "put_semantics =
     ''directory transfer behavior depends on overwrite: if overwrite=true, it uses an exclusively created sibling staging directory and rollback-protected rename; if overwrite=false, it creates the destination directory and writes directly into it (no atomic swap)''"

definition raw_put_semantics :: string where
  "raw_put_semantics = put_semantics @
     ''; on upload error it attempts to remove the stage directory (best-effort; for overwrite=false this is the created destination directory, and partial contents may remain)''"

definition directory_semantics :: "transfer_transport \<Rightarrow> transfer_operation \<Rightarrow> string" where
  "directory_semantics transport operation =
     (case operation of
        OpGet \<Rightarrow> get_semantics
      | OpPut \<Rightarrow> if transport = ExecRaw then raw_put_semantics else put_semantics)"

definition check_explicit_kind ::
  "(string \<Rightarrow> (transfer_kind, engine_error) result) \<Rightarrow> transfer_kind \<Rightarrow> transfer_params \<Rightarrow> (unit, engine_error) result" where
  "check_explicit_kind probe_remote_kind kind params =
     (if tp_operation params = OpGet \<and> tp_kind params \<noteq> None
      then and_then (probe_remote_kind (tp_remote_path params)) (\<lambda>remote_kind.
             if remote_kind \<noteq> kind then Err (KindMismatch kind) else Ok ())
      else Ok ())"

text \<open>The part that \<open>run_exec_raw\<close>, \<open>run_openssh\<close> and \<open>run_rsync\<close> share: local paths, the check of an
  explicit kind, the operation, and what goes into the response.\<close>

definition run_transport ::
  "fs \<Rightarrow> string \<Rightarrow> (string \<Rightarrow> (transfer_kind, engine_error) result) \<Rightarrow> transport_op \<Rightarrow> string \<Rightarrow> transfer_kind \<Rightarrow>
   transfer_response \<Rightarrow> fs \<times> transfer_response \<times> (unit, engine_error) result" where
  "run_transport fs local_root probe_remote_kind op token kind r =
     (let params = rs_params r in
      case resolve_and_validate_local_paths fs local_root (tp_operation params) (tp_local_path params) of
        Err e \<Rightarrow> (fs, r, Err (LocalPathInvalid e))
      | Ok (resolved, fs1) \<Rightarrow>
          let r1 = r\<lparr>rs_resolved_paths := Some resolved\<rparr> in
          case check_explicit_kind probe_remote_kind kind params of
            Err e \<Rightarrow> (fs1, r1, Err e)
          | Ok _ \<Rightarrow>
              (case op fs1 token resolved kind params of
                 (fs2, Err e) \<Rightarrow> (fs2, r1, Err e)
               | (fs2, Ok (staging, counts)) \<Rightarrow>
                   (fs2, r1\<lparr>rs_staging := Some staging, rs_counts := Some counts,
                            rs_semantics :=
                              (if kind = KindDirectory
                               then Some (directory_semantics (tp_transport params) (tp_operation params))
                               else rs_semantics r1)\<rparr>, Ok ())))"

text \<open>What the engine is given: the local root, the keys, the answers of the remote side and of the
  random generator, and the transports.\<close>

record engine_env =
  ee_local_root :: string
  ee_key_path :: "string option"
  ee_jump_key :: "string option option"
  ee_remote_home :: "(string, string) result"
  ee_probe :: "string \<Rightarrow> (transfer_kind, engine_error) result"
  ee_token :: "(string, string) result"
  ee_exec_raw :: transport_op
  ee_openssh :: transport_op
  ee_rsync :: transport_op

definition run_exec_raw ::
  "engine_env \<Rightarrow> fs \<Rightarrow> string \<Rightarrow> transfer_kind \<Rightarrow> transfer_response \<Rightarrow>
   fs \<times> transfer_response \<times> (unit, engine_error) result" where
  "run_exec_raw env fs token kind r =
     run_transport fs (ee_local_root env) (ee_probe env) (ee_exec_raw env) token kind r"

definition run_openssh ::
  "engine_env \<Rightarrow> fs \<Rightarrow> string \<Rightarrow> transfer_transport \<Rightarrow> transfer_kind \<Rightarrow> transfer_response \<Rightarrow>
   fs \<times> transfer_response \<times> (unit, engine_error) result" where
  "run_openssh env fs token transport kind r =
     (case openssh_preflight transport (ee_key_path env) (ee_jump_key env) of
        Err e \<Rightarrow> (fs, r, Err e)
      | Ok _ \<Rightarrow> run_transport fs (ee_local_root env) (ee_probe env) (ee_openssh env) token kind r)"

definition run_rsync ::
  "engine_env \<Rightarrow> fs \<Rightarrow> string \<Rightarrow> transfer_kind \<Rightarrow> transfer_response \<Rightarrow>
   fs \<times> transfer_response \<times> (unit, engine_error) result" where
  "run_rsync env fs token kind r =
     (case openssh_preflight Rsync (ee_key_path env) (ee_jump_key env) of
        Err e \<Rightarrow> (fs, r, Err e)
      | Ok _ \<Rightarrow> run_transport fs (ee_local_root env) (ee_probe env) (ee_rsync env) token kind r)"

definition dispatch ::
  "engine_env \<Rightarrow> fs \<Rightarrow> string \<Rightarrow> transfer_kind \<Rightarrow> transfer_response \<Rightarrow>
   fs \<times> transfer_response \<times> (unit, engine_error) result" where
  "dispatch env fs token kind r =
     (case tp_transport (rs_params r) of
        ExecRaw \<Rightarrow> run_exec_raw env fs token kind r
      | Sftp \<Rightarrow> run_openssh env fs token Sftp kind r
      | Scp \<Rightarrow> run_openssh env fs token Scp kind r
      | Rsync \<Rightarrow> run_rsync env fs token kind r)"

text \<open>A run: the events emitted by the engine itself, the file system and the reserved destinations it
  leaves, and the response.\<close>

record run_outcome =
  ro_events :: "transfer_event list"
  ro_fs :: fs
  ro_active :: "string set"
  ro_response :: transfer_response

definition run_inner :: "engine_env \<Rightarrow> fs \<Rightarrow> string set \<Rightarrow> transfer_params \<Rightarrow> nat \<Rightarrow> run_outcome" where
  "run_inner env fs active params elapsed =
     (let failed = (\<lambda>act r. \<lparr>ro_events = [EvPreparing], ro_fs = fs, ro_active = act, ro_response = r\<rparr>) in
      case ee_remote_home env of
        Err e \<Rightarrow> failed active (error_response params (ee_local_root env) (HomeUnresolved e))
      | Ok home \<Rightarrow>
          let r0 = ok_stub params (tp_transport params) home (ee_local_root env) in
          case resolve_kind fs (ee_local_root env) (ee_probe env) params of
            Err e \<Rightarrow> failed active ((set_error (KindUnresolved e) r0)\<lparr>rs_elapsed_ms := Some elapsed\<rparr>)
          | Ok kind \<Rightarrow>
              let r1 = r0\<lparr>rs_kind := Some kind\<rparr> in
              case reserve_destination (ee_local_root env) params active of
                Err e \<Rightarrow> failed active ((set_error e r1)\<lparr>rs_elapsed_ms := Some elapsed\<rparr>)
              | Ok (key, active1) \<Rightarrow>
                  (case ee_token env of
                     Err e \<Rightarrow>
                       failed (release_destination key active1)
                         ((set_error (TokenFailed e) r1)\<lparr>rs_elapsed_ms := Some elapsed\<rparr>)
                   | Ok token \<Rightarrow>
                       (case dispatch env fs token kind r1 of
                          (fs', r2, outcome) \<Rightarrow>
                            \<lparr>ro_events = [EvPreparing, EvTransferring (tp_transport params)], ro_fs = fs',
                             ro_active = release_destination key active1,
                             ro_response =
                               (case outcome of Ok _ \<Rightarrow> r2\<lparr>rs_ok := True\<rparr> | Err e \<Rightarrow> set_error e r2)
                                 \<lparr>rs_elapsed_ms := Some elapsed\<rparr>\<rparr>)))"

text \<open>\<open>run_controlled\<close>: the work ends by itself, or a cancellation or the deadline comes first and its
  response is discarded.\<close>

datatype stop_reason = Cancelled | DeadlinePassed

definition stop_error :: "stop_reason \<Rightarrow> nat \<Rightarrow> engine_error" where
  "stop_error reason timeout_ms =
     (case reason of Cancelled \<Rightarrow> TransferCancelled | DeadlinePassed \<Rightarrow> TransferTimeout timeout_ms)"

definition run_controlled ::
  "engine_env \<Rightarrow> fs \<Rightarrow> string set \<Rightarrow> transfer_params \<Rightarrow> nat \<Rightarrow> nat \<Rightarrow> stop_reason option \<Rightarrow> transfer_response" where
  "run_controlled env fs active params timeout_ms elapsed stopped =
     (case stopped of
        None \<Rightarrow> ro_response (run_inner env fs active params elapsed)
      | Some reason \<Rightarrow>
          (error_response params (ee_local_root env) (stop_error reason timeout_ms))\<lparr>rs_elapsed_ms := Some elapsed\<rparr>)"

subsection \<open>Background transfer jobs\<close>

datatype transfer_phase = Queued | Preparing | Transferring | Finalizing | PhaseCompleted | PhaseFailed

fun phase_as_str :: "transfer_phase \<Rightarrow> string" where
  "phase_as_str Queued = ''queued''"
| "phase_as_str Preparing = ''preparing''"
| "phase_as_str Transferring = ''transferring''"
| "phase_as_str Finalizing = ''finalizing''"
| "phase_as_str PhaseCompleted = ''completed''"
| "phase_as_str PhaseFailed = ''failed''"

record transfer_job =
  tj_job_id :: string
  tj_started_at :: nat
  tj_completed_at :: "nat option"
  tj_phase :: transfer_phase
  tj_transport :: "transfer_transport option"
  tj_progress_target :: "transfer_progress_target option"
  tj_total_bytes :: "nat option"
  tj_result :: "compact_response option"

definition transfer_job_new :: "string \<Rightarrow> nat \<Rightarrow> transfer_job" where
  "transfer_job_new job_id now =
     \<lparr>tj_job_id = job_id, tj_started_at = now, tj_completed_at = None, tj_phase = Queued, tj_transport = None,
      tj_progress_target = None, tj_total_bytes = None, tj_result = None\<rparr>"

definition apply_event :: "transfer_event \<Rightarrow> transfer_job \<Rightarrow> transfer_job" where
  "apply_event event j =
     (if tj_completed_at j \<noteq> None then j
      else case event of
        EvPreparing \<Rightarrow> j\<lparr>tj_phase := Preparing\<rparr>
      | EvTransferring transport \<Rightarrow>
          j\<lparr>tj_phase := Transferring, tj_transport := Some transport, tj_progress_target := None, tj_total_bytes := None\<rparr>
      | EvFileStage target total_bytes \<Rightarrow>
          j\<lparr>tj_phase := Transferring, tj_progress_target := Some target, tj_total_bytes := total_bytes\<rparr>
      | EvFinalizing \<Rightarrow> j\<lparr>tj_phase := Finalizing\<rparr>)"

definition finish_job :: "transfer_response \<Rightarrow> nat \<Rightarrow> transfer_job \<Rightarrow> transfer_job" where
  "finish_job response now j =
     j\<lparr>tj_phase := (if rs_ok response then PhaseCompleted else PhaseFailed), tj_completed_at := Some now,
       tj_result := Some (to_compact response), tj_progress_target := None\<rparr>"

definition transfer_is_terminal :: "transfer_job \<Rightarrow> bool" where
  "transfer_is_terminal j \<longleftrightarrow> tj_completed_at j \<noteq> None"

record transfer_snapshot =
  sn_job_id :: string
  sn_state :: string
  sn_running :: bool
  sn_phase :: transfer_phase
  sn_elapsed_ms :: nat
  sn_transport :: "transfer_transport option"
  sn_progress_target :: "transfer_progress_target option"
  sn_total_bytes :: "nat option"
  sn_result :: "compact_response option"

definition job_snapshot :: "nat \<Rightarrow> transfer_job \<Rightarrow> transfer_snapshot" where
  "job_snapshot now j =
     \<lparr>sn_job_id = tj_job_id j,
      sn_state = (if transfer_is_terminal j then phase_as_str (tj_phase j) else ''running''),
      sn_running = (\<not> transfer_is_terminal j), sn_phase = tj_phase j, sn_elapsed_ms = now - tj_started_at j,
      sn_transport = tj_transport j, sn_progress_target = tj_progress_target j, sn_total_bytes = tj_total_bytes j,
      sn_result = tj_result j\<rparr>"

type_synonym transfer_registry = "string \<rightharpoonup> transfer_job"

definition transfer_prune :: "nat \<Rightarrow> nat \<Rightarrow> transfer_registry \<Rightarrow> transfer_registry" where
  "transfer_prune retention now jobs =
     (\<lambda>id. case jobs id of
        None \<Rightarrow> None
      | Some j \<Rightarrow> (case tj_completed_at j of
                     None \<Rightarrow> Some j
                   | Some completed \<Rightarrow> if now - completed \<le> retention then Some j else None))"

definition transfer_register :: "nat \<Rightarrow> string \<Rightarrow> nat \<Rightarrow> transfer_registry \<Rightarrow> transfer_registry" where
  "transfer_register retention job_id now jobs =
     (transfer_prune retention now jobs)(job_id \<mapsto> transfer_job_new job_id now)"

definition registry_snapshot :: "nat \<Rightarrow> string \<Rightarrow> nat \<Rightarrow> transfer_registry \<Rightarrow> transfer_registry \<times> transfer_snapshot option" where
  "registry_snapshot retention job_id now jobs =
     (let jobs' = transfer_prune retention now jobs in (jobs', map_option (job_snapshot now) (jobs' job_id)))"

definition registry_contains :: "nat \<Rightarrow> string \<Rightarrow> nat \<Rightarrow> transfer_registry \<Rightarrow> transfer_registry \<times> bool" where
  "registry_contains retention job_id now jobs =
     (let jobs' = transfer_prune retention now jobs in (jobs', jobs' job_id \<noteq> None))"

subsection \<open>The terminal guard\<close>

text \<open>The guard holds the response to fall back to until the task has finished.\<close>

definition guard_finish :: "transfer_response \<Rightarrow> nat \<Rightarrow> transfer_job \<Rightarrow> transfer_job \<times> transfer_response option" where
  "guard_finish response now j = (finish_job response now j, None)"

definition guard_drop :: "transfer_response option \<Rightarrow> nat \<Rightarrow> transfer_job \<Rightarrow> transfer_job" where
  "guard_drop fallback now j =
     (case fallback of
        None \<Rightarrow> j
      | Some response \<Rightarrow> if \<not> transfer_is_terminal j then finish_job response now j else j)"

text \<open>The task of \<open>execute_background_transfer\<close>: spawned, it creates its guard, runs, and ends; it may be
  aborted at its first suspension, before the guard exists. The progress callback applies events to the
  job at any time, also late ones.\<close>

datatype task_state = Spawned | Guarded transfer_response | Ended bool

record transfer_system =
  sys_transfer_job :: transfer_job
  sys_task :: task_state

inductive transfer_step :: "transfer_system \<Rightarrow> transfer_system \<Rightarrow> bool" where
  task_starts: "sys_task s = Spawned \<Longrightarrow> transfer_step s (s\<lparr>sys_task := Guarded fallback\<rparr>)"
| task_aborted_early: "sys_task s = Spawned \<Longrightarrow> transfer_step s (s\<lparr>sys_task := Ended False\<rparr>)"
| task_event: "transfer_step s (s\<lparr>sys_transfer_job := apply_event ev (sys_transfer_job s)\<rparr>)"
| task_finishes: "sys_task s = Guarded fallback \<Longrightarrow>
    guard_finish response now (sys_transfer_job s) = (job, left) \<Longrightarrow>
    transfer_step s \<lparr>sys_transfer_job = guard_drop left now job, sys_task = Ended True\<rparr>"
| task_dropped: "sys_task s = Guarded fallback \<Longrightarrow>
    transfer_step s \<lparr>sys_transfer_job = guard_drop (Some fallback) now (sys_transfer_job s), sys_task = Ended True\<rparr>"

definition transfer_start :: "transfer_system \<Rightarrow> bool" where
  "transfer_start s \<longleftrightarrow> (\<exists>job_id now. s = \<lparr>sys_transfer_job = transfer_job_new job_id now, sys_task = Spawned\<rparr>)"

subsection \<open>Concurrent transfers\<close>

text \<open>The transfers in progress, each with its request and the key its guard holds.\<close>

record engine_state =
  en_active :: "string set"
  en_running :: "nat \<rightharpoonup> transfer_params \<times> string"

inductive engine_step :: "string \<Rightarrow> engine_state \<Rightarrow> engine_state \<Rightarrow> bool" for local_root where
  engine_reserve: "en_running s i = None \<Longrightarrow> reserve_destination local_root params (en_active s) = Ok (key, active') \<Longrightarrow>
    engine_step local_root s \<lparr>en_active = active', en_running = (en_running s)(i \<mapsto> (params, key))\<rparr>"
| engine_release: "en_running s i = Some (params, key) \<Longrightarrow>
    engine_step local_root s \<lparr>en_active = release_destination key (en_active s), en_running = (en_running s)(i := None)\<rparr>"

definition engine_start :: "engine_state \<Rightarrow> bool" where
  "engine_start s \<longleftrightarrow> s = \<lparr>en_active = {}, en_running = Map.empty\<rparr>"

text \<open>An upload request, for the witnesses.\<close>

definition sample_put :: "string \<Rightarrow> transfer_params" where
  "sample_put path = \<lparr>tp_operation = OpPut, tp_local_path = ''f'', tp_remote_path = path, tp_transport = ExecRaw,
     tp_kind = None, tp_overwrite = False, tp_timeout_ms = None, tp_background = False, tp_verbose = False,
     tp_rsync_options = rsync_options_default\<rparr>"

subsection \<open>Reference descriptions\<close>

text \<open>The place a path denotes when no component is a link: from the root or from the working directory,
  one part after the other.\<close>

fun follow_parts :: "string list \<Rightarrow> string list \<Rightarrow> string list" where
  "follow_parts cur [] = cur"
| "follow_parts cur (part # ps) =
     (if part = [] \<or> part = ''.'' then follow_parts cur ps
      else if part = ''..'' then follow_parts (butlast cur) ps
      else follow_parts (cur @ [part]) ps)"

definition remote_place :: "string list \<Rightarrow> string \<Rightarrow> string list" where
  "remote_place cwd path = follow_parts (if starts_with path [SLASH] then [] else cwd) (split_on SLASH path)"

definition running_phase :: "transfer_phase \<Rightarrow> bool" where
  "running_phase ph \<longleftrightarrow> ph \<noteq> PhaseCompleted \<and> ph \<noteq> PhaseFailed"

text \<open>A job is running, without a result, or settled: completed with a successful result or failed with
  an unsuccessful one.\<close>

definition transfer_job_ok :: "transfer_job \<Rightarrow> bool" where
  "transfer_job_ok j \<longleftrightarrow>
     (case tj_result j of
        None \<Rightarrow> tj_completed_at j = None \<and> running_phase (tj_phase j)
      | Some r \<Rightarrow> tj_completed_at j \<noteq> None \<and> tj_phase j = (if cr_ok r then PhaseCompleted else PhaseFailed)
                 \<and> tj_progress_target j = None)"

section \<open>Lemmas\<close>

subsection \<open>Normal forms of remote paths\<close>

definition plain_part :: "string \<Rightarrow> bool" where
  "plain_part p \<longleftrightarrow> p \<noteq> [] \<and> p \<noteq> ''.'' \<and> SLASH \<notin> set p"

definition name_part :: "string \<Rightarrow> bool" where
  "name_part p \<longleftrightarrow> plain_part p \<and> p \<noteq> ''..''"

lemma plain_butlast: "\<forall>p\<in>set ps. P p \<Longrightarrow> \<forall>p\<in>set (butlast ps). P p"
  using in_set_butlastD[of _ ps] by blast

lemma follow_parts_append: "follow_parts cur (a @ b) = follow_parts (follow_parts cur a) b"
  by (induction cur a rule: follow_parts.induct) simp_all

lemma follow_parts_plain: "\<forall>p\<in>set ps. name_part p \<Longrightarrow> follow_parts cur ps = cur @ ps"
proof (induction ps arbitrary: cur)
  case (Cons p ps)
  then have "name_part p" "follow_parts (cur @ [p]) ps = (cur @ [p]) @ ps" by simp_all
  then show ?case by (simp add: name_part_def plain_part_def)
qed simp

lemma follow_norm_parts_relative:
  "\<forall>p\<in>set parts. plain_part p \<Longrightarrow> \<forall>p\<in>set ps. SLASH \<notin> set p \<Longrightarrow>
   follow_parts cur (norm_parts False parts ps) = follow_parts (follow_parts cur parts) ps"
proof (induction False parts ps rule: norm_parts.induct)
  case (2 parts part ps)
  consider (skip) "part = [] \<or> part = ''.''" | (pop) "part = ''..''" "parts \<noteq> []" "last parts \<noteq> ''..''"
    | (up) "part = ''..''" "parts = [] \<or> last parts = ''..''" | (name) "plain_part part" "part \<noteq> ''..''"
    using 2 by (auto simp: plain_part_def)
  then show ?case
  proof cases
    case pop
    have "\<forall>p\<in>set (butlast parts). plain_part p" using "2.prems"(1) by (auto dest: in_set_butlastD)
    then have "follow_parts cur (norm_parts False parts (part # ps)) = follow_parts (follow_parts cur (butlast parts)) ps"
      using 2 pop by simp
    moreover have "follow_parts cur parts = follow_parts cur (butlast parts) @ [last parts]"
      using pop "2.prems"(1) last_in_set[OF pop(2)] follow_parts_append[of cur "butlast parts" "[last parts]"]
      by (auto simp: plain_part_def)
    ultimately show ?thesis using pop by simp
  next
    case up
    then have "follow_parts cur (norm_parts False parts (part # ps)) = follow_parts (follow_parts cur (parts @ [part])) ps"
      using 2 by (auto simp: plain_part_def)
    then show ?thesis using up by (simp add: follow_parts_append)
  next
    case name
    then have "follow_parts cur (norm_parts False parts (part # ps)) = follow_parts (follow_parts cur (parts @ [part])) ps"
      using 2 by (auto simp: plain_part_def)
    then show ?thesis using name by (simp add: follow_parts_append plain_part_def)
  qed (use 2 in auto)
qed simp

lemma norm_parts_absolute:
  "\<forall>p\<in>set parts. name_part p \<Longrightarrow> \<forall>p\<in>set ps. SLASH \<notin> set p \<Longrightarrow>
   norm_parts True parts ps = follow_parts parts ps \<and> (\<forall>p\<in>set (follow_parts parts ps). name_part p)"
proof (induction ps arbitrary: parts)
  case (Cons part ps)
  have noslash: "SLASH \<notin> set part" "\<forall>p\<in>set ps. SLASH \<notin> set p" using Cons.prems(2) by simp_all
  consider (skip) "part = [] \<or> part = ''.''" | (root) "part = ''..''" "parts = []"
    | (pop) "part = ''..''" "parts \<noteq> []" | (name) "part \<noteq> []" "part \<noteq> ''.''" "part \<noteq> ''..''" by blast
  then show ?case
  proof cases
    case skip
    then show ?thesis using Cons.IH[OF Cons.prems(1) noslash(2)] by auto
  next
    case root
    then show ?thesis using Cons.IH[OF Cons.prems(1) noslash(2)] by simp
  next
    case pop
    have "last parts \<noteq> ''..''" using bspec[OF Cons.prems(1) last_in_set[OF pop(2)]] by (simp add: name_part_def)
    then show ?thesis using pop Cons.IH[OF plain_butlast[OF Cons.prems(1)] noslash(2)] by simp
  next
    case name
    then have "\<forall>p\<in>set (parts @ [part]). name_part p"
      using Cons.prems(1) noslash(1) by (simp add: name_part_def plain_part_def)
    from Cons.IH[OF this noslash(2)] name show ?thesis by simp
  qed
qed simp

lemma split_on_no_slash: "\<forall>p\<in>set (split_on SLASH path). SLASH \<notin> set p"
  using split_on_parts by blast

lemma norm_parts_plain:
  "\<forall>p\<in>set parts. plain_part p \<Longrightarrow> \<forall>p\<in>set ps. SLASH \<notin> set p \<Longrightarrow> \<forall>p\<in>set (norm_parts ab parts ps). plain_part p"
proof (induction ps arbitrary: parts)
  case (Cons part ps)
  have noslash: "SLASH \<notin> set part" "\<forall>p\<in>set ps. SLASH \<notin> set p" using Cons.prems(2) by simp_all
  note ih = Cons.IH[OF _ noslash(2)]
  have keep: "\<forall>p\<in>set (parts @ [part]). plain_part p" if "part \<noteq> []" "part \<noteq> ''.''"
    using Cons.prems(1) noslash(1) that by (simp add: plain_part_def)
  show ?case
  proof (cases "part = [] \<or> part = ''.''")
    case True
    then show ?thesis using ih[OF Cons.prems(1)] by auto
  next
    case False
    then have "\<forall>p\<in>set (norm_parts ab (parts @ [part]) ps). plain_part p" using ih[OF keep] by blast
    with False ih[OF Cons.prems(1)] ih[OF plain_butlast[OF Cons.prems(1)]] show ?thesis
      by (cases "part = ''..''"; cases "parts \<noteq> [] \<and> last parts \<noteq> ''..''"; cases ab) simp_all
  qed
qed simp

lemma join_plain_parts:
  assumes "\<forall>p\<in>set ps. plain_part p" "ps \<noteq> []"
  shows "split_on SLASH (join [SLASH] ps) = ps" "\<not> starts_with (join [SLASH] ps) [SLASH]" "join [SLASH] ps \<noteq> []"
proof -
  show split: "split_on SLASH (join [SLASH] ps) = ps"
    using assms by (intro split_on_join) (auto simp: plain_part_def)
  obtain p qs where ps: "ps = p # qs" using assms(2) by (cases ps) auto
  have p: "p \<noteq> []" "SLASH \<notin> set p" using assms(1) ps by (simp_all add: plain_part_def)
  show "join [SLASH] ps \<noteq> []" using ps p by (cases qs) simp_all
  show "\<not> starts_with (join [SLASH] ps) [SLASH]"
    using ps p by (cases p; cases qs) (auto simp: starts_with_def)
qed

lemma normalize_absolute:
  assumes "starts_with p [SLASH]"
  shows "normalize_remote_path p = SLASH # join [SLASH] (remote_place cwd p)"
    "\<forall>q\<in>set (remote_place cwd p). name_part q"
  using assms norm_parts_absolute[of "[]" "split_on SLASH p"] split_on_no_slash
  by (simp_all add: normalize_remote_path_def remote_place_def)

lemma normalize_place_absolute:
  assumes "starts_with p [SLASH]"
  shows "remote_place cwd (normalize_remote_path p) = remote_place cwd p"
proof -
  define segs where "segs = remote_place cwd p"
  have plain: "\<forall>q\<in>set segs. plain_part q" using normalize_absolute(2)[OF assms] by (simp add: segs_def name_part_def)
  have "split_on SLASH (SLASH # join [SLASH] segs) = [] # (if segs = [] then [[]] else segs)"
    using join_plain_parts(1)[OF plain] by simp
  then show ?thesis
    using normalize_absolute[OF assms, of cwd] follow_parts_plain[of segs "[]"]
    by (simp add: segs_def[symmetric] remote_place_def[of _ "SLASH # _"] starts_with_def)
qed

lemma normalize_place_relative:
  assumes "\<not> starts_with p [SLASH]"
  shows "remote_place cwd (normalize_remote_path p) = remote_place cwd p"
proof -
  define parts where "parts = norm_parts False [] (split_on SLASH p)"
  have plain: "\<forall>q\<in>set parts. plain_part q"
    unfolding parts_def by (intro norm_parts_plain split_on_no_slash) simp
  have place: "follow_parts cwd parts = remote_place cwd p"
    using follow_norm_parts_relative[of "[]" "split_on SLASH p" cwd] split_on_no_slash assms
    by (simp add: parts_def remote_place_def)
  show ?thesis
  proof (cases "parts = []")
    case True
    then show ?thesis using assms place by (simp add: normalize_remote_path_def parts_def[symmetric] remote_place_def starts_with_def)
  next
    case False
    note j = join_plain_parts[OF plain False]
    have "normalize_remote_path p = join [SLASH] parts"
      using assms j(3) by (simp add: normalize_remote_path_def parts_def[symmetric])
    with j place show ?thesis by (simp add: remote_place_def[of _ "join _ _"])
  qed
qed

lemma normalize_absolute_eq_iff:
  assumes "starts_with p [SLASH]" "starts_with q [SLASH]"
  shows "normalize_remote_path p = normalize_remote_path q \<longleftrightarrow> remote_place [] p = remote_place [] q"
  using normalize_absolute(1)[OF assms(1), of "[]"] normalize_absolute(1)[OF assms(2), of "[]"]
    normalize_place_absolute[OF assms(1), of "[]"] normalize_place_absolute[OF assms(2), of "[]"]
  by metis

subsection \<open>The terminal guard\<close>

definition transfer_system_ok :: "transfer_system \<Rightarrow> bool" where
  "transfer_system_ok s \<longleftrightarrow> transfer_job_ok (sys_transfer_job s)
     \<and> (transfer_is_terminal (sys_transfer_job s) \<longleftrightarrow> sys_task s = Ended True)"

lemmas transfer_job_defs = transfer_job_ok_def transfer_is_terminal_def running_phase_def

lemma apply_event_ok:
  "transfer_job_ok j \<Longrightarrow> transfer_job_ok (apply_event ev j)"
  "transfer_is_terminal (apply_event ev j) \<longleftrightarrow> transfer_is_terminal j"
  "transfer_is_terminal j \<Longrightarrow> apply_event ev j = j"
  by (auto simp: apply_event_def transfer_job_defs split: transfer_event.split option.split)

lemma finish_job_ok: "transfer_job_ok (finish_job r now j)" "transfer_is_terminal (finish_job r now j)"
  by (simp_all add: finish_job_def transfer_job_defs to_compact_def)

interpretation transfer_sys: inductive_invariant transfer_start transfer_step transfer_system_ok
proof unfold_locales
  fix s assume "transfer_start s"
  then show "transfer_system_ok s"
    by (auto simp: transfer_start_def transfer_system_ok_def transfer_job_defs transfer_job_new_def)
next
  fix s s' assume "transfer_system_ok s" "transfer_step s s'"
  from this(2,1) show "transfer_system_ok s'"
    by cases (auto simp: transfer_system_ok_def guard_finish_def guard_drop_def apply_event_ok finish_job_ok)
qed

lemma transfer_step_terminal:
  assumes "transfer_system_ok s" "transfer_is_terminal (sys_transfer_job s)" "transfer_step s s'"
  shows "sys_transfer_job s' = sys_transfer_job s"
  using assms(3,1,2) by cases (auto simp: transfer_system_ok_def apply_event_ok)

subsection \<open>Exclusion\<close>

definition engine_ok :: "string \<Rightarrow> engine_state \<Rightarrow> bool" where
  "engine_ok local_root s \<longleftrightarrow>
     (\<forall>i params key. en_running s i = Some (params, key) \<longrightarrow>
        key \<in> en_active s \<and> destination_key local_root params = Ok key)
     \<and> (\<forall>i j pi pj ki kj. en_running s i = Some (pi, ki) \<longrightarrow> en_running s j = Some (pj, kj) \<longrightarrow> i \<noteq> j \<longrightarrow> ki \<noteq> kj)"

interpretation engine_sys: inductive_invariant engine_start "engine_step local_root" "engine_ok local_root" for local_root
proof unfold_locales
  fix s assume "engine_start s"
  then show "engine_ok local_root s" by (simp add: engine_start_def engine_ok_def)
next
  fix s s' assume ok: "engine_ok local_root s" and "engine_step local_root s s'"
  from this(2) show "engine_ok local_root s'"
  proof cases
    case (engine_reserve i params key active')
    then have key: "destination_key local_root params = Ok key" "key \<notin> en_active s" "active' = insert key (en_active s)"
      by (auto simp: reserve_destination_def split: if_splits)
    have "ki \<noteq> key" if "en_running s j = Some (pj, ki)" for j pj ki
      using ok key(2) that unfolding engine_ok_def by metis
    with ok key engine_reserve show ?thesis unfolding engine_ok_def by (auto split: if_splits)
  next
    case (engine_release i params key)
    have "ki \<noteq> key" if "en_running s j = Some (pj, ki)" "j \<noteq> i" for j pj ki
      using ok engine_release(2) that unfolding engine_ok_def by metis
    with ok engine_release show ?thesis unfolding engine_ok_def release_destination_def by (auto split: if_splits)
  qed
qed

subsection \<open>One run\<close>

definition keeps_verdict :: "transfer_response \<Rightarrow> transfer_response \<times> (unit, engine_error) result \<Rightarrow> bool" where
  "keeps_verdict r x \<longleftrightarrow> rs_ok (fst x) = rs_ok r \<and> rs_error (fst x) = rs_error r \<and> (snd x = Ok () \<longrightarrow> rs_counts (fst x) \<noteq> None)"

lemma run_transport_response: "keeps_verdict r (snd (run_transport fs root probe op token kind r))"
  by (auto simp: keeps_verdict_def run_transport_def Let_def split: result.split prod.split)

lemma dispatch_response: "keeps_verdict r (snd (dispatch env fs token kind r))"
  using run_transport_response
  by (auto simp: dispatch_def run_exec_raw_def run_openssh_def run_rsync_def split: result.split transfer_transport.split) (simp_all add: keeps_verdict_def)

lemma dispatch_verdict:
  "dispatch env fs token kind r = (fs', r', outcome) \<Longrightarrow>
   rs_ok r' = rs_ok r \<and> rs_error r' = rs_error r \<and> (outcome = Ok () \<longrightarrow> rs_counts r' \<noteq> None)"
  using dispatch_response[of r env fs token kind] by (simp add: keeps_verdict_def)

lemma reserve_release: "reserve_destination root params active = Ok (key, active') \<Longrightarrow> release_destination key active' = active"
  by (auto simp: reserve_destination_def release_destination_def split: if_splits)

lemma run_inner_truthful:
  "(rs_ok (ro_response (run_inner env fs active params elapsed)) \<longleftrightarrow> rs_error (ro_response (run_inner env fs active params elapsed)) = None)
   \<and> (rs_ok (ro_response (run_inner env fs active params elapsed)) \<longrightarrow> rs_counts (ro_response (run_inner env fs active params elapsed)) \<noteq> None)
   \<and> ro_active (run_inner env fs active params elapsed) = active"
  by (auto simp: run_inner_def Let_def error_response_def set_error_def ok_stub_def reserve_release dest!: dispatch_verdict
      split: result.split prod.split)

text \<open>Two downloads to one file are not kept apart when the file is spelled differently.\<close>

lemma get_alias_not_detected:
  "\<exists>k1 k2. destination_key ''/srv'' ((sample_put ''/a'')\<lparr>tp_operation := OpGet, tp_local_path := ''x''\<rparr>) = Ok k1
    \<and> destination_key ''/srv'' ((sample_put ''/a'')\<lparr>tp_operation := OpGet, tp_local_path := ''./x''\<rparr>) = Ok k2
    \<and> k1 \<noteq> k2 \<and> components ''/srv/x'' = components ''/srv/./x''"
  by (rule exI[of _ "''get:/srv/x''"], rule exI[of _ "''get:/srv/./x''"], intro conjI; code_simp)

text \<open>A registered job is visible at once, a running one is never pruned, and a settled one stays for the
  retention time.\<close>

lemma registry_keeps_running:
  "jobs k = Some j \<Longrightarrow> tj_completed_at j = None \<Longrightarrow> snd (registry_snapshot retention k now jobs) = Some (job_snapshot now j)"
  "snd (registry_contains retention k now (transfer_register retention k now jobs))"
  "jobs k = Some j \<Longrightarrow> tj_completed_at j = Some t \<Longrightarrow>
     snd (registry_contains retention k now jobs) \<longleftrightarrow> now - t \<le> retention"
  by (simp_all add: registry_snapshot_def registry_contains_def transfer_register_def transfer_prune_def transfer_job_new_def Let_def)

section \<open>Properties\<close>

text \<open>The normal form of a remote path denotes the same place as the path, from whatever working
  directory; and two absolute paths have the same normal form exactly when they denote the same place.\<close>

theorem normalize_remote_path_place:
  "remote_place cwd (normalize_remote_path p) = remote_place cwd p
   \<and> (normalize_remote_path (SLASH # p) = normalize_remote_path (SLASH # q)
        \<longleftrightarrow> remote_place [] (SLASH # p) = remote_place [] (SLASH # q))"
proof -
  have "starts_with (SLASH # r) [SLASH]" for r by (simp add: starts_with_def)
  then show ?thesis
    using normalize_place_absolute[of p cwd] normalize_place_relative[of p cwd] normalize_absolute_eq_iff by metis
qed

text \<open>C25: at no time are two uploads with absolute destinations in progress to the same place, however
  transfers start and end; a destination is free again once its transfer has ended.\<close>

theorem concurrent_uploads_exclusive:
  assumes "reachable engine_start (engine_step local_root) s" "en_running s i = Some (p, ki)" "en_running s j = Some (q, kj)" "i \<noteq> j"
    and "tp_operation p = OpPut" "tp_operation q = OpPut"
    and "starts_with (tp_remote_path p) [SLASH]" "starts_with (tp_remote_path q) [SLASH]"
  shows "remote_place [] (tp_remote_path p) \<noteq> remote_place [] (tp_remote_path q)"
proof -
  from engine_sys.reachable_inv[OF assms(1)] assms(2-4)
  have "destination_key local_root p = Ok ki" "destination_key local_root q = Ok kj" "ki \<noteq> kj"
    unfolding engine_ok_def by blast+
  with assms(5-8) show ?thesis
    using normalize_absolute_eq_iff[OF assms(7,8)] by (auto simp: destination_key_def)
qed

theorem concurrent_uploads_exclusive_witness:
  "\<exists>s. reachable engine_start (engine_step ''/srv'') s \<and> en_running s 0 = Some (sample_put ''/a'', ''put:/a'')
    \<and> en_running s 1 = Some (sample_put ''/b'', ''put:/b'')
    \<and> remote_place [] (tp_remote_path (sample_put ''/a'')) \<noteq> remote_place [] (tp_remote_path (sample_put ''/b''))"
proof -
  define s0 where "s0 = \<lparr>en_active = {}, en_running = Map.empty\<rparr>"
  define s1 where "s1 = \<lparr>en_active = {''put:/a''}, en_running = [0 \<mapsto> (sample_put ''/a'', ''put:/a'')]\<rparr>"
  define s2 where "s2 = \<lparr>en_active = {''put:/b'', ''put:/a''},
      en_running = [0 \<mapsto> (sample_put ''/a'', ''put:/a''), 1 \<mapsto> (sample_put ''/b'', ''put:/b'')]\<rparr>"
  have ka: "destination_key ''/srv'' (sample_put ''/a'') = Ok ''put:/a''" and kb: "destination_key ''/srv'' (sample_put ''/b'') = Ok ''put:/b''"
    by code_simp+
  then have "reserve_destination ''/srv'' (sample_put ''/a'') {} = Ok (''put:/a'', {''put:/a''})"
    "reserve_destination ''/srv'' (sample_put ''/b'') {''put:/a''} = Ok (''put:/b'', {''put:/b'', ''put:/a''})"
    by (simp_all add: reserve_destination_def)
  then have "engine_step ''/srv'' s0 s1" "engine_step ''/srv'' s1 s2"
    using engine_reserve[of s0 0 "''/srv''" "sample_put ''/a''"] engine_reserve[of s1 1 "''/srv''" "sample_put ''/b''"]
    by (auto simp: s0_def s1_def s2_def)
  moreover have "engine_start s0" by (simp add: engine_start_def s0_def)
  ultimately have r: "reachable engine_start (engine_step ''/srv'') s2"
    by (blast intro: reachable_init reachable_step)
  have run: "en_running s2 0 = Some (sample_put ''/a'', ''put:/a'')" "en_running s2 1 = Some (sample_put ''/b'', ''put:/b'')"
    by (simp_all add: s2_def)
  have "starts_with (tp_remote_path (sample_put p)) [SLASH] \<longleftrightarrow> starts_with p [SLASH]" "tp_operation (sample_put p) = OpPut" for p
    by (simp_all add: sample_put_def)
  with concurrent_uploads_exclusive[OF r run] r run show ?thesis by (intro exI[of _ s2]) (simp add: starts_with_def)
qed

text \<open>However its task runs, a background transfer job is running without a result, completed with a
  successful one or failed with an unsuccessful one; once the task has its guard, its end settles the
  job, also when it panics or is aborted; and a settled job never changes again.\<close>

theorem transfer_job_settles:
  assumes "reachable transfer_start transfer_step s"
  shows "transfer_job_ok (sys_transfer_job s)
    \<and> (transfer_is_terminal (sys_transfer_job s) \<longleftrightarrow> sys_task s = Ended True)
    \<and> (transfer_is_terminal (sys_transfer_job s) \<longrightarrow> transfer_step\<^sup>*\<^sup>* s s' \<longrightarrow> sys_transfer_job s' = sys_transfer_job s)"
proof -
  have ok: "transfer_system_ok s" by (rule transfer_sys.reachable_inv[OF assms])
  have "sys_transfer_job s' = sys_transfer_job s" if "transfer_step\<^sup>*\<^sup>* s s'" "transfer_is_terminal (sys_transfer_job s)"
    using that
  proof (induction rule: rtranclp_induct)
    case (step t u)
    then have "transfer_system_ok t" using transfer_sys.steps_inv[OF ok] by blast
    with step show ?case using transfer_step_terminal[of t u] by simp
  qed simp
  with ok show ?thesis by (simp add: transfer_system_ok_def)
qed

theorem transfer_job_settles_witness:
  "\<exists>s. reachable transfer_start transfer_step s \<and> sys_task s = Ended True
    \<and> transfer_job_ok (sys_transfer_job s) \<and> tj_phase (sys_transfer_job s) = PhaseFailed"
proof -
  let ?j = "transfer_job_new ''transfer-1'' 0"
  let ?r = "error_response (sample_put ''/a'') ''/srv'' StoppedUnexpectedly"
  let ?s0 = "\<lparr>sys_transfer_job = ?j, sys_task = Spawned\<rparr>"
  let ?s1 = "\<lparr>sys_transfer_job = ?j, sys_task = Guarded ?r\<rparr>"
  let ?s2 = "\<lparr>sys_transfer_job = guard_drop (Some ?r) 5 ?j, sys_task = Ended True\<rparr>"
  have "transfer_step ?s0 ?s1" "transfer_step ?s1 ?s2"
    using task_starts[of ?s0 ?r] task_dropped[of ?s1 ?r 5] by simp_all
  moreover have "transfer_start ?s0" by (auto simp: transfer_start_def)
  ultimately have r: "reachable transfer_start transfer_step ?s2" by (blast intro: reachable_init reachable_step)
  have "tj_phase (guard_drop (Some ?r) 5 ?j) = PhaseFailed"
    by (simp add: guard_drop_def transfer_is_terminal_def transfer_job_new_def finish_job_def error_response_def)
  with r transfer_job_settles[OF r] show ?thesis by (intro exI[of _ ?s2]) simp
qed

text \<open>A response is truthful: it says \<open>ok\<close> exactly when it carries no error, and then the transfer was
  not stopped and the transport reported what it counted; and a run leaves the reserved destinations
  as it found them, whatever happens in it.\<close>

theorem run_response_truthful:
  "(rs_ok (run_controlled env fs active params timeout_ms elapsed stopped)
      \<longleftrightarrow> rs_error (run_controlled env fs active params timeout_ms elapsed stopped) = None)
   \<and> (stopped \<noteq> None \<or> rs_counts (run_controlled env fs active params timeout_ms elapsed stopped) = None
        \<longrightarrow> \<not> rs_ok (run_controlled env fs active params timeout_ms elapsed stopped))
   \<and> ro_active (run_inner env fs active params elapsed) = active"
  using run_inner_truthful[of env fs active params elapsed]
  by (cases stopped) (auto simp: run_controlled_def error_response_def)

theorem run_response_truthful_witness:
  "rs_error (run_controlled \<lparr>ee_local_root = ''/srv'', ee_key_path = None, ee_jump_key = None, ee_remote_home = Ok ''/root'',
       ee_probe = (\<lambda>p. Ok KindFile), ee_token = Ok ''t'', ee_exec_raw = (\<lambda>fs t p k r. (fs, Err (TransportFailed ''lost''))),
       ee_openssh = (\<lambda>fs t p k r. (fs, Err (TransportFailed ''lost''))),
       ee_rsync = (\<lambda>fs t p k r. (fs, Err (TransportFailed ''lost'')))\<rparr> Map.empty {} (sample_put ''/a'') 10 10 (Some Cancelled)) \<noteq> None"
  using run_response_truthful[where stopped = "Some Cancelled"] by blast


end
