(* ===== verification/Connection.thy ===== *)
theory Connection
  imports Prelude
begin

text \<open>
  The SSH connection manager: \<open>src/src/ssh/connection.rs\<close>, with the operations on the elevated
  channel of \<open>src/src/ssh/command.rs\<close>. Every critical section, the code between taking the locks and
  releasing them, is one function on the state; concurrent tasks are interleavings of these functions.
  A channel is known by the generation of the route on which it was opened; a transport may close at
  any time. Generations are natural numbers: the 64-bit counter does not wrap in practice.
\<close>

section \<open>Definitions\<close>

subsection \<open>State\<close>

datatype remote_platform = Posix | Routeros

record active_route =
  ar_generation :: nat
  ar_platform :: remote_platform
  ar_target_closed :: bool
  ar_jump_closed :: "bool option"
  ar_auto_elevation_attempted :: bool

definition is_closed :: "active_route \<Rightarrow> bool" where
  "is_closed r \<longleftrightarrow> ar_target_closed r \<or> ar_jump_closed r = Some True"

record ssh_config =
  sc_su_password :: "string option"
  sc_sudo_password :: "string option"
  sc_health_probe_timeout_ms :: nat
  sc_reconnect_retries :: nat
  sc_reconnect_backoff_ms :: nat

record connection =
  cn_session :: "active_route option"
  cn_next_generation :: nat
  cn_is_connecting :: bool
  cn_shutting_down :: bool
  cn_su_channel :: "nat option"
  cn_su_generation :: nat
  cn_is_elevated :: bool
  cn_has_timeout_cmd :: bool
  cn_last_health_probe_ok_at :: "(nat \<times> nat) option"
  cn_remote_platform :: "remote_platform option"

definition connection_new :: connection where
  "connection_new = \<lparr>cn_session = None, cn_next_generation = 1, cn_is_connecting = False, cn_shutting_down = False,
     cn_su_channel = None, cn_su_generation = 0, cn_is_elevated = False, cn_has_timeout_cmd = False,
     cn_last_health_probe_ok_at = None, cn_remote_platform = None\<rparr>"

text \<open>\<open>SshConnectionManager::new\<close> drops empty passwords.\<close>

definition filter_passwords :: "ssh_config \<Rightarrow> ssh_config" where
  "filter_passwords cfg =
     (let keep = (\<lambda>p. case p of Some s \<Rightarrow> if s = [] then None else Some s | None \<Rightarrow> None) in
      cfg\<lparr>sc_su_password := keep (sc_su_password cfg), sc_sudo_password := keep (sc_sudo_password cfg)\<rparr>)"

datatype su_error = SuTimedOut | SuRejected string | SuClosed | SuEnded | SuSendFailed string

datatype conn_error =
    ShuttingDown
  | FailedByAnotherTask
  | NotEstablished
  | ElevationUnsupported
  | CompatibilityChanged remote_platform remote_platform
  | RouteChanged
  | ConnectFailed string
  | NoResult
  | BudgetElapsed
  | TransportClosed
  | NoPassword
  | SuFailed su_error

subsection \<open>Routes\<close>

definition ensure_not_shutting_down :: "connection \<Rightarrow> (unit, conn_error) result" where
  "ensure_not_shutting_down c = (if cn_shutting_down c then Err ShuttingDown else Ok ())"

definition is_connected :: "connection \<Rightarrow> bool" where
  "is_connected c \<longleftrightarrow> (case cn_session c of Some r \<Rightarrow> \<not> is_closed r | None \<Rightarrow> False)"

definition session_generation :: "connection \<Rightarrow> nat option" where
  "session_generation c = map_option ar_generation (cn_session c)"

text \<open>The route of this generation is current and open.\<close>

definition route_usable :: "nat \<Rightarrow> connection \<Rightarrow> bool" where
  "route_usable generation c \<longleftrightarrow>
     (case cn_session c of Some r \<Rightarrow> ar_generation r = generation \<and> \<not> is_closed r | None \<Rightarrow> False)"

definition invalidate_session_inner :: "nat option \<Rightarrow> connection \<Rightarrow> connection" where
  "invalidate_session_inner expected c =
     (if expected \<noteq> None \<and> session_generation c \<noteq> expected then c
      else c\<lparr>cn_is_elevated := False, cn_su_generation := 0, cn_last_health_probe_ok_at := None,
             cn_su_channel := None, cn_session := None\<rparr>)"

definition invalidate_session :: "connection \<Rightarrow> connection" where
  "invalidate_session c = invalidate_session_inner None c"

definition invalidate_session_for_generation :: "nat \<Rightarrow> connection \<Rightarrow> connection" where
  "invalidate_session_for_generation generation c = invalidate_session_inner (Some generation) c"

definition validate_elevation :: "remote_platform \<Rightarrow> string option \<Rightarrow> string option \<Rightarrow> (unit, conn_error) result" where
  "validate_elevation platform su_password sudo_password =
     (if platform = Routeros \<and> (\<exists>p\<in>set [su_password, sudo_password]. case p of Some s \<Rightarrow> s \<noteq> [] | None \<Rightarrow> False)
      then Err ElevationUnsupported else Ok ())"

text \<open>The publication of an authenticated route; \<open>jump\<close> tells whether it runs through a jump host. The
  generation is taken before the locks.\<close>

definition take_generation :: "connection \<Rightarrow> nat \<times> connection" where
  "take_generation c = (cn_next_generation c, c\<lparr>cn_next_generation := cn_next_generation c + 1\<rparr>)"

definition publish :: "nat \<Rightarrow> remote_platform \<Rightarrow> bool \<Rightarrow> connection \<Rightarrow> connection \<times> (unit, conn_error) result" where
  "publish generation platform jump c =
     (if cn_shutting_down c then (c, ensure_not_shutting_down c)
      else
        let frozen = (case cn_remote_platform c of Some p \<Rightarrow> p | None \<Rightarrow> platform);
            c1 = c\<lparr>cn_remote_platform := Some frozen\<rparr> in
        if frozen \<noteq> platform then (c1, Err (CompatibilityChanged frozen platform))
        else
          (c1\<lparr>cn_session := Some \<lparr>ar_generation = generation, ar_platform = platform, ar_target_closed = False,
                ar_jump_closed = (if jump then Some False else None), ar_auto_elevation_attempted = False\<rparr>,
              cn_last_health_probe_ok_at := None\<rparr>, Ok ()))"

definition finish_connect ::
  "ssh_config \<Rightarrow> (unit, conn_error) result \<Rightarrow> remote_platform \<Rightarrow> bool \<Rightarrow> connection \<Rightarrow> connection \<times> (unit, conn_error) result" where
  "finish_connect cfg authenticated platform jump c =
     (case and_then authenticated (\<lambda>_. validate_elevation platform (sc_su_password cfg) (sc_sudo_password cfg)) of
        Err e \<Rightarrow> (c, Err e)
      | Ok _ \<Rightarrow> (case take_generation c of (g, c1) \<Rightarrow> publish g platform jump c1))"

definition close_connection :: "connection \<Rightarrow> connection" where
  "close_connection c =
     c\<lparr>cn_is_elevated := False, cn_su_generation := 0, cn_last_health_probe_ok_at := None, cn_su_channel := None,
       cn_session := None\<rparr>"

subsection \<open>Health\<close>

definition MIN_HEALTH_PROBE_TTL_MS :: nat where "MIN_HEALTH_PROBE_TTL_MS = 250"
definition MAX_HEALTH_PROBE_TTL_MS :: nat where "MAX_HEALTH_PROBE_TTL_MS = 5000"

definition health_probe_ttl :: "ssh_config \<Rightarrow> nat" where
  "health_probe_ttl cfg =
     min (max (sat_mul (sc_health_probe_timeout_ms cfg) 2) MIN_HEALTH_PROBE_TTL_MS) MAX_HEALTH_PROBE_TTL_MS"

definition is_health_probe_fresh :: "ssh_config \<Rightarrow> nat \<Rightarrow> nat \<Rightarrow> connection \<Rightarrow> bool" where
  "is_health_probe_fresh cfg now generation c \<longleftrightarrow>
     route_usable generation c
     \<and> (case cn_last_health_probe_ok_at c of
          Some (cached_generation, last_ok_at) \<Rightarrow> cached_generation = generation \<and> now - last_ok_at < health_probe_ttl cfg
        | None \<Rightarrow> False)"

definition mark_health_probe_ok :: "nat \<Rightarrow> nat \<Rightarrow> connection \<Rightarrow> connection \<times> bool" where
  "mark_health_probe_ok now generation c =
     (if \<not> route_usable generation c then (c, False)
      else (c\<lparr>cn_last_health_probe_ok_at := Some (generation, now)\<rparr>, True))"

text \<open>One turn of the loop of \<open>ensure_transport_inner\<close> when no other task intervenes: the transport can be
  used, it must be connected, or the loop looks again. \<open>ping\<close> is the outcome of the health probe.\<close>

datatype ensure_result = Usable | Refused | MustConnect | LookAgain

definition ensure_turn :: "ssh_config \<Rightarrow> nat \<Rightarrow> bool \<Rightarrow> connection \<Rightarrow> connection \<times> ensure_result" where
  "ensure_turn cfg now ping c =
     (if cn_shutting_down c then (c, Refused)
      else case cn_session c of
        None \<Rightarrow> (c, MustConnect)
      | Some r \<Rightarrow>
          let g = ar_generation r in
          if is_closed r then (invalidate_session_for_generation g c, LookAgain)
          else if ar_platform r = Routeros then (c, Usable)
          else if is_health_probe_fresh cfg now g c then (c, Usable)
          else if \<not> ping then
            let c1 = invalidate_session_for_generation g c in
            (c1, if is_connected c1 then LookAgain else MustConnect)
          else (case mark_health_probe_ok now g c of
                  (c1, True) \<Rightarrow> (c1, Usable)
                | (c1, False) \<Rightarrow> (c1, LookAgain)))"

subsection \<open>Retries\<close>

definition MAX_RECONNECT_BACKOFF_MS :: nat where "MAX_RECONNECT_BACKOFF_MS = 30000"

definition backoff_for_attempt :: "ssh_config \<Rightarrow> nat \<Rightarrow> nat" where
  "backoff_for_attempt cfg attempt =
     (let exponent = min (attempt - 1) 63 in
      min (sat_mul (sc_reconnect_backoff_ms cfg) (2 ^ exponent)) MAX_RECONNECT_BACKOFF_MS)"

text \<open>An attempt to connect by the task that owns it, while no other task intervenes. \<open>do_connect\<close> is the
  network: it fails, or it ends with a handle for \<open>finish_connect\<close>.\<close>

datatype dial = DialFailed conn_error | Dialed "(unit, conn_error) result" remote_platform bool

definition connect_transport_only :: "ssh_config \<Rightarrow> dial \<Rightarrow> connection \<Rightarrow> connection \<times> (unit, conn_error) result" where
  "connect_transport_only cfg d c =
     (if cn_shutting_down c then (c, ensure_not_shutting_down c)
      else if is_connected c then (c, Ok ())
      else
        let c1 = (case session_generation c of Some g \<Rightarrow> invalidate_session_for_generation g c | None \<Rightarrow> c) in
        case d of DialFailed e \<Rightarrow> (c1, Err e) | Dialed auth platform jump \<Rightarrow> finish_connect cfg auth platform jump c1)"

text \<open>The retry loop over the attempts to come. It returns the result, the number of attempts made and the
  pauses between them, or nothing when the time budget ends it: \<open>ds\<close> holds the attempts that fit. The loop
  is over when the attempt exceeds the maximum; the saturating counter never does when the maximum is the
  largest 64-bit number.\<close>

definition max_attempts :: "ssh_config \<Rightarrow> nat" where
  "max_attempts cfg = sat_add (sc_reconnect_retries cfg) 1"

fun retry_loop ::
  "ssh_config \<Rightarrow> dial list \<Rightarrow> nat \<Rightarrow> conn_error option \<Rightarrow> nat list \<Rightarrow> connection \<Rightarrow>
   connection \<times> ((unit, conn_error) result \<times> nat \<times> nat list) option" where
  "retry_loop cfg ds attempt last_error pauses c =
     (if attempt \<le> max_attempts cfg then
        (case ds of
           [] \<Rightarrow> (c, None)
         | d # ds' \<Rightarrow>
             (case connect_transport_only cfg d c of
                (c1, Ok _) \<Rightarrow> (c1, Some (Ok (), attempt, pauses))
              | (c1, Err e) \<Rightarrow>
                  let backoff = backoff_for_attempt cfg attempt in
                  retry_loop cfg ds' (sat_add attempt 1) (Some e)
                    (if attempt < max_attempts cfg \<and> backoff > 0 then pauses @ [backoff] else pauses) c1))
      else (c, Some (case last_error of Some e \<Rightarrow> Err e | None \<Rightarrow> Err NoResult, attempt - 1, pauses)))"

definition connect_with_retry ::
  "ssh_config \<Rightarrow> dial list \<Rightarrow> connection \<Rightarrow> connection \<times> ((unit, conn_error) result \<times> nat \<times> nat list) option" where
  "connect_with_retry cfg ds c = retry_loop cfg ds 1 None [] c"

text \<open>The loop of \<open>ensure_transport_inner\<close>: another turn is needed only when the route was dropped.\<close>

lemma look_again_drops:
  assumes "ensure_turn cfg now ping c = (c', LookAgain)"
  shows "cn_session c \<noteq> None \<and> cn_session c' = None"
proof (cases "cn_session c")
  case (Some r)
  with assms show ?thesis
    by (auto simp: ensure_turn_def invalidate_session_for_generation_def invalidate_session_inner_def session_generation_def
          mark_health_probe_ok_def route_usable_def Let_def is_connected_def split: if_splits)
qed (use assms in \<open>auto simp: ensure_turn_def split: if_splits\<close>)

function ensure_transport_inner ::
  "ssh_config \<Rightarrow> nat \<Rightarrow> bool \<Rightarrow> dial list \<Rightarrow> connection \<Rightarrow> connection \<times> (unit, conn_error) result option" where
  "ensure_transport_inner cfg now ping ds c =
     (case ensure_turn cfg now ping c of
        (c1, Usable) \<Rightarrow> (c1, Some (Ok ()))
      | (c1, Refused) \<Rightarrow> (c1, Some (ensure_not_shutting_down c1))
      | (c1, MustConnect) \<Rightarrow> (case connect_with_retry cfg ds c1 of (c2, r) \<Rightarrow> (c2, map_option fst r))
      | (c1, LookAgain) \<Rightarrow> ensure_transport_inner cfg now ping ds c1)"
  by pat_completeness auto
termination
proof (relation "measure (\<lambda>(cfg, now, ping, ds, c). if cn_session c = None then 0 else 1)")
  fix cfg now ping ds c c1 e
  assume "(c1, e) = ensure_turn cfg now ping c" "e = LookAgain"
  then have "cn_session c \<noteq> None \<and> cn_session c1 = None" using look_again_drops[of cfg now ping c c1] by simp
  then show "((cfg, now, ping, ds, c1), (cfg, now, ping, ds, c))
      \<in> measure (\<lambda>(cfg, now, ping, ds, c). if cn_session c = None then 0 else 1)" by simp
qed simp

declare ensure_transport_inner.simps [simp del]

text \<open>\<open>bounded_transport\<close> turns the end of the budget into an error.\<close>

definition ensure_connected_transport_only ::
  "ssh_config \<Rightarrow> nat \<Rightarrow> bool \<Rightarrow> dial list \<Rightarrow> connection \<Rightarrow> connection \<times> (unit, conn_error) result" where
  "ensure_connected_transport_only cfg now ping ds c =
     (if cn_shutting_down c then (c, ensure_not_shutting_down c)
      else case ensure_transport_inner cfg now ping ds c of
        (c1, Some r) \<Rightarrow> (c1, r)
      | (c1, None) \<Rightarrow> (c1, Err BudgetElapsed))"

subsection \<open>Elevation\<close>

text \<open>The critical section of \<open>initialize_auto_elevation\<close>: the generation to elevate, if it is the first
  time for this route.\<close>

definition claim_auto_elevation :: "ssh_config \<Rightarrow> connection \<Rightarrow> connection \<times> nat option" where
  "claim_auto_elevation cfg c =
     (if sc_su_password cfg = None then (c, None)
      else case cn_session c of
        None \<Rightarrow> (c, None)
      | Some r \<Rightarrow>
          if ar_auto_elevation_attempted r \<or> cn_shutting_down c then (c, None)
          else (c\<lparr>cn_session := Some (r\<lparr>ar_auto_elevation_attempted := True\<rparr>)\<rparr>, Some (ar_generation r)))"

text \<open>The last section of \<open>ensure_elevated_for_generation\<close>: the channel opened on \<open>generation\<close> is stored.\<close>

definition store_su_channel :: "nat \<Rightarrow> connection \<Rightarrow> connection \<times> (unit, conn_error) result" where
  "store_su_channel generation c =
     (if cn_shutting_down c \<or> session_generation c \<noteq> Some generation then (c, Err RouteChanged)
      else (c\<lparr>cn_su_channel := Some generation, cn_su_generation := generation, cn_is_elevated := True\<rparr>, Ok ()))"

definition reset_su_state_for_generation :: "nat \<Rightarrow> connection \<Rightarrow> connection" where
  "reset_su_state_for_generation generation c =
     (if session_generation c \<noteq> Some generation then c
      else c\<lparr>cn_is_elevated := False, cn_su_generation := 0, cn_su_channel := None\<rparr>)"

definition clear_su_password :: "connection \<Rightarrow> connection" where
  "clear_su_password c = c\<lparr>cn_su_channel := None, cn_su_generation := 0, cn_is_elevated := False\<rparr>"

definition has_su_channel :: "connection \<Rightarrow> bool" where
  "has_su_channel c \<longleftrightarrow> cn_su_channel c \<noteq> None \<and> route_usable (cn_su_generation c) c"

definition try_take_su_channel :: "connection \<Rightarrow> connection \<times> (nat \<times> nat) option" where
  "try_take_su_channel c =
     (if cn_shutting_down c \<or> \<not> route_usable (cn_su_generation c) c then (c, None)
      else (c\<lparr>cn_su_channel := None\<rparr>, map_option (\<lambda>ch. (cn_su_generation c, ch)) (cn_su_channel c)))"

definition restore_su_channel :: "nat \<Rightarrow> nat \<Rightarrow> connection \<Rightarrow> connection" where
  "restore_su_channel generation channel c =
     (if cn_shutting_down c \<or> cn_su_channel c \<noteq> None \<or> cn_su_generation c \<noteq> generation \<or> \<not> route_usable generation c
      then c else c\<lparr>cn_su_channel := Some channel\<rparr>)"

text \<open>The dialogue of \<open>handle_su_elevation\<close>: what the channel delivers, whether the password can be written,
  and what is sent. The loop
  ends with the deadline when nothing decides it before.\<close>

datatype su_wait = SuMsg channel_msg | SuQuiet

definition su_rejected :: "string \<Rightarrow> bool" where
  "su_rejected buffer \<longleftrightarrow>
     (let low = to_lowercase buffer in
      str_contains low ''authentication failure'' \<or> str_contains low ''incorrect password''
      \<or> str_contains low ''su: failed'' \<or> str_contains low ''su: authentication'')"

definition asks_password :: "string \<Rightarrow> bool" where
  "asks_password buffer \<longleftrightarrow> str_contains (to_lowercase buffer) ''password''"

fun su_dialogue ::
  "string \<Rightarrow> (unit, string) result \<Rightarrow> su_wait list \<Rightarrow> bool \<Rightarrow> string \<Rightarrow> bool \<Rightarrow> string list \<Rightarrow>
   string list \<times> (unit, su_error) result" where
  "su_dialogue password wr [] ended buffer password_sent sent = (sent, Err (if ended then SuEnded else SuTimedOut))"
| "su_dialogue password wr (SuQuiet # ws) ended buffer password_sent sent =
     su_dialogue password wr ws ended buffer password_sent sent"
| "su_dialogue password wr (SuMsg msg # ws) ended buffer password_sent sent =
     (case msg of
        Data d \<Rightarrow>
          let text = buffer @ from_utf8_lossy d;
              prompt = (\<not> password_sent \<and> asks_password text);
              sent' = (if prompt then sent @ [password @ [NL]] else sent);
              password_sent' = (password_sent \<or> prompt);
              buffer' = (if prompt then [] else text) in
          (case (prompt, wr) of
             (True, Err m) \<Rightarrow> (sent', Err (SuSendFailed m))
           | _ \<Rightarrow>
               if password_sent' \<and> CHR ''#'' \<in> set buffer' then (sent', Ok ())
               else if su_rejected buffer' then (sent', Err (SuRejected buffer'))
               else su_dialogue password wr ws ended buffer' password_sent' sent')
      | Close \<Rightarrow> (sent, Err SuClosed)
      | _ \<Rightarrow> su_dialogue password wr ws ended buffer password_sent sent)"

definition handle_su_elevation ::
  "string \<Rightarrow> (unit, string) result \<Rightarrow> su_wait list \<Rightarrow> bool \<Rightarrow> string list \<times> (unit, su_error) result" where
  "handle_su_elevation password wr ws ended = su_dialogue password wr ws ended [] False []"

text \<open>The opening of a channel: the outcome of the network, or the interruption by the budget or by the
  shutdown, before or after the route was read.\<close>

datatype open_outcome = Opened | OpenFailed string | OpenCut bool conn_error

definition open_channel_attempt_detailed :: "open_outcome \<Rightarrow> connection \<Rightarrow> (nat, nat option \<times> conn_error) result" where
  "open_channel_attempt_detailed how c =
     (if cn_shutting_down c then Err (None, ShuttingDown)
      else case cn_session c of
        None \<Rightarrow> (case how of OpenCut _ e \<Rightarrow> Err (None, e) | _ \<Rightarrow> Err (None, NotEstablished))
      | Some r \<Rightarrow>
          (case how of
             OpenCut route_read e \<Rightarrow> Err (if route_read then Some (ar_generation r) else None, e)
           | Opened \<Rightarrow> if is_closed r then Err (Some (ar_generation r), TransportClosed) else Ok (ar_generation r)
           | OpenFailed m \<Rightarrow>
               Err (Some (ar_generation r), if is_closed r then TransportClosed else ConnectFailed m)))"

text \<open>\<open>ensure_elevated_for_generation\<close> while no other task intervenes: the state, what was sent to the shell
  and the result. \<open>prepared\<close> is the outcome of the requests for a terminal and a shell and of the first write,
  \<open>ws\<close> and \<open>ended\<close> what the shell then delivers.\<close>

record su_world =
  sw_opening :: open_outcome
  sw_prepared :: "(unit, string) result"
  sw_password_write :: "(unit, string) result"
  sw_messages :: "su_wait list"
  sw_ended :: bool

definition elevate_on ::
  "su_world \<Rightarrow> string \<Rightarrow> nat \<Rightarrow> connection \<Rightarrow> connection \<times> string list \<times> (unit, conn_error) result" where
  "elevate_on w password generation c =
     (case sw_prepared w of
        Err m \<Rightarrow> (c, [], Err (SuFailed (SuSendFailed m)))
      | Ok _ \<Rightarrow>
          (case handle_su_elevation password (sw_password_write w) (sw_messages w) (sw_ended w) of
             (sent, Ok _) \<Rightarrow> (case store_su_channel generation c of (c1, r) \<Rightarrow> (c1, (''su -'' @ [NL]) # sent, r))
           | (sent, Err e) \<Rightarrow> (reset_su_state_for_generation generation c, (''su -'' @ [NL]) # sent, Err (SuFailed e))))"

definition ensure_elevated_for_generation ::
  "ssh_config \<Rightarrow> su_world \<Rightarrow> nat option \<Rightarrow> connection \<Rightarrow> connection \<times> string list \<times> (unit, conn_error) result" where
  "ensure_elevated_for_generation cfg w expected c =
     (if cn_shutting_down c then (c, [], ensure_not_shutting_down c)
      else if expected \<noteq> None \<and> session_generation c \<noteq> expected then (c, [], Err RouteChanged)
      else if cn_is_elevated c \<and> cn_su_channel c \<noteq> None then (c, [], Ok ())
      else case sc_su_password cfg of
        None \<Rightarrow> (c, [], Err NoPassword)
      | Some password \<Rightarrow>
          (case open_channel_attempt_detailed (sw_opening w) c of
             Err (_, e) \<Rightarrow> (c, [], Err e)
           | Ok generation \<Rightarrow>
               if expected \<noteq> None \<and> expected \<noteq> Some generation then (c, [], Err RouteChanged)
               else elevate_on w password generation c))"

text \<open>\<open>initialize_auto_elevation\<close> ignores a failure; \<open>ensure_connected\<close> runs it on every successful call.\<close>

definition initialize_auto_elevation :: "ssh_config \<Rightarrow> su_world \<Rightarrow> connection \<Rightarrow> connection \<times> string list" where
  "initialize_auto_elevation cfg w c =
     (case claim_auto_elevation cfg c of
        (c1, None) \<Rightarrow> (c1, [])
      | (c1, Some g) \<Rightarrow> (case ensure_elevated_for_generation cfg w (Some g) c1 of (c2, sent, _) \<Rightarrow> (c2, sent)))"

record net_world =
  nw_now :: nat
  nw_ping :: bool
  nw_dials :: "dial list"
  nw_su :: su_world

definition ensure_connected :: "ssh_config \<Rightarrow> net_world \<Rightarrow> connection \<Rightarrow> connection \<times> (unit, conn_error) result" where
  "ensure_connected cfg w c =
     (case ensure_connected_transport_only cfg (nw_now w) (nw_ping w) (nw_dials w) c of
        (c1, Err e) \<Rightarrow> (c1, Err e)
      | (c1, Ok _) \<Rightarrow> (fst (initialize_auto_elevation cfg (nw_su w) c1), Ok ()))"

definition connect :: "ssh_config \<Rightarrow> dial option \<Rightarrow> su_world \<Rightarrow> connection \<Rightarrow> connection \<times> (unit, conn_error) result" where
  "connect cfg d w c =
     (if cn_shutting_down c then (c, ensure_not_shutting_down c)
      else case d of
        None \<Rightarrow> (c, Err BudgetElapsed)
      | Some d \<Rightarrow>
          (case connect_transport_only cfg d c of
             (c1, Err e) \<Rightarrow> (c1, Err e)
           | (c1, Ok _) \<Rightarrow> (fst (initialize_auto_elevation cfg w c1), Ok ())))"

definition reconnect :: "ssh_config \<Rightarrow> net_world \<Rightarrow> connection \<Rightarrow> connection \<times> (unit, conn_error) result" where
  "reconnect cfg w c =
     (if cn_shutting_down c then (c, ensure_not_shutting_down c)
      else case connect_with_retry cfg (nw_dials w) (invalidate_session c) of
        (c1, None) \<Rightarrow> (c1, Err BudgetElapsed)
      | (c1, Some (Err e, _)) \<Rightarrow> (c1, Err e)
      | (c1, Some (Ok _, _)) \<Rightarrow> (fst (initialize_auto_elevation cfg (nw_su w) c1), Ok ()))"

text \<open>\<open>set_su_password\<close> elevates with the configured password, or forgets the elevated channel;
  \<open>reconnect\<close> drops the route and connects again.\<close>

definition set_su_password ::
  "ssh_config \<Rightarrow> su_world \<Rightarrow> string option \<Rightarrow> connection \<Rightarrow> connection \<times> (unit, conn_error) result" where
  "set_su_password cfg w password c =
     (case password of
        Some _ \<Rightarrow> (case ensure_elevated_for_generation cfg w None c of (c1, _, r) \<Rightarrow> (c1, r))
      | None \<Rightarrow> (clear_su_password c, Ok ()))"

subsection \<open>Tasks\<close>

text \<open>The task that owns the connection attempt: it has claimed the flag, has seen no open route, has read
  the generation of a closed one, dials, or holds an authenticated candidate with its generation.\<close>

datatype owner_phase = Idle | Claimed | Checked | StaleRoute nat | Dialing | Candidate nat remote_platform bool

text \<open>The manager with its owner, the elevated channels that commands have taken, and whether \<open>close\<close>
  has removed the route.\<close>

record conn_system =
  cs_conn :: connection
  cs_owner :: owner_phase
  cs_taken :: "(nat \<times> nat) set"
  cs_closed :: bool

definition release_owner :: "conn_system \<Rightarrow> conn_system" where
  "release_owner s = s\<lparr>cs_conn := (cs_conn s)\<lparr>cn_is_connecting := False\<rparr>, cs_owner := Idle\<rparr>"

inductive conn_step :: "ssh_config \<Rightarrow> conn_system \<Rightarrow> conn_system \<Rightarrow> bool" for cfg where
  claim: "cs_owner s = Idle \<Longrightarrow> \<not> cn_is_connecting (cs_conn s) \<Longrightarrow>
    conn_step cfg s (s\<lparr>cs_conn := (cs_conn s)\<lparr>cn_is_connecting := True\<rparr>, cs_owner := Claimed\<rparr>)"
| recheck_stops: "cs_owner s = Claimed \<Longrightarrow> cn_shutting_down (cs_conn s) \<or> is_connected (cs_conn s) \<Longrightarrow>
    conn_step cfg s (release_owner s)"
| recheck_goes_on: "cs_owner s = Claimed \<Longrightarrow> \<not> cn_shutting_down (cs_conn s) \<Longrightarrow> \<not> is_connected (cs_conn s) \<Longrightarrow>
    conn_step cfg s (s\<lparr>cs_owner := Checked\<rparr>)"
| read_stale: "cs_owner s = Checked \<Longrightarrow>
    conn_step cfg s (s\<lparr>cs_owner := (case session_generation (cs_conn s) of None \<Rightarrow> Dialing | Some g \<Rightarrow> StaleRoute g)\<rparr>)"
| drop_stale: "cs_owner s = StaleRoute g \<Longrightarrow>
    conn_step cfg s (s\<lparr>cs_conn := invalidate_session_for_generation g (cs_conn s), cs_owner := Dialing\<rparr>)"
| authenticated: "cs_owner s = Dialing \<Longrightarrow> validate_elevation platform (sc_su_password cfg) (sc_sudo_password cfg) = Ok () \<Longrightarrow>
    take_generation (cs_conn s) = (g, c) \<Longrightarrow>
    conn_step cfg s (s\<lparr>cs_conn := c, cs_owner := Candidate g platform jump\<rparr>)"
| publication: "cs_owner s = Candidate g platform jump \<Longrightarrow> publish g platform jump (cs_conn s) = (c, r) \<Longrightarrow>
    conn_step cfg s (release_owner (s\<lparr>cs_conn := c\<rparr>))"
| attempt_abandoned: "cs_owner s \<noteq> Idle \<Longrightarrow> conn_step cfg s (release_owner s)"
| invalidation: "conn_step cfg s (s\<lparr>cs_conn := invalidate_session_inner expected (cs_conn s)\<rparr>)"
| transport_closes: "cn_session (cs_conn s) = Some r \<Longrightarrow>
    conn_step cfg s (s\<lparr>cs_conn := (cs_conn s)\<lparr>cn_session := Some (r\<lparr>ar_target_closed := True\<rparr>)\<rparr>\<rparr>)"
| jump_closes: "cn_session (cs_conn s) = Some r \<Longrightarrow> ar_jump_closed r \<noteq> None \<Longrightarrow>
    conn_step cfg s (s\<lparr>cs_conn := (cs_conn s)\<lparr>cn_session := Some (r\<lparr>ar_jump_closed := Some True\<rparr>)\<rparr>\<rparr>)"
| close_begins: "conn_step cfg s (s\<lparr>cs_conn := (cs_conn s)\<lparr>cn_shutting_down := True\<rparr>\<rparr>)"
| close_ends: "cn_shutting_down (cs_conn s) \<Longrightarrow>
    conn_step cfg s (s\<lparr>cs_conn := close_connection (cs_conn s), cs_closed := True\<rparr>)"
| elevation_claimed: "claim_auto_elevation cfg (cs_conn s) = (c, g) \<Longrightarrow> conn_step cfg s (s\<lparr>cs_conn := c\<rparr>)"
| elevation_stored: "store_su_channel g (cs_conn s) = (c, r) \<Longrightarrow> conn_step cfg s (s\<lparr>cs_conn := c\<rparr>)"
| elevation_reset: "conn_step cfg s (s\<lparr>cs_conn := reset_su_state_for_generation g (cs_conn s)\<rparr>)"
| elevation_cleared: "conn_step cfg s (s\<lparr>cs_conn := clear_su_password (cs_conn s)\<rparr>)"
| channel_taken: "try_take_su_channel (cs_conn s) = (c, Some (g, ch)) \<Longrightarrow>
    conn_step cfg s (s\<lparr>cs_conn := c, cs_taken := insert (g, ch) (cs_taken s)\<rparr>)"
| channel_restored: "(g, ch) \<in> cs_taken s \<Longrightarrow>
    conn_step cfg s (s\<lparr>cs_conn := restore_su_channel g ch (cs_conn s), cs_taken := cs_taken s - {(g, ch)}\<rparr>)"
| channel_lost: "(g, ch) \<in> cs_taken s \<Longrightarrow>
    conn_step cfg s (s\<lparr>cs_conn := invalidate_session_for_generation g (cs_conn s), cs_taken := cs_taken s - {(g, ch)}\<rparr>)"
| probe_succeeds: "mark_health_probe_ok now g (cs_conn s) = (c, b) \<Longrightarrow> conn_step cfg s (s\<lparr>cs_conn := c\<rparr>)"
| timeout_detected: "conn_step cfg s (s\<lparr>cs_conn := (cs_conn s)\<lparr>cn_has_timeout_cmd := b\<rparr>\<rparr>)"

definition conn_start :: "conn_system \<Rightarrow> bool" where
  "conn_start s \<longleftrightarrow> s = \<lparr>cs_conn = connection_new, cs_owner = Idle, cs_taken = {}, cs_closed = False\<rparr>"

section \<open>Lemmas\<close>

subsection \<open>The invariant of the connection\<close>

text \<open>A route has a generation that was handed out and the frozen platform; the elevation state and the
  health cache belong to the current route.\<close>

definition conn_ok :: "connection \<Rightarrow> bool" where
  "conn_ok c \<longleftrightarrow>
     (case cn_session c of
        None \<Rightarrow> \<not> cn_is_elevated c \<and> cn_last_health_probe_ok_at c = None
      | Some r \<Rightarrow> 0 < ar_generation r \<and> ar_generation r < cn_next_generation c \<and> cn_remote_platform c = Some (ar_platform r)
          \<and> (cn_is_elevated c \<longrightarrow> cn_su_generation c = ar_generation r)
          \<and> (case cn_last_health_probe_ok_at c of None \<Rightarrow> True | Some (g, t) \<Rightarrow> g = ar_generation r))
     \<and> (case cn_su_channel c of None \<Rightarrow> True | Some ch \<Rightarrow> cn_is_elevated c \<and> ch = cn_su_generation c)
     \<and> (\<not> cn_is_elevated c \<longrightarrow> cn_su_generation c = 0) \<and> 0 < cn_next_generation c"

definition owner_ok :: "owner_phase \<Rightarrow> connection \<Rightarrow> bool" where
  "owner_ok ph c \<longleftrightarrow>
     (cn_is_connecting c \<longleftrightarrow> ph \<noteq> Idle)
     \<and> (case ph of
          StaleRoute g \<Rightarrow> session_generation c = None \<or> session_generation c = Some g
        | Dialing \<Rightarrow> cn_session c = None
        | Candidate g platform jump \<Rightarrow> cn_session c = None \<and> 0 < g \<and> g < cn_next_generation c
        | _ \<Rightarrow> True)"

definition conn_system_ok :: "conn_system \<Rightarrow> bool" where
  "conn_system_ok s \<longleftrightarrow> conn_ok (cs_conn s) \<and> owner_ok (cs_owner s) (cs_conn s)
     \<and> (\<forall>x\<in>cs_taken s. snd x = fst x)
     \<and> (cs_closed s \<longrightarrow> cn_shutting_down (cs_conn s) \<and> cn_session (cs_conn s) = None)"

lemmas conn_section_defs = invalidate_session_for_generation_def invalidate_session_inner_def session_generation_def
  reset_su_state_for_generation_def clear_su_password_def close_connection_def restore_su_channel_def
  store_su_channel_def try_take_su_channel_def mark_health_probe_ok_def claim_auto_elevation_def route_usable_def

text \<open>A section that neither publishes nor hands out a generation keeps the invariant and the phase of the
  owner: the route stays, with its generation and platform, or goes.\<close>

definition quiet :: "connection \<Rightarrow> connection \<Rightarrow> bool" where
  "quiet c c' \<longleftrightarrow> (conn_ok c \<longrightarrow> conn_ok c')
     \<and> cn_is_connecting c' = cn_is_connecting c \<and> cn_next_generation c' = cn_next_generation c
     \<and> cn_shutting_down c' = cn_shutting_down c
     \<and> (cn_session c' = None \<or> session_generation c' = session_generation c)"

lemma quiet_invalidate: "quiet c (invalidate_session_inner e c)"
  by (cases "cn_session c"; cases "cn_su_channel c"; cases "cn_last_health_probe_ok_at c")
    (auto simp: quiet_def conn_ok_def conn_section_defs split: if_splits)

lemma quiet_reset: "quiet c (reset_su_state_for_generation g c)"
  by (cases "cn_session c"; cases "cn_su_channel c"; cases "cn_last_health_probe_ok_at c")
    (auto simp: quiet_def conn_ok_def conn_section_defs split: if_splits)

lemma quiet_clear: "quiet c (clear_su_password c)"
  by (cases "cn_session c"; cases "cn_su_channel c"; cases "cn_last_health_probe_ok_at c")
    (auto simp: quiet_def conn_ok_def conn_section_defs split: if_splits)

lemma quiet_claim: "claim_auto_elevation cfg c = (c', g) \<Longrightarrow> quiet c c'"
  by (cases "cn_session c"; cases "cn_su_channel c"; cases "cn_last_health_probe_ok_at c")
    (auto simp: quiet_def conn_ok_def conn_section_defs split: if_splits)

lemma quiet_store: "store_su_channel g c = (c', r) \<Longrightarrow> quiet c c'"
  by (cases "cn_session c"; cases "cn_su_channel c"; cases "cn_last_health_probe_ok_at c")
    (auto simp: quiet_def conn_ok_def conn_section_defs split: if_splits)

lemma quiet_take: "try_take_su_channel c = (c', r) \<Longrightarrow> quiet c c'"
  by (cases "cn_session c"; cases "cn_su_channel c"; cases "cn_last_health_probe_ok_at c")
    (auto simp: quiet_def conn_ok_def conn_section_defs split: if_splits)

lemma quiet_mark: "mark_health_probe_ok now g c = (c', b) \<Longrightarrow> quiet c c'"
  by (cases "cn_session c"; cases "cn_su_channel c"; cases "cn_last_health_probe_ok_at c")
    (auto simp: quiet_def conn_ok_def conn_section_defs split: if_splits)

lemma quiet_restore: "quiet c (restore_su_channel g g c)"
  by (cases "cn_session c"; cases "cn_su_channel c"; cases "cn_last_health_probe_ok_at c")
    (auto simp: quiet_def conn_ok_def conn_section_defs split: if_splits)

lemma quiet_close: "quiet c (close_connection c)"
  by (cases "cn_session c"; cases "cn_su_channel c"; cases "cn_last_health_probe_ok_at c")
    (auto simp: quiet_def conn_ok_def conn_section_defs split: if_splits)

lemma quiet_flags:
  "quiet c (c\<lparr>cn_has_timeout_cmd := b\<rparr>)"
  "cn_session c = Some r \<Longrightarrow> quiet c (c\<lparr>cn_session := Some (r\<lparr>ar_target_closed := True\<rparr>)\<rparr>)"
  "cn_session c = Some r \<Longrightarrow> quiet c (c\<lparr>cn_session := Some (r\<lparr>ar_jump_closed := j\<rparr>)\<rparr>)"
  by (auto simp: quiet_def conn_ok_def session_generation_def split: option.splits)

lemmas quiet_sections = quiet_invalidate quiet_reset quiet_clear quiet_claim quiet_store quiet_take quiet_mark
  quiet_restore quiet_close quiet_flags

lemma quiet_owner_ok: "quiet c c' \<Longrightarrow> owner_ok ph c \<Longrightarrow> owner_ok ph c'"
  by (auto simp: quiet_def owner_ok_def session_generation_def split: owner_phase.splits option.splits)

text \<open>A quiet section is a quiet step of the system.\<close>

lemma quiet_system_ok:
  assumes "conn_system_ok s" "quiet (cs_conn s) c" "taken \<subseteq> cs_taken s \<union> {x. snd x = fst x}"
  shows "conn_system_ok (s\<lparr>cs_conn := c, cs_taken := taken\<rparr>)"
  using assms quiet_owner_ok[OF assms(2)]
  by (auto simp: conn_system_ok_def quiet_def session_generation_def)

lemma quiet_conn_ok:
  assumes "conn_system_ok s" "quiet (cs_conn s) c"
  shows "conn_system_ok (s\<lparr>cs_conn := c\<rparr>)"
  using quiet_system_ok[OF assms, of "cs_taken s"] by simp

lemma taken_channel_generation:
  assumes "conn_ok c" "try_take_su_channel c = (c', Some (g, ch))"
  shows "ch = g"
  using assms by (auto simp: try_take_su_channel_def conn_ok_def split: if_splits)

lemma publish_ok:
  assumes "publish g platform jump c = (c', r)" "conn_ok c" "cn_session c = None" "0 < g" "g < cn_next_generation c"
  shows "conn_ok c'" "cn_shutting_down c' = cn_shutting_down c" "cn_shutting_down c \<Longrightarrow> cn_session c' = None"
  using assms by (auto simp: publish_def conn_ok_def Let_def split: option.splits if_splits)

lemma conn_ok_flags [simp]:
  "conn_ok (c\<lparr>cn_is_connecting := b\<rparr>) = conn_ok c"
  "conn_ok (c\<lparr>cn_shutting_down := b\<rparr>) = conn_ok c"
  by (simp_all add: conn_ok_def split: option.splits)

lemma release_owner_ok:
  assumes "conn_ok (cs_conn s)" "\<forall>x\<in>cs_taken s. snd x = fst x"
    "cs_closed s \<longrightarrow> cn_shutting_down (cs_conn s) \<and> cn_session (cs_conn s) = None"
  shows "conn_system_ok (release_owner s)"
  using assms by (simp add: conn_system_ok_def release_owner_def owner_ok_def)

lemma release_owner_keeps: "conn_system_ok s \<Longrightarrow> conn_system_ok (release_owner s)"
  by (rule release_owner_ok) (simp_all add: conn_system_ok_def)

lemma conn_step_preserves:
  assumes "conn_system_ok s" "conn_step cfg s s'"
  shows "conn_system_ok s'"
  using assms(2,1)
proof (cases rule: conn_step.cases)
  case (publication g platform jump c r)
  with assms(1) have "conn_ok (cs_conn s)" "cn_session (cs_conn s) = None" "0 < g" "g < cn_next_generation (cs_conn s)"
    by (auto simp: conn_system_ok_def owner_ok_def)
  note p = publish_ok[OF publication(3) this]
  have "conn_system_ok (release_owner (s\<lparr>cs_conn := c\<rparr>))"
  proof (rule release_owner_ok)
    show "conn_ok (cs_conn (s\<lparr>cs_conn := c\<rparr>))" using p(1) by simp
    show "\<forall>x\<in>cs_taken (s\<lparr>cs_conn := c\<rparr>). snd x = fst x" using assms(1) by (simp add: conn_system_ok_def)
    show "cs_closed (s\<lparr>cs_conn := c\<rparr>) \<longrightarrow>
      cn_shutting_down (cs_conn (s\<lparr>cs_conn := c\<rparr>)) \<and> cn_session (cs_conn (s\<lparr>cs_conn := c\<rparr>)) = None"
      using p(2,3) assms(1) by (simp add: conn_system_ok_def)
  qed
  with publication show ?thesis by simp
next
  case (channel_taken c g ch)
  from assms(1) have "conn_ok (cs_conn s)" by (simp add: conn_system_ok_def)
  from taken_channel_generation[OF this channel_taken(2)]
  have "insert (g, ch) (cs_taken s) \<subseteq> cs_taken s \<union> {x. snd x = fst x}" by auto
  from quiet_system_ok[OF assms(1) quiet_take[OF channel_taken(2)] this]
  show ?thesis by (simp only: channel_taken(1))
next
  case (channel_restored g ch)
  with assms(1) have "ch = g" by (auto simp: conn_system_ok_def)
  moreover have "cs_taken s - {(g, ch)} \<subseteq> cs_taken s \<union> {x. snd x = fst x}" by auto
  ultimately show ?thesis
    using quiet_system_ok[OF assms(1) quiet_restore] by (simp only: channel_restored(1))
next
  case (channel_lost g ch)
  have "cs_taken s - {(g, ch)} \<subseteq> cs_taken s \<union> {x. snd x = fst x}" by auto
  from quiet_system_ok[OF assms(1) quiet_invalidate this]
  show ?thesis by (simp only: channel_lost(1) invalidate_session_for_generation_def)
next
  case close_ends
  with assms(1) show ?thesis
    using quiet_conn_ok[OF assms(1) quiet_close] by (auto simp: conn_system_ok_def close_connection_def)
next
  case (authenticated platform g c jump)
  with assms(1) show ?thesis
    by (auto simp: conn_system_ok_def owner_ok_def take_generation_def conn_ok_def split: option.splits)
next
  case (drop_stale g)
  with assms(1) quiet_invalidate[of "cs_conn s" "Some g"] show ?thesis
    by (auto simp: conn_system_ok_def owner_ok_def quiet_def conn_section_defs split: if_splits)
next
  case recheck_stops
  with assms(1) show ?thesis by (simp only: release_owner_keeps)
next
  case attempt_abandoned
  with assms(1) show ?thesis by (simp only: release_owner_keeps)
next
  case read_stale
  with assms(1) show ?thesis
    by (auto simp: conn_system_ok_def owner_ok_def session_generation_def split: option.splits)
next
  case claim
  with assms(1) show ?thesis by (simp add: conn_system_ok_def owner_ok_def)
next
  case recheck_goes_on
  with assms(1) show ?thesis by (simp add: conn_system_ok_def owner_ok_def)
next
  case close_begins
  with assms(1) show ?thesis by (simp add: conn_system_ok_def owner_ok_def session_generation_def split: owner_phase.splits)
qed (hypsubst, blast intro: quiet_conn_ok[OF assms(1)] quiet_sections)+

interpretation conn_sys: inductive_invariant conn_start "conn_step cfg" conn_system_ok for cfg
proof
  fix s assume "conn_start s"
  then show "conn_system_ok s"
    by (simp add: conn_start_def conn_system_ok_def conn_ok_def owner_ok_def connection_new_def)
qed (rule conn_step_preserves)

text \<open>How a step moves generations: a route that appears is the candidate of the owner, and a new candidate
  has a generation never handed out before.\<close>

definition generation_moves :: "conn_system \<Rightarrow> conn_system \<Rightarrow> bool" where
  "generation_moves s s' \<longleftrightarrow>
     cn_next_generation (cs_conn s) \<le> cn_next_generation (cs_conn s')
     \<and> (\<forall>g. session_generation (cs_conn s') = Some g \<longrightarrow>
          session_generation (cs_conn s) = Some g \<or> (\<exists>p j. cs_owner s = Candidate g p j))
     \<and> (\<forall>g p j. cs_owner s' = Candidate g p j \<longrightarrow>
          cs_owner s = Candidate g p j \<or> cn_next_generation (cs_conn s) \<le> g \<and> g < cn_next_generation (cs_conn s'))"

lemma quiet_moves: "quiet (cs_conn s) c \<Longrightarrow> generation_moves s (s\<lparr>cs_conn := c, cs_taken := t\<rparr>)"
  by (cases "cn_session c") (simp_all add: quiet_def generation_moves_def session_generation_def)

lemma quiet_moves_conn: "quiet (cs_conn s) c \<Longrightarrow> generation_moves s (s\<lparr>cs_conn := c\<rparr>)"
  using quiet_moves[of s c "cs_taken s"] by simp

lemma session_generation_flags [simp]:
  "session_generation (c\<lparr>cn_is_connecting := b\<rparr>) = session_generation c"
  "session_generation (c\<lparr>cn_shutting_down := b\<rparr>) = session_generation c"
  by (simp_all add: session_generation_def)

lemma publish_moves:
  "publish g platform jump c = (c', r) \<Longrightarrow>
   cn_next_generation c' = cn_next_generation c
   \<and> (session_generation c' = session_generation c \<or> session_generation c' = Some g)"
  by (auto simp: publish_def Let_def session_generation_def split: if_splits option.splits)

lemma conn_step_moves:
  assumes "conn_step cfg s s'" "conn_system_ok s"
  shows "generation_moves s s'"
  using assms(1)
proof (cases rule: conn_step.cases)
  case (publication g platform jump c r)
  with publish_moves[OF publication(3)] show ?thesis
    by (auto simp: generation_moves_def release_owner_def)
next
  case (authenticated platform g c jump)
  then show ?thesis by (auto simp: generation_moves_def take_generation_def session_generation_def)
next
  case (read_stale)
  then show ?thesis by (auto simp: generation_moves_def split: option.splits)
next
  case (drop_stale g)
  with quiet_moves_conn[OF quiet_invalidate, of s "Some g"] show ?thesis
    by (simp add: generation_moves_def invalidate_session_for_generation_def)
next
  case (close_ends)
  then show ?thesis by (simp add: generation_moves_def close_connection_def session_generation_def)
next
  case (channel_restored g ch)
  then have "ch = g" using assms(2) by (auto simp: conn_system_ok_def)
  with channel_restored(1) show ?thesis by (simp add: quiet_moves quiet_restore)
next
  case (channel_lost g ch)
  then show ?thesis by (simp add: quiet_moves quiet_invalidate invalidate_session_for_generation_def)
next
  case (channel_taken c g ch)
  then show ?thesis by (simp add: quiet_moves quiet_take[OF channel_taken(2)])
qed (hypsubst, (simp add: generation_moves_def release_owner_def; fail | blast intro: quiet_moves_conn quiet_sections))+

text \<open>The generation was handed out and is not a candidate any more.\<close>

definition spent :: "nat \<Rightarrow> conn_system \<Rightarrow> bool" where
  "spent g s \<longleftrightarrow> conn_system_ok s \<and> g < cn_next_generation (cs_conn s) \<and> (\<forall>p j. cs_owner s \<noteq> Candidate g p j)"

lemma current_spent: "conn_system_ok s \<Longrightarrow> session_generation (cs_conn s) = Some g \<Longrightarrow> spent g s"
  by (auto simp: spent_def conn_system_ok_def conn_ok_def owner_ok_def session_generation_def)

interpretation spent_sys: inductive_invariant "spent g" "conn_step cfg" "spent g" for g cfg
proof
  fix s s' assume "spent g s" "conn_step cfg s s'"
  then show "spent g s'"
    using conn_step_moves[of cfg s s'] conn_step_preserves[of s cfg s'] by (fastforce simp: spent_def generation_moves_def)
qed

interpretation gone_sys: inductive_invariant "\<lambda>s. spent g s \<and> session_generation (cs_conn s) \<noteq> Some g" "conn_step cfg"
  "\<lambda>s. spent g s \<and> session_generation (cs_conn s) \<noteq> Some g" for g cfg
proof
  fix s s' assume "spent g s \<and> session_generation (cs_conn s) \<noteq> Some g" "conn_step cfg s s'"
  then show "spent g s' \<and> session_generation (cs_conn s') \<noteq> Some g"
    using conn_step_moves[of cfg s s'] spent_sys.step_inv[of g s cfg s'] by (auto simp: spent_def generation_moves_def)
qed

lemma stale_sections:
  assumes "session_generation c \<noteq> Some g"
  shows "invalidate_session_for_generation g c = c" "reset_su_state_for_generation g c = c"
    "mark_health_probe_ok now g c = (c, False)" "store_su_channel g c = (c, Err RouteChanged)"
    "restore_su_channel g ch c = c"
  using assms by (cases "cn_session c"; simp add: conn_section_defs)+

subsection \<open>Connecting\<close>

lemma finish_connect_connected:
  "finish_connect cfg auth platform jump c = (c', Ok u) \<Longrightarrow> is_connected c'"
  by (auto simp: finish_connect_def publish_def take_generation_def ensure_not_shutting_down_def is_connected_def
        is_closed_def Let_def split: result.splits if_splits)

lemma connect_transport_only_connected:
  "connect_transport_only cfg d c = (c', Ok u) \<Longrightarrow> is_connected c'"
  by (auto simp: connect_transport_only_def ensure_not_shutting_down_def Let_def finish_connect_connected
        split: if_splits dial.splits)

declare retry_loop.simps [simp del]

lemma retry_loop_ends:
  assumes "max_attempts cfg < U64 - 1" "a \<le> max_attempts cfg" "max_attempts cfg - a < length ds"
  shows "\<exists>r n c'. retry_loop cfg ds a le ps c = (c', Some (r, n, ps @ filter (\<lambda>b. 0 < b) (map (backoff_for_attempt cfg) [a..<n])))
     \<and> a \<le> n \<and> n \<le> max_attempts cfg \<and> (if r = Ok () then is_connected c' else n = max_attempts cfg)"
  using assms(2-)
proof (induction ds arbitrary: a le ps c)
  case (Cons d ds)
  obtain c1 r1 where d: "connect_transport_only cfg d c = (c1, r1)" by fastforce
  from Cons.prems assms(1) have a: "sat_add a 1 = Suc a" by (simp add: sat_add_def)
  show ?case
  proof (cases r1)
    case (Ok u)
    with d Cons.prems connect_transport_only_connected[of cfg d c c1 u] show ?thesis
      by (subst retry_loop.simps) auto
  next
    case (Err e)
    let ?b = "backoff_for_attempt cfg a"
    let ?ps = "if a < max_attempts cfg \<and> ?b > 0 then ps @ [?b] else ps"
    have eq: "retry_loop cfg (d # ds) a le ps c = retry_loop cfg ds (Suc a) (Some e) ?ps c1"
      using d Err Cons.prems a by (subst retry_loop.simps) (simp add: Let_def)
    show ?thesis
    proof (cases "a < max_attempts cfg")
      case True
      with Cons.prems have "Suc a \<le> max_attempts cfg" "max_attempts cfg - Suc a < length ds" by auto
      from Cons.IH[OF this, of "Some e" ?ps c1] obtain r n c' where
        "retry_loop cfg ds (Suc a) (Some e) ?ps c1
           = (c', Some (r, n, ?ps @ filter (\<lambda>b. 0 < b) (map (backoff_for_attempt cfg) [Suc a..<n])))"
        and n: "Suc a \<le> n" "n \<le> max_attempts cfg" "if r = Ok () then is_connected c' else n = max_attempts cfg"
        by blast
      with True eq show ?thesis by (auto simp: upt_conv_Cons[of a n])
    next
      case False
      with Cons.prems have "a = max_attempts cfg" by simp
      with eq show ?thesis by (simp add: retry_loop.simps[of _ _ "Suc _"])
    qed
  qed
qed simp

text \<open>C37: with fewer than \<open>2^64 - 2\<close> retries the reconnect loop ends. It makes at most \<open>reconnect_retries + 1\<close>
  attempts and gives up only after all of them; it pauses by the exponential backoff, capped at thirty seconds,
  after every failed attempt but the last; and when it succeeds the route is open.\<close>

theorem connect_with_retry_terminates:
  assumes "sc_reconnect_retries cfg < U64 - 2" "sc_reconnect_retries cfg < length ds"
  shows "\<exists>c' r n pauses. connect_with_retry cfg ds c = (c', Some (r, n, pauses))
     \<and> 1 \<le> n \<and> n \<le> sc_reconnect_retries cfg + 1
     \<and> (if r = Ok () then is_connected c' else n = sc_reconnect_retries cfg + 1)
     \<and> pauses = filter (\<lambda>b. 0 < b) (map (\<lambda>a. min (sc_reconnect_backoff_ms cfg * 2 ^ min (a - 1) 63) 30000) [1..<n])"
proof -
  have m: "max_attempts cfg = sc_reconnect_retries cfg + 1" using assms(1) by (simp add: max_attempts_def sat_add_def)
  have b: "backoff_for_attempt cfg = (\<lambda>a. min (sc_reconnect_backoff_ms cfg * 2 ^ min (a - 1) 63) 30000)"
    by (rule ext) (simp add: backoff_for_attempt_def sat_mul_def MAX_RECONNECT_BACKOFF_MS_def Let_def min.assoc)
  have "max_attempts cfg < U64 - 1" "1 \<le> max_attempts cfg" "max_attempts cfg - 1 < length ds"
    using assms m by auto
  from retry_loop_ends[OF this, of None "[]" c, unfolded m b append_Nil] show ?thesis
    unfolding connect_with_retry_def by blast
qed

theorem connect_with_retry_terminates_witness:
  "\<exists>c' r n pauses.
     connect_with_retry \<lparr>sc_su_password = None, sc_sudo_password = None, sc_health_probe_timeout_ms = 2000,
       sc_reconnect_retries = 3, sc_reconnect_backoff_ms = 500\<rparr>
       [DialFailed (ConnectFailed ''refused''), DialFailed (ConnectFailed ''refused''), Dialed (Ok ()) Posix True, DialFailed NoResult]
       connection_new = (c', Some (r, n, pauses)) \<and> n \<le> 4"
  using connect_with_retry_terminates[of "\<lparr>sc_su_password = None, sc_sudo_password = None, sc_health_probe_timeout_ms = 2000,
       sc_reconnect_retries = 3, sc_reconnect_backoff_ms = 500\<rparr>"
       "[DialFailed (ConnectFailed ''refused''), DialFailed (ConnectFailed ''refused''), Dialed (Ok ()) Posix True, DialFailed NoResult]"
       connection_new] by auto

text \<open>At the largest number of retries the counter saturates and the loop never gives up.\<close>

lemma retry_loop_never_gives_up:
  assumes "max_attempts cfg = U64 - 1" "a \<le> U64 - 1" "\<forall>d\<in>set ds. \<exists>e. d = DialFailed e" "\<not> is_connected c"
    "\<not> cn_shutting_down c"
  shows "snd (retry_loop cfg ds a le ps c) = None"
  using assms(2-)
proof (induction ds arbitrary: a le ps c)
  case (Cons d ds)
  then obtain e where "d = DialFailed e" by auto
  with Cons.prems obtain c1 where "connect_transport_only cfg d c = (c1, Err e)" "\<not> is_connected c1" "\<not> cn_shutting_down c1"
    by (fastforce simp: connect_transport_only_def Let_def is_connected_def invalidate_session_for_generation_def
        invalidate_session_inner_def split: option.splits)
  with Cons assms(1) show ?case by (subst retry_loop.simps) (auto simp: Let_def sat_add_def)
qed (simp add: retry_loop.simps assms(1))

subsection \<open>Properties\<close>

text \<open>C18: in every interleaving of the tasks, the elevated channel, the elevation flag and the health cache
  belong to the route that is current; the route has the platform frozen by the first connection; and after
  \<open>close\<close> there is no route any more, whatever an owner that was still dialing does.\<close>

theorem connection_consistent:
  assumes "reachable conn_start (conn_step cfg) s"
  shows "(\<forall>ch. cn_su_channel (cs_conn s) = Some ch \<longrightarrow>
            cn_is_elevated (cs_conn s) \<and> cn_su_generation (cs_conn s) = ch \<and> session_generation (cs_conn s) = Some ch)
     \<and> (cn_is_elevated (cs_conn s) \<longrightarrow> session_generation (cs_conn s) = Some (cn_su_generation (cs_conn s)))
     \<and> (\<forall>g t. cn_last_health_probe_ok_at (cs_conn s) = Some (g, t) \<longrightarrow> session_generation (cs_conn s) = Some g)
     \<and> (\<forall>r. cn_session (cs_conn s) = Some r \<longrightarrow> cn_remote_platform (cs_conn s) = Some (ar_platform r))
     \<and> (cs_closed s \<longrightarrow> cn_session (cs_conn s) = None)"
proof -
  from conn_sys.reachable_inv[OF assms] have ok: "conn_ok (cs_conn s)" and cl: "cs_closed s \<longrightarrow> cn_session (cs_conn s) = None"
    by (auto simp: conn_system_ok_def)
  from ok cl show ?thesis
    by (cases "cn_session (cs_conn s)"; cases "cn_su_channel (cs_conn s)"; cases "cn_last_health_probe_ok_at (cs_conn s)")
      (auto simp: conn_ok_def session_generation_def)
qed

text \<open>A concrete run: the first route is published and elevated.\<close>

definition sample_config :: ssh_config where
  "sample_config = \<lparr>sc_su_password = Some ''pw'', sc_sudo_password = None, sc_health_probe_timeout_ms = 2000,
     sc_reconnect_retries = 3, sc_reconnect_backoff_ms = 500\<rparr>"

definition sample_route :: active_route where
  "sample_route = \<lparr>ar_generation = 1, ar_platform = Posix, ar_target_closed = False, ar_jump_closed = None,
     ar_auto_elevation_attempted = False\<rparr>"

definition sample_system :: conn_system where
  "sample_system = \<lparr>cs_conn = connection_new\<lparr>cn_session := Some sample_route, cn_next_generation := 2,
       cn_su_channel := Some 1, cn_su_generation := 1, cn_is_elevated := True, cn_remote_platform := Some Posix\<rparr>,
     cs_owner = Idle, cs_taken = {}, cs_closed = False\<rparr>"

lemma sample_system_reachable: "reachable conn_start (conn_step sample_config) sample_system"
proof -
  let ?R = "reachable conn_start (conn_step sample_config)"
  let ?s0 = "\<lparr>cs_conn = connection_new, cs_owner = Idle, cs_taken = {}, cs_closed = False\<rparr>"
  let ?c1 = "connection_new\<lparr>cn_is_connecting := True\<rparr>"
  let ?c4 = "?c1\<lparr>cn_next_generation := 2\<rparr>"
  let ?c5 = "connection_new\<lparr>cn_session := Some sample_route, cn_next_generation := 2, cn_remote_platform := Some Posix\<rparr>"
  note defs = connection_new_def session_generation_def take_generation_def validate_elevation_def sample_config_def
    publish_def release_owner_def store_su_channel_def sample_route_def sample_system_def is_connected_def
  have "?R ?s0" by (rule reachable_init) (simp add: conn_start_def)
  from reachable_step[OF this conn_step.claim] have "?R (?s0\<lparr>cs_conn := ?c1, cs_owner := Claimed\<rparr>)"
    by (simp add: connection_new_def)
  from reachable_step[OF this conn_step.recheck_goes_on] have "?R (?s0\<lparr>cs_conn := ?c1, cs_owner := Checked\<rparr>)"
    by (simp add: defs)
  from reachable_step[OF this conn_step.read_stale] have "?R (?s0\<lparr>cs_conn := ?c1, cs_owner := Dialing\<rparr>)"
    by (simp add: defs)
  from reachable_step[OF this conn_step.authenticated[of _ Posix _ 1 ?c4 False]]
  have "?R (?s0\<lparr>cs_conn := ?c4, cs_owner := Candidate 1 Posix False\<rparr>)" by (simp add: defs)
  from reachable_step[OF this conn_step.publication[of _ 1 Posix False "?c5\<lparr>cn_is_connecting := True\<rparr>" "Ok ()"]]
  have "?R (?s0\<lparr>cs_conn := ?c5\<rparr>)" by (simp add: defs)
  from reachable_step[OF this conn_step.elevation_stored[of 1 _ "cs_conn sample_system" "Ok ()"]]
  show ?thesis by (simp add: defs)
qed

theorem connection_consistent_witness:
  "cn_su_channel (cs_conn sample_system) = Some 1 \<and> session_generation (cs_conn sample_system) = Some 1
   \<and> cn_remote_platform (cs_conn sample_system) = Some Posix"
  using connection_consistent[OF sample_system_reachable]
  by (simp add: sample_system_def connection_new_def session_generation_def sample_route_def)

text \<open>C19: a route that is gone never comes back: once its generation is not current it never is again, whatever
  tasks run, so an operation that still holds it cannot touch the connection: it invalidates, resets, stores,
  restores or refreshes nothing.\<close>

theorem generation_never_returns:
  assumes "reachable conn_start (conn_step cfg) s0" "session_generation (cs_conn s0) = Some g"
    "(conn_step cfg)\<^sup>*\<^sup>* s0 s1" "session_generation (cs_conn s1) \<noteq> Some g" "(conn_step cfg)\<^sup>*\<^sup>* s1 s2"
  shows "session_generation (cs_conn s2) \<noteq> Some g
     \<and> invalidate_session_for_generation g (cs_conn s2) = cs_conn s2
     \<and> reset_su_state_for_generation g (cs_conn s2) = cs_conn s2
     \<and> mark_health_probe_ok now g (cs_conn s2) = (cs_conn s2, False)
     \<and> store_su_channel g (cs_conn s2) = (cs_conn s2, Err RouteChanged)
     \<and> restore_su_channel g ch (cs_conn s2) = cs_conn s2"
proof -
  have "spent g s0" by (rule current_spent[OF conn_sys.reachable_inv[OF assms(1)] assms(2)])
  from spent_sys.steps_inv[OF this assms(3)] assms(4)
  have "spent g s1 \<and> session_generation (cs_conn s1) \<noteq> Some g" by simp
  from gone_sys.steps_inv[OF this assms(5)] show ?thesis by (simp add: stale_sections)
qed

theorem generation_never_returns_witness:
  "session_generation (cs_conn (sample_system\<lparr>cs_conn := invalidate_session (cs_conn sample_system)\<rparr>)) \<noteq> Some 1"
proof -
  let ?s = "sample_system\<lparr>cs_conn := invalidate_session (cs_conn sample_system)\<rparr>"
  have "conn_step sample_config sample_system ?s" unfolding invalidate_session_def by (rule conn_step.invalidation)
  moreover have "session_generation (cs_conn sample_system) = Some 1"
    by (simp add: sample_system_def session_generation_def sample_route_def)
  moreover have "session_generation (cs_conn ?s) \<noteq> Some 1"
    by (simp add: invalidate_session_def invalidate_session_inner_def session_generation_def)
  ultimately show ?thesis
    using generation_never_returns[OF sample_system_reachable, of 1 ?s ?s] by blast
qed

text \<open>The text that the shell has delivered.\<close>

fun su_part :: "su_wait \<Rightarrow> string" where
  "su_part (SuMsg (Data d)) = from_utf8_lossy d"
| "su_part _ = []"

definition su_text :: "su_wait list \<Rightarrow> string" where
  "su_text ws = concat (map su_part ws)"

lemma su_text_simps [simp]: "su_text [] = []" "su_text (w # ws) = su_part w @ su_text ws"
  by (simp_all add: su_text_def)

lemma su_after_password:
  "su_dialogue password wr ws ended buffer True sent = (sent', r) \<Longrightarrow>
   sent' = sent \<and> (r = Ok () \<longrightarrow> CHR ''#'' \<in> set (buffer @ su_text ws))"
proof (induction password wr ws ended buffer "True" sent rule: su_dialogue.induct)
  case (3 password wr msg ws ended buffer sent)
  then show ?case
  proof (cases msg)
    case (Data d)
    with 3 show ?thesis by (auto simp: Let_def split: if_splits)
  qed auto
qed auto

lemma su_before_password:
  "su_dialogue password wr ws ended buffer False sent = (sent', r) \<Longrightarrow> \<not> asks_password buffer \<Longrightarrow>
   sent' = sent \<and> r \<noteq> Ok ()
   \<or> (\<exists>pre d post. ws = pre @ SuMsg (Data d) # post \<and> \<not> asks_password (buffer @ su_text pre)
        \<and> asks_password (buffer @ su_text (pre @ [SuMsg (Data d)])) \<and> sent' = sent @ [password @ [NL]]
        \<and> (r = Ok () \<longrightarrow> CHR ''#'' \<in> set (su_text post)))"
proof (induction ws arbitrary: buffer)
  case (Cons w ws)
  have skip: ?case if "su_dialogue password wr ws ended (buffer @ su_part w) False sent = (sent', r)"
    "\<not> asks_password (buffer @ su_part w)"
    using Cons.IH[OF that] by (elim disjE exE conjE) (simp, rule disjI2, rule_tac x = "w # pre" in exI, auto)
  show ?case
  proof (cases w)
    case (SuMsg msg)
    show ?thesis
    proof (cases msg)
      case (Data d)
      note w = SuMsg Data
      show ?thesis
      proof (cases "asks_password (buffer @ from_utf8_lossy d)")
        case True
        with Cons.prems w have "sent' = sent @ [password @ [NL]] \<and> (r = Ok () \<longrightarrow> CHR ''#'' \<in> set (su_text ws))"
          by (auto simp: Let_def dest!: su_after_password split: result.splits if_splits)
        with True Cons.prems(2) w show ?thesis
          by (intro disjI2 exI[of _ "[]"] exI[of _ d] exI[of _ ws]) simp
      next
        case False
        show ?thesis
        proof (cases "su_rejected (buffer @ from_utf8_lossy d)")
          case True
          with False Cons.prems w show ?thesis by (auto simp: Let_def)
        next
          case nr: False
          show ?thesis by (rule skip) (use False nr Cons.prems w in \<open>simp_all add: Let_def\<close>)
        qed
      qed
    next
      case Close
      with SuMsg Cons.prems show ?thesis by auto
    qed (rule skip; use SuMsg Cons.prems in simp)+
  next
    case SuQuiet
    show ?thesis by (rule skip) (use SuQuiet Cons.prems in simp_all)
  qed
qed auto

text \<open>C38: the root password is sent at most once, and only in answer to an output that asks for it: at the first
  arrival after which the text since the shell started holds \<open>password\<close> in any case. Elevation succeeds only when
  it was sent and a root prompt arrived after it.\<close>

theorem su_password_on_prompt:
  "case handle_su_elevation password wr ws ended of
     (sent, r) \<Rightarrow>
       sent = [] \<and> r \<noteq> Ok ()
       \<or> (\<exists>pre d post. ws = pre @ SuMsg (Data d) # post \<and> \<not> asks_password (su_text pre)
            \<and> asks_password (su_text (pre @ [SuMsg (Data d)])) \<and> sent = [password @ [NL]]
            \<and> (r = Ok () \<longrightarrow> CHR ''#'' \<in> set (su_text post)))"
proof -
  have "\<not> asks_password []" by (simp add: asks_password_def to_lowercase_def str_chars_def)
  with su_before_password[of password wr ws ended "[]" "[]"] show ?thesis
    by (auto simp: handle_su_elevation_def split: prod.splits)
qed

theorem su_password_on_prompt_witness:
  "\<exists>pre d post. [SuMsg (Data ''Password: ''), SuQuiet, SuMsg (Data ''root@h:~# '')] = pre @ SuMsg (Data d) # post
     \<and> asks_password (su_text (pre @ [SuMsg (Data d)])) \<and> CHR ''#'' \<in> set (su_text post)"
proof -
  let ?ws = "[SuMsg (Data ''Password: ''), SuQuiet, SuMsg (Data ''root@h:~# '')]"
  have "handle_su_elevation ''pw'' (Ok ()) ?ws False = ([''pw'' @ [NL]], Ok ())" by code_simp
  with su_password_on_prompt[where password = "''pw''" and wr = "Ok ()" and ws = ?ws and ended = False]
  show ?thesis by (auto simp del: append_Cons)
qed

end
