(* ===== verification/Exec.thy ===== *)
theory Exec
  imports Connection Shell Output
begin

text \<open>
  The execution of a command: \<open>exec_command\<close> and what it calls in \<open>src/src/ssh/command.rs\<close>, with the
  detection of the \<open>timeout\<close> utility of \<open>src/src/ssh/connection.rs\<close>. The handlers run while no other task
  touches the connection; the network is an argument, and every request that was queued for the remote host
  is recorded in order.
\<close>

section \<open>Definitions\<close>

subsection \<open>The remote side\<close>

datatype remote_request =
    ExecRequest nat string
  | DetectRequest nat
  | AbortRequest nat string
  | SuPayload nat string
  | SuFragment nat

datatype exec_error =
    ExecConn conn_error
  | ExecTimeout nat
  | ExecClosedWithoutStatus
  | ExecInvalid invalid_params
  | ExecPanic
  | SuChannelClosed
  | SuChannelEnded
  | SuWriteFailed string
  | NoSuChannel

text \<open>The network of one attempt to open a channel and send a request; of the detection; of one execution,
  with what its channel delivers and whether the local deadline passes first; and of a whole call.\<close>

record try_world =
  tw_opening :: open_outcome
  tw_send :: "(unit, string) result"

record detect_world =
  dw_try :: try_world
  dw_messages :: "channel_msg list"

record run_world =
  rw_first :: try_world
  rw_net :: net_world
  rw_second :: try_world
  rw_messages :: "channel_msg list"
  rw_deadline :: bool
  rw_abort :: try_world

record exec_world =
  xw_net :: net_world
  xw_detect :: detect_world
  xw_run :: run_world
  xw_fallback :: run_world
  xw_su_net :: net_world
  xw_elevate :: su_world
  xw_su_write :: "(unit, string) result"
  xw_su_messages :: "su_wait list"
  xw_su_ended :: bool

subsection \<open>The timeout utility\<close>

fun detect_output :: "channel_msg list \<Rightarrow> string \<Rightarrow> string" where
  "detect_output [] output = output"
| "detect_output (msg # msgs) output =
     (case msg of
        Data d \<Rightarrow> detect_output msgs (output @ from_utf8_lossy d)
      | Close \<Rightarrow> output
      | Eof \<Rightarrow> output
      | _ \<Rightarrow> detect_output msgs output)"

definition check_timeout_availability :: "detect_world \<Rightarrow> connection \<Rightarrow> connection \<times> remote_request list \<times> bool" where
  "check_timeout_availability w c =
     (if cn_has_timeout_cmd c then (c, [], True)
      else case open_channel_attempt_detailed (tw_opening (dw_try w)) c of
        Err _ \<Rightarrow> (c, [], False)
      | Ok g \<Rightarrow>
          (case tw_send (dw_try w) of
             Err _ \<Rightarrow> (c, [], False)
           | Ok _ \<Rightarrow>
               let available = (detect_output (dw_messages w) [] \<noteq> []) in
               (c\<lparr>cn_has_timeout_cmd := available\<rparr>, [DetectRequest g], available)))"

definition determine_timeout_wrapper_usage :: "detect_world \<Rightarrow> connection \<Rightarrow> connection \<times> remote_request list \<times> bool" where
  "determine_timeout_wrapper_usage w c =
     (if cn_has_timeout_cmd c then (c, [], True)
      else case check_timeout_availability w c of (c1, log, _) \<Rightarrow> (c1, log, cn_has_timeout_cmd c1))"

definition disable_timeout_wrapper :: "connection \<Rightarrow> connection" where
  "disable_timeout_wrapper c = c\<lparr>cn_has_timeout_cmd := False\<rparr>"

text \<open>Complaints of a shell that it does not find the utility, in English, Russian and French.\<close>

definition ne_naidena :: string where
  "ne_naidena = map char_of [0xD0, 0xBD, 0xD0, 0xB5, 0x20, 0xD0, 0xBD, 0xD0, 0xB0, 0xD0, 0xB9, 0xD0, 0xB4, 0xD0, 0xB5,
     0xD0, 0xBD, 0xD0, 0xB0 :: nat]"

definition komanda :: string where
  "komanda = map char_of [0xD0, 0xBA, 0xD0, 0xBE, 0xD0, 0xBC, 0xD0, 0xB0, 0xD0, 0xBD, 0xD0, 0xB4, 0xD0, 0xB0 :: nat]"

definition timeout_not_found :: "string \<Rightarrow> bool" where
  "timeout_not_found stderr \<longleftrightarrow>
     (let stderr_lower = to_lowercase stderr in
      str_contains stderr_lower ''timeout: command not found''
      \<or> str_contains stderr_lower (''timeout: '' @ ne_naidena @ '' '' @ komanda)
      \<or> str_contains stderr_lower ''timeout: introuvable''
      \<or> str_contains stderr_lower (''timeout: '' @ komanda @ '' '' @ ne_naidena))"

subsection \<open>Exec channels\<close>

datatype pre_exec_error = ChannelOpen "nat option" conn_error | ExecSend nat string

fun into_ssh_error :: "pre_exec_error \<Rightarrow> conn_error" where
  "into_ssh_error (ChannelOpen _ e) = e"
| "into_ssh_error (ExecSend _ m) = ConnectFailed m"

text \<open>An error of \<open>exec\<close> means that the request was not queued.\<close>

definition try_open_and_exec ::
  "try_world \<Rightarrow> string \<Rightarrow> connection \<Rightarrow> remote_request list \<times> (nat, pre_exec_error) result" where
  "try_open_and_exec w cmd c =
     (case open_channel_attempt_detailed (tw_opening w) c of
        Err (g, e) \<Rightarrow> ([], Err (ChannelOpen g e))
      | Ok g \<Rightarrow>
          (case tw_send w of
             Err m \<Rightarrow> ([], Err (ExecSend g m))
           | Ok _ \<Rightarrow> ([ExecRequest g (wrap_command_for_channel_exec cmd)], Ok g)))"

definition drop_failed_route :: "pre_exec_error \<Rightarrow> connection \<Rightarrow> connection" where
  "drop_failed_route e c =
     (case e of
        ChannelOpen (Some g) _ \<Rightarrow> invalidate_session_for_generation g c
      | ChannelOpen None _ \<Rightarrow> c
      | ExecSend g _ \<Rightarrow> invalidate_session_for_generation g c)"

definition open_and_exec_with_reconnect_retry ::
  "ssh_config \<Rightarrow> run_world \<Rightarrow> string \<Rightarrow> connection \<Rightarrow> connection \<times> remote_request list \<times> (nat, conn_error) result" where
  "open_and_exec_with_reconnect_retry cfg w cmd c =
     (case try_open_and_exec (rw_first w) cmd c of
        (log, Ok g) \<Rightarrow> (c, log, Ok g)
      | (log, Err e) \<Rightarrow>
          (case ensure_connected cfg (rw_net w) (drop_failed_route e c) of
             (c1, Err e1) \<Rightarrow> (c1, log, Err e1)
           | (c1, Ok _) \<Rightarrow>
               (case try_open_and_exec (rw_second w) cmd c1 of
                  (log1, r) \<Rightarrow> (c1, log @ log1, map_err into_ssh_error r))))"

definition abort_command :: "try_world \<Rightarrow> string \<Rightarrow> nat \<Rightarrow> connection \<Rightarrow> remote_request list" where
  "abort_command w cmd generation c =
     (case open_channel_attempt_detailed (tw_opening w) c of
        Err _ \<Rightarrow> []
      | Ok current \<Rightarrow>
          if current \<noteq> generation then []
          else case tw_send w of
            Err _ \<Rightarrow> []
          | Ok _ \<Rightarrow>
              [AbortRequest generation
                (''timeout 3s pkill -f '' @ [SQ] @ escape_command_for_shell cmd @ [SQ] @ '' 2>/dev/null || true'')])"

text \<open>An execution that is timed locally: when the deadline passes, the command is aborted and the route
  dropped. A panic of the collector unwinds without touching the connection.\<close>

definition as_millis :: "nat \<Rightarrow> nat" where
  "as_millis nanos = nanos div 1000000"

definition abort_timed_out ::
  "run_world \<Rightarrow> string \<Rightarrow> nat \<Rightarrow> nat \<Rightarrow> connection \<Rightarrow> connection \<times> remote_request list \<times> (command_output, exec_error) result" where
  "abort_timed_out w cmd nanos g c =
     (invalidate_session_for_generation g c, abort_command (rw_abort w) cmd g c, Err (ExecTimeout (as_millis nanos)))"

definition collect_result :: "nat option \<Rightarrow> channel_msg list \<Rightarrow> (command_output, exec_error) result" where
  "collect_result limit msgs =
     (case collect_channel_output limit msgs of
        Ok out \<Rightarrow> Ok out
      | Err SlicePanic \<Rightarrow> Err ExecPanic
      | Err ClosedWithoutExitStatus \<Rightarrow> Err ExecClosedWithoutStatus)"

definition exec_fallback ::
  "ssh_config \<Rightarrow> nat option \<Rightarrow> run_world \<Rightarrow> string \<Rightarrow> nat \<Rightarrow> connection \<Rightarrow>
   connection \<times> remote_request list \<times> (command_output, exec_error) result" where
  "exec_fallback cfg limit w cmd nanos c =
     (case open_and_exec_with_reconnect_retry cfg w cmd (disable_timeout_wrapper c) of
        (c1, log, Err e) \<Rightarrow> (c1, log, Err (ExecConn e))
      | (c1, log, Ok g) \<Rightarrow>
          if rw_deadline w then
            (case abort_timed_out w cmd nanos g c1 of (c2, log2, r) \<Rightarrow> (c2, log @ log2, r))
          else (c1, log, collect_result limit (rw_messages w)))"

definition exec_via_channel ::
  "ssh_config \<Rightarrow> nat option \<Rightarrow> (nat \<Rightarrow> string) \<Rightarrow> exec_world \<Rightarrow> string \<Rightarrow> nat \<Rightarrow> connection \<Rightarrow>
   connection \<times> remote_request list \<times> (command_output, exec_error) result" where
  "exec_via_channel cfg limit secs w cmd nanos c =
     (case validate_timeout_duration nanos of
        Err e \<Rightarrow> (c, [], Err (ExecInvalid e))
      | Ok duration \<Rightarrow>
          (case determine_timeout_wrapper_usage (xw_detect w) c of
             (c1, log1, use_wrapper) \<Rightarrow>
               let wrapped_cmd = (if use_wrapper then wrap_command_with_timeout cmd (secs duration) else cmd);
                   run = xw_run w in
               (case open_and_exec_with_reconnect_retry cfg run wrapped_cmd c1 of
                  (c2, log2, Err e) \<Rightarrow> (c2, log1 @ log2, Err (ExecConn e))
                | (c2, log2, Ok g) \<Rightarrow>
                    if \<not> use_wrapper \<and> rw_deadline run then
                      (case abort_timed_out run cmd nanos g c2 of (c3, log3, r) \<Rightarrow> (c3, log1 @ log2 @ log3, r))
                    else
                      (case collect_result limit (rw_messages run) of
                         Err ExecPanic \<Rightarrow> (c2, log1 @ log2, Err ExecPanic)
                       | Err e \<Rightarrow> (invalidate_session_for_generation g c2, log1 @ log2, Err e)
                       | Ok out \<Rightarrow>
                           if use_wrapper \<and> timeout_not_found (co_stderr out) then
                             (case exec_fallback cfg limit (xw_fallback w) cmd nanos c2 of
                                (c3, log3, r) \<Rightarrow> (c3, log1 @ log2 @ log3, r))
                           else if use_wrapper \<and> co_exit_code out = Some 124 then
                             (c2, log1 @ log2, Err (ExecTimeout (as_millis nanos)))
                           else (c2, log1 @ log2, Ok out)))))"

subsection \<open>The elevated shell\<close>

text \<open>The output of the elevated shell up to its prompt. With the wrapper there is no local deadline: nothing
  is returned when the shell stays silent.\<close>

definition su_reply :: "string \<Rightarrow> command_output" where
  "su_reply buffer =
     (let lines = str_lines buffer;
          output = (if length lines > 2 then join [NL] (butlast (tl lines)) else []) in
      command_output_new\<lparr>co_stdout := (if output = [] then output else output @ [NL]), co_exit_code := Some 0\<rparr>)"

fun collect_su_output ::
  "su_wait list \<Rightarrow> bool \<Rightarrow> bool \<Rightarrow> nat \<Rightarrow> string \<Rightarrow> (command_output, exec_error) result option" where
  "collect_su_output [] ended use_wrapper nanos buffer =
     (if ended then Some (Err SuChannelEnded)
      else if use_wrapper then None
      else Some (Err (ExecTimeout (as_millis nanos))))"
| "collect_su_output (SuQuiet # ws) ended use_wrapper nanos buffer = collect_su_output ws ended use_wrapper nanos buffer"
| "collect_su_output (SuMsg msg # ws) ended use_wrapper nanos buffer =
     (case msg of
        Data d \<Rightarrow>
          let text = buffer @ from_utf8_lossy d in
          if CHR ''#'' \<in> set text then Some (Ok (su_reply text))
          else collect_su_output ws ended use_wrapper nanos text
      | Close \<Rightarrow> Some (Err SuChannelClosed)
      | _ \<Rightarrow> collect_su_output ws ended use_wrapper nanos buffer)"

text \<open>A failed write may have sent a part of the payload.\<close>

definition run_on_su_channel ::
  "exec_world \<Rightarrow> string \<Rightarrow> bool \<Rightarrow> nat \<Rightarrow> nat \<Rightarrow> nat \<Rightarrow> connection \<Rightarrow>
   connection \<times> remote_request list \<times> (command_output, exec_error) result option" where
  "run_on_su_channel w wrapped_cmd use_wrapper nanos generation channel c =
     (case xw_su_write w of
        Err m \<Rightarrow> (invalidate_session_for_generation generation c, [SuFragment channel], Some (Err (SuWriteFailed m)))
      | Ok _ \<Rightarrow>
          let log = [SuPayload channel (wrap_command_for_channel_exec wrapped_cmd @ [NL])] in
          (case collect_su_output (xw_su_messages w) (xw_su_ended w) use_wrapper nanos [] of
             None \<Rightarrow> (c, log, None)
           | Some (Err e) \<Rightarrow> (invalidate_session_for_generation generation c, log, Some (Err e))
           | Some (Ok out) \<Rightarrow> (restore_su_channel generation channel c, log, Some (Ok out))))"

definition exec_via_su_shell ::
  "ssh_config \<Rightarrow> (nat \<Rightarrow> string) \<Rightarrow> exec_world \<Rightarrow> string \<Rightarrow> nat \<Rightarrow> connection \<Rightarrow>
   connection \<times> remote_request list \<times> (command_output, exec_error) result option" where
  "exec_via_su_shell cfg secs w cmd nanos c =
     (case validate_timeout_duration nanos of
        Err e \<Rightarrow> (c, [], Some (Err (ExecInvalid e)))
      | Ok duration \<Rightarrow>
          (case determine_timeout_wrapper_usage (xw_detect w) c of
             (c1, log1, use_wrapper) \<Rightarrow>
               let wrapped_cmd = (if use_wrapper then wrap_command_with_timeout cmd (secs duration) else cmd) in
               (case try_take_su_channel c1 of
                  (c2, Some (g, ch)) \<Rightarrow>
                    (case run_on_su_channel w wrapped_cmd use_wrapper nanos g ch c2 of (c3, log3, r) \<Rightarrow> (c3, log1 @ log3, r))
                | (c2, None) \<Rightarrow>
                    (case ensure_connected cfg (xw_su_net w) c2 of
                       (c3, Err e) \<Rightarrow> (c3, log1, Some (Err (ExecConn e)))
                     | (c3, Ok _) \<Rightarrow>
                         (case ensure_elevated_for_generation cfg (xw_elevate w) None c3 of
                            (c4, _, Err e) \<Rightarrow> (c4, log1, Some (Err (ExecConn e)))
                          | (c4, _, Ok _) \<Rightarrow>
                              (case try_take_su_channel c4 of
                                 (c5, None) \<Rightarrow> (c5, log1, Some (Err NoSuChannel))
                               | (c5, Some (g, ch)) \<Rightarrow>
                                   (case run_on_su_channel w wrapped_cmd use_wrapper nanos g ch c5 of
                                      (c6, log6, r) \<Rightarrow> (c6, log1 @ log6, r))))))))"

definition exec_command ::
  "ssh_config \<Rightarrow> nat option \<Rightarrow> (nat \<Rightarrow> string) \<Rightarrow> exec_world \<Rightarrow> string \<Rightarrow> nat \<Rightarrow> connection \<Rightarrow>
   connection \<times> remote_request list \<times> (command_output, exec_error) result option" where
  "exec_command cfg limit secs w cmd nanos c =
     (case ensure_connected cfg (xw_net w) c of
        (c1, Err e) \<Rightarrow> (c1, [], Some (Err (ExecConn e)))
      | (c1, Ok _) \<Rightarrow>
          if cn_is_elevated c1 \<and> has_su_channel c1 then exec_via_su_shell cfg secs w cmd nanos c1
          else (case exec_via_channel cfg limit secs w cmd nanos c1 of (c2, log, r) \<Rightarrow> (c2, log, Some r)))"

section \<open>Lemmas\<close>

text \<open>The requests that carry the command, whole or in part.\<close>

fun carries :: "remote_request \<Rightarrow> bool" where
  "carries (ExecRequest _ _) = True"
| "carries (SuPayload _ _) = True"
| "carries (SuFragment _) = True"
| "carries _ = False"

definition payloads :: "remote_request list \<Rightarrow> remote_request list" where
  "payloads log = filter carries log"

lemma payloads_simps [simp]:
  "payloads [] = []" "payloads (a @ b) = payloads a @ payloads b"
  "payloads (q # log) = (if carries q then q # payloads log else payloads log)"
  by (simp_all add: payloads_def)

lemma detection_carries_nothing:
  "determine_timeout_wrapper_usage w c = (c', log, b) \<Longrightarrow> payloads log = []"
  by (auto simp: determine_timeout_wrapper_usage_def check_timeout_availability_def Let_def
        split: if_splits result.splits prod.splits)

lemma abort_carries_nothing: "payloads (abort_command w cmd g c) = []"
  by (auto simp: abort_command_def split: result.splits)

lemma try_open_and_exec_cases:
  assumes "try_open_and_exec w cmd c = (log, r)"
  shows "(\<exists>g. r = Ok g \<and> log = [ExecRequest g (wrap_command_for_channel_exec cmd)]) \<or> (\<exists>e. r = Err e \<and> log = [])"
  using assms by (auto simp: try_open_and_exec_def split: result.splits prod.splits)

lemma open_and_exec_cases:
  assumes "open_and_exec_with_reconnect_retry cfg w cmd c = (c', log, r)"
  shows "(\<exists>g. r = Ok g \<and> log = [ExecRequest g (wrap_command_for_channel_exec cmd)]) \<or> (\<exists>e. r = Err e \<and> log = [])"
proof -
  obtain log1 r1 where 1: "try_open_and_exec (rw_first w) cmd c = (log1, r1)" by fastforce
  show ?thesis
  proof (cases r1)
    case (Ok g)
    with assms 1 try_open_and_exec_cases[OF 1] show ?thesis
      by (auto simp: open_and_exec_with_reconnect_retry_def)
  next
    case (Err e)
    with try_open_and_exec_cases[OF 1] have "log1 = []" by simp
    obtain c2 r2 where 2: "ensure_connected cfg (rw_net w) (drop_failed_route e c) = (c2, r2)" by fastforce
    obtain log3 r3 where 3: "try_open_and_exec (rw_second w) cmd c2 = (log3, r3)" by fastforce
    from assms 1 2 3 Err \<open>log1 = []\<close> try_open_and_exec_cases[OF 3] show ?thesis
      by (auto simp: open_and_exec_with_reconnect_retry_def split: result.splits)
  qed
qed

lemma exec_fallback_cases:
  assumes "exec_fallback cfg limit w cmd nanos c = (c', log, r)"
  shows "(\<exists>g. payloads log = [ExecRequest g (wrap_command_for_channel_exec cmd)]) \<or> (payloads log = [] \<and> \<not> is_ok r)"
proof -
  obtain c1 log1 r1 where 1: "open_and_exec_with_reconnect_retry cfg w cmd (disable_timeout_wrapper c) = (c1, log1, r1)"
    using prod_cases3 by blast
  from assms 1 open_and_exec_cases[OF 1] show ?thesis
    by (auto simp: exec_fallback_def abort_timed_out_def abort_carries_nothing split: if_splits)
qed

text \<open>The command is sent once, and a second time, unwrapped, only when the output complains about the utility.\<close>

definition sent_once :: "nat option \<Rightarrow> exec_world \<Rightarrow> string \<Rightarrow> remote_request list \<Rightarrow> bool \<Rightarrow> bool" where
  "sent_once limit w cmd log okay \<longleftrightarrow>
     (length (payloads log) \<le> 1 \<and> (okay \<longrightarrow> payloads log \<noteq> []))
     \<or> (\<exists>out q g. collect_channel_output limit (rw_messages (xw_run w)) = Ok out \<and> timeout_not_found (co_stderr out)
          \<and> payloads log = [q, ExecRequest g (wrap_command_for_channel_exec cmd)])"

lemma collect_result_Ok: "collect_result limit msgs = Ok out \<Longrightarrow> collect_channel_output limit msgs = Ok out"
  by (auto simp: collect_result_def split: result.splits collect_error.splits)

lemma exec_via_channel_sent_once:
  assumes "exec_via_channel cfg limit secs w cmd nanos c = (c', log, r)"
  shows "sent_once limit w cmd log (is_ok r)"
proof (cases "validate_timeout_duration nanos")
  case (Ok duration)
  obtain c1 log1 b where 1: "determine_timeout_wrapper_usage (xw_detect w) c = (c1, log1, b)" using prod_cases3 by blast
  let ?cmd = "if b then wrap_command_with_timeout cmd (secs duration) else cmd"
  obtain c2 log2 r2 where 2: "open_and_exec_with_reconnect_retry cfg (xw_run w) ?cmd c1 = (c2, log2, r2)"
    using prod_cases3 by blast
  note n1 = detection_carries_nothing[OF 1]
  from open_and_exec_cases[OF 2] show ?thesis
  proof (elim disjE exE conjE)
    fix e assume "r2 = Err e" "log2 = []"
    with assms Ok 1 2 n1 show ?thesis by (auto simp: exec_via_channel_def sent_once_def Let_def)
  next
    fix g assume r2: "r2 = Ok g" and log2: "log2 = [ExecRequest g (wrap_command_for_channel_exec ?cmd)]"
    obtain c3 log3 r3 where 3: "exec_fallback cfg limit (xw_fallback w) cmd nanos c2 = (c3, log3, r3)"
      using prod_cases3 by blast
    show ?thesis
    proof (cases "\<exists>out. b \<and> collect_result limit (rw_messages (xw_run w)) = Ok out \<and> timeout_not_found (co_stderr out)")
      case True
      then obtain out where out: "b" "collect_result limit (rw_messages (xw_run w)) = Ok out" "timeout_not_found (co_stderr out)"
        by blast
      with assms Ok 1 2 3 r2 have log: "log = log1 @ log2 @ log3" "r = r3" by (auto simp: exec_via_channel_def Let_def)
      from exec_fallback_cases[OF 3] collect_result_Ok[OF out(2)] out(3) show ?thesis
        unfolding log sent_once_def using n1 log2 by auto
    next
      case False
      with assms Ok 1 2 r2 have "\<exists>log4. log = log1 @ log2 @ log4 \<and> payloads log4 = []"
        by (auto simp: exec_via_channel_def Let_def abort_timed_out_def abort_carries_nothing
              split: if_splits result.splits exec_error.splits)
      then show ?thesis using n1 log2 by (auto simp: sent_once_def)
    qed
  qed
qed (use assms in \<open>auto simp: exec_via_channel_def sent_once_def\<close>)

lemma run_on_su_channel_payloads:
  assumes "run_on_su_channel w cmd b nanos g ch c = (c', log, r)"
  shows "length (payloads log) = 1"
  using assms by (auto simp: run_on_su_channel_def Let_def split: result.splits option.splits)

lemma exec_via_su_shell_sent_once:
  assumes "exec_via_su_shell cfg secs w cmd nanos c = (c', log, r)"
  shows "length (payloads log) \<le> 1 \<and> ((\<exists>out. r = Some (Ok out)) \<longrightarrow> payloads log \<noteq> [])"
proof (cases "validate_timeout_duration nanos")
  case (Ok duration)
  obtain c1 log1 b where 1: "determine_timeout_wrapper_usage (xw_detect w) c = (c1, log1, b)" using prod_cases3 by blast
  let ?cmd = "if b then wrap_command_with_timeout cmd (secs duration) else cmd"
  have "(\<exists>g ch c2 log2. run_on_su_channel w ?cmd b nanos g ch c2 = (c', log2, r) \<and> log = log1 @ log2)
      \<or> (log = log1 \<and> (\<forall>out. r \<noteq> Some (Ok out)))"
    using assms Ok 1
    by (auto simp: exec_via_su_shell_def Let_def split: prod.splits option.splits result.splits)
  with detection_carries_nothing[OF 1] run_on_su_channel_payloads show ?thesis by fastforce
qed (use assms in \<open>auto simp: exec_via_su_shell_def\<close>)

section \<open>Properties\<close>

text \<open>C15: one call of \<open>exec_command\<close> hands the command to the remote host at most once, through the retries of
  the channel and the reconnection, on an exec channel as on the elevated shell; only when the output of the
  wrapped command complains that the \<open>timeout\<close> utility is missing is it sent a second time, without the wrapper.
  An output is never reported for a command that was not sent.\<close>

theorem exec_command_sent_once:
  assumes "exec_command cfg limit secs w cmd nanos c = (c', log, r)"
  shows "(length (payloads log) \<le> 1 \<and> (\<forall>out. r = Some (Ok out) \<longrightarrow> payloads log \<noteq> []))
     \<or> (\<exists>out q g. collect_channel_output limit (rw_messages (xw_run w)) = Ok out \<and> timeout_not_found (co_stderr out)
          \<and> payloads log = [q, ExecRequest g (wrap_command_for_channel_exec cmd)])"
proof -
  obtain c1 r1 where 1: "ensure_connected cfg (xw_net w) c = (c1, r1)" by fastforce
  obtain c2 log2 r2 where 2: "exec_via_channel cfg limit secs w cmd nanos c1 = (c2, log2, r2)" using prod_cases3 by blast
  show ?thesis
  proof (cases r1)
    case (Ok u)
    show ?thesis
    proof (cases "cn_is_elevated c1 \<and> has_su_channel c1")
      case True
      with assms Ok 1 have "exec_via_su_shell cfg secs w cmd nanos c1 = (c', log, r)" by (simp add: exec_command_def)
      from exec_via_su_shell_sent_once[OF this] show ?thesis by blast
    next
      case False
      with assms Ok 1 2 have "log = log2" "r = Some r2" by (auto simp: exec_command_def)
      with exec_via_channel_sent_once[OF 2] show ?thesis by (auto simp: sent_once_def)
    qed
  qed (use assms 1 in \<open>auto simp: exec_command_def\<close>)
qed

text \<open>A command that itself prints the complaint runs twice.\<close>

definition sample_try :: try_world where
  "sample_try = \<lparr>tw_opening = Opened, tw_send = Ok ()\<rparr>"

definition sample_su :: su_world where
  "sample_su = \<lparr>sw_opening = Opened, sw_prepared = Ok (), sw_password_write = Ok (), sw_messages = [], sw_ended = True\<rparr>"

definition sample_net :: net_world where
  "sample_net = \<lparr>nw_now = 0, nw_ping = True, nw_dials = [Dialed (Ok ()) Posix False], nw_su = sample_su\<rparr>"

definition sample_run :: "channel_msg list \<Rightarrow> run_world" where
  "sample_run msgs = \<lparr>rw_first = sample_try, rw_net = sample_net, rw_second = sample_try, rw_messages = msgs,
     rw_deadline = False, rw_abort = sample_try\<rparr>"

definition sample_exec :: exec_world where
  "sample_exec = \<lparr>xw_net = sample_net,
     xw_detect = \<lparr>dw_try = sample_try, dw_messages = [Data ''/usr/bin/timeout'', Eof]\<rparr>,
     xw_run = sample_run [ExtendedData 1 ''sh: timeout: command not found'', ExitStatus 127],
     xw_fallback = sample_run [Data ''ok'', ExitStatus 0],
     xw_su_net = sample_net, xw_elevate = sample_su, xw_su_write = Ok (), xw_su_messages = [], xw_su_ended = True\<rparr>"

definition plain_config :: ssh_config where
  "plain_config = sample_config\<lparr>sc_su_password := None\<rparr>"

lemma sample_connect:
  "ensure_connected plain_config sample_net connection_new =
     (connection_new\<lparr>cn_session := Some sample_route, cn_next_generation := 2, cn_remote_platform := Some Posix\<rparr>, Ok ())"
proof -
  have "connect_with_retry plain_config [Dialed (Ok ()) Posix False] connection_new =
     (connection_new\<lparr>cn_session := Some sample_route, cn_next_generation := 2, cn_remote_platform := Some Posix\<rparr>,
      Some (Ok (), 1, []))"
    by (simp add: connect_with_retry_def retry_loop.simps[of _ "_ # _"] max_attempts_def sat_add_def plain_config_def
        sample_config_def connect_transport_only_def is_connected_def session_generation_def finish_connect_def
        validate_elevation_def take_generation_def publish_def sample_route_def Let_def connection_new_def)
  then show ?thesis
    by (simp add: ensure_connected_def sample_net_def ensure_connected_transport_only_def ensure_turn_def
      ensure_transport_inner.simps[of _ _ _ _ connection_new] initialize_auto_elevation_def claim_auto_elevation_def
      plain_config_def sample_config_def)
      (simp add: connection_new_def initialize_auto_elevation_def claim_auto_elevation_def)
qed

lemma sample_texts:
  "from_utf8_lossy ''sh: timeout: command not found'' = ''sh: timeout: command not found''"
  "from_utf8_lossy ''ok'' = ''ok''" "from_utf8_lossy ''/usr/bin/timeout'' = ''/usr/bin/timeout''"
  "timeout_not_found ''sh: timeout: command not found''"
  by code_simp+

lemma sample_collect:
  "collect_channel_output None [ExtendedData 1 ''sh: timeout: command not found'', ExitStatus 127] =
     Ok (command_output_new\<lparr>co_stderr := ''sh: timeout: command not found'', co_exit_code := Some 127,
       co_stderr_total_tokens := 7\<rparr>)"
  "collect_channel_output None [Data ''ok'', ExitStatus 0] =
     Ok (command_output_new\<lparr>co_stdout := ''ok'', co_exit_code := Some 0\<rparr>)"
  by (simp_all add: collect_channel_output_def collect_msg_def push_limited_def count_tokens_def sat_add_def sample_texts
      BYTES_PER_TOKEN_def stream_buf_new_def final_text_def final_tokens_def command_output_new_def Let_def)

lemmas sample_run_defs = exec_command_def exec_via_channel_def exec_fallback_def open_and_exec_with_reconnect_retry_def
  try_open_and_exec_def open_channel_attempt_detailed_def determine_timeout_wrapper_usage_def
  check_timeout_availability_def disable_timeout_wrapper_def validate_timeout_duration_def collect_result_def
  sample_run_def sample_try_def sample_route_def is_closed_def

theorem exec_command_sent_once_witness:
  "\<exists>out q g. collect_channel_output None (rw_messages (xw_run sample_exec)) = Ok out \<and> timeout_not_found (co_stderr out)
     \<and> payloads (fst (snd (exec_command plain_config None show_nat sample_exec ''x'' 1000 connection_new)))
         = [q, ExecRequest g (wrap_command_for_channel_exec ''x'')]"
proof -
  obtain c' log r where run: "exec_command plain_config None show_nat sample_exec ''x'' 1000 connection_new = (c', log, r)"
    using prod_cases3 by blast
  have "length (payloads (fst (snd (exec_command plain_config None show_nat sample_exec ''x'' 1000 connection_new)))) = 2"
    by (simp add: sample_run_defs sample_connect sample_collect[simplified] sample_texts sample_exec_def Let_def)
       (simp add: sample_run_defs sample_collect sample_texts connection_new_def command_output_new_def)
  with run exec_command_sent_once[OF run] show ?thesis by auto
qed

end
