(* ===== verification/FileEdit.thy ===== *)
theory FileEdit
  imports Prelude Patch "HOL-Library.Finite_Map"
begin

text \<open>
  Editing remote files: \<open>src/src/server/handlers/file_edit_common.rs\<close>, \<open>src/src/server/validation/file_edit.rs\<close>
  and \<open>src/src/server/handlers/apply_patch.rs\<close>. The scripts that the client runs on the remote host are functions
  on its file system, phase by phase, so that scripts of several clients can be interleaved. The file system
  has no symbolic links; a path is the text that the script uses. SHA-256 is an argument: it is the code of
  the \<open>sha2\<close> crate and of the utilities on the host.
\<close>

section \<open>Definitions\<close>

subsection \<open>Markers\<close>

definition FILE_EDIT_ERROR_MARKER :: string where "FILE_EDIT_ERROR_MARKER = ''__SSH_MCP_FILE_EDIT_ERR__''"
definition FILE_EDIT_CONFLICT_MARKER :: string where "FILE_EDIT_CONFLICT_MARKER = ''__SSH_MCP_FILE_EDIT_CONFLICT__''"
definition FILE_EDIT_MISSING_SHA256 :: string where "FILE_EDIT_MISSING_SHA256 = replicate 64 (CHR ''0'')"
definition FILE_EDIT_HARD_MAX_BYTES :: nat where "FILE_EDIT_HARD_MAX_BYTES = 1024 * 1024"
definition FILE_EDIT_LOCK_MAX_SPINS :: nat where "FILE_EDIT_LOCK_MAX_SPINS = 20"
definition FILE_EDIT_LOCK_STALE_AFTER_SECS :: nat where "FILE_EDIT_LOCK_STALE_AFTER_SECS = 120"
definition FILE_EDIT_STDERR_SNIPPET_LIMIT_CHARS :: nat where "FILE_EDIT_STDERR_SNIPPET_LIMIT_CHARS = 256"

definition marker_in_line :: "string \<Rightarrow> string \<Rightarrow> string option" where
  "marker_in_line prefix line =
     (case strip_prefix (trim line) prefix of
        None \<Rightarrow> None
      | Some v \<Rightarrow> if trim v = [] then None else Some (trim v))"

definition parse_file_edit_marker_value :: "string \<Rightarrow> string \<Rightarrow> string option" where
  "parse_file_edit_marker_value stderr prefix =
     (case List.map_filter (marker_in_line prefix) (str_lines stderr) of [] \<Rightarrow> None | v # _ \<Rightarrow> Some v)"

definition parse_file_edit_error_marker :: "string \<Rightarrow> string option" where
  "parse_file_edit_error_marker stderr = parse_file_edit_marker_value stderr FILE_EDIT_ERROR_MARKER"

definition has_file_edit_conflict_marker :: "string \<Rightarrow> bool" where
  "has_file_edit_conflict_marker stderr \<longleftrightarrow> list_ex (\<lambda>line. trim line = FILE_EDIT_CONFLICT_MARKER) (str_lines stderr)"

text \<open>The loop over the characters of the message: it returns the snippet and whether it was cut.\<close>

fun snippet_loop :: "string list \<Rightarrow> string list \<Rightarrow> bool \<Rightarrow> nat \<Rightarrow> string list \<times> bool" where
  "snippet_loop [] snippet prev_space char_count = (snippet, False)"
| "snippet_loop (ch # chs) snippet prev_space char_count =
     (if char_count \<ge> FILE_EDIT_STDERR_SNIPPET_LIMIT_CHARS then (snippet, True)
      else
        let normalized = (if ch_is_control ch then '' '' else ch) in
        if ch_is_whitespace normalized then
          (if prev_space then snippet_loop chs snippet prev_space char_count
           else snippet_loop chs (snippet @ ['' '']) True (char_count + 1))
        else snippet_loop chs (snippet @ [normalized]) False (char_count + 1))"

definition sanitize_file_edit_stderr_snippet :: "string \<Rightarrow> string option" where
  "sanitize_file_edit_stderr_snippet stderr =
     (case snippet_loop (str_chars (trim stderr)) [] False 0 of
        (snippet, truncated) \<Rightarrow>
          let normalized = trim (concat snippet) in
          if normalized = [] then None
          else Some (if truncated then normalized @ ''...'' else normalized))"

subsection \<open>The remote file system\<close>

datatype rnode = RFile string | RDir | ROther

type_synonym remote_fs = "(string, rnode) fmap"

text \<open>What does not change while scripts run: the directories in which files may be created, the files that may
  be read, whether the hash utilities and \<open>date\<close> exist, and whether storing and renaming files succeeds.\<close>

record host =
  h_writable :: "string \<Rightarrow> bool"
  h_readable :: "string \<Rightarrow> bool"
  h_sha :: bool
  h_date :: bool
  h_create :: bool
  h_store :: bool
  h_finalize :: bool

definition is_dir :: "remote_fs \<Rightarrow> string \<Rightarrow> bool" where
  "is_dir n p \<longleftrightarrow> fmlookup n p = Some RDir"

definition rm_f :: "string \<Rightarrow> remote_fs \<Rightarrow> remote_fs" where
  "rm_f p n = (if is_dir n p then n else fmdrop p n)"

definition dir_empty :: "remote_fs \<Rightarrow> string \<Rightarrow> bool" where
  "dir_empty n d \<longleftrightarrow> fmpred (\<lambda>p _. \<not> starts_with p (d @ [SLASH])) n"

definition rmdir :: "string \<Rightarrow> remote_fs \<Rightarrow> remote_fs" where
  "rmdir d n = (if is_dir n d \<and> dir_empty n d then fmdrop d n else n)"

text \<open>The parent of the destination is the text before its last slash.\<close>

definition script_parent :: "string \<Rightarrow> string" where
  "script_parent dst =
     (case rsplit_once SLASH dst of None \<Rightarrow> dst | Some (parent, _) \<Rightarrow> if parent = [] then [SLASH] else parent)"

subsection \<open>The commit script\<close>

text \<open>A write carries the hash of its content; its bytes come from standard input, or from the payload in its
  private directory.\<close>

record script_args =
  sa_dst :: string
  sa_expected :: string
  sa_expected_new :: "string option"
  sa_lock_dir :: string
  sa_stage :: string
  sa_source :: "(string \<times> string) option"
  sa_tool_name :: string

datatype script_exit = ExitOk | ExitError string | ExitConflict

definition lock_started_path :: "script_args \<Rightarrow> string" where
  "lock_started_path a = sa_lock_dir a @ ''/started_at''"

definition lock_operation_path :: "script_args \<Rightarrow> string" where
  "lock_operation_path a = sa_lock_dir a @ ''/operation''"

text \<open>The trap: it is set before the lock is taken.\<close>

definition cleanup :: "script_args \<Rightarrow> remote_fs \<Rightarrow> remote_fs" where
  "cleanup a n =
     (let n1 = rmdir (sa_lock_dir a) (rm_f (lock_operation_path a) (rm_f (lock_started_path a) (rm_f (sa_stage a) n))) in
      case sa_source a of None \<Rightarrow> n1 | Some (source, source_dir) \<Rightarrow> rmdir source_dir (rm_f source n1))"

text \<open>The checks before the lock and the staging of the new content.\<close>

definition stage_phase ::
  "(string \<Rightarrow> string) \<Rightarrow> host \<Rightarrow> script_args \<Rightarrow> string \<Rightarrow> remote_fs \<Rightarrow> remote_fs \<times> (unit, string) result" where
  "stage_phase sha h a input n =
     (let parent = script_parent (sa_dst a) in
      if \<not> is_dir n parent then (n, Err ''parent_not_found'')
      else if \<not> h_writable h parent then (n, Err ''permission_denied'')
      else if \<not> h_sha h then (n, Err ''sha256_unavailable'')
      else case sa_expected_new a of
        None \<Rightarrow> (n, Ok ())
      | Some expected_new \<Rightarrow>
          if \<not> h_create h \<or> is_dir n (sa_stage a) then (n, Err ''staging_unwritable'')
          else
            let n1 = fmupd (sa_stage a) (RFile []) n in
            (case (case sa_source a of
                     None \<Rightarrow> Some input
                   | Some (source, _) \<Rightarrow> (case fmlookup n1 source of Some (RFile d) \<Rightarrow> Some d | _ \<Rightarrow> None)) of
               None \<Rightarrow> (n1, Err ''stage_write_failed'')
             | Some d \<Rightarrow>
                 if \<not> h_store h then (n1, Err ''stage_write_failed'')
                 else
                   let n2 = fmupd (sa_stage a) (RFile d) n1 in
                   if sha d \<noteq> expected_new then (n2, Err ''stage_hash_mismatch'') else (n2, Ok ())))"

text \<open>A lock that names an old start is removed; the result tells whether it is gone. The start must be a line of
  digits; one that does not fit in 64 bits is not taken for old.\<close>

definition reclaim_stale_lock :: "script_args \<Rightarrow> nat \<Rightarrow> remote_fs \<Rightarrow> remote_fs \<times> bool" where
  "reclaim_stale_lock a now n =
     (case fmlookup n (lock_started_path a) of
        Some (RFile text) \<Rightarrow>
          (case split_once NL text of
             None \<Rightarrow> (n, False)
           | Some (started, _) \<Rightarrow>
               if started = [] \<or> \<not> list_all is_ascii_digit started then (n, False)
               else case parse_digits 10 U64 started of
                 None \<Rightarrow> (n, False)
               | Some t \<Rightarrow>
                   if t > now \<or> now - t < FILE_EDIT_LOCK_STALE_AFTER_SECS then (n, False)
                   else
                     let n1 = rm_f (lock_operation_path a) (rm_f (lock_started_path a) n) in
                     (rmdir (sa_lock_dir a) n1, is_dir n1 (sa_lock_dir a) \<and> dir_empty n1 (sa_lock_dir a)))
      | _ \<Rightarrow> (n, False))"

datatype lock_try = Locked remote_fs | Retry nat remote_fs | LockFailed remote_fs string

definition try_lock :: "host \<Rightarrow> script_args \<Rightarrow> nat \<Rightarrow> nat \<Rightarrow> remote_fs \<Rightarrow> lock_try" where
  "try_lock h a now spins n =
     (case fmlookup n (sa_lock_dir a) of
        None \<Rightarrow> if h_create h then Locked (fmupd (sa_lock_dir a) RDir n) else LockFailed n ''lock_acquire_failed''
      | Some RDir \<Rightarrow>
          (case (if h_date h then reclaim_stale_lock a now n else (n, False)) of
             (n1, True) \<Rightarrow> Retry spins n1
           | (n1, False) \<Rightarrow>
               if spins + 1 \<ge> FILE_EDIT_LOCK_MAX_SPINS then LockFailed n1 ''lock_busy'' else Retry (spins + 1) n1)
      | Some _ \<Rightarrow> LockFailed n ''lock_acquire_failed'')"

definition mark_lock :: "host \<Rightarrow> script_args \<Rightarrow> nat \<Rightarrow> remote_fs \<Rightarrow> remote_fs" where
  "mark_lock h a now n =
     (let stored = (\<lambda>d. RFile (if h_store h then d else []));
          n1 = (if h_date h then fmupd (lock_started_path a) (stored (show_nat now @ [NL])) n else n) in
      fmupd (lock_operation_path a) (stored (sa_tool_name a @ [NL])) n1)"

definition check_phase :: "(string \<Rightarrow> string) \<Rightarrow> script_args \<Rightarrow> remote_fs \<Rightarrow> script_exit option" where
  "check_phase sha a n =
     (case fmlookup n (sa_dst a) of
        None \<Rightarrow> if FILE_EDIT_MISSING_SHA256 \<noteq> sa_expected a then Some ExitConflict else None
      | Some (RFile d) \<Rightarrow> if sha d \<noteq> sa_expected a then Some ExitConflict else None
      | Some _ \<Rightarrow> Some (ExitError ''not_regular_file''))"

text \<open>\<open>rm\<close>, \<open>ln\<close> and \<open>mv\<close>. A file that is moved onto a directory goes into it.\<close>

definition mv :: "string \<Rightarrow> string \<Rightarrow> remote_fs \<Rightarrow> remote_fs option" where
  "mv src dst n =
     (case fmlookup n src of
        None \<Rightarrow> None
      | Some f \<Rightarrow>
          let target = (if is_dir n dst
                        then dst @ [SLASH] @ (case rsplit_once SLASH src of None \<Rightarrow> src | Some (_, name) \<Rightarrow> name) else dst) in
          Some (fmupd target f (fmdrop src n)))"

definition finalize_phase :: "host \<Rightarrow> script_args \<Rightarrow> remote_fs \<Rightarrow> remote_fs \<times> script_exit" where
  "finalize_phase h a n =
     (case sa_expected_new a of
        None \<Rightarrow>
          (case fmlookup n (sa_dst a) of
             Some (RFile _) \<Rightarrow> if h_finalize h then (fmdrop (sa_dst a) n, ExitOk) else (n, ExitError ''finalize_failed'')
           | _ \<Rightarrow> (n, ExitError ''finalize_failed''))
      | Some _ \<Rightarrow>
          if sa_expected a = FILE_EDIT_MISSING_SHA256 then
            (case fmlookup n (sa_stage a) of
               Some (RFile d) \<Rightarrow>
                 if fmlookup n (sa_dst a) \<noteq> None then (n, ExitConflict)
                 else if h_finalize h then (fmdrop (sa_stage a) (fmupd (sa_dst a) (RFile d) n), ExitOk)
                 else (n, ExitError ''finalize_failed'')
             | _ \<Rightarrow> if fmlookup n (sa_dst a) \<noteq> None then (n, ExitConflict) else (n, ExitError ''finalize_failed''))
          else
            (case (if h_finalize h then mv (sa_stage a) (sa_dst a) n else None) of
               Some n1 \<Rightarrow> (n1, ExitOk)
             | None \<Rightarrow> (n, ExitError ''finalize_failed'')))"

text \<open>The whole script while no other process intervenes; a retry sleeps one second.\<close>

lemma try_lock_retry:
  assumes "try_lock h a now spins n = Retry spins' n'"
  shows "fmlookup n (sa_lock_dir a) = Some RDir"
    "fmlookup n' (sa_lock_dir a) = None \<or> (spins' = spins + 1 \<and> spins' < FILE_EDIT_LOCK_MAX_SPINS)"
  using assms
  by (auto simp: try_lock_def reclaim_stale_lock_def rmdir_def Let_def split: option.splits rnode.splits if_splits prod.splits bool.splits)

function lock_loop :: "host \<Rightarrow> script_args \<Rightarrow> nat \<Rightarrow> nat \<Rightarrow> remote_fs \<Rightarrow> remote_fs \<times> (nat, string) result" where
  "lock_loop h a now spins n =
     (case try_lock h a now spins n of
        Locked n1 \<Rightarrow> (n1, Ok now)
      | LockFailed n1 m \<Rightarrow> (n1, Err m)
      | Retry spins1 n1 \<Rightarrow> lock_loop h a (if spins1 > spins then now + 1 else now) spins1 n1)"
  by pat_completeness auto
termination
proof (relation "measure (\<lambda>(h, a, now, spins, n).
    if fmlookup n (sa_lock_dir a) = Some RDir then Suc (FILE_EDIT_LOCK_MAX_SPINS - spins) else 0)")
  fix h a now spins n spins1 n1
  assume "try_lock h a now spins n = Retry spins1 n1"
  from try_lock_retry[OF this]
  show "((h, a, if spins1 > spins then now + 1 else now, spins1, n1), (h, a, now, spins, n))
    \<in> measure (\<lambda>(h, a, now, spins, n).
        if fmlookup n (sa_lock_dir a) = Some RDir then Suc (FILE_EDIT_LOCK_MAX_SPINS - spins) else 0)"
    by auto
qed simp

declare lock_loop.simps [simp del]

definition commit_script ::
  "(string \<Rightarrow> string) \<Rightarrow> host \<Rightarrow> script_args \<Rightarrow> string \<Rightarrow> nat \<Rightarrow> remote_fs \<Rightarrow> remote_fs \<times> script_exit" where
  "commit_script sha h a input now n =
     (case stage_phase sha h a input n of
        (n1, Err m) \<Rightarrow> (cleanup a n1, ExitError m)
      | (n1, Ok _) \<Rightarrow>
          (case lock_loop h a now 0 n1 of
             (n2, Err m) \<Rightarrow> (cleanup a n2, ExitError m)
           | (n2, Ok now2) \<Rightarrow>
               let n3 = mark_lock h a now2 n2 in
               (case check_phase sha a n3 of
                  Some e \<Rightarrow> (cleanup a n3, e)
                | None \<Rightarrow> (case finalize_phase h a n3 of (n4, e) \<Rightarrow> (cleanup a n4, e)))))"

subsection \<open>The client\<close>

datatype file_edit_privilege = User | Sudo

fun tool_name :: "file_edit_privilege \<Rightarrow> string" where
  "tool_name User = ''apply_patch''"
| "tool_name Sudo = ''sudo_apply_patch''"

datatype remote_text_file_state = Missing | Existing string string

datatype file_expected_state = ExpectMissing | ExpectSha256 string

datatype file_commit_action = CommitWrite string | CommitDelete

text \<open>A file edit error is its kind; the messages for people are not modelled.\<close>

type_synonym file_edit_error = string

text \<open>How a command reaches the host: it runs and its answer comes back, it does not run, or it runs on the input
  that arrived and the answer is lost.\<close>

datatype link = Delivered | NotRun | AnswerLost string

definition over_link :: "link \<Rightarrow> (string \<Rightarrow> remote_fs \<Rightarrow> remote_fs \<times> 'a) \<Rightarrow> string \<Rightarrow> remote_fs \<Rightarrow> remote_fs \<times> 'a option" where
  "over_link l script input n =
     (case l of
        Delivered \<Rightarrow> (case script input n of (n1, r) \<Rightarrow> (n1, Some r))
      | NotRun \<Rightarrow> (n, None)
      | AnswerLost arrived \<Rightarrow> (fst (script arrived n), None))"

text \<open>What a script leaves: its exit code and what it prints to standard error.\<close>

fun script_result :: "script_exit \<Rightarrow> nat \<times> string" where
  "script_result ExitOk = (0, [])"
| "script_result (ExitError m) = (1, FILE_EDIT_ERROR_MARKER @ m @ [NL])"
| "script_result ExitConflict = (3, FILE_EDIT_CONFLICT_MARKER @ [NL])"

subsubsection \<open>Reading\<close>

definition read_script :: "host \<Rightarrow> string \<Rightarrow> remote_fs \<Rightarrow> string \<times> script_exit" where
  "read_script h p n =
     (case fmlookup n p of
        None \<Rightarrow> ([], ExitError ''not_found'')
      | Some (RFile d) \<Rightarrow>
          if \<not> h_readable h p then ([], ExitError ''permission_denied'')
          else if length d > FILE_EDIT_HARD_MAX_BYTES then ([], ExitError ''too_large'')
          else (take (FILE_EDIT_HARD_MAX_BYTES + 1) d, ExitOk)
      | Some _ \<Rightarrow> ([], ExitError ''not_regular_file''))"

definition read_marker_result :: "string \<Rightarrow> (remote_text_file_state, file_edit_error) result" where
  "read_marker_result marker =
     (if marker = ''not_found'' then Ok Missing
      else if marker = ''not_regular_file'' then Err ''not_regular_file''
      else if marker = ''permission_denied'' then Err ''permission_denied''
      else if marker = ''too_large'' then Err ''limit_exceeded''
      else Err ''remote_read_failed'')"

record read_world =
  rd_connected :: "(unit, string) result"
  rd_local :: "(unit, string) result"
  rd_link :: link

definition read_outcome :: "(string \<Rightarrow> string) \<Rightarrow> (string \<times> script_exit) option \<Rightarrow> (remote_text_file_state, file_edit_error) result" where
  "read_outcome sha out =
     (case out of
        None \<Rightarrow> Err ''remote_read_failed''
      | Some (bytes, e) \<Rightarrow>
          (case script_result e of
             (exit_code, stderr) \<Rightarrow>
               (case parse_file_edit_error_marker stderr of
                  Some marker \<Rightarrow> read_marker_result marker
                | None \<Rightarrow>
                    if exit_code \<noteq> 0 then Err ''remote_read_failed''
                    else if length bytes > FILE_EDIT_HARD_MAX_BYTES then Err ''limit_exceeded''
                    else case from_utf8 bytes of
                      None \<Rightarrow> Err ''invalid_utf8''
                    | Some content \<Rightarrow> Ok (Existing content (sha content)))))"

definition load_remote_text_file_state ::
  "(string \<Rightarrow> string) \<Rightarrow> host \<Rightarrow> read_world \<Rightarrow> string \<Rightarrow> remote_fs \<Rightarrow> (remote_text_file_state, file_edit_error) result" where
  "load_remote_text_file_state sha h w remote_path n =
     (case rd_connected w of Err _ \<Rightarrow> Err ''connection_failed'' | Ok _ \<Rightarrow>
      case rd_local w of Err _ \<Rightarrow> Err ''local_io'' | Ok _ \<Rightarrow>
      read_outcome sha (snd (over_link (rd_link w) (\<lambda>_ n. (n, read_script h remote_path n)) [] n)))"

subsubsection \<open>Committing\<close>

definition commit_error_kind :: "string \<Rightarrow> file_edit_error" where
  "commit_error_kind marker =
     (if marker \<in> {''lock_busy'', ''parent_not_found'', ''permission_denied'', ''not_regular_file'', ''sha256_unavailable'',
                   ''stage_hash_mismatch'', ''finalize_failed''} then marker
      else if marker = ''lock_acquire_failed'' then ''lock_failed''
      else if marker \<in> {''staging_unwritable'', ''stage_write_failed''} then ''stage_failed''
      else ''remote_commit_failed'')"

definition commit_outcome :: "script_exit option \<Rightarrow> (unit, file_edit_error) result" where
  "commit_outcome out =
     (case out of
        None \<Rightarrow> Err ''remote_commit_failed''
      | Some e \<Rightarrow>
          (case script_result e of
             (exit_code, stderr) \<Rightarrow>
               if has_file_edit_conflict_marker stderr then Err ''conflict''
               else case parse_file_edit_error_marker stderr of
                 Some marker \<Rightarrow> Err (commit_error_kind marker)
               | None \<Rightarrow> if exit_code \<noteq> 0 then Err ''remote_commit_failed'' else Ok ()))"

text \<open>The payload of a privileged write is uploaded as the user into a private directory first.\<close>

definition remove_payload :: "string \<times> string \<Rightarrow> remote_fs \<Rightarrow> remote_fs" where
  "remove_payload src n = rmdir (snd src) (rm_f (fst src) n)"

definition upload_script ::
  "(string \<Rightarrow> string) \<Rightarrow> host \<Rightarrow> string \<times> string \<Rightarrow> string \<Rightarrow> string \<Rightarrow> remote_fs \<Rightarrow> remote_fs \<times> script_exit" where
  "upload_script sha h src expected input n =
     (if fmlookup n (snd src) \<noteq> None \<or> \<not> h_create h then (n, ExitError ''sudo_payload_create_failed'')
      else
        let n1 = fmupd (fst src) (RFile (if h_store h then input else [])) (fmupd (snd src) RDir n) in
        if \<not> h_store h then (remove_payload src n1, ExitError ''sudo_payload_write_failed'')
        else if \<not> h_sha h then (remove_payload src n1, ExitError ''sha256_unavailable'')
        else if sha input \<noteq> expected then (remove_payload src n1, ExitError ''stage_hash_mismatch'')
        else (n1, ExitOk))"

definition upload_outcome :: "script_exit option \<Rightarrow> (unit, file_edit_error) result" where
  "upload_outcome out =
     (case out of
        None \<Rightarrow> Err ''stage_failed''
      | Some e \<Rightarrow>
          (case script_result e of
             (exit_code, stderr) \<Rightarrow>
               (case parse_file_edit_error_marker stderr of
                  Some marker \<Rightarrow>
                    Err (if marker \<in> {''sha256_unavailable'', ''stage_hash_mismatch''} then marker else ''stage_failed'')
                | None \<Rightarrow> if exit_code \<noteq> 0 then Err ''stage_failed'' else Ok ())))"

record commit_world =
  cw_connected :: "(unit, string) result"
  cw_local_stage :: "(unit, string) result"
  cw_local_open :: "(unit, string) result"
  cw_upload :: link
  cw_commit :: link
  cw_cleanup :: link
  cw_stage_id :: string
  cw_payload_id :: string
  cw_now :: nat

definition commit_args :: "file_edit_privilege \<Rightarrow> commit_world \<Rightarrow> (string \<Rightarrow> string) \<Rightarrow> string \<Rightarrow> file_commit_action \<Rightarrow>
    file_expected_state \<Rightarrow> script_args" where
  "commit_args privilege w sha remote_path action expected =
     (let dir = ''/tmp/.ssh-mcp-sudo-patch-'' @ cw_payload_id w in
      \<lparr>sa_dst = remote_path,
       sa_expected = (case expected of ExpectMissing \<Rightarrow> FILE_EDIT_MISSING_SHA256 | ExpectSha256 v \<Rightarrow> v),
       sa_expected_new = (case action of CommitWrite content \<Rightarrow> Some (sha content) | CommitDelete \<Rightarrow> None),
       sa_lock_dir = remote_path @ ''.ssh-mcp-lock'',
       sa_stage = remote_path @ ''.ssh-mcp-stage-'' @ cw_stage_id w,
       sa_source = (case action of CommitWrite _ \<Rightarrow> if privilege = Sudo then Some (dir @ ''/payload'', dir) else None
                    | CommitDelete \<Rightarrow> None),
       sa_tool_name = tool_name privilege\<rparr>)"

definition commit_remote_text_file ::
  "(string \<Rightarrow> string) \<Rightarrow> (file_edit_privilege \<Rightarrow> host) \<Rightarrow> commit_world \<Rightarrow> file_edit_privilege \<Rightarrow> string \<Rightarrow> file_commit_action \<Rightarrow>
   file_expected_state \<Rightarrow> remote_fs \<Rightarrow> remote_fs \<times> (unit, file_edit_error) result" where
  "commit_remote_text_file sha hosts w privilege remote_path action expected n =
     (let a = commit_args privilege w sha remote_path action expected;
          content = (case action of CommitWrite d \<Rightarrow> d | CommitDelete \<Rightarrow> []);
          writes = (action \<noteq> CommitDelete) in
      if length content > FILE_EDIT_HARD_MAX_BYTES then (n, Err ''limit_exceeded'')
      else case cw_connected w of Err _ \<Rightarrow> (n, Err ''connection_failed'') | Ok _ \<Rightarrow>
      case (if writes then cw_local_stage w else Ok ()) of Err _ \<Rightarrow> (n, Err ''local_io'') | Ok _ \<Rightarrow>
      case (case sa_source a of
              None \<Rightarrow> (n, Ok ())
            | Some src \<Rightarrow>
                (case cw_local_open w of Err _ \<Rightarrow> (n, Err ''local_io'') | Ok _ \<Rightarrow>
                 case over_link (cw_upload w) (upload_script sha (hosts User) src (sha content)) content n of
                   (n1, out) \<Rightarrow> (n1, upload_outcome out))) of
        (n1, Err e) \<Rightarrow> (n1, Err e)
      | (n1, Ok _) \<Rightarrow>
          (case (if writes \<and> sa_source a = None then cw_local_open w else Ok ()) of Err _ \<Rightarrow> (n1, Err ''local_io'') | Ok _ \<Rightarrow>
           case over_link (cw_commit w) (\<lambda>input. commit_script sha (hosts privilege) a input (cw_now w))
                  (if sa_source a = None then content else []) n1 of
             (n2, out) \<Rightarrow>
               let n3 = (case sa_source a of
                           None \<Rightarrow> n2
                         | Some src \<Rightarrow> fst (over_link (cw_cleanup w) (\<lambda>_ n. (remove_payload src n, ())) [] n2)) in
               (n3, commit_outcome out)))"

subsection \<open>Applying a patch\<close>

datatype file_status = NotAttempted | Unchanged | Applied | Failed | Unknown

text \<open>The outcome of a call: the patch is refused, or every file has a status and the first error, with the phase in
  which it happened, is reported.\<close>

datatype patch_phase = Preflight | Commit

datatype patch_report =
    PatchRefused patch_error
  | PatchDone "file_status list"
  | PatchFailed "file_status list" nat patch_phase string

definition prepare_file_patch ::
  "(string \<Rightarrow> string) \<Rightarrow> host \<Rightarrow> read_world \<Rightarrow> file_patch \<Rightarrow> remote_fs \<Rightarrow>
   (planned_patch \<times> file_expected_state, string) result" where
  "prepare_file_patch sha h w p n =
     and_then (load_remote_text_file_state sha h w (fp_path p) n) (\<lambda>snapshot.
       let (original, expected) = (case snapshot of
             Missing \<Rightarrow> (None, ExpectMissing)
           | Existing content digest \<Rightarrow> (Some content, ExpectSha256 digest)) in
       and_then (map_err error_kind (plan p original)) (\<lambda>planned.
         if (case pp_new_content planned of Some d \<Rightarrow> length d > FILE_EDIT_HARD_MAX_BYTES | None \<Rightarrow> False)
         then Err ''limit_exceeded''
         else Ok (planned, expected)))"

text \<open>The second loop commits in order; it stops at the first error. The fault injection of the tests is off.\<close>

record patch_world =
  pw_read :: "nat \<Rightarrow> read_world"
  pw_commit :: "nat \<Rightarrow> commit_world"

fun preflight_loop ::
  "(string \<Rightarrow> string) \<Rightarrow> host \<Rightarrow> patch_world \<Rightarrow> nat \<Rightarrow> file_patch list \<Rightarrow> remote_fs \<Rightarrow>
   ((planned_patch \<times> file_expected_state) list, nat \<times> string) result" where
  "preflight_loop sha h w i [] n = Ok []"
| "preflight_loop sha h w i (p # ps) n =
     (case prepare_file_patch sha h (pw_read w i) p n of
        Err e \<Rightarrow> Err (i, e)
      | Ok x \<Rightarrow> and_then (preflight_loop sha h w (i + 1) ps n) (\<lambda>xs. Ok (x # xs)))"

definition planned_action :: "planned_patch \<Rightarrow> file_commit_action" where
  "planned_action p = (case pp_new_content p of Some content \<Rightarrow> CommitWrite content | None \<Rightarrow> CommitDelete)"

fun commit_loop ::
  "(string \<Rightarrow> string) \<Rightarrow> (file_edit_privilege \<Rightarrow> host) \<Rightarrow> patch_world \<Rightarrow> file_edit_privilege \<Rightarrow> nat \<Rightarrow>
   (planned_patch \<times> file_expected_state) list \<Rightarrow> remote_fs \<Rightarrow> remote_fs \<times> file_status list \<times> (nat \<times> string) option" where
  "commit_loop sha hosts w privilege i [] n = (n, [], None)"
| "commit_loop sha hosts w privilege i ((planned, expected) # xs) n =
     (if \<not> pp_changed planned then
        (case commit_loop sha hosts w privilege (i + 1) xs n of (n1, st, e) \<Rightarrow> (n1, Unchanged # st, e))
      else case commit_remote_text_file sha hosts (pw_commit w i) privilege (pp_path planned) (planned_action planned) expected n of
        (n1, Err kind) \<Rightarrow>
          (n1, (if kind = ''remote_commit_failed'' then Unknown else Failed) # replicate (length xs) NotAttempted, Some (i, kind))
      | (n1, Ok _) \<Rightarrow>
          (case commit_loop sha hosts w privilege (i + 1) xs n1 of (n2, st, e) \<Rightarrow> (n2, Applied # st, e)))"

definition execute_apply_patch ::
  "(string \<Rightarrow> string) \<Rightarrow> (file_edit_privilege \<Rightarrow> host) \<Rightarrow> patch_world \<Rightarrow> file_edit_privilege \<Rightarrow> string \<Rightarrow> remote_fs \<Rightarrow>
   remote_fs \<times> patch_report" where
  "execute_apply_patch sha hosts w privilege text n =
     (case parse_patch text of
        Err e \<Rightarrow> (n, PatchRefused e)
      | Ok patches \<Rightarrow>
          (case preflight_loop sha (hosts privilege) w 0 patches n of
             Err (i, e) \<Rightarrow>
               (n, PatchFailed ((replicate (length patches) NotAttempted)[i := Failed]) i Preflight e)
           | Ok xs \<Rightarrow>
               (case commit_loop sha hosts w privilege 0 xs n of
                  (n1, st, None) \<Rightarrow> (n1, PatchDone st)
                | (n1, st, Some (i, e)) \<Rightarrow> (n1, PatchFailed st i Commit e))))"

section \<open>Lemmas\<close>

subsection \<open>The traces of a script\<close>

text \<open>The paths that a script creates for itself. A file system agrees with another when they differ only there, and
  what is there has the right kind.\<close>

definition scratch_files :: "script_args \<Rightarrow> string set" where
  "scratch_files a = {sa_stage a, lock_started_path a, lock_operation_path a} \<union>
     (case sa_source a of None \<Rightarrow> {} | Some (source, _) \<Rightarrow> {source})"

definition scratch_dirs :: "script_args \<Rightarrow> string set" where
  "scratch_dirs a = {sa_lock_dir a} \<union> (case sa_source a of None \<Rightarrow> {} | Some (_, dir) \<Rightarrow> {dir})"

definition agrees :: "script_args \<Rightarrow> remote_fs \<Rightarrow> remote_fs \<Rightarrow> bool" where
  "agrees a m k \<longleftrightarrow>
     (\<forall>p. p \<notin> scratch_files a \<union> scratch_dirs a \<longrightarrow> fmlookup m p = fmlookup k p)
     \<and> (\<forall>p\<in>scratch_files a. \<not> is_dir m p) \<and> (\<forall>p\<in>scratch_dirs a. fmlookup m p = None \<or> is_dir m p)"

text \<open>Nothing in the file system has these names, and they do not get in the way of each other.\<close>

definition scratch_free :: "script_args \<Rightarrow> remote_fs \<Rightarrow> bool" where
  "scratch_free a k \<longleftrightarrow>
     (\<forall>p\<in>scratch_files a \<union> scratch_dirs a. fmlookup k p = None) \<and> (\<forall>d\<in>scratch_dirs a. dir_empty k d)
     \<and> scratch_files a \<inter> scratch_dirs a = {}
     \<and> \<not> starts_with (sa_stage a) (sa_lock_dir a @ [SLASH])
     \<and> sa_stage a \<noteq> lock_started_path a \<and> sa_stage a \<noteq> lock_operation_path a
     \<and> (case sa_source a of
          None \<Rightarrow> True
        | Some (source, dir) \<Rightarrow> source \<noteq> sa_stage a \<and> dir \<noteq> sa_lock_dir a
            \<and> \<not> starts_with source (sa_lock_dir a @ [SLASH]) \<and> \<not> starts_with dir (sa_lock_dir a @ [SLASH])
            \<and> \<not> starts_with (sa_dst a) (dir @ [SLASH]))
     \<and> sa_dst a \<notin> scratch_files a \<union> scratch_dirs a
     \<and> \<not> starts_with (sa_dst a) (sa_lock_dir a @ [SLASH])"

lemma lookup_rm_f: "\<not> is_dir n p \<Longrightarrow> fmlookup (rm_f p n) q = (if q = p then None else fmlookup n q)"
  by (simp add: rm_f_def)

lemma lookup_rmdir:
  "fmlookup n d = None \<or> is_dir n d \<Longrightarrow> dir_empty n d \<Longrightarrow> fmlookup (rmdir d n) q = (if q = d then None else fmlookup n q)"
  by (auto simp: rmdir_def)

lemma dir_empty_lookup:
  "dir_empty n d \<longleftrightarrow> (\<forall>p. starts_with p (d @ [SLASH]) \<longrightarrow> fmlookup n p = None)"
  by (auto simp: dir_empty_def fmpred_iff)

lemma not_below_self: "\<not> starts_with d (d @ [c])"
  by (simp add: starts_with_def)

text \<open>Only the files of a lock are below it, and only the payload is below its directory.\<close>

lemma below_scratch_dir:
  assumes "scratch_free a k" "d \<in> scratch_dirs a" "starts_with p (d @ [SLASH])"
    "p \<notin> {lock_started_path a, lock_operation_path a, sa_stage a}" "\<forall>dir. sa_source a \<noteq> Some (p, dir)"
    "d = sa_lock_dir a \<or> p \<noteq> sa_lock_dir a"
  shows "p \<notin> scratch_files a \<union> scratch_dirs a"
  using assms not_below_self[of d SLASH]
  by (auto simp: scratch_free_def scratch_files_def scratch_dirs_def split: option.splits)

lemma lock_paths_below: "starts_with (lock_started_path a) (sa_lock_dir a @ [SLASH])"
  "starts_with (lock_operation_path a) (sa_lock_dir a @ [SLASH])"
  by (simp_all add: starts_with_def lock_started_path_def lock_operation_path_def)

text \<open>After the cleanup nothing is left of the scratch files.\<close>

lemma cleanup_restores:
  assumes "agrees a m k" "scratch_free a k"
  shows "cleanup a m = k"
proof -
  define n1 where "n1 = rm_f (lock_operation_path a) (rm_f (lock_started_path a) (rm_f (sa_stage a) m))"
  define n2 where "n2 = rmdir (sa_lock_dir a) n1"
  have files: "\<not> is_dir m (sa_stage a)" "\<not> is_dir m (lock_started_path a)" "\<not> is_dir m (lock_operation_path a)"
    using assms(1) by (auto simp: agrees_def scratch_files_def)
  have n1: "fmlookup n1 q = (if q \<in> {sa_stage a, lock_started_path a, lock_operation_path a} then None else fmlookup m q)" for q
    unfolding n1_def using files by (simp add: lookup_rm_f is_dir_def)
  have "dir_empty n1 (sa_lock_dir a)"
    unfolding dir_empty_lookup n1
  proof (intro allI impI)
    fix p assume p: "starts_with p (sa_lock_dir a @ [SLASH])"
    have l: "sa_lock_dir a \<in> scratch_dirs a" by (simp add: scratch_dirs_def)
    have src: "\<forall>dir. sa_source a \<noteq> Some (p, dir)" using assms(2) p by (auto simp: scratch_free_def)
    show "(if p \<in> {sa_stage a, lock_started_path a, lock_operation_path a} then None else fmlookup m p) = None"
    proof (cases "p \<in> {sa_stage a, lock_started_path a, lock_operation_path a}")
      case False
      with below_scratch_dir[OF assms(2) l p _ src] assms(1) have "fmlookup m p = fmlookup k p" by (auto simp: agrees_def)
      with assms(2) l p False show ?thesis by (auto simp: scratch_free_def dir_empty_lookup)
    qed simp
  qed
  moreover have "fmlookup n1 (sa_lock_dir a) = None \<or> is_dir n1 (sa_lock_dir a)"
    using assms unfolding is_dir_def n1 by (auto simp: agrees_def scratch_dirs_def is_dir_def)
  ultimately have n2: "fmlookup n2 q = (if q \<in> {sa_stage a, lock_started_path a, lock_operation_path a, sa_lock_dir a} then None
      else fmlookup m q)" for q
    unfolding n2_def by (subst lookup_rmdir) (auto simp: n1)
  show ?thesis
  proof (cases "sa_source a")
    case None
    have "fmlookup n2 q = fmlookup k q" for q
      using assms None unfolding n2 by (auto simp: agrees_def scratch_free_def scratch_files_def scratch_dirs_def)
    then show ?thesis using None by (simp add: cleanup_def Let_def n1_def n2_def fmap_ext)
  next
    case (Some sd)
    obtain source dir where sd: "sa_source a = Some (source, dir)" using Some by (cases sd) auto
    define n3 where "n3 = rm_f source n2"
    have "\<not> is_dir n2 source" using assms(1) sd unfolding is_dir_def n2 by (auto simp: agrees_def scratch_files_def is_dir_def)
    then have n3: "fmlookup n3 q = (if q = source then None else fmlookup n2 q)" for q
      unfolding n3_def by (rule lookup_rm_f)
    have "dir_empty n3 dir"
      unfolding dir_empty_lookup n3 n2
    proof (intro allI impI)
      fix p assume p: "starts_with p (dir @ [SLASH])"
      have d: "dir \<in> scratch_dirs a" using sd by (simp add: scratch_dirs_def)
      show "(if p = source then None
             else if p \<in> {sa_stage a, lock_started_path a, lock_operation_path a, sa_lock_dir a} then None else fmlookup m p) = None"
      proof (cases "p = source \<or> p \<in> {sa_stage a, lock_started_path a, lock_operation_path a, sa_lock_dir a}")
        case False
        with below_scratch_dir[OF assms(2) d p] sd assms(1) have "fmlookup m p = fmlookup k p" by (auto simp: agrees_def)
        with assms(2) d p False show ?thesis by (auto simp: scratch_free_def dir_empty_lookup)
      qed auto
    qed
    moreover have "fmlookup n3 dir = None \<or> is_dir n3 dir"
      using assms sd unfolding is_dir_def n3 n2 by (auto simp: agrees_def scratch_dirs_def is_dir_def)
    ultimately have "fmlookup (rmdir dir n3) q = fmlookup k q" for q
      using assms sd
      by (subst lookup_rmdir) (auto simp: n3 n2 agrees_def scratch_free_def scratch_files_def scratch_dirs_def)
    then show ?thesis using sd by (simp add: cleanup_def Let_def n1_def n2_def n3_def fmap_ext)
  qed
qed

text \<open>Every phase leaves the rest of the file system alone.\<close>

lemma agrees_upd_file: "agrees a m k \<Longrightarrow> scratch_free a k \<Longrightarrow> p \<in> scratch_files a \<Longrightarrow> agrees a (fmupd p (RFile d) m) k"
  by (auto simp: agrees_def is_dir_def scratch_free_def)

lemma agrees_upd_dir: "agrees a m k \<Longrightarrow> scratch_free a k \<Longrightarrow> p \<in> scratch_dirs a \<Longrightarrow> agrees a (fmupd p RDir m) k"
  by (auto simp: agrees_def is_dir_def scratch_free_def)

lemma scratch_members [simp]:
  "sa_stage a \<in> scratch_files a" "lock_started_path a \<in> scratch_files a" "lock_operation_path a \<in> scratch_files a"
  "sa_lock_dir a \<in> scratch_dirs a"
  by (simp_all add: scratch_files_def scratch_dirs_def)

lemma stage_apart:
  assumes "scratch_free a k"
  shows "sa_stage a \<notin> scratch_dirs a" "sa_stage a \<noteq> sa_lock_dir a"
proof -
  from assms have "scratch_files a \<inter> scratch_dirs a = {}" by (simp add: scratch_free_def)
  then have "p \<notin> scratch_dirs a" if "p \<in> scratch_files a" for p using that by blast
  from this[OF scratch_members(1)] show "sa_stage a \<notin> scratch_dirs a" "sa_stage a \<noteq> sa_lock_dir a" by auto
qed

definition stage_ready :: "(string \<Rightarrow> string) \<Rightarrow> script_args \<Rightarrow> remote_fs \<Rightarrow> bool" where
  "stage_ready sha a m \<longleftrightarrow>
     (case sa_expected_new a of None \<Rightarrow> True | Some e \<Rightarrow> \<exists>d. fmlookup m (sa_stage a) = Some (RFile d) \<and> sha d = e)"

lemma stage_phase_agrees:
  assumes "stage_phase sha h a input m = (m', r)" "agrees a m k" "scratch_free a k"
  shows "agrees a m' k" "r = Ok () \<Longrightarrow> stage_ready sha a m'"
    "fmlookup m (sa_lock_dir a) = None \<Longrightarrow> fmlookup m' (sa_lock_dir a) = None"
proof -
  from stage_apart(2)[OF assms(3)]
  show "agrees a m' k" "r = Ok () \<Longrightarrow> stage_ready sha a m'"
    "fmlookup m (sa_lock_dir a) = None \<Longrightarrow> fmlookup m' (sa_lock_dir a) = None"
    using assms
    by (auto simp: stage_phase_def stage_ready_def Let_def agrees_upd_file split: if_splits option.splits prod.splits rnode.splits)
qed

lemma lock_loop_free:
  "fmlookup m (sa_lock_dir a) = None \<Longrightarrow>
   lock_loop h a now spins m = (if h_create h then (fmupd (sa_lock_dir a) RDir m, Ok now) else (m, Err ''lock_acquire_failed''))"
  by (simp add: lock_loop.simps[of _ _ _ _ m] try_lock_def)

lemma mark_lock_agrees:
  assumes "agrees a m k" "scratch_free a k"
  shows "agrees a (mark_lock h a now m) k" "fmlookup (mark_lock h a now m) (sa_stage a) = fmlookup m (sa_stage a)"
  using assms by (auto simp: mark_lock_def Let_def agrees_upd_file scratch_free_def)

text \<open>The effect of a commit on the file system, and what it asks of the destination.\<close>

definition committed :: "string \<Rightarrow> string option \<Rightarrow> remote_fs \<Rightarrow> remote_fs" where
  "committed dst new k = (case new of Some d \<Rightarrow> fmupd dst (RFile d) k | None \<Rightarrow> fmdrop dst k)"

definition expectation_met :: "(string \<Rightarrow> string) \<Rightarrow> string \<Rightarrow> string \<Rightarrow> remote_fs \<Rightarrow> bool" where
  "expectation_met sha dst expected k \<longleftrightarrow>
     (case fmlookup k dst of None \<Rightarrow> expected = FILE_EDIT_MISSING_SHA256 | Some (RFile d) \<Rightarrow> sha d = expected | _ \<Rightarrow> False)"

lemma check_phase_agrees:
  assumes "agrees a m k" "scratch_free a k"
  shows "check_phase sha a m = None \<longleftrightarrow> expectation_met sha (sa_dst a) (sa_expected a) k" "check_phase sha a m \<noteq> Some ExitOk"
proof -
  have "fmlookup m (sa_dst a) = fmlookup k (sa_dst a)" using assms by (auto simp: agrees_def scratch_free_def)
  then show "check_phase sha a m = None \<longleftrightarrow> expectation_met sha (sa_dst a) (sa_expected a) k" "check_phase sha a m \<noteq> Some ExitOk"
    by (auto simp: check_phase_def expectation_met_def split: option.splits rnode.splits)
qed

lemma scratch_free_committed:
  assumes "scratch_free a k"
  shows "scratch_free a (committed (sa_dst a) new k)"
proof -
  have "\<not> starts_with (sa_dst a) (d @ [SLASH])" if "d \<in> scratch_dirs a" for d
    using assms that by (auto simp: scratch_free_def scratch_dirs_def split: option.splits)
  with assms show ?thesis
    by (cases new) (auto simp: scratch_free_def committed_def dir_empty_lookup)
qed

lemma finalize_phase_agrees:
  assumes "finalize_phase h a m = (m', e)" "agrees a m k" "scratch_free a k" "stage_ready sha a m"
    "expectation_met sha (sa_dst a) (sa_expected a) k"
  shows "if e = ExitOk
    then \<exists>new. agrees a m' (committed (sa_dst a) new k) \<and> map_option sha new = sa_expected_new a
           \<and> (\<forall>d. new = Some d \<longrightarrow> fmlookup m (sa_stage a) = Some (RFile d))
    else agrees a m' k"
proof -
  have dst: "sa_dst a \<notin> scratch_files a \<union> scratch_dirs a" "fmlookup m (sa_dst a) = fmlookup k (sa_dst a)"
    using assms(2,3) by (auto simp: agrees_def scratch_free_def)
  note stage = stage_apart(1)[OF assms(3)]
  have nodir: "\<not> is_dir m (sa_dst a)"
    using assms(5) dst(2) by (auto simp: expectation_met_def is_dir_def split: option.splits rnode.splits)
  show ?thesis
  proof (cases "sa_expected_new a")
    case None
    with assms(1,2) dst show ?thesis
      by (auto simp: finalize_phase_def committed_def agrees_def is_dir_def split: option.splits rnode.splits if_splits
          intro!: exI[of _ None])
  next
    case (Some en)
    with assms(4) obtain d where d: "fmlookup m (sa_stage a) = Some (RFile d)" "sha d = en"
      by (auto simp: stage_ready_def)
    have moved: "agrees a (fmdrop (sa_stage a) (fmupd (sa_dst a) (RFile d) m)) (committed (sa_dst a) (Some d) k)"
      "agrees a (fmupd (sa_dst a) (RFile d) (fmdrop (sa_stage a) m)) (committed (sa_dst a) (Some d) k)"
      using assms(2) dst stage by (auto simp: agrees_def committed_def is_dir_def)
    from assms(1,2) Some d nodir have "(e = ExitOk \<and> agrees a m' (committed (sa_dst a) (Some d) k)) \<or> (e \<noteq> ExitOk \<and> agrees a m' k)"
      using moved by (auto simp: finalize_phase_def mv_def Let_def split: if_splits)
    with Some d show ?thesis by auto
  qed
qed

text \<open>A script that finds its scratch names free either reports success and has made exactly the change, on a
  destination that was as expected, or changes nothing.\<close>

lemma commit_script_effect:
  assumes "commit_script sha h a input now m = (m', e)" "agrees a m k" "scratch_free a k" "fmlookup m (sa_lock_dir a) = None"
  shows "if e = ExitOk
    then \<exists>new. m' = committed (sa_dst a) new k \<and> map_option sha new = sa_expected_new a
           \<and> expectation_met sha (sa_dst a) (sa_expected a) k
    else m' = k"
proof -
  obtain m1 r1 where 1: "stage_phase sha h a input m = (m1, r1)" by fastforce
  note s1 = stage_phase_agrees[OF 1 assms(2,3)]
  note lock = lock_loop_free[OF s1(3)[OF assms(4)], of h now 0]
  define m3 where "m3 = mark_lock h a now (fmupd (sa_lock_dir a) RDir m1)"
  have a3: "agrees a m3 k" "fmlookup m3 (sa_stage a) = fmlookup m1 (sa_stage a)"
    unfolding m3_def using mark_lock_agrees[OF agrees_upd_dir[OF s1(1) assms(3)] assms(3), of "sa_lock_dir a" h now]
      stage_apart(2)[OF assms(3)] by auto
  obtain m4 e4 where 4: "finalize_phase h a m3 = (m4, e4)" by fastforce
  show ?thesis
  proof (cases "r1 = Ok () \<and> h_create h \<and> check_phase sha a m3 = None")
    case True
    with assms(1) 1 lock 4 have out: "m' = cleanup a m4" "e = e4" by (auto simp: commit_script_def m3_def Let_def)
    have met: "expectation_met sha (sa_dst a) (sa_expected a) k" using True check_phase_agrees[OF a3(1) assms(3)] by blast
    have "stage_ready sha a m3" using s1(2) True unfolding stage_ready_def a3(2) by simp
    from finalize_phase_agrees[OF 4 a3(1) assms(3) this met] met show ?thesis
      unfolding out using cleanup_restores scratch_free_committed[OF assms(3)] assms(3) by (auto split: if_splits)
  next
    case False
    then have "e \<noteq> ExitOk \<and> (m' = cleanup a m1 \<or> m' = cleanup a m3)"
      using assms(1) 1 lock check_phase_agrees(2)[OF a3(1) assms(3), of sha]
      by (cases r1) (auto simp: commit_script_def m3_def Let_def split: option.splits if_splits)
    with cleanup_restores[OF s1(1) assms(3)] cleanup_restores[OF a3(1) assms(3)] show ?thesis by auto
  qed
qed

subsection \<open>The client\<close>

lemma commit_outcome_Ok: "commit_outcome out = Ok () \<longleftrightarrow> out = Some ExitOk"
proof (cases out)
  case (Some e)
  then show ?thesis
    by (cases e) (auto simp: commit_outcome_def has_file_edit_conflict_marker_def parse_file_edit_error_marker_def
        parse_file_edit_marker_value_def str_lines_def map_filter_def split: option.splits if_splits)
qed (simp add: commit_outcome_def)

lemma remove_payload_restores:
  assumes "fmlookup k source = None" "fmlookup k dir = None" "dir_empty k dir" "source = dir @ [SLASH] @ name"
  shows "remove_payload (source, dir) (fmupd source (RFile d) (fmupd dir RDir k)) = k" "remove_payload (source, dir) k = k"
proof -
  have ne: "source \<noteq> dir" "dir \<noteq> source" using assms(4) by auto
  have rm: "rm_f source (fmupd source (RFile d) (fmupd dir RDir k)) = fmupd dir RDir k" "rm_f source k = k"
    using assms(1) ne by (auto simp: rm_f_def is_dir_def intro!: fmap_ext)
  have "dir_empty (fmupd dir RDir k) dir" using assms(3) not_below_self[of dir SLASH] by (auto simp: dir_empty_lookup)
  then have "rmdir dir (fmupd dir RDir k) = k" using assms(2) by (auto simp: rmdir_def is_dir_def intro!: fmap_ext)
  moreover have "rmdir dir k = k" using assms(2) by (simp add: rmdir_def is_dir_def)
  ultimately show "remove_payload (source, dir) (fmupd source (RFile d) (fmupd dir RDir k)) = k" "remove_payload (source, dir) k = k"
    by (simp_all add: remove_payload_def rm)
qed

lemma upload_effect:
  assumes "scratch_free a k" "sa_source a = Some (source, dir)" "source = dir @ [SLASH] @ name"
    "upload_script sha h (source, dir) expected input k = (m, e)"
  shows "if e = ExitOk then agrees a m k \<and> fmlookup m (sa_lock_dir a) = None \<and> remove_payload (source, dir) m = k else m = k"
proof -
  have free: "fmlookup k source = None" "fmlookup k dir = None" "dir_empty k dir" "fmlookup k (sa_lock_dir a) = None"
    "source \<noteq> sa_lock_dir a" "dir \<noteq> sa_lock_dir a"
    using assms(1,2) by (auto simp: scratch_free_def scratch_files_def scratch_dirs_def)
  have "agrees a k k" using assms(1) by (auto simp: agrees_def scratch_free_def is_dir_def)
  then have up: "agrees a (fmupd source (RFile d) (fmupd dir RDir k)) k" for d
    using assms(1,2) by (auto intro!: agrees_upd_file agrees_upd_dir simp: scratch_files_def scratch_dirs_def)
  from assms(4) free up show ?thesis
    using remove_payload_restores[OF free(1-3) assms(3)]
    by (auto simp: upload_script_def Let_def split: if_splits)
qed

definition commit_new :: "file_commit_action \<Rightarrow> string option" where
  "commit_new action = (case action of CommitWrite d \<Rightarrow> Some d | CommitDelete \<Rightarrow> None)"

text \<open>What a commit may do to the file system, and what it may then report.\<close>

definition commit_allowed ::
  "(string \<Rightarrow> string) \<Rightarrow> string \<Rightarrow> file_commit_action \<Rightarrow> string \<Rightarrow> remote_fs \<Rightarrow> remote_fs \<Rightarrow> (unit, string) result \<Rightarrow> bool" where
  "commit_allowed sha dst action expected k k' r \<longleftrightarrow>
     (k' = k \<and> r \<noteq> Ok ())
     \<or> (k' = committed dst (commit_new action) k \<and> expectation_met sha dst expected k
        \<and> (r = Ok () \<or> r = Err ''remote_commit_failed''))"

lemma commit_over_link:
  assumes "over_link l (\<lambda>input. commit_script sha h a input now) input m = (m', out)"
    "agrees a m k" "scratch_free a k" "fmlookup m (sa_lock_dir a) = None"
    "sa_expected_new a = map_option sha (commit_new action)"
    "\<forall>d d'. commit_new action = Some d \<longrightarrow> sha d' = sha d \<longrightarrow> d' = d"
  shows "(m' = m \<and> out = None) \<or> commit_allowed sha (sa_dst a) action (sa_expected a) k m' (commit_outcome out)"
proof -
  have eff: "if e = ExitOk then n' = committed (sa_dst a) (commit_new action) k \<and> expectation_met sha (sa_dst a) (sa_expected a) k
      else n' = k" if run: "commit_script sha h a i now m = (n', e)" for i n' e
  proof (cases "e = ExitOk")
    case True
    with commit_script_effect[OF run assms(2,3,4)] obtain new where
      new: "n' = committed (sa_dst a) new k" "map_option sha new = sa_expected_new a" "expectation_met sha (sa_dst a) (sa_expected a) k"
      by auto
    have "new = commit_new action"
    proof (cases "commit_new action")
      case (Some d)
      with new(2) assms(5) obtain d' where "new = Some d'" "sha d' = sha d" by auto
      with assms(6)[rule_format, OF Some, of d'] Some show ?thesis by simp
    qed (use new(2) assms(5) in simp)
    with new True show ?thesis by simp
  next
    case False
    with commit_script_effect[OF run assms(2,3,4)] show ?thesis by simp
  qed
  show ?thesis
  proof (cases l)
    case Delivered
    obtain n' e where run: "commit_script sha h a input now m = (n', e)" by fastforce
    with assms(1) Delivered have "m' = n'" "out = Some e" by (auto simp: over_link_def)
    with eff[OF run] show ?thesis by (auto simp: commit_allowed_def commit_outcome_Ok split: if_splits)
  next
    case NotRun
    with assms(1) show ?thesis by (auto simp: over_link_def)
  next
    case (AnswerLost i)
    obtain n' e where run: "commit_script sha h a i now m = (n', e)" by fastforce
    with assms(1) AnswerLost have "m' = n'" "out = None" by (auto simp: over_link_def)
    with eff[OF run] show ?thesis
      by (cases "e = ExitOk") (auto simp: commit_allowed_def commit_outcome_def)
  qed
qed

lemma upload_outcome_Ok: "upload_outcome out = Ok () \<longleftrightarrow> out = Some ExitOk"
proof (cases out)
  case (Some e)
  then show ?thesis
    by (cases e) (auto simp: upload_outcome_def parse_file_edit_error_marker_def
        parse_file_edit_marker_value_def str_lines_def map_filter_def split: option.splits if_splits)
qed (simp add: upload_outcome_def)

lemma commit_args_simps [simp]:
  "sa_dst (commit_args privilege w sha path action expected) = path"
  "sa_expected_new (commit_args privilege w sha path action expected) = map_option sha (commit_new action)"
  by (auto simp: commit_args_def commit_new_def Let_def split: file_commit_action.splits)

definition expected_text :: "file_expected_state \<Rightarrow> string" where
  "expected_text expected = (case expected of ExpectMissing \<Rightarrow> FILE_EDIT_MISSING_SHA256 | ExpectSha256 v \<Rightarrow> v)"

lemma commit_args_expected [simp]: "sa_expected (commit_args privilege w sha path action expected) = expected_text expected"
  by (simp add: commit_args_def expected_text_def Let_def)

lemma agrees_refl: "scratch_free a k \<Longrightarrow> agrees a k k"
  by (auto simp: agrees_def scratch_free_def is_dir_def)

lemma scratch_free_lock: "scratch_free a k \<Longrightarrow> fmlookup k (sa_lock_dir a) = None"
  by (simp add: scratch_free_def)

lemma remove_payload_allowed:
  assumes "scratch_free a k" "sa_source a = Some (source, dir)" "source = dir @ [SLASH] @ name"
    "commit_allowed sha (sa_dst a) action expected k m r"
  shows "remove_payload (source, dir) m = m"
proof -
  have "scratch_free a m" using assms(1,4) scratch_free_committed[of a k "commit_new action"] by (auto simp: commit_allowed_def)
  with assms(2) have "fmlookup m source = None" "fmlookup m dir = None" "dir_empty m dir"
    by (auto simp: scratch_free_def scratch_files_def scratch_dirs_def)
  from remove_payload_restores(2)[OF this assms(3)] show ?thesis .
qed

lemma commit_atomic:
  assumes "scratch_free (commit_args privilege w sha path action expected) n"
    and "\<forall>d d'. commit_new action = Some d \<longrightarrow> sha d' = sha d \<longrightarrow> d' = d"
    and "privilege = Sudo \<longrightarrow> cw_upload w = Delivered \<and> cw_cleanup w = Delivered"
    and "commit_remote_text_file sha hosts w privilege path action expected n = (n', r)"
  shows "commit_allowed sha path action (expected_text expected) n n' r"
proof -
  let ?a = "commit_args privilege w sha path action expected"
  let ?content = "case action of CommitWrite d \<Rightarrow> d | CommitDelete \<Rightarrow> []"
  let ?script = "\<lambda>input. commit_script sha (hosts privilege) ?a input (cw_now w)"
  show ?thesis
  proof (cases "sa_source ?a")
    case None
    obtain n2 out where run: "over_link (cw_commit w) ?script ?content n = (n2, out)" by fastforce
    have "(n2 = n \<and> out = None) \<or> commit_allowed sha path action (expected_text expected) n n2 (commit_outcome out)"
      using commit_over_link[OF run agrees_refl[OF assms(1)] assms(1) scratch_free_lock[OF assms(1)] _ assms(2)] by simp
    moreover have "(n' = n \<and> r \<noteq> Ok ()) \<or> (n' = n2 \<and> r = commit_outcome out)"
      using assms(4) None run by (auto simp: commit_remote_text_file_def Let_def split: if_splits result.splits prod.splits)
    ultimately show ?thesis by (auto simp: commit_allowed_def commit_outcome_Ok)
  next
    case (Some src)
    obtain source dir where sd: "sa_source ?a = Some (source, dir)" "src = (source, dir)" using Some by (cases src) auto
    then have name: "source = dir @ [SLASH] @ ''payload''" and sudo: "privilege = Sudo"
      by (auto simp: commit_args_def Let_def split: file_commit_action.splits if_splits)
    note links = assms(3)[rule_format, OF sudo]
    obtain m e where up: "upload_script sha (hosts User) (source, dir) (sha ?content) ?content n = (m, e)" by fastforce
    note eff = upload_effect[OF assms(1) sd(1) name up]
    obtain n2 out where run: "over_link (cw_commit w) ?script [] m = (n2, out)" by fastforce
    have cases: "(n' = n \<and> r \<noteq> Ok ()) \<or> (n' = m \<and> e \<noteq> ExitOk \<and> r \<noteq> Ok ())
        \<or> (e = ExitOk \<and> n' = remove_payload (source, dir) n2 \<and> r = commit_outcome out)"
      using assms(4) sd up run links upload_outcome_Ok[of "Some e"]
      by (auto simp: commit_remote_text_file_def over_link_def[of Delivered] Let_def split: if_splits result.splits prod.splits)
    show ?thesis
    proof (cases "e = ExitOk")
      case True
      with eff have m: "agrees ?a m n" "fmlookup m (sa_lock_dir ?a) = None" "remove_payload (source, dir) m = n" by auto
      from commit_over_link[OF run m(1) assms(1) m(2) _ assms(2)]
      have "(n2 = m \<and> out = None) \<or> commit_allowed sha path action (expected_text expected) n n2 (commit_outcome out)" by simp
      moreover have "remove_payload (source, dir) n2 = n2"
        if "commit_allowed sha path action (expected_text expected) n n2 (commit_outcome out)"
        using remove_payload_allowed[OF assms(1) sd(1) name, of sha action "expected_text expected"] that by simp
      ultimately show ?thesis using cases True m(3) by (auto simp: commit_allowed_def commit_outcome_Ok)
    next
      case False
      with eff cases show ?thesis by (auto simp: commit_allowed_def)
    qed
  qed
qed

section \<open>Properties\<close>


text \<open>A host on which everything works, for a destination whose directory exists.\<close>

definition healthy :: "host \<Rightarrow> bool" where
  "healthy h \<longleftrightarrow> (\<forall>p. h_writable h p \<and> h_readable h p) \<and> h_sha h \<and> h_create h \<and> h_store h \<and> h_finalize h"

lemma commit_script_succeeds:
  assumes "agrees a m k" "scratch_free a k" "fmlookup m (sa_lock_dir a) = None" "healthy h"
    "is_dir m (script_parent (sa_dst a))" "expectation_met sha (sa_dst a) (sa_expected a) k"
    "case sa_expected_new a of None \<Rightarrow> fmlookup k (sa_dst a) \<noteq> None | Some e \<Rightarrow> sha d = e"
    "case sa_source a of None \<Rightarrow> input = d | Some (source, _) \<Rightarrow> source \<noteq> sa_stage a \<and> fmlookup m source = Some (RFile d)"
    "fmlookup k (sa_dst a) \<noteq> None \<Longrightarrow> sa_expected a \<noteq> FILE_EDIT_MISSING_SHA256"
  shows "snd (commit_script sha h a input now m) = ExitOk"
proof -
  obtain m1 r1 where 1: "stage_phase sha h a input m = (m1, r1)" by fastforce
  note s1 = stage_phase_agrees[OF 1 assms(1,2)]
  have nd: "\<not> is_dir m (sa_stage a)" using assms(1) by (auto simp: agrees_def)
  have ok1: "r1 = Ok ()"
    using 1 assms(4,5,7,8) nd by (auto simp: stage_phase_def healthy_def Let_def split: option.splits prod.splits if_splits)
  define m3 where "m3 = mark_lock h a now (fmupd (sa_lock_dir a) RDir m1)"
  have a3: "agrees a m3 k" "fmlookup m3 (sa_stage a) = fmlookup m1 (sa_stage a)"
    unfolding m3_def using mark_lock_agrees[OF agrees_upd_dir[OF s1(1) assms(2)] assms(2), of "sa_lock_dir a" h now]
      stage_apart(2)[OF assms(2)] by auto
  have dst: "fmlookup m3 (sa_dst a) = fmlookup k (sa_dst a)" using a3(1) assms(2) by (auto simp: agrees_def scratch_free_def)
  have ready: "stage_ready sha a m3" using s1(2)[OF ok1] unfolding stage_ready_def a3(2) .
  have "snd (finalize_phase h a m3) = ExitOk"
  proof (cases "sa_expected_new a")
    case None
    with assms(4,6,7) dst show ?thesis
      by (auto simp: finalize_phase_def healthy_def expectation_met_def split: option.splits rnode.splits)
  next
    case (Some e)
    with ready obtain d where d: "fmlookup m3 (sa_stage a) = Some (RFile d)" by (auto simp: stage_ready_def)
    show ?thesis
    proof (cases "fmlookup k (sa_dst a)")
      case None
      with assms(6) have "sa_expected a = FILE_EDIT_MISSING_SHA256" by (simp add: expectation_met_def)
      with None Some d dst assms(4) show ?thesis by (simp add: finalize_phase_def healthy_def)
    next
      case (Some x)
      with Some \<open>sa_expected_new a = Some e\<close> d assms(4,9) show ?thesis
        by (simp add: finalize_phase_def healthy_def mv_def Let_def)
    qed
  qed
  moreover have "check_phase sha a m3 = None" using check_phase_agrees(1)[OF a3(1) assms(2)] assms(6) by blast
  ultimately show ?thesis
    using 1 ok1 lock_loop_free[OF s1(3)[OF assms(3)], of h now 0] assms(4)
    by (auto simp: commit_script_def m3_def Let_def healthy_def split: prod.splits)
qed


text \<open>Examples for the witnesses: a file in \<open>/etc\<close>, with a stand-in for the hash that has no collisions.\<close>

lemma dir_empty_simps:
  "dir_empty fmempty d" "\<not> starts_with p (d @ [SLASH]) \<Longrightarrow> dir_empty n d \<Longrightarrow> dir_empty (fmupd p x n) d"
  by (auto simp: dir_empty_lookup)

definition sample_sha :: "string \<Rightarrow> string" where
  "sample_sha d = CHR ''h'' # d"

definition sample_host :: "file_edit_privilege \<Rightarrow> host" where
  "sample_host = (\<lambda>_. \<lparr>h_writable = \<lambda>_. True, h_readable = \<lambda>_. True, h_sha = True, h_date = True, h_create = True, h_store = True,
     h_finalize = True\<rparr>)"

definition sample_commit :: commit_world where
  "sample_commit = \<lparr>cw_connected = Ok (), cw_local_stage = Ok (), cw_local_open = Ok (), cw_upload = Delivered,
     cw_commit = Delivered, cw_cleanup = Delivered, cw_stage_id = ''1-0'', cw_payload_id = ''1-1'', cw_now = 1000\<rparr>"

definition sample_fs :: remote_fs where
  "sample_fs = fmupd ''/etc/motd'' (RFile ''old'') (fmupd ''/etc'' RDir fmempty)"

lemma sample_scratch_free:
  "scratch_free (commit_args Sudo sample_commit sample_sha ''/etc/motd'' (CommitWrite ''new'') expected) sample_fs"
  by (simp add: scratch_free_def scratch_files_def scratch_dirs_def commit_args_def sample_commit_def sample_fs_def Let_def
      lock_started_path_def lock_operation_path_def starts_with_def dir_empty_simps)



subsection \<open>Applying a patch\<close>

text \<open>The file system after the files reported as applied were changed.\<close>

fun outcome :: "(planned_patch \<times> file_expected_state) list \<Rightarrow> file_status list \<Rightarrow> remote_fs \<Rightarrow> remote_fs" where
  "outcome (x # xs) (s # st) k =
     outcome xs st (if s = Applied then committed (pp_path (fst x)) (pp_new_content (fst x)) k else k)"
| "outcome _ _ k = k"

definition args_of :: "file_edit_privilege \<Rightarrow> patch_world \<Rightarrow> (string \<Rightarrow> string) \<Rightarrow> nat \<Rightarrow> planned_patch \<times> file_expected_state \<Rightarrow> script_args" where
  "args_of privilege w sha i x = commit_args privilege (pw_commit w i) sha (pp_path (fst x)) (planned_action (fst x)) (snd x)"

text \<open>The scratch names of every commit are free, and no file of the patch has one of them.\<close>

definition apart :: "script_args \<Rightarrow> string \<Rightarrow> bool" where
  "apart a p \<longleftrightarrow> p \<notin> scratch_files a \<union> scratch_dirs a \<and> (\<forall>d\<in>scratch_dirs a. \<not> starts_with p (d @ [SLASH]))"

fun names_free ::
  "file_edit_privilege \<Rightarrow> patch_world \<Rightarrow> (string \<Rightarrow> string) \<Rightarrow> string list \<Rightarrow> nat \<Rightarrow> (planned_patch \<times> file_expected_state) list \<Rightarrow>
   remote_fs \<Rightarrow> bool" where
  "names_free privilege w sha ps i [] k = True"
| "names_free privilege w sha ps i (x # xs) k =
     (scratch_free (args_of privilege w sha i x) k \<and> list_all (apart (args_of privilege w sha i x)) ps
      \<and> pp_path (fst x) \<in> set ps \<and> names_free privilege w sha ps (i + 1) xs k)"

lemma scratch_free_other: "scratch_free a k \<Longrightarrow> apart a p \<Longrightarrow> scratch_free a (committed p new k)"
  by (cases new) (auto simp: scratch_free_def committed_def dir_empty_lookup apart_def)

lemma names_free_committed:
  "names_free privilege w sha ps i xs k \<Longrightarrow> p \<in> set ps \<Longrightarrow> names_free privilege w sha ps i xs (committed p new k)"
  by (induction xs arbitrary: i) (auto simp: list_all_iff intro: scratch_free_other)

lemma outcome_NotAttempted: "outcome xs (replicate m NotAttempted) k = k"
proof (induction xs arbitrary: m)
  case (Cons x xs)
  then show ?case by (cases m) simp_all
qed simp

lemma commit_new_planned: "commit_new (planned_action p) = pp_new_content p"
  by (simp add: commit_new_def planned_action_def split: option.splits)

text \<open>The statuses of an interrupted run: files done, the file that failed, files not tried.\<close>

definition truthful ::
  "(planned_patch \<times> file_expected_state) list \<Rightarrow> remote_fs \<Rightarrow> remote_fs \<Rightarrow> file_status list \<Rightarrow> nat \<Rightarrow> (nat \<times> string) option \<Rightarrow> bool" where
  "truthful xs k k' st i err \<longleftrightarrow> length st = length xs \<and>
     (case err of
        None \<Rightarrow> set st \<subseteq> {Applied, Unchanged} \<and> k' = outcome xs st k
      | Some (i', e) \<Rightarrow>
          (\<exists>before s after. st = before @ s # replicate after NotAttempted \<and> set before \<subseteq> {Applied, Unchanged}
             \<and> i' = i + length before
             \<and> (s = Failed \<and> k' = outcome xs st k
                \<or> s = Unknown \<and> (k' = outcome xs st k \<or> k' = outcome xs (before @ Applied # replicate after NotAttempted) k))))"

lemma truthful_Cons:
  assumes "truthful xs (if s = Applied then committed (pp_path (fst x)) (pp_new_content (fst x)) k else k) k' st (i + 1) err"
    "s \<in> {Applied, Unchanged}"
  shows "truthful (x # xs) k k' (s # st) i err"
proof (cases err)
  case None
  with assms show ?thesis by (auto simp: truthful_def)
next
  case (Some ie)
  then obtain i' e where err: "err = Some (i', e)" by (cases ie) auto
  from assms(1) obtain before t after where
    b: "st = before @ t # replicate after NotAttempted" "set before \<subseteq> {Applied, Unchanged}" "i' = i + 1 + length before"
    and len: "length st = length xs"
    and t: "t = Failed \<and> k' = outcome (x # xs) (s # st) k
        \<or> t = Unknown \<and> (k' = outcome (x # xs) (s # st) k \<or> k' = outcome (x # xs) (s # before @ Applied # replicate after NotAttempted) k)"
    unfolding truthful_def err by auto
  have "set (s # before) \<subseteq> {Applied, Unchanged}" "i' = i + length (s # before)" using b assms(2) by auto
  with b(1) len t show ?thesis unfolding truthful_def err
    by (simp del: outcome.simps) (rule exI[of _ "s # before"], auto)
qed

lemma commit_loop_truthful:
  assumes "commit_loop sha hosts w privilege i xs k = (k', st, err)" "names_free privilege w sha ps i xs k"
    "\<forall>x\<in>set xs. \<forall>d d'. pp_new_content (fst x) = Some d \<longrightarrow> sha d' = sha d \<longrightarrow> d' = d"
    "privilege = Sudo \<longrightarrow> (\<forall>j. cw_upload (pw_commit w j) = Delivered \<and> cw_cleanup (pw_commit w j) = Delivered)"
  shows "truthful xs k k' st i err"
  using assms(1-3)
proof (induction xs arbitrary: i k st)
  case (Cons x xs)
  obtain planned expected where x: "x = (planned, expected)" by fastforce
  note free = Cons.prems(2)[simplified x]
  show ?case
  proof (cases "pp_changed planned")
    case False
    with Cons.prems(1) x obtain st1 where l: "commit_loop sha hosts w privilege (i + 1) xs k = (k', st1, err)" "st = Unchanged # st1"
      by (auto split: prod.splits)
    have "truthful xs k k' st1 (i + 1) err" by (rule Cons.IH[OF l(1)]) (use free Cons.prems(3) in auto)
    then show ?thesis unfolding l(2) by (intro truthful_Cons) auto
  next
    case True
    let ?p = "pp_path planned"
    obtain k1 r where c: "commit_remote_text_file sha hosts (pw_commit w i) privilege ?p (planned_action planned) expected k = (k1, r)"
      by fastforce
    have inj: "\<forall>d d'. commit_new (planned_action planned) = Some d \<longrightarrow> sha d' = sha d \<longrightarrow> d' = d"
      using Cons.prems(3) x by (simp add: commit_new_planned)
    have eff: "(k1 = k \<and> r \<noteq> Ok ()) \<or> (k1 = committed ?p (pp_new_content planned) k \<and> (r = Ok () \<or> r = Err ''remote_commit_failed''))"
      using commit_atomic[OF _ inj _ c] free assms(4) by (auto simp: args_of_def commit_allowed_def commit_new_planned)
    show ?thesis
    proof (cases r)
      case (Ok u)
      with eff have k1: "k1 = committed ?p (pp_new_content planned) k" by auto
      from Ok True c Cons.prems(1) x obtain st1 where
        l: "commit_loop sha hosts w privilege (i + 1) xs k1 = (k', st1, err)" "st = Applied # st1"
        by (auto split: prod.splits)
      have "names_free privilege w sha ps (i + 1) xs k1" unfolding k1 using free by (auto intro: names_free_committed)
      from Cons.IH[OF l(1) this] Cons.prems(3) have "truthful xs k1 k' st1 (i + 1) err" by auto
      then show ?thesis unfolding l(2) by (intro truthful_Cons) (auto simp: k1 x)
    next
      case (Err e)
      with True c Cons.prems(1) x have l: "k' = k1" "err = Some (i, e)"
        "st = (if e = ''remote_commit_failed'' then Unknown else Failed) # replicate (length xs) NotAttempted" by auto
      from eff Err have "k1 = k \<or> (k1 = committed ?p (pp_new_content planned) k \<and> e = ''remote_commit_failed'')" by auto
      then show ?thesis
        unfolding truthful_def l
        by (auto simp: outcome_NotAttempted x intro!: exI[of _ "[]"])
    qed
  qed
qed (simp add: truthful_def)

lemma read_markers:
  "parse_file_edit_error_marker (FILE_EDIT_ERROR_MARKER @ ''not_found'' @ [NL]) = Some ''not_found''"
  "parse_file_edit_error_marker (FILE_EDIT_ERROR_MARKER @ ''permission_denied'' @ [NL]) = Some ''permission_denied''"
  "parse_file_edit_error_marker (FILE_EDIT_ERROR_MARKER @ ''too_large'' @ [NL]) = Some ''too_large''"
  "parse_file_edit_error_marker (FILE_EDIT_ERROR_MARKER @ ''not_regular_file'' @ [NL]) = Some ''not_regular_file''"
  "parse_file_edit_error_marker [] = None"
  by code_simp+

definition original :: "remote_fs \<Rightarrow> string \<Rightarrow> string option" where
  "original n p = (case fmlookup n p of Some (RFile d) \<Rightarrow> Some d | _ \<Rightarrow> None)"

lemma read_outcome_cases:
  assumes "read_outcome sha (Some (read_script h p n)) = Ok s"
  shows "(s = Missing \<and> fmlookup n p = None) \<or> (\<exists>d. s = Existing d (sha d) \<and> fmlookup n p = Some (RFile d))"
proof (cases "fmlookup n p")
  case None
  with assms show ?thesis by (simp add: read_outcome_def read_script_def read_markers[simplified] read_marker_result_def)
next
  case (Some x)
  with assms show ?thesis
    by (cases x) (auto simp: read_outcome_def read_script_def read_markers[simplified] read_marker_result_def from_utf8_def
        split: if_splits)
qed

lemma load_state_cases:
  assumes "load_remote_text_file_state sha h w p n = Ok s"
  shows "(s = Missing \<and> fmlookup n p = None) \<or> (\<exists>d. s = Existing d (sha d) \<and> fmlookup n p = Some (RFile d))"
proof -
  from assms have load: "read_outcome sha (snd (over_link (rd_link w) (\<lambda>_ n. (n, read_script h p n)) [] n)) = Ok s"
    by (auto simp: load_remote_text_file_state_def split: result.splits)
  then have "rd_link w = Delivered"
    by (cases "rd_link w") (simp_all add: read_outcome_def over_link_def)
  with load have "read_outcome sha (Some (read_script h p n)) = Ok s" by (simp add: over_link_def)
  then show ?thesis by (rule read_outcome_cases)
qed

lemma plan_path: "plan p o' = Ok x \<Longrightarrow> pp_path x = fp_path p"
  by (auto simp: plan_def elim!: and_then.elims)

lemma prepare_Ok:
  assumes "prepare_file_patch sha h w p n = Ok x"
  shows "plan p (original n (fp_path p)) = Ok (fst x)" "pp_path (fst x) = fp_path p"
proof -
  from assms obtain s where s: "load_remote_text_file_state sha h w (fp_path p) n = Ok s"
    by (auto simp: prepare_file_patch_def elim: and_then.elims)
  obtain o' e' where oe: "(case s of Missing \<Rightarrow> (None, ExpectMissing) | Existing content digest \<Rightarrow> (Some content, ExpectSha256 digest)) = (o', e')"
    by fastforce
  with load_state_cases[OF s] have o: "o' = original n (fp_path p)" by (auto simp: original_def)
  show *: "plan p (original n (fp_path p)) = Ok (fst x)"
    using assms s oe unfolding o by (cases "plan p (original n (fp_path p))") (auto simp: prepare_file_patch_def split: if_splits)
  then show "pp_path (fst x) = fp_path p" by (rule plan_path)
qed

lemma preflight_Ok:
  assumes "preflight_loop sha h w i ps n = Ok xs"
  shows "list_all2 (\<lambda>p x. plan p (original n (fp_path p)) = Ok (fst x) \<and> pp_path (fst x) = fp_path p) ps xs"
  using assms
proof (induction ps arbitrary: i xs)
  case (Cons p ps)
  obtain x where x: "prepare_file_patch sha h (pw_read w i) p n = Ok x"
    using Cons.prems by (cases "prepare_file_patch sha h (pw_read w i) p n") auto
  obtain ys where ys: "preflight_loop sha h w (i + 1) ps n = Ok ys" "xs = x # ys"
    using Cons.prems x by (cases "preflight_loop sha h w (i + 1) ps n") auto
  show ?case unfolding ys(2) using Cons.IH[OF ys(1)] prepare_Ok[OF x] by simp
qed simp

text \<open>C2: a patch is prepared as a whole before anything is written, and the report is true. When a section cannot be
  read, planned or is too large, nothing was changed. Otherwise the planned contents are the sections applied to the
  files as they were; the files reported as applied, and no other, were changed to their planned contents; every
  file before a failure is applied or needed no change, every file after it was not touched, and only for a lost
  answer the status of the failed file is unknown.\<close>

theorem apply_patch_truthful:
  assumes "parse_patch text = Ok patches"
    and "\<forall>xs. preflight_loop sha (hosts privilege) w 0 patches n = Ok xs \<longrightarrow> names_free privilege w sha (map fp_path patches) 0 xs n"
    and "\<forall>xs. preflight_loop sha (hosts privilege) w 0 patches n = Ok xs \<longrightarrow>
       (\<forall>x\<in>set xs. \<forall>d d'. pp_new_content (fst x) = Some d \<longrightarrow> sha d' = sha d \<longrightarrow> d' = d)"
    and "privilege = Sudo \<longrightarrow> (\<forall>j. cw_upload (pw_commit w j) = Delivered \<and> cw_cleanup (pw_commit w j) = Delivered)"
  shows "case preflight_loop sha (hosts privilege) w 0 patches n of
      Err (i, e) \<Rightarrow> execute_apply_patch sha hosts w privilege text n =
        (n, PatchFailed ((replicate (length patches) NotAttempted)[i := Failed]) i Preflight e)
    | Ok xs \<Rightarrow>
        list_all2 (\<lambda>p x. plan p (original n (fp_path p)) = Ok (fst x)) patches xs
        \<and> (\<exists>n' st err. truthful xs n n' st 0 err
             \<and> execute_apply_patch sha hosts w privilege text n =
                 (n', case err of None \<Rightarrow> PatchDone st | Some (i, e) \<Rightarrow> PatchFailed st i Commit e))"
proof (cases "preflight_loop sha (hosts privilege) w 0 patches n")
  case (Ok xs)
  obtain n' st err where loop: "commit_loop sha hosts w privilege 0 xs n = (n', st, err)" using prod_cases3 by blast
  have "truthful xs n n' st 0 err"
    by (rule commit_loop_truthful[OF loop assms(2)[rule_format, OF Ok] assms(3)[THEN spec, THEN mp, OF Ok] assms(4)])
  moreover have "execute_apply_patch sha hosts w privilege text n =
      (n', case err of None \<Rightarrow> PatchDone st | Some (i, e) \<Rightarrow> PatchFailed st i Commit e)"
    using assms(1) Ok loop by (auto simp: execute_apply_patch_def split: option.splits)
  moreover have "list_all2 (\<lambda>p x. plan p (original n (fp_path p)) = Ok (fst x)) patches xs"
    using preflight_Ok[OF Ok] by (rule list_all2_mono) simp
  ultimately show ?thesis using Ok by auto
next
  case (Err ie)
  with assms(1) show ?thesis by (cases ie) (simp add: execute_apply_patch_def)
qed

definition sample_patch :: file_patch where
  "sample_patch = \<lparr>fp_path = ''/etc/motd'', fp_operation = Update [\<lparr>anchor = None, old_lines = [''old''], new_lines = [''new'']\<rparr>]\<rparr>"

definition sample_planned :: planned_patch where
  "sample_planned = \<lparr>pp_path = ''/etc/motd'', pp_new_content = Some (''new'' @ [NL]), pp_changed = True\<rparr>"

definition sample_text :: string where
  "sample_text = ''*** Begin Patch'' @ [NL] @ ''*** Update File: /etc/motd'' @ [NL] @ ''@@'' @ [NL] @ ''-old'' @ [NL] @ ''+new'' @ [NL]
     @ ''*** End Patch'' @ [NL]"

definition sample_patch_fs :: remote_fs where
  "sample_patch_fs = fmupd ''/etc/motd'' (RFile (''old'' @ [NL])) (fmupd ''/etc'' RDir fmempty)"

definition sample_world :: patch_world where
  "sample_world = \<lparr>pw_read = \<lambda>_. \<lparr>rd_connected = Ok (), rd_local = Ok (), rd_link = Delivered\<rparr>, pw_commit = \<lambda>_. sample_commit\<rparr>"

lemma sample_preflight:
  "preflight_loop sample_sha (sample_host User) sample_world 0 [sample_patch] sample_patch_fs =
     Ok [(sample_planned, ExpectSha256 (''hold'' @ [NL]))]"
proof -
  have "from_utf8 (''old'' @ [NL]) = Some (''old'' @ [NL])" by code_simp
  then have "load_remote_text_file_state sample_sha (sample_host User) (pw_read sample_world 0) ''/etc/motd'' sample_patch_fs =
      Ok (Existing (''old'' @ [NL]) (''hold'' @ [NL]))"
    by (simp add: load_remote_text_file_state_def read_outcome_def over_link_def read_script_def sample_host_def sample_world_def
        sample_patch_fs_def read_markers FILE_EDIT_HARD_MAX_BYTES_def sample_sha_def)
  moreover have "plan sample_patch (Some (''old'' @ [NL])) = Ok sample_planned" by code_simp
  ultimately show ?thesis
    by (simp add: prepare_file_patch_def FILE_EDIT_HARD_MAX_BYTES_def) (simp add: sample_patch_def sample_planned_def FILE_EDIT_HARD_MAX_BYTES_def)
qed

theorem apply_patch_truthful_witness:
  "\<exists>n' st err. truthful [(sample_planned, ExpectSha256 (''hold'' @ [NL]))] sample_patch_fs n' st 0 err
     \<and> execute_apply_patch sample_sha sample_host sample_world User sample_text sample_patch_fs =
         (n', case err of None \<Rightarrow> PatchDone st | Some (i, e) \<Rightarrow> PatchFailed st i Commit e)"
proof -
  have "parse_patch sample_text = Ok [sample_patch]" by code_simp
  moreover have "names_free User sample_world sample_sha (map fp_path [sample_patch]) 0 [(sample_planned, ExpectSha256 (''hold'' @ [NL]))]
      sample_patch_fs"
    by (simp add: args_of_def sample_planned_def sample_patch_def sample_world_def planned_action_def apart_def scratch_free_def
        scratch_files_def scratch_dirs_def commit_args_def sample_commit_def sample_patch_fs_def Let_def
        lock_started_path_def lock_operation_path_def starts_with_def dir_empty_simps)
  ultimately show ?thesis
    using apply_patch_truthful[of sample_text "[sample_patch]" sample_sha sample_host User sample_world sample_patch_fs]
    unfolding sample_preflight by (simp add: sample_sha_def)
qed

end
