(* ===== verification/EditLock.thy ===== *)
theory EditLock
  imports FileEdit
begin

text \<open>
  The edit lock under concurrency: commit scripts of several clients on the same destination, interleaved phase by
  phase (\<open>src/src/server/handlers/file_edit_common.rs\<close>, the script of \<open>commit_remote_text_file\<close>).
\<close>

section \<open>Definitions\<close>

text \<open>Where a script is: before staging, in the lock loop, with the lock taken, with the lock marked, with its
  destination checked, or over.\<close>

datatype script_pc = PStart | PLock nat | PMark | PHold | PChecked | PDone script_exit

type_synonym script_proc = "script_args \<times> string \<times> script_pc"

record edit_system =
  es_fs :: remote_fs
  es_procs :: "nat \<Rightarrow> script_proc option"
  es_now :: nat

fun holds_lock :: "script_proc \<Rightarrow> bool" where
  "holds_lock (a, input, pc) \<longleftrightarrow> pc = PMark \<or> pc = PHold \<or> pc = PChecked"

definition same_file :: "string \<Rightarrow> script_args \<Rightarrow> bool" where
  "same_file dst a \<longleftrightarrow> sa_dst a = dst \<and> sa_lock_dir a = dst @ ''.ssh-mcp-lock'' \<and> sa_source a = None
     \<and> (\<exists>sid. sa_stage a = dst @ ''.ssh-mcp-stage-'' @ sid)"

definition moved :: "edit_system \<Rightarrow> nat \<Rightarrow> remote_fs \<Rightarrow> script_proc \<Rightarrow> edit_system" where
  "moved s i n p = s\<lparr>es_fs := n, es_procs := (es_procs s)(i \<mapsto> p)\<rparr>"

text \<open>The steps. In a calm run no script ends before it has the lock and no lock is reclaimed.\<close>

inductive edit_step :: "(string \<Rightarrow> string) \<Rightarrow> host \<Rightarrow> string \<Rightarrow> bool \<Rightarrow> edit_system \<Rightarrow> edit_system \<Rightarrow> bool" for sha h dst calm where
  script_starts: "es_procs s i = None \<Longrightarrow> same_file dst a \<Longrightarrow>
    (\<forall>j b inp pc. es_procs s j = Some (b, inp, pc) \<longrightarrow> sa_stage b \<noteq> sa_stage a) \<Longrightarrow>
    edit_step sha h dst calm s (moved s i (es_fs s) (a, input, PStart))"
| script_staged: "es_procs s i = Some (a, input, PStart) \<Longrightarrow> stage_phase sha h a input (es_fs s) = (n, Ok ()) \<Longrightarrow>
    edit_step sha h dst calm s (moved s i n (a, input, PLock 0))"
| stage_fails: "\<not> calm \<Longrightarrow> es_procs s i = Some (a, input, PStart) \<Longrightarrow> stage_phase sha h a input (es_fs s) = (n, Err m) \<Longrightarrow>
    edit_step sha h dst calm s (moved s i (cleanup a n) (a, input, PDone (ExitError m)))"
| lock_taken: "es_procs s i = Some (a, input, PLock spins) \<Longrightarrow> try_lock h a (es_now s) spins (es_fs s) = Locked n \<Longrightarrow>
    edit_step sha h dst calm s (moved s i n (a, input, PMark))"
| lock_retry: "es_procs s i = Some (a, input, PLock spins) \<Longrightarrow> try_lock h a (es_now s) spins (es_fs s) = Retry spins' n \<Longrightarrow>
    (calm \<Longrightarrow> n = es_fs s) \<Longrightarrow> edit_step sha h dst calm s (moved s i n (a, input, PLock spins'))"
| lock_fails: "\<not> calm \<Longrightarrow> es_procs s i = Some (a, input, PLock spins) \<Longrightarrow>
    try_lock h a (es_now s) spins (es_fs s) = LockFailed n m \<Longrightarrow>
    edit_step sha h dst calm s (moved s i (cleanup a n) (a, input, PDone (ExitError m)))"
| lock_marked: "es_procs s i = Some (a, input, PMark) \<Longrightarrow>
    edit_step sha h dst calm s (moved s i (mark_lock h a (es_now s) (es_fs s)) (a, input, PHold))"
| dst_checked: "es_procs s i = Some (a, input, PHold) \<Longrightarrow> check_phase sha a (es_fs s) = None \<Longrightarrow>
    edit_step sha h dst calm s (moved s i (es_fs s) (a, input, PChecked))"
| check_fails: "es_procs s i = Some (a, input, PHold) \<Longrightarrow> check_phase sha a (es_fs s) = Some e \<Longrightarrow>
    edit_step sha h dst calm s (moved s i (cleanup a (es_fs s)) (a, input, PDone e))"
| finalized: "es_procs s i = Some (a, input, PChecked) \<Longrightarrow> finalize_phase h a (es_fs s) = (n, e) \<Longrightarrow>
    edit_step sha h dst calm s (moved s i (cleanup a n) (a, input, PDone e))"
| clock_ticks: "edit_step sha h dst calm s (s\<lparr>es_now := es_now s + 1\<rparr>)"

definition edit_start :: "remote_fs \<Rightarrow> edit_system \<Rightarrow> bool" where
  "edit_start n s \<longleftrightarrow> es_fs s = n \<and> es_procs s = Map.empty"

section \<open>Lemmas\<close>

text \<open>All scripts work on the same file; a holder is alone, its lock exists, and what it has checked still holds.\<close>

definition edit_ok :: "(string \<Rightarrow> string) \<Rightarrow> string \<Rightarrow> edit_system \<Rightarrow> bool" where
  "edit_ok sha dst s \<longleftrightarrow>
     (\<forall>i a input pc. es_procs s i = Some (a, input, pc) \<longrightarrow> same_file dst a)
     \<and> (\<forall>i p. es_procs s i = Some p \<longrightarrow> holds_lock p \<longrightarrow>
          fmlookup (es_fs s) (dst @ ''.ssh-mcp-lock'') \<noteq> None \<and> (\<forall>j q. es_procs s j = Some q \<longrightarrow> holds_lock q \<longrightarrow> j = i))
     \<and> (\<forall>i a input. es_procs s i = Some (a, input, PChecked) \<longrightarrow> expectation_met sha dst (sa_expected a) (es_fs s))"

lemma same_file_apart:
  assumes "same_file dst a"
  shows "sa_stage a \<noteq> dst" "sa_stage a \<noteq> dst @ ''.ssh-mcp-lock''" "lock_started_path a \<noteq> dst" "lock_operation_path a \<noteq> dst"
    "lock_started_path a \<noteq> sa_lock_dir a" "lock_operation_path a \<noteq> sa_lock_dir a" "dst @ ''.ssh-mcp-lock'' \<noteq> dst"
  using assms by (auto simp: same_file_def lock_started_path_def lock_operation_path_def)

text \<open>A phase of a script that does not hold the lock touches its own stage only.\<close>

lemma stage_phase_lookup:
  assumes "stage_phase sha h a input n = (n', r)" "p \<noteq> sa_stage a"
  shows "fmlookup n' p = fmlookup n p"
  using assms by (auto simp: stage_phase_def Let_def split: if_splits option.splits prod.splits rnode.splits)

lemma mark_lock_lookup:
  "p \<noteq> lock_started_path a \<Longrightarrow> p \<noteq> lock_operation_path a \<Longrightarrow> fmlookup (mark_lock h a now n) p = fmlookup n p"
  by (simp add: mark_lock_def Let_def)

lemma expectation_met_cong: "fmlookup n dst = fmlookup n' dst \<Longrightarrow> expectation_met sha dst e n = expectation_met sha dst e n'"
  by (simp add: expectation_met_def)

lemma check_phase_None: "check_phase sha a n = None \<longleftrightarrow> expectation_met sha (sa_dst a) (sa_expected a) n"
  by (auto simp: check_phase_def expectation_met_def split: option.splits rnode.splits)

lemma try_lock_Locked:
  "try_lock h a now spins n = Locked n' \<Longrightarrow> fmlookup n (sa_lock_dir a) = None \<and> n' = fmupd (sa_lock_dir a) RDir n"
  by (auto simp: try_lock_def split: option.splits rnode.splits if_splits prod.splits bool.splits)

text \<open>A step that keeps the lock and the destination, and moves a script that does not gain the lock.\<close>

lemma edit_ok_quiet:
  assumes "edit_ok sha dst s" "same_file dst a"
    "fmlookup n dst = fmlookup (es_fs s) dst" "fmlookup n (dst @ ''.ssh-mcp-lock'') = fmlookup (es_fs s) (dst @ ''.ssh-mcp-lock'')"
    "holds_lock (a, input, pc) \<Longrightarrow> \<exists>pc'. es_procs s i = Some (a, input, pc') \<and> holds_lock (a, input, pc')"
    "pc = PChecked \<Longrightarrow> expectation_met sha dst (sa_expected a) n"
  shows "edit_ok sha dst (moved s i n (a, input, pc))"
proof -
  have "fmlookup (es_fs s) (dst @ ''.ssh-mcp-lock'') \<noteq> None \<and> (\<forall>j q. es_procs s j = Some q \<longrightarrow> holds_lock q \<longrightarrow> j = i)"
    if "holds_lock (a, input, pc)"
    using assms(1) assms(5)[OF that] unfolding edit_ok_def by blast
  moreover have "expectation_met sha dst e n = expectation_met sha dst e (es_fs s)" for e
    by (rule expectation_met_cong) (rule assms(3))
  ultimately show ?thesis
    using assms(1,2,4,6) unfolding edit_ok_def moved_def
    by (auto simp del: holds_lock.simps split: if_splits)
qed

text \<open>A holder that ends: no other script holds the lock.\<close>

lemma edit_ok_ends:
  assumes "edit_ok sha dst s" "es_procs s i = Some (a, input, pc')" "holds_lock (a, input, pc')"
  shows "edit_ok sha dst (moved s i n (a, input, PDone e))"
proof -
  have alone: "\<not> holds_lock q" if "es_procs s j = Some q" "j \<noteq> i" for j q
    using assms that unfolding edit_ok_def by blast
  have "\<not> holds_lock (b, inp, PChecked) \<Longrightarrow> False" for b inp by simp
  with alone assms(1,2) show ?thesis unfolding edit_ok_def moved_def
    by (auto simp del: holds_lock.simps simp: holds_lock.simps[of _ _ "PDone e"] split: if_splits) blast+
qed

lemma edit_step_calm:
  assumes "edit_ok sha dst s" "edit_step sha h dst True s s'"
  shows "edit_ok sha dst s'"
  using assms(2)
proof (cases rule: edit_step.cases)
  case (script_starts i a input)
  then show ?thesis unfolding script_starts(1) by (intro edit_ok_quiet[OF assms(1) script_starts(3)]) simp_all
next
  case (script_staged i a input n)
  then have f: "same_file dst a" using assms(1) by (auto simp: edit_ok_def)
  show ?thesis unfolding script_staged(1)
    by (rule edit_ok_quiet[OF assms(1) f])
      (simp_all add: stage_phase_lookup[OF script_staged(3)] same_file_apart[OF f] not_sym[OF same_file_apart(1)[OF f]]
        not_sym[OF same_file_apart(2)[OF f]])
next
  case (lock_taken i a input spins n)
  then have f: "same_file dst a" using assms(1) by (auto simp: edit_ok_def)
  from try_lock_Locked[OF lock_taken(3)] f
  have n: "fmlookup (es_fs s) (dst @ ''.ssh-mcp-lock'') = None" "n = fmupd (dst @ ''.ssh-mcp-lock'') RDir (es_fs s)"
    by (auto simp: same_file_def)
  then have alone: "\<not> holds_lock q" if "es_procs s j = Some q" for j q using assms(1) that unfolding edit_ok_def by blast
  then have "es_procs s j \<noteq> Some (b, inp, PChecked)" for j b inp by fastforce
  then show ?thesis unfolding lock_taken(1) edit_ok_def moved_def
    using alone assms(1) f n by (auto simp del: holds_lock.simps simp: edit_ok_def split: if_splits)
next
  case (lock_retry i a input spins spins' n)
  then have f: "same_file dst a" using assms(1) by (auto simp: edit_ok_def)
  show ?thesis unfolding lock_retry(1) by (rule edit_ok_quiet[OF assms(1) f]) (use lock_retry(4) in simp_all)
next
  case (lock_marked i a input)
  then have f: "same_file dst a" using assms(1) by (auto simp: edit_ok_def)
  then have "sa_lock_dir a = dst @ ''.ssh-mcp-lock''" by (simp add: same_file_def)
  with same_file_apart[OF f] have "fmlookup (mark_lock h a (es_now s) (es_fs s)) p = fmlookup (es_fs s) p"
    if "p = dst \<or> p = dst @ ''.ssh-mcp-lock''" for p using that by (metis mark_lock_lookup)
  then show ?thesis unfolding lock_marked(1) using lock_marked(2) by (intro edit_ok_quiet[OF assms(1) f]) simp_all
next
  case (dst_checked i a input)
  then have f: "same_file dst a" using assms(1) by (auto simp: edit_ok_def)
  then have "expectation_met sha dst (sa_expected a) (es_fs s)"
    using dst_checked(3) unfolding check_phase_None by (simp add: same_file_def)
  then show ?thesis unfolding dst_checked(1) using dst_checked(2) by (intro edit_ok_quiet[OF assms(1) f]) simp_all
next
  case (check_fails i a input e)
  then show ?thesis using edit_ok_ends[OF assms(1) check_fails(2)] by simp
next
  case (finalized i a input n e)
  then show ?thesis using edit_ok_ends[OF assms(1) finalized(2)] by simp
next
  case clock_ticks
  with assms(1) show ?thesis by (simp add: edit_ok_def)
qed simp_all

interpretation edit_sys: inductive_invariant "edit_start n" "edit_step sha h dst True" "edit_ok sha dst" for n sha h dst
proof
  fix s assume "edit_start n s"
  then show "edit_ok sha dst s" by (simp add: edit_start_def edit_ok_def)
qed (rule edit_step_calm)

section \<open>Properties\<close>

text \<open>C26: while no script ends before it has the lock and no lock is reclaimed, the lock works. At most one script at
  a time is between taking the lock and its end, and when a script replaces, creates or deletes the destination, the
  destination still is what the script expects: no update of another script is lost.\<close>

theorem edit_lock_exclusive:
  assumes "reachable (edit_start n) (edit_step sha h dst True) s"
    and "es_procs s i = Some (a, input, pc)" "holds_lock (a, input, pc)"
  shows "(\<forall>j q. es_procs s j = Some q \<longrightarrow> holds_lock q \<longrightarrow> j = i)
     \<and> (pc = PChecked \<longrightarrow> expectation_met sha dst (sa_expected a) (es_fs s))"
  using edit_sys.reachable_inv[OF assms(1)] assms(2,3) unfolding edit_ok_def by blast

text \<open>On a healthy host a script that finds the lock free comes to the point where its destination is checked.\<close>

lemma moved_again: "moved (moved s i n p) i n' p' = moved s i n' p'"
  by (simp add: moved_def)

lemma moved_simps [simp]:
  "es_fs (moved s i n p) = n" "es_procs (moved s i n p) i = Some p" "es_now (moved s i n p) = es_now s"
  "es_procs (moved s i n p) j = (if j = i then Some p else es_procs s j)"
  by (simp_all add: moved_def)

lemma run_to_check:
  assumes "reachable (edit_start n0) (edit_step sha h dst calm) s" "healthy h" "same_file dst a" "es_procs s i = None"
    "\<forall>j b inp pc. es_procs s j = Some (b, inp, pc) \<longrightarrow> sa_stage b \<noteq> sa_stage a"
    "sa_expected_new a = Some (sha d)" "is_dir (es_fs s) (script_parent dst)" "\<not> is_dir (es_fs s) (sa_stage a)"
    "fmlookup (es_fs s) (sa_lock_dir a) = None" "expectation_met sha dst (sa_expected a) (es_fs s)"
  shows "\<exists>n. reachable (edit_start n0) (edit_step sha h dst calm) (moved s i n (a, d, PChecked))
    \<and> (\<forall>p. p \<notin> {sa_stage a, sa_lock_dir a, lock_started_path a, lock_operation_path a} \<longrightarrow> fmlookup n p = fmlookup (es_fs s) p)
    \<and> is_dir n (sa_lock_dir a) \<and> (\<forall>q. is_dir n q \<longrightarrow> q = sa_lock_dir a \<or> is_dir (es_fs s) q)"
proof -
  let ?R = "reachable (edit_start n0) (edit_step sha h dst calm)"
  note f = same_file_apart[OF assms(3)]
  have a: "sa_dst a = dst" "sa_lock_dir a = dst @ ''.ssh-mcp-lock''" "sa_source a = None"
    using assms(3) by (auto simp: same_file_def)
  define n1 where "n1 = fmupd (sa_stage a) (RFile d) (fmupd (sa_stage a) (RFile []) (es_fs s))"
  define n2 where "n2 = fmupd (sa_lock_dir a) RDir n1"
  define n3 where "n3 = mark_lock h a (es_now s) n2"
  let ?step = "edit_step sha h dst calm"
  have R0: "?R (moved s i (es_fs s) (a, d, PStart))" by (rule reachable_step[OF assms(1) script_starts[OF assms(4,3,5)]])
  have "stage_phase sha h a d (es_fs s) = (n1, Ok ())"
    using assms(2,6-8) a by (simp add: stage_phase_def healthy_def n1_def Let_def)
  then have "?step (moved s i (es_fs s) (a, d, PStart)) (moved s i n1 (a, d, PLock 0))"
    using script_staged[of "moved s i (es_fs s) (a, d, PStart)" i a d sha h n1] by (simp add: moved_again)
  note R1 = reachable_step[OF R0 this]
  have "try_lock h a (es_now s) 0 n1 = Locked n2"
    using assms(2,9) f(2) a by (simp add: try_lock_def n1_def n2_def healthy_def not_sym)
  then have "?step (moved s i n1 (a, d, PLock 0)) (moved s i n2 (a, d, PMark))"
    using lock_taken[of "moved s i n1 (a, d, PLock 0)" i a d 0 h n2] by (simp add: moved_again)
  note R2 = reachable_step[OF R1 this]
  have "?step (moved s i n2 (a, d, PMark)) (moved s i n3 (a, d, PHold))"
    using lock_marked[of "moved s i n2 (a, d, PMark)" i a d] by (simp add: moved_again n3_def)
  note R3 = reachable_step[OF R2 this]
  have look: "fmlookup n3 p = fmlookup (es_fs s) p"
    if "p \<notin> {sa_stage a, sa_lock_dir a, lock_started_path a, lock_operation_path a}" for p
    using that by (auto simp: n3_def mark_lock_lookup n2_def n1_def)
  have "check_phase sha a n3 = None"
    unfolding check_phase_None a(1) using assms(10) look[of dst] f a expectation_met_cong[of n3 dst "es_fs s"] by auto
  then have "?step (moved s i n3 (a, d, PHold)) (moved s i n3 (a, d, PChecked))"
    using dst_checked[of "moved s i n3 (a, d, PHold)" i a d] by (simp add: moved_again)
  note R4 = reachable_step[OF R3 this]
  have "is_dir n3 (sa_lock_dir a)"
    using f(5,6) by (simp add: is_dir_def n3_def mark_lock_lookup n2_def not_sym)
  moreover have "q = sa_lock_dir a \<or> is_dir (es_fs s) q" if "is_dir n3 q" for q
    using that by (auto simp: is_dir_def n3_def mark_lock_def Let_def n2_def n1_def split: if_splits)
  ultimately show ?thesis using look R4 by blast
qed

definition sample_args :: "string \<Rightarrow> string \<Rightarrow> script_args" where
  "sample_args sid new = \<lparr>sa_dst = ''/etc/motd'', sa_expected = ''hold'', sa_expected_new = Some (CHR ''h'' # new),
     sa_lock_dir = ''/etc/motd'' @ ''.ssh-mcp-lock'', sa_stage = ''/etc/motd'' @ ''.ssh-mcp-stage-'' @ sid, sa_source = None,
     sa_tool_name = ''apply_patch''\<rparr>"

lemma sample_args_same_file: "same_file ''/etc/motd'' (sample_args sid new)"
  by (auto simp: same_file_def sample_args_def)

definition sample_edit :: edit_system where
  "sample_edit = \<lparr>es_fs = sample_fs, es_procs = Map.empty, es_now = 1000\<rparr>"

lemma sample_healthy: "healthy (sample_host p)"
  by (simp add: healthy_def sample_host_def)

lemma sample_parent: "script_parent ''/etc/motd'' = ''/etc''"
  by code_simp

lemma sample_first_checked:
  "\<exists>n. reachable (edit_start sample_fs) (edit_step sample_sha (sample_host User) ''/etc/motd'' calm)
         (moved sample_edit 0 n (sample_args ''1'' ''a'', ''a'', PChecked))
     \<and> (\<forall>p. p \<notin> {sa_stage (sample_args ''1'' ''a''), sa_lock_dir (sample_args ''1'' ''a''),
             lock_started_path (sample_args ''1'' ''a''), lock_operation_path (sample_args ''1'' ''a'')} \<longrightarrow> fmlookup n p = fmlookup sample_fs p)
     \<and> is_dir n (sa_lock_dir (sample_args ''1'' ''a''))
     \<and> (\<forall>q. is_dir n q \<longrightarrow> q = sa_lock_dir (sample_args ''1'' ''a'') \<or> is_dir sample_fs q)"
proof -
  have "reachable (edit_start sample_fs) (edit_step sample_sha (sample_host User) ''/etc/motd'' calm) sample_edit"
    by (rule reachable_init) (simp add: edit_start_def sample_edit_def)
  note run = run_to_check[OF this sample_healthy sample_args_same_file[of "''1''" "''a''"], of 0 "''a''"]
  have "\<exists>n. reachable (edit_start sample_fs) (edit_step sample_sha (sample_host User) ''/etc/motd'' calm)
         (moved sample_edit 0 n (sample_args ''1'' ''a'', ''a'', PChecked))
     \<and> (\<forall>p. p \<notin> {sa_stage (sample_args ''1'' ''a''), sa_lock_dir (sample_args ''1'' ''a''),
             lock_started_path (sample_args ''1'' ''a''), lock_operation_path (sample_args ''1'' ''a'')} \<longrightarrow> fmlookup n p = fmlookup (es_fs sample_edit) p)
     \<and> is_dir n (sa_lock_dir (sample_args ''1'' ''a''))
     \<and> (\<forall>q. is_dir n q \<longrightarrow> q = sa_lock_dir (sample_args ''1'' ''a'') \<or> is_dir (es_fs sample_edit) q)"
    by (rule run) (simp_all add: sample_edit_def sample_parent is_dir_def sample_fs_def expectation_met_def sample_sha_def
      sample_args_def)
  then show ?thesis by (auto simp: sample_edit_def)
qed

theorem edit_lock_exclusive_witness:
  "\<exists>s. reachable (edit_start sample_fs) (edit_step sample_sha (sample_host User) ''/etc/motd'' True) s
     \<and> es_procs s 0 = Some (sample_args ''1'' ''a'', ''a'', PChecked)
     \<and> expectation_met sample_sha ''/etc/motd'' ''hold'' (es_fs s)"
proof -
  obtain n where r: "reachable (edit_start sample_fs) (edit_step sample_sha (sample_host User) ''/etc/motd'' True)
         (moved sample_edit 0 n (sample_args ''1'' ''a'', ''a'', PChecked))" using sample_first_checked by blast
  from edit_lock_exclusive[OF r, of 0] have "expectation_met sample_sha ''/etc/motd'' (sa_expected (sample_args ''1'' ''a'')) n"
    by simp
  then show ?thesis using r by (intro exI[of _ "moved sample_edit 0 n (sample_args ''1'' ''a'', ''a'', PChecked)"]) (simp add: sample_args_def)
qed

text \<open>Without the restriction it does not: the cleanup of a script that ends before it has the lock, here because its
  stage is corrupt, removes the lock of another. Two scripts then stand, both checked, before their replacement of the
  same content, and the update that comes first is lost.\<close>

lemma cleanup_breaks_lock:
  assumes "same_file dst a" "is_dir n (sa_lock_dir a)" "\<not> is_dir n (sa_stage a)" "\<not> is_dir n (lock_started_path a)"
    "\<not> is_dir n (lock_operation_path a)"
    "\<forall>p. starts_with p (sa_lock_dir a @ [SLASH]) \<longrightarrow> p \<notin> {lock_started_path a, lock_operation_path a} \<longrightarrow> fmlookup n p = None"
  shows "fmlookup (cleanup a n) p =
    (if p \<in> {sa_stage a, sa_lock_dir a, lock_started_path a, lock_operation_path a} then None else fmlookup n p)"
proof -
  define n1 where "n1 = rm_f (lock_operation_path a) (rm_f (lock_started_path a) (rm_f (sa_stage a) n))"
  have n1: "fmlookup n1 q = (if q \<in> {sa_stage a, lock_started_path a, lock_operation_path a} then None else fmlookup n q)" for q
    unfolding n1_def using assms(3-5) by (simp add: lookup_rm_f is_dir_def)
  have "dir_empty n1 (sa_lock_dir a)" unfolding dir_empty_lookup n1 using assms(6) by auto
  moreover have "fmlookup n1 (sa_lock_dir a) = None \<or> is_dir n1 (sa_lock_dir a)" using assms(2) unfolding is_dir_def n1 by simp
  ultimately have "fmlookup (rmdir (sa_lock_dir a) n1) p = (if p = sa_lock_dir a then None else fmlookup n1 p)"
    by (intro lookup_rmdir) auto
  then show ?thesis using assms(1) by (auto simp: cleanup_def Let_def n1_def[symmetric] n1 same_file_def)
qed

definition corrupt_args :: script_args where
  "corrupt_args = (sample_args ''2'' ''b'')\<lparr>sa_expected_new := Some ''x''\<rparr>"

lemma sample_lock_names:
  "sa_lock_dir corrupt_args = sa_lock_dir (sample_args sid new)"
  "lock_started_path corrupt_args = lock_started_path (sample_args sid new)"
  "lock_operation_path corrupt_args = lock_operation_path (sample_args sid new)"
  by (simp_all add: corrupt_args_def sample_args_def lock_started_path_def lock_operation_path_def)

lemma edit_lock_breaks:
  "\<exists>s. reachable (edit_start sample_fs) (edit_step sample_sha (sample_host User) ''/etc/motd'' False) s
     \<and> es_procs s 0 = Some (sample_args ''1'' ''a'', ''a'', PChecked) \<and> es_procs s 2 = Some (sample_args ''3'' ''c'', ''c'', PChecked)"
proof -
  let ?R = "reachable (edit_start sample_fs) (edit_step sample_sha (sample_host User) ''/etc/motd'' False)"
  let ?step = "edit_step sample_sha (sample_host User) ''/etc/motd'' False"
  let ?a = "sample_args ''1'' ''a''" and ?b = corrupt_args and ?c = "sample_args ''3'' ''c''"
  obtain n where R: "?R (moved sample_edit 0 n (?a, ''a'', PChecked))"
    and look: "\<forall>p. p \<notin> {sa_stage ?a, sa_lock_dir ?a, lock_started_path ?a, lock_operation_path ?a} \<longrightarrow> fmlookup n p = fmlookup sample_fs p"
    and lock: "is_dir n (sa_lock_dir ?a)" and dirs: "\<forall>q. is_dir n q \<longrightarrow> q = sa_lock_dir ?a \<or> is_dir sample_fs q"
    using sample_first_checked by blast
  define s where "s = moved sample_edit 0 n (?a, ''a'', PChecked)"
  have s: "es_fs s = n" "es_procs s = [0 \<mapsto> (?a, ''a'', PChecked)]" by (simp_all add: s_def moved_def sample_edit_def)
  note R = R[folded s_def]
  have b: "same_file ''/etc/motd'' ?b" using sample_args_same_file[of "''2''" "''b''"] by (simp add: same_file_def corrupt_args_def)
  let ?n1 = "fmupd (sa_stage ?b) (RFile ''b'') (fmupd (sa_stage ?b) (RFile []) n)"
  have names: "p \<notin> {sa_stage ?a, sa_lock_dir ?a, lock_started_path ?a, lock_operation_path ?a}" if "p \<in> {''/etc'', ''/etc/motd''}" for p
    using that by (auto simp: sample_args_def lock_started_path_def lock_operation_path_def)
  have etc: "fmlookup n ''/etc'' = Some RDir" "fmlookup n ''/etc/motd'' = Some (RFile ''old'')"
    using look names by (simp_all add: sample_fs_def)
  have nodir: "\<not> is_dir n q" if "q \<in> {sa_stage ?b, lock_started_path ?b, lock_operation_path ?b, sa_stage ?c}" for q
  proof -
    have "q \<noteq> sa_lock_dir ?a \<and> \<not> is_dir sample_fs q"
      using that by (auto simp: corrupt_args_def sample_args_def lock_started_path_def lock_operation_path_def is_dir_def sample_fs_def)
    with dirs show ?thesis by blast
  qed
  have "edit_step sample_sha (sample_host User) ''/etc/motd'' False s (moved s 1 n (?b, ''b'', PStart))"
    using script_starts[of s 1 "''/etc/motd''" ?b sample_sha "sample_host User" False "''b''", OF _ b]
    by (auto simp: s corrupt_args_def sample_args_def split: if_splits)
  note R1 = reachable_step[where step = ?step, OF R this]
  have "stage_phase sample_sha (sample_host User) ?b ''b'' n = (?n1, Err ''stage_hash_mismatch'')"
    using etc nodir[of "sa_stage ?b"]
    by (simp add: stage_phase_def corrupt_args_def sample_args_def sample_parent is_dir_def sample_host_def sample_sha_def Let_def)
  then have "edit_step sample_sha (sample_host User) ''/etc/motd'' False (moved s 1 n (?b, ''b'', PStart))
      (moved s 1 (cleanup ?b ?n1) (?b, ''b'', PDone (ExitError ''stage_hash_mismatch'')))"
    using stage_fails[of False "moved s 1 n (?b, ''b'', PStart)" 1 ?b "''b''" sample_sha "sample_host User" ?n1] by (simp add: moved_again)
  note R2 = reachable_step[where step = ?step, OF R1 this]
  have "fmlookup (cleanup ?b ?n1) p = (if p \<in> {sa_stage ?b, sa_lock_dir ?b, lock_started_path ?b, lock_operation_path ?b} then None
      else fmlookup ?n1 p)" for p
  proof (rule cleanup_breaks_lock[OF b])
    show "is_dir ?n1 (sa_lock_dir ?b)" using lock by (simp add: is_dir_def sample_lock_names corrupt_args_def sample_args_def)
    show "\<not> is_dir ?n1 (sa_stage ?b)" "\<not> is_dir ?n1 (lock_started_path ?b)" "\<not> is_dir ?n1 (lock_operation_path ?b)"
      using nodir by (auto simp: is_dir_def)
    show "\<forall>p. starts_with p (sa_lock_dir ?b @ [SLASH]) \<longrightarrow> p \<notin> {lock_started_path ?b, lock_operation_path ?b} \<longrightarrow> fmlookup ?n1 p = None"
    proof (intro allI impI)
      fix p assume p: "starts_with p (sa_lock_dir ?b @ [SLASH])" "p \<notin> {lock_started_path ?b, lock_operation_path ?b}"
      have "p \<noteq> sa_stage ?b" "p \<noteq> sa_stage ?a" "p \<noteq> ''/etc''" "p \<noteq> ''/etc/motd''" "p \<noteq> sa_lock_dir ?a"
        using p(1) by (auto simp: starts_with_def corrupt_args_def sample_args_def)
      with look p(2) show "fmlookup ?n1 p = None" by (auto simp: sample_lock_names[of "''1''" "''a''"] sample_fs_def)
    qed
  qed
  note after = this
  define s2 where "s2 = moved s 1 (cleanup ?b ?n1) (?b, ''b'', PDone (ExitError ''stage_hash_mismatch''))"
  have s2: "es_fs s2 = cleanup ?b ?n1" "es_procs s2 = [0 \<mapsto> (?a, ''a'', PChecked),
      1 \<mapsto> (?b, ''b'', PDone (ExitError ''stage_hash_mismatch''))]"
    by (simp_all add: s2_def moved_def s)
  note R2 = R2[folded s2_def]
  have ne: "sa_stage ?b \<noteq> ''/etc''" "sa_stage ?b \<noteq> ''/etc/motd''" "sa_lock_dir ?b \<noteq> ''/etc''" "sa_lock_dir ?b \<noteq> ''/etc/motd''"
    "lock_started_path ?b \<noteq> ''/etc''" "lock_started_path ?b \<noteq> ''/etc/motd''" "lock_operation_path ?b \<noteq> ''/etc''"
    "lock_operation_path ?b \<noteq> ''/etc/motd''" "sa_stage ?c \<noteq> sa_stage ?b"
    by (simp_all add: corrupt_args_def sample_args_def lock_started_path_def lock_operation_path_def)
  have "\<exists>n. ?R (moved s2 2 n (?c, ''c'', PChecked))
      \<and> (\<forall>p. p \<notin> {sa_stage ?c, sa_lock_dir ?c, lock_started_path ?c, lock_operation_path ?c} \<longrightarrow> fmlookup n p = fmlookup (es_fs s2) p)
      \<and> is_dir n (sa_lock_dir ?c) \<and> (\<forall>q. is_dir n q \<longrightarrow> q = sa_lock_dir ?c \<or> is_dir (es_fs s2) q)"
  proof (rule run_to_check[OF R2 sample_healthy sample_args_same_file])
    show "es_procs s2 2 = None" by (simp add: s2)
    show "\<forall>j b inp pc. es_procs s2 j = Some (b, inp, pc) \<longrightarrow> sa_stage b \<noteq> sa_stage ?c"
      by (auto simp: s2 corrupt_args_def sample_args_def split: if_splits)
    show "sa_expected_new ?c = Some (sample_sha ''c'')" by (simp add: sample_args_def sample_sha_def)
    show "is_dir (es_fs s2) (script_parent ''/etc/motd'')" using etc ne after by (simp add: is_dir_def sample_parent s2)
    show "\<not> is_dir (es_fs s2) (sa_stage ?c)" using nodir[of "sa_stage ?c"] ne(9) after by (simp add: is_dir_def s2)
    show "fmlookup (es_fs s2) (sa_lock_dir ?c) = None" using after by (simp add: s2 sample_lock_names[of "''3''" "''c''", symmetric])
    show "expectation_met sample_sha ''/etc/motd'' (sa_expected ?c) (es_fs s2)"
      using etc ne after by (simp add: s2 expectation_met_def sample_args_def sample_sha_def)
  qed
  then obtain m where "?R (moved s2 2 m (?c, ''c'', PChecked))" by blast
  then show ?thesis by (intro exI[of _ "moved s2 2 m (?c, ''c'', PChecked)"]) (simp add: s2)
qed

end
