(* ===== verification/Identify.thy ===== *)
theory Identify
  imports Connection
begin

text \<open>
  The exchange of SSH identifications before the protocol library takes over the stream, and the replay of what was
  read: \<open>src/src/ssh/identification.rs\<close>. The stream delivers fragments; one read returns at most the bytes asked for
  of the next fragment.
\<close>

section \<open>Definitions\<close>

subsection \<open>Reading the identification\<close>

definition MAX_LINE_BYTES :: nat where "MAX_LINE_BYTES = 255"
definition MAX_PREAMBLE_LINES :: nat where "MAX_PREAMBLE_LINES = 20"
definition READ_BYTES :: nat where "READ_BYTES = 256"

datatype ident_error = IdentEof | LineTooLong | TooManyLines

fun platform_display :: "remote_platform \<Rightarrow> string" where
  "platform_display Posix = ''posix''"
| "platform_display Routeros = ''routeros''"

definition classify :: "string \<Rightarrow> remote_platform option" where
  "classify line =
     (case from_utf8 line of
        None \<Rightarrow> None
      | Some line \<Rightarrow>
          (case (case strip_prefix line ''SSH-2.0-'' of Some s \<Rightarrow> Some s | None \<Rightarrow> strip_prefix line ''SSH-1.99-'') of
             None \<Rightarrow> None
           | Some software \<Rightarrow> Some (if hd (split_on (CHR '' '') software) = ''ROSSSH'' then Routeros else Posix)))"

text \<open>The position of the first newline after the first byte.\<close>

definition find_terminator :: "string \<Rightarrow> nat option" where
  "find_terminator pending = List.find (\<lambda>i. pending ! i = NL) [1..<length pending]"

lemma find_terminator_Some:
  "find_terminator xs = Some i \<longleftrightarrow> 1 \<le> i \<and> i < length xs \<and> xs ! i = NL \<and> (\<forall>j. 1 \<le> j \<and> j < i \<longrightarrow> xs ! j \<noteq> NL)"
proof
  assume "find_terminator xs = Some i"
  then obtain k where "k < length [1..<length xs]" "[1..<length xs] ! k = i" "xs ! i = NL"
    "\<forall>j<k. xs ! ([1..<length xs] ! j) \<noteq> NL"
    unfolding find_terminator_def find_Some_iff by auto
  then have k: "i = k + 1" "i < length xs" "xs ! i = NL" "\<forall>j<k. xs ! (j + 1) \<noteq> NL" by auto
  have "xs ! j \<noteq> NL" if "1 \<le> j \<and> j < i" for j using k(1,4) that by (cases j) auto
  with k show "1 \<le> i \<and> i < length xs \<and> xs ! i = NL \<and> (\<forall>j. 1 \<le> j \<and> j < i \<longrightarrow> xs ! j \<noteq> NL)" by auto
next
  assume i: "1 \<le> i \<and> i < length xs \<and> xs ! i = NL \<and> (\<forall>j. 1 \<le> j \<and> j < i \<longrightarrow> xs ! j \<noteq> NL)"
  then show "find_terminator xs = Some i"
    unfolding find_terminator_def find_Some_iff by (intro exI[of _ "i - 1"]) auto
qed

text \<open>The inner loop over the lines that are complete.\<close>

datatype ident_scan = IdentFound remote_platform | NeedMore nat nat | IdentBad ident_error

function scan_ident :: "string \<Rightarrow> nat \<Rightarrow> nat \<Rightarrow> ident_scan" where
  "scan_ident replay line_start preamble_lines =
     (let pending = drop line_start replay in
      case find_terminator pending of
        None \<Rightarrow> if length pending \<ge> MAX_LINE_BYTES then IdentBad LineTooLong else NeedMore line_start preamble_lines
      | Some newline \<Rightarrow>
          if newline + 1 > MAX_LINE_BYTES then IdentBad LineTooLong
          else case classify (strip_cr (take newline pending)) of
            Some platform \<Rightarrow> IdentFound platform
          | None \<Rightarrow>
              if preamble_lines + 1 > MAX_PREAMBLE_LINES then IdentBad TooManyLines
              else scan_ident replay (line_start + newline + 1) (preamble_lines + 1))"
  by pat_completeness auto
termination
  by (relation "measure (\<lambda>(replay, line_start, preamble_lines). length replay - line_start)")
    (auto simp: find_terminator_Some)

declare scan_ident.simps [simp del]

text \<open>The outer loop. It returns everything read so far, the fragments that are left and the platform.\<close>

function identify_loop ::
  "string list \<Rightarrow> string \<Rightarrow> nat \<Rightarrow> nat \<Rightarrow> (string \<times> string list \<times> remote_platform, ident_error) result" where
  "identify_loop frags replay line_start preamble_lines =
     (case frags of
        [] \<Rightarrow> Err IdentEof
      | f # fs \<Rightarrow>
          let available = READ_BYTES - (length replay - line_start);
              got = take available f;
              rest = (if drop available f = [] then fs else drop available f # fs) in
          if got = [] then Err IdentEof
          else case scan_ident (replay @ got) line_start preamble_lines of
            IdentBad e \<Rightarrow> Err e
          | IdentFound platform \<Rightarrow> Ok (replay @ got, rest, platform)
          | NeedMore line_start' preamble_lines' \<Rightarrow> identify_loop rest (replay @ got) line_start' preamble_lines')"
  by pat_completeness auto
termination
  by (relation "measure (\<lambda>(frags, replay, line_start, preamble_lines). length (concat frags))") (auto split: if_splits)

declare identify_loop.simps [simp del]

definition identify :: "string list \<Rightarrow> (string \<times> string list \<times> remote_platform, ident_error) result" where
  "identify frags = identify_loop frags [] 0 0"

subsection \<open>The stream given to the protocol library\<close>

datatype ssh_id = Standard string | RawId string

fun client_id_bytes :: "ssh_id \<Rightarrow> string" where
  "client_id_bytes (Standard v) = v @ [CR, NL]"
| "client_id_bytes (RawId v) = v"

record ident_stream =
  is_inner :: "string list"
  is_replay :: string
  is_replay_offset :: nat
  is_client_id :: string
  is_client_id_offset :: nat
  is_written :: string

text \<open>A read into a buffer of \<open>n\<close> bytes; a read of the inner stream returns a part of its next fragment.\<close>

definition inner_read :: "nat \<Rightarrow> string list \<Rightarrow> string \<times> string list" where
  "inner_read n frags =
     (case frags of [] \<Rightarrow> ([], []) | f # fs \<Rightarrow> (take n f, if drop n f = [] then fs else drop n f # fs))"

definition poll_read :: "nat \<Rightarrow> ident_stream \<Rightarrow> string \<times> ident_stream" where
  "poll_read n s =
     (if is_replay_offset s < length (is_replay s) then
        let stop = min (length (is_replay s)) (is_replay_offset s + n) in
        (take (stop - is_replay_offset s) (drop (is_replay_offset s) (is_replay s)), s\<lparr>is_replay_offset := stop\<rparr>)
      else case inner_read n (is_inner s) of (got, rest) \<Rightarrow> (got, s\<lparr>is_inner := rest\<rparr>))"

text \<open>A write: the identification that was sent already is swallowed, and compared.\<close>

definition poll_write :: "string \<Rightarrow> ident_stream \<Rightarrow> (nat, unit) result \<times> ident_stream" where
  "poll_write buffer s =
     (if is_client_id_offset s < length (is_client_id s) then
        let count = min (length buffer) (length (is_client_id s) - is_client_id_offset s) in
        if take count buffer \<noteq> take count (drop (is_client_id_offset s) (is_client_id s)) then (Err (), s)
        else (Ok count, s\<lparr>is_client_id_offset := is_client_id_offset s + count\<rparr>)
      else (Ok (length buffer), s\<lparr>is_written := is_written s @ buffer\<rparr>))"

definition start_stream :: "ssh_id \<Rightarrow> string list \<Rightarrow> (ident_stream \<times> remote_platform, ident_error) result" where
  "start_stream sid frags =
     (case identify frags of
        Err e \<Rightarrow> Err e
      | Ok (replay, rest, platform) \<Rightarrow>
          Ok (\<lparr>is_inner = rest, is_replay = replay, is_replay_offset = 0, is_client_id = client_id_bytes sid,
               is_client_id_offset = 0, is_written = client_id_bytes sid\<rparr>, platform))"

text \<open>A caller that writes until everything is accepted, and one that reads with buffers of given sizes.\<close>

function write_all_ident :: "string \<Rightarrow> ident_stream \<Rightarrow> (unit, unit) result \<times> ident_stream" where
  "write_all_ident buffer s =
     (if buffer = [] then (Ok (), s)
      else case poll_write buffer s of
        (Err _, s1) \<Rightarrow> (Err (), s1)
      | (Ok count, s1) \<Rightarrow> if count = 0 then (Err (), s1) else write_all_ident (drop count buffer) s1)"
  by pat_completeness auto
termination
  by (relation "measure (\<lambda>(buffer, s). length buffer)") auto

declare write_all_ident.simps [simp del]

fun read_sizes :: "nat list \<Rightarrow> ident_stream \<Rightarrow> string \<times> ident_stream" where
  "read_sizes [] s = ([], s)"
| "read_sizes (n # ns) s =
     (case poll_read n s of (got, s1) \<Rightarrow> (case read_sizes ns s1 of (more_bytes, s2) \<Rightarrow> (got @ more_bytes, s2)))"

text \<open>The same decision on the whole byte stream, line by line.\<close>

function ident_ref :: "string \<Rightarrow> nat \<Rightarrow> (remote_platform, ident_error) result" where
  "ident_ref bytes preamble_lines =
     (case find_terminator (take MAX_LINE_BYTES bytes) of
        None \<Rightarrow> Err (if length bytes \<ge> MAX_LINE_BYTES then LineTooLong else IdentEof)
      | Some newline \<Rightarrow>
          (case classify (strip_cr (take newline bytes)) of
             Some platform \<Rightarrow> Ok platform
           | None \<Rightarrow>
               if preamble_lines + 1 > MAX_PREAMBLE_LINES then Err TooManyLines
               else ident_ref (drop (newline + 1) bytes) (preamble_lines + 1)))"
  by pat_completeness auto
termination
  by (relation "measure (\<lambda>(bytes, preamble_lines). length bytes)") (auto simp: find_terminator_Some)

declare ident_ref.simps [simp del]

text \<open>Scanning what has arrived agrees with the decision on the whole stream.\<close>

definition scan_agrees :: "string \<Rightarrow> nat \<Rightarrow> nat \<Rightarrow> string \<Rightarrow> ident_scan \<Rightarrow> bool" where
  "scan_agrees replay line_start preamble_lines more_bytes r \<longleftrightarrow>
     (let full = ident_ref (drop line_start replay @ more_bytes) preamble_lines in
      case r of
        IdentFound platform \<Rightarrow> full = Ok platform
      | IdentBad e \<Rightarrow> full = Err e
      | NeedMore line_start' preamble_lines' \<Rightarrow>
          full = ident_ref (drop line_start' replay @ more_bytes) preamble_lines' \<and> line_start' \<le> length replay
          \<and> length replay - line_start' < MAX_LINE_BYTES \<and> find_terminator (drop line_start' replay) = None)"

text \<open>What the library has still to read of the stream, and to write of the identification.\<close>

definition unread :: "ident_stream \<Rightarrow> string" where
  "unread s = drop (is_replay_offset s) (is_replay s) @ concat (is_inner s)"

definition owed :: "ident_stream \<Rightarrow> string" where
  "owed s = drop (is_client_id_offset s) (is_client_id s)"

text \<open>A caller that writes a list of buffers.\<close>

fun write_list :: "string list \<Rightarrow> ident_stream \<Rightarrow> (unit, unit) result \<times> ident_stream" where
  "write_list [] s = (Ok (), s)"
| "write_list (b # bs) s = (case write_all_ident b s of (Ok _, s1) \<Rightarrow> write_list bs s1 | (Err e, s1) \<Rightarrow> (Err e, s1))"

section \<open>Lemmas\<close>

lemma find_terminator_None: "find_terminator xs = None \<longleftrightarrow> (\<forall>i. 1 \<le> i \<and> i < length xs \<longrightarrow> xs ! i \<noteq> NL)"
  by (auto simp: find_terminator_def find_None_iff)

lemma find_terminator_take:
  assumes "find_terminator xs = Some i"
  shows "find_terminator (take m (xs @ ys)) = (if i < m then Some i else None)"
proof (cases "i < m")
  case True
  with assms have "find_terminator (take m (xs @ ys)) = Some i"
    unfolding find_terminator_Some by (auto simp: nth_append)
  with True show ?thesis by simp
next
  case False
  with assms have "find_terminator (take m (xs @ ys)) = None"
    unfolding find_terminator_Some find_terminator_None by (auto simp: nth_append)
  with False show ?thesis by simp
qed

lemma find_terminator_take_None:
  "find_terminator xs = None \<Longrightarrow> m \<le> length xs \<Longrightarrow> find_terminator (take m (xs @ ys)) = None"
  unfolding find_terminator_None by simp

lemma scan_ident_agrees:
  assumes "line_start \<le> length replay"
  shows "scan_agrees replay line_start preamble_lines more_bytes (scan_ident replay line_start preamble_lines)"
  using assms
proof (induction replay line_start preamble_lines rule: scan_ident.induct)
  case (1 replay line_start preamble_lines)
  define pending where "pending = drop line_start replay"
  show ?case
  proof (cases "find_terminator pending")
    case None
    show ?thesis
    proof (cases "length pending \<ge> MAX_LINE_BYTES")
      case True
      with None find_terminator_take_None[OF None True, of more_bytes] show ?thesis
        by (simp add: scan_agrees_def scan_ident.simps[of replay] ident_ref.simps[of "_ @ _"] pending_def[symmetric])
    next
      case False
      with None 1(2) show ?thesis
        by (simp add: scan_agrees_def scan_ident.simps[of replay] pending_def[symmetric]) (simp add: pending_def)
    qed
  next
    case (Some newline)
    note find = find_terminator_take[OF Some, of MAX_LINE_BYTES more_bytes]
    have nl: "newline < length pending" using Some by (simp add: find_terminator_Some)
    show ?thesis
    proof (cases "newline + 1 > MAX_LINE_BYTES")
      case True
      with Some find nl show ?thesis
        by (simp add: scan_agrees_def scan_ident.simps[of replay] ident_ref.simps[of "_ @ _"] pending_def[symmetric])
    next
      case short: False
      let ?c = "classify (strip_cr (take newline pending))"
      show ?thesis
      proof (cases "?c = None \<and> preamble_lines + 1 \<le> MAX_PREAMBLE_LINES")
        case True
        have scan: "scan_ident replay line_start preamble_lines = scan_ident replay (line_start + newline + 1) (preamble_lines + 1)"
          using Some short True by (simp add: scan_ident.simps[of replay line_start] pending_def[symmetric])
        have ref: "ident_ref (pending @ more_bytes) preamble_lines
            = ident_ref (drop (line_start + newline + 1) replay @ more_bytes) (preamble_lines + 1)"
          using Some short True find nl by (simp add: ident_ref.simps[of "pending @ _"]) (simp add: pending_def add.commute)
        have IH: "scan_agrees replay (line_start + newline + 1) (preamble_lines + 1) more_bytes
            (scan_ident replay (line_start + newline + 1) (preamble_lines + 1))"
          by (rule "1.IH"[OF pending_def Some short]) (use True nl in \<open>auto simp: pending_def\<close>)
        show ?thesis unfolding scan using IH by (simp add: scan_agrees_def ref[unfolded pending_def])
      next
        case False
        with Some short find nl show ?thesis
          by (cases ?c) (auto simp: scan_agrees_def scan_ident.simps[of replay] ident_ref.simps[of "_ @ _"] pending_def[symmetric])
      qed
    qed
  qed
qed

lemma identify_loop_ref:
  assumes "line_start \<le> length replay" "length replay - line_start < MAX_LINE_BYTES" "\<forall>f\<in>set frags. f \<noteq> []"
    "find_terminator (drop line_start replay) = None"
  shows "case ident_ref (drop line_start replay @ concat frags) preamble_lines of
      Err e \<Rightarrow> identify_loop frags replay line_start preamble_lines = Err e
    | Ok platform \<Rightarrow> \<exists>read_bytes rest. identify_loop frags replay line_start preamble_lines = Ok (read_bytes, rest, platform)
        \<and> read_bytes @ concat rest = replay @ concat frags"
  using assms
proof (induction frags replay line_start preamble_lines rule: identify_loop.induct)
  case (1 frags replay line_start preamble_lines)
  show ?case
  proof (cases frags)
    case Nil
    with 1(2-) show ?thesis by (simp add: identify_loop.simps[of "[]"] ident_ref.simps[of "drop _ _"])
  next
    case (Cons f fs)
    define available where "available = READ_BYTES - (length replay - line_start)"
    define got where "got = take available f"
    define rest where "rest = (if drop available f = [] then fs else drop available f # fs)"
    have ne: "f \<noteq> []" using 1(4) Cons by simp
    have pos: "0 < available" using 1(3) by (simp add: available_def READ_BYTES_def MAX_LINE_BYTES_def)
    have got: "got \<noteq> []" using ne pos by (simp add: got_def)
    have split: "got @ concat rest = concat frags"
      by (cases "drop available f = []") (simp_all add: Cons got_def rest_def append_assoc[symmetric] del: append_assoc)
    have ls: "line_start \<le> length (replay @ got)" using 1(2) by simp
    have full: "drop line_start (replay @ got) @ concat rest = drop line_start replay @ concat frags"
      using 1(2) split by simp
    note agree = scan_ident_agrees[OF ls, of preamble_lines "concat rest", unfolded scan_agrees_def Let_def full]
    have loop: "identify_loop frags replay line_start preamble_lines =
      (case scan_ident (replay @ got) line_start preamble_lines of
         IdentBad e \<Rightarrow> Err e
       | IdentFound platform \<Rightarrow> Ok (replay @ got, rest, platform)
       | NeedMore ls' pre' \<Rightarrow> identify_loop rest (replay @ got) ls' pre')"
      using got unfolding Cons identify_loop.simps[of "f # fs"] list.case Let_def available_def[symmetric] got_def[symmetric]
        rest_def[symmetric] by (simp only: if_False)
    show ?thesis
    proof (cases "scan_ident (replay @ got) line_start preamble_lines")
      case (IdentFound platform)
      with agree have "ident_ref (drop line_start replay @ concat frags) preamble_lines = Ok platform" by simp
      with IdentFound loop split show ?thesis by auto
    next
      case (IdentBad e)
      with agree loop show ?thesis by simp
    next
      case (NeedMore ls' pre')
      with agree have n: "ident_ref (drop line_start replay @ concat frags) preamble_lines
          = ident_ref (drop ls' (replay @ got) @ concat rest) pre'" "ls' \<le> length (replay @ got)"
        "length (replay @ got) - ls' < MAX_LINE_BYTES" "find_terminator (drop ls' (replay @ got)) = None" by auto
      have "\<forall>f\<in>set rest. f \<noteq> []" using 1(4) Cons by (auto simp: rest_def)
      from "1.IH"[OF Cons available_def got_def rest_def got NeedMore n(2,3) this n(4)] loop NeedMore n(1) split
      show ?thesis by (simp add: append_assoc[symmetric] del: append_assoc split: result.splits) (simp add: split)
    qed
  qed
qed

lemma poll_read_unread:
  assumes "poll_read n s = (got, s')"
  shows "got @ unread s' = unread s"
proof (cases "is_replay_offset s < length (is_replay s)")
  case True
  let ?r = "drop (is_replay_offset s) (is_replay s)"
  let ?k = "min (length (is_replay s)) (is_replay_offset s + n) - is_replay_offset s"
  have k: "min (length (is_replay s)) (is_replay_offset s + n) = is_replay_offset s + ?k" using True by simp
  have "drop (is_replay_offset s + ?k) (is_replay s) = drop ?k ?r" by (simp add: add.commute)
  moreover have "got = take ?k ?r" "s' = s\<lparr>is_replay_offset := is_replay_offset s + ?k\<rparr>"
    using True assms k by (auto simp: poll_read_def Let_def)
  ultimately have "got @ unread s' = (take ?k ?r @ drop ?k ?r) @ concat (is_inner s)" by (simp add: unread_def)
  then show ?thesis unfolding append_take_drop_id unread_def .
next
  case False
  with assms show ?thesis
    by (auto simp: poll_read_def unread_def inner_read_def append_assoc[symmetric] simp del: append_assoc
        split: list.splits if_splits prod.splits)
qed

lemma read_sizes_unread: "read_sizes ns s = (got, s') \<Longrightarrow> got @ unread s' = unread s"
proof (induction ns arbitrary: s got s')
  case (Cons n ns)
  obtain g1 s1 where 1: "poll_read n s = (g1, s1)" by fastforce
  obtain g2 s2 where 2: "read_sizes ns s1 = (g2, s2)" by fastforce
  from Cons.prems 1 2 have "got = g1 @ g2" "s' = s2" by auto
  with Cons.IH[OF 2] poll_read_unread[OF 1] show ?case by simp
qed simp

lemma poll_write_owed:
  assumes "b \<noteq> []" "b @ m = owed s @ x"
  shows "\<exists>count s' x'. poll_write b s = (Ok count, s') \<and> 0 < count \<and> drop count b @ m = owed s' @ x'
     \<and> is_written s' @ x' = is_written s @ x"
proof (cases "is_client_id_offset s < length (is_client_id s)")
  case True
  define count where "count = min (length b) (length (owed s))"
  have "0 < count" using True assms(1) by (simp add: count_def owed_def)
  have eq: "take count b = take count (owed s)"
    using arg_cong[OF assms(2), of "take count"] by (simp add: count_def)
  have "drop count (b @ m) = drop count (owed s @ x)" using assms(2) by simp
  then have rest: "drop count b @ m = drop count (owed s) @ x" by (simp add: count_def)
  have "poll_write b s = (Ok count, s\<lparr>is_client_id_offset := is_client_id_offset s + count\<rparr>)"
    using True eq by (simp add: poll_write_def count_def owed_def Let_def)
  moreover have "owed (s\<lparr>is_client_id_offset := is_client_id_offset s + count\<rparr>) = drop count (owed s)"
    by (simp add: owed_def add.commute)
  ultimately show ?thesis using \<open>0 < count\<close> rest by auto
next
  case False
  then have "owed s = []" by (simp add: owed_def)
  with assms False show ?thesis
    by (intro exI[of _ "length b"] exI[of _ "s\<lparr>is_written := is_written s @ b\<rparr>"] exI[of _ m])
      (auto simp: poll_write_def owed_def)
qed

lemma write_all_owed:
  "b @ m = owed s @ x \<Longrightarrow> \<exists>s' x'. write_all_ident b s = (Ok (), s') \<and> m = owed s' @ x' \<and> is_written s' @ x' = is_written s @ x"
proof (induction b s arbitrary: x rule: write_all_ident.induct)
  case (1 b s)
  show ?case
  proof (cases "b = []")
    case True
    with 1(2) show ?thesis by (auto simp: write_all_ident.simps[of "[]"])
  next
    case False
    from poll_write_owed[OF False 1(2)] obtain count s1 x1 where
      w: "poll_write b s = (Ok count, s1)" "0 < count" "drop count b @ m = owed s1 @ x1" "is_written s1 @ x1 = is_written s @ x"
      by blast
    from 1(1)[OF False w(1)[symmetric] refl _ w(3)] w(2) obtain s' x' where
      "write_all_ident (drop count b) s1 = (Ok (), s')" "m = owed s' @ x'" "is_written s' @ x' = is_written s1 @ x1" by auto
    with False w show ?thesis by (auto simp: write_all_ident.simps[of b])
  qed
qed

lemma write_list_owed:
  "concat bs = owed s @ x \<Longrightarrow> \<exists>s'. write_list bs s = (Ok (), s') \<and> is_written s' = is_written s @ x"
proof (induction bs arbitrary: s x)
  case (Cons b bs)
  from write_all_owed[of b "concat bs" s x] Cons.prems obtain s1 x1 where
    1: "write_all_ident b s = (Ok (), s1)" "concat bs = owed s1 @ x1" "is_written s1 @ x1 = is_written s @ x" by auto
  from Cons.IH[OF 1(2)] 1 show ?case by auto
qed auto

section \<open>Properties\<close>

text \<open>The exchange does not depend on how the network cuts the stream into fragments, and it is invisible to the
  protocol library: the platform, or the error, is the one that the lines of the whole stream decide; with any buffer
  sizes the library reads the bytes of the stream in order, from the first; and however it cuts its own writes, when they
  begin with the identification the peer receives that identification once and everything after it.\<close>

theorem identify_transparent:
  assumes "\<forall>f\<in>set frags. f \<noteq> []"
  shows "case ident_ref (concat frags) 0 of
      Err e \<Rightarrow> start_stream sid frags = Err e
    | Ok platform \<Rightarrow> \<exists>s. start_stream sid frags = Ok (s, platform)
        \<and> (\<forall>ns. \<exists>later. fst (read_sizes ns s) @ later = concat frags)
        \<and> (\<forall>bs x. concat bs = client_id_bytes sid @ x \<longrightarrow>
             (\<exists>s'. write_list bs s = (Ok (), s') \<and> is_written s' = client_id_bytes sid @ x))"
proof -
  have ref: "case ident_ref (concat frags) 0 of
      Err e \<Rightarrow> identify frags = Err e
    | Ok platform \<Rightarrow> \<exists>read_bytes rest. identify frags = Ok (read_bytes, rest, platform) \<and> read_bytes @ concat rest = concat frags"
    using identify_loop_ref[of 0 "[]" frags 0] assms
    by (simp add: identify_def MAX_LINE_BYTES_def find_terminator_None split: result.splits)
  show ?thesis
  proof (cases "ident_ref (concat frags) 0")
    case (Ok platform)
    with ref obtain read_bytes rest where r: "identify frags = Ok (read_bytes, rest, platform)" "read_bytes @ concat rest = concat frags"
      by auto
    define s where "s = \<lparr>is_inner = rest, is_replay = read_bytes, is_replay_offset = 0, is_client_id = client_id_bytes sid,
      is_client_id_offset = 0, is_written = client_id_bytes sid\<rparr>"
    have "start_stream sid frags = Ok (s, platform)" using r by (simp add: start_stream_def s_def)
    moreover have "\<exists>later. fst (read_sizes ns s) @ later = concat frags" for ns
    proof -
      obtain got s' where "read_sizes ns s = (got, s')" by fastforce
      with read_sizes_unread[OF this] r(2) show ?thesis by (auto simp: unread_def s_def)
    qed
    moreover have "\<exists>s'. write_list bs s = (Ok (), s') \<and> is_written s' = client_id_bytes sid @ x"
      if "concat bs = client_id_bytes sid @ x" for bs x
    proof -
      have "concat bs = owed s @ x" using that by (simp add: owed_def s_def)
      from write_list_owed[OF this] show ?thesis by (simp add: s_def)
    qed
    ultimately show ?thesis using Ok by auto
  next
    case (Err e)
    with ref show ?thesis by (simp add: start_stream_def)
  qed
qed

theorem identify_transparent_witness:
  "\<exists>s. start_stream (Standard ''SSH-2.0-x'') [''hi'' @ [NL] @ ''SSH-2.0-RO'', ''SSSH'' @ [CR, NL] @ ''kex''] = Ok (s, Routeros)"
proof -
  have r: "ident_ref (concat [''hi'' @ [NL] @ ''SSH-2.0-RO'', ''SSSH'' @ [CR, NL] @ ''kex'']) 0 = Ok Routeros" by code_simp
  show ?thesis
    using identify_transparent[of "[''hi'' @ [NL] @ ''SSH-2.0-RO'', ''SSSH'' @ [CR, NL] @ ''kex'']" "Standard ''SSH-2.0-x''"]
    unfolding r by auto
qed

end
