(* ===== verification/RawExec.thy ===== *)
theory RawExec
  imports Output
begin

text \<open>
  Raw streams of file transfers: \<open>exec_raw_streaming_cancellable\<close>, its channel task and its pump, in
  \<open>src/src/ssh/command.rs\<close>. Two tasks run concurrently: one owns the channel, the other reads standard input and
  takes the events. What each \<open>select!\<close> picks is an argument, a list of inputs; a list that ends before the loop does
  is a loop that still waits.
\<close>

section \<open>Definitions\<close>

subsection \<open>The task that owns the channel\<close>

datatype raw_stream_event = RawStdout string | RawStderr string | RawExitStatus nat | RawClosed

datatype raw_error = RawCancelled | RawStdinSend | RawStdinRead | RawStdoutWrite | RawTimeout nat | RawNoSlot | RawNoChannel

text \<open>A choice of the loop: cancellation, a chunk of standard input with whether the channel took it, the end of
  standard input, a message, or that the channel yields no more. A message after cancellation is discarded.\<close>

datatype task_input =
    TaskCancelled
  | StdinChunk string bool
  | StdinEnd
  | ChannelMsg channel_msg
  | ChannelGone

text \<open>The events for the pump, the bytes sent to the channel, and the result; None when the task still waits.\<close>

fun raw_channel_task ::
  "task_input list \<Rightarrow> bool \<Rightarrow> raw_stream_event list \<times> string \<times> (unit, raw_error) result option" where
  "raw_channel_task [] sent_closed = ([], [], None)"
| "raw_channel_task (i # inputs) sent_closed =
     (case i of
        TaskCancelled \<Rightarrow> (if sent_closed then [] else [RawClosed], [], Some (Err RawCancelled))
      | StdinChunk chunk ok \<Rightarrow>
          if ok then (case raw_channel_task inputs sent_closed of (es, sent, r) \<Rightarrow> (es, chunk @ sent, r))
          else ([], [], Some (Err RawStdinSend))
      | StdinEnd \<Rightarrow> raw_channel_task inputs sent_closed
      | ChannelGone \<Rightarrow> (if sent_closed then [] else [RawClosed], [], Some (Ok ()))
      | ChannelMsg msg \<Rightarrow>
          let (ev, sent_closed') =
            (case msg of
               Data data \<Rightarrow> ([RawStdout data], sent_closed)
             | ExtendedData ext data \<Rightarrow> (if ext = 1 then [RawStderr data] else [RawStdout data], sent_closed)
             | ExitStatus exit_status \<Rightarrow> ([RawExitStatus exit_status], sent_closed)
             | ExitSignal signal_name \<Rightarrow> ([RawExitStatus (nat (signal_code signal_name))], sent_closed)
             | Close \<Rightarrow> (if sent_closed then [] else [RawClosed], True)
             | Eof \<Rightarrow> (if sent_closed then [] else [RawClosed], True)
             | _ \<Rightarrow> ([], sent_closed)) in
          (case raw_channel_task inputs sent_closed' of (es, sent, r) \<Rightarrow> (ev @ es, sent, r)))"

subsection \<open>The pump\<close>

record transfer_raw_output =
  xo_exit_code :: "nat option"
  xo_stderr :: string
  xo_stdin_bytes :: nat
  xo_stdout_bytes :: nat

text \<open>\<open>pm_written\<close> is what the writer was given.\<close>

record pump =
  pm_output :: transfer_raw_output
  pm_written :: string
  pm_total_stderr_bytes :: nat
  pm_stderr_truncated :: bool
  pm_stdin_done :: bool
  pm_channel_closed :: bool
  pm_out_rx_closed :: bool

definition pump_start :: "bool \<Rightarrow> pump" where
  "pump_start has_stdin =
     \<lparr>pm_output = \<lparr>xo_exit_code = None, xo_stderr = [], xo_stdin_bytes = 0, xo_stdout_bytes = 0\<rparr>, pm_written = [],
      pm_total_stderr_bytes = 0, pm_stderr_truncated = False, pm_stdin_done = \<not> has_stdin, pm_channel_closed = False,
      pm_out_rx_closed = False\<rparr>"

text \<open>A choice of the loop: a read of standard input (None when it fails) with whether the task took the chunk; an
  event with whether the writer took its bytes; that no more events come; cancellation.\<close>

datatype pump_input =
    PumpStdin "string option" bool
  | PumpEvent raw_stream_event bool
  | PumpGone
  | PumpCancelled

definition pump_event :: "nat \<Rightarrow> raw_stream_event \<Rightarrow> bool \<Rightarrow> pump \<Rightarrow> (pump, raw_error) result" where
  "pump_event limit ev written p =
     (let output = pm_output p in
      case ev of
        RawStdout data \<Rightarrow>
          if written
          then Ok (p\<lparr>pm_output := output\<lparr>xo_stdout_bytes := xo_stdout_bytes output + length data\<rparr>,
                     pm_written := pm_written p @ data\<rparr>)
          else Err RawStdoutWrite
      | RawStderr data \<Rightarrow>
          let p1 = p\<lparr>pm_total_stderr_bytes := sat_add (pm_total_stderr_bytes p) (length data)\<rparr> in
          if pm_stderr_truncated p then Ok p1
          else (case append_bounded_lossy_stderr (xo_stderr output) data limit of
                  (stderr, truncated) \<Rightarrow>
                    Ok (p1\<lparr>pm_output := output\<lparr>xo_stderr := stderr\<rparr>, pm_stderr_truncated := truncated\<rparr>))
      | RawExitStatus exit_status \<Rightarrow> Ok (p\<lparr>pm_output := output\<lparr>xo_exit_code := Some exit_status\<rparr>\<rparr>)
      | RawClosed \<Rightarrow> Ok (p\<lparr>pm_channel_closed := True\<rparr>))"

definition pump_stdin :: "string option \<Rightarrow> bool \<Rightarrow> pump \<Rightarrow> (pump, raw_error) result" where
  "pump_stdin read_res taken p =
     (case read_res of
        None \<Rightarrow> Err RawStdinRead
      | Some chunk \<Rightarrow>
          if chunk = [] then Ok (p\<lparr>pm_stdin_done := True\<rparr>)
          else if \<not> taken then Err RawStdinSend
          else Ok (p\<lparr>pm_output := (pm_output p)\<lparr>xo_stdin_bytes := xo_stdin_bytes (pm_output p) + length chunk\<rparr>\<rparr>))"

text \<open>A disabled branch of the \<open>select!\<close> is never picked: it leaves the state as it is.\<close>

definition pump_step :: "nat \<Rightarrow> pump_input \<Rightarrow> pump \<Rightarrow> (pump, raw_error) result" where
  "pump_step limit i p =
     (case i of
        PumpStdin read_res taken \<Rightarrow> if pm_stdin_done p then Ok p else pump_stdin read_res taken p
      | PumpEvent ev written \<Rightarrow> pump_event limit ev written p
      | PumpGone \<Rightarrow> Ok (p\<lparr>pm_out_rx_closed := True\<rparr>)
      | PumpCancelled \<Rightarrow> Ok (p\<lparr>pm_stdin_done := True\<rparr>))"

definition pump_done :: "pump \<Rightarrow> bool" where
  "pump_done p \<longleftrightarrow> pm_stdin_done p \<and> pm_channel_closed p \<and> pm_out_rx_closed p"

definition raw_truncation_notice :: "nat \<Rightarrow> nat \<Rightarrow> string" where
  "raw_truncation_notice total_bytes limit =
     [NL] @ ''[stderr truncated: '' @ show_nat total_bytes @ '' bytes total, limit '' @ show_nat limit @ '' bytes]''"

definition pump_finish :: "nat \<Rightarrow> pump \<Rightarrow> string \<times> transfer_raw_output" where
  "pump_finish limit p =
     (pm_written p,
      if pm_stderr_truncated p
      then (pm_output p)\<lparr>xo_stderr := xo_stderr (pm_output p) @ raw_truncation_notice (pm_total_stderr_bytes p) limit\<rparr>
      else pm_output p)"

fun raw_pump :: "nat \<Rightarrow> pump_input list \<Rightarrow> pump \<Rightarrow> (pump, raw_error) result option" where
  "raw_pump limit [] p = (if pump_done p then Some (Ok p) else None)"
| "raw_pump limit (i # inputs) p =
     (if pump_done p then Some (Ok p)
      else case pump_step limit i p of Err e \<Rightarrow> Some (Err e) | Ok p' \<Rightarrow> raw_pump limit inputs p')"

subsection \<open>The whole operation\<close>

text \<open>How the operation ends: it finishes by itself, the deadline passes, or the caller cancels it.\<close>

datatype raw_stop = RawFinishes | RawDeadline | RawCallerCancels

record raw_world =
  rw_slot :: bool
  rw_channel :: bool
  rw_task :: "task_input list"
  rw_pump :: "pump_input list"
  rw_stop :: raw_stop
  rw_has_stdin :: bool

text \<open>The result with what was written to the sink; None when nothing ends the operation.\<close>

definition exec_raw_streaming_cancellable ::
  "nat option \<Rightarrow> nat \<Rightarrow> raw_world \<Rightarrow> (string \<times> transfer_raw_output, raw_error) result option" where
  "exec_raw_streaming_cancellable max_output_tokens timeout_ms w =
     (if \<not> rw_slot w then Some (Err RawNoSlot)
      else case rw_stop w of
        RawDeadline \<Rightarrow> Some (Err (RawTimeout timeout_ms))
      | RawCallerCancels \<Rightarrow> Some (Err RawCancelled)
      | RawFinishes \<Rightarrow>
          if \<not> rw_channel w then Some (Err RawNoChannel)
          else
            let limit = resolve_raw_stream_stderr_limit max_output_tokens in
            (case raw_pump limit (rw_pump w) (pump_start (rw_has_stdin w)) of
               None \<Rightarrow> None
             | Some (Err e) \<Rightarrow> Some (Err e)
             | Some (Ok p) \<Rightarrow>
                 (case snd (snd (raw_channel_task (rw_task w) False)) of
                    None \<Rightarrow> None
                  | Some (Err e) \<Rightarrow> Some (Err e)
                  | Some (Ok _) \<Rightarrow> Some (Ok (pump_finish limit p)))))"

subsection \<open>What the streams carry\<close>

text \<open>The queue between the tasks delivers the events in order, and it ends when they are all taken.\<close>

fun delivers :: "raw_stream_event list \<Rightarrow> pump_input list \<Rightarrow> bool" where
  "delivers es [] = True"
| "delivers es (PumpEvent e written # inputs) = (case es of [] \<Rightarrow> False | e' # es' \<Rightarrow> e = e' \<and> delivers es' inputs)"
| "delivers es (PumpGone # inputs) = (es = [] \<and> delivers [] inputs)"
| "delivers es (_ # inputs) = delivers es inputs"

fun channel_msgs :: "task_input list \<Rightarrow> channel_msg list" where
  "channel_msgs [] = []"
| "channel_msgs (ChannelMsg m # inputs) = m # channel_msgs inputs"
| "channel_msgs (ChannelGone # inputs) = []"
| "channel_msgs (_ # inputs) = channel_msgs inputs"

fun raw_stdout_part :: "channel_msg \<Rightarrow> string" where
  "raw_stdout_part (Data d) = d"
| "raw_stdout_part (ExtendedData ext d) = (if ext = 1 then [] else d)"
| "raw_stdout_part _ = []"

fun stdin_chunks :: "task_input list \<Rightarrow> string" where
  "stdin_chunks [] = []"
| "stdin_chunks (StdinChunk c _ # inputs) = c @ stdin_chunks inputs"
| "stdin_chunks (ChannelGone # inputs) = []"
| "stdin_chunks (_ # inputs) = stdin_chunks inputs"

text \<open>What a list of events adds to the output.\<close>

fun event_stdout :: "raw_stream_event \<Rightarrow> string" where
  "event_stdout (RawStdout d) = d"
| "event_stdout _ = []"

fun event_stderr :: "raw_stream_event \<Rightarrow> string" where
  "event_stderr (RawStderr d) = from_utf8_lossy d"
| "event_stderr _ = []"

fun event_exit :: "nat option \<Rightarrow> raw_stream_event list \<Rightarrow> nat option" where
  "event_exit rc [] = rc"
| "event_exit rc (RawExitStatus n # es) = event_exit (Some n) es"
| "event_exit rc (_ # es) = event_exit rc es"

text \<open>What the pump has of the events it took: every byte of standard output, the last status, and the error text
  while it is short.\<close>

definition pumped :: "nat \<Rightarrow> raw_stream_event list \<Rightarrow> pump \<Rightarrow> pump \<Rightarrow> bool" where
  "pumped limit es p p' \<longleftrightarrow>
     pm_written p' = pm_written p @ concat (map event_stdout es)
     \<and> xo_stdout_bytes (pm_output p') = xo_stdout_bytes (pm_output p) + length (concat (map event_stdout es))
     \<and> xo_exit_code (pm_output p') = event_exit (xo_exit_code (pm_output p)) es
     \<and> (\<not> pm_stderr_truncated p \<longrightarrow> length (xo_stderr (pm_output p) @ concat (map event_stderr es)) < limit \<longrightarrow>
          \<not> pm_stderr_truncated p' \<and> xo_stderr (pm_output p') = xo_stderr (pm_output p) @ concat (map event_stderr es))"

section \<open>Lemmas\<close>

lemma task_events:
  assumes "raw_channel_task inputs sent_closed = (es, sent, Some (Ok ()))"
  shows "concat (map event_stdout es) = concat (map raw_stdout_part (channel_msgs inputs))
    \<and> concat (map event_stderr es) = stderr_of (channel_msgs inputs) \<and> ChannelGone \<in> set inputs
    \<and> event_exit rc es = last_exit rc (channel_msgs inputs) \<and> sent = stdin_chunks inputs"
  using assms
proof (induction inputs sent_closed arbitrary: es sent rc rule: raw_channel_task.induct)
  case (2 i inputs sent_closed)
  show ?case
  proof (cases i)
    case (ChannelMsg m)
    show ?thesis
      using 2 ChannelMsg by (cases m) (auto simp: stderr_of_def split: prod.splits if_splits)
  next
    case (StdinChunk c ok)
    then show ?thesis using 2 by (auto split: prod.splits if_splits)
  qed (use 2 in \<open>auto simp: stderr_of_def split: if_splits\<close>)
qed (simp_all add: stderr_of_def)

lemma pump_event_output:
  assumes "pump_event limit ev written p = Ok p'"
  shows "pm_written p' = pm_written p @ event_stdout ev"
    "xo_stdout_bytes (pm_output p') = xo_stdout_bytes (pm_output p) + length (event_stdout ev)"
    "xo_exit_code (pm_output p') = event_exit (xo_exit_code (pm_output p)) [ev]"
    "pm_out_rx_closed p' = pm_out_rx_closed p"
    "\<not> pm_stderr_truncated p \<Longrightarrow> length (xo_stderr (pm_output p) @ event_stderr ev) < limit \<Longrightarrow>
       \<not> pm_stderr_truncated p' \<and> xo_stderr (pm_output p') = xo_stderr (pm_output p) @ event_stderr ev"
  using assms by (cases ev; auto simp: pump_event_def Let_def append_bounded_lossy_stderr_def split: if_splits prod.splits)+

lemma event_exit_Cons: "event_exit rc (e # es) = event_exit (event_exit rc [e]) es"
  by (cases e) simp_all

lemma pump_step_other:
  assumes "pump_step limit i p = Ok p'" "\<And>e w. i \<noteq> PumpEvent e w"
  shows "pm_written p' = pm_written p" "xo_stdout_bytes (pm_output p') = xo_stdout_bytes (pm_output p)"
    "xo_exit_code (pm_output p') = xo_exit_code (pm_output p)" "xo_stderr (pm_output p') = xo_stderr (pm_output p)"
    "pm_stderr_truncated p' = pm_stderr_truncated p" "pm_out_rx_closed p' = (pm_out_rx_closed p \<or> i = PumpGone)"
  using assms by (cases i; auto simp: pump_step_def pump_stdin_def split: option.splits if_splits)+

lemma raw_pump_pumped:
  assumes "delivers es inputs" "raw_pump limit inputs p = Some (Ok p')" "pm_out_rx_closed p \<Longrightarrow> es = []"
  shows "pumped limit es p p'"
  using assms
proof (induction inputs arbitrary: es p)
  case Nil
  then show ?case by (auto simp: pumped_def pump_done_def split: if_splits)
next
  case (Cons i inputs)
  show ?case
  proof (cases "pump_done p")
    case True
    with Cons.prems show ?thesis by (auto simp: pumped_def pump_done_def)
  next
    case False
    with Cons.prems(2) obtain p1 where p1: "pump_step limit i p = Ok p1" "raw_pump limit inputs p1 = Some (Ok p')"
      by (auto split: result.splits)
    show ?thesis
    proof (cases i)
      case (PumpEvent e w)
      with Cons.prems(1) obtain es' where es: "es = e # es'" "delivers es' inputs" by (auto split: list.splits)
      from p1(1) PumpEvent have ev: "pump_event limit e w p = Ok p1" by (simp add: pump_step_def)
      have "pumped limit es' p1 p'"
        by (rule Cons.IH[OF es(2) p1(2)]) (use Cons.prems(3) es(1) pump_event_output(4)[OF ev] in auto)
      then show ?thesis
        using pump_event_output(1-3,5)[OF ev] event_exit_Cons[of "xo_exit_code (pm_output p)" e es']
        unfolding es(1) pumped_def by (simp del: event_exit.simps)
    next
      case PumpGone
      with Cons.prems(1) have "es = []" "delivers [] inputs" by auto
      with Cons.IH[of "[]", OF _ p1(2)] pump_step_other[OF p1(1)] PumpGone show ?thesis by (simp add: pumped_def)
    next
      case (PumpStdin r t)
      with Cons.prems(1) have "delivers es inputs" by simp
      with Cons.IH[OF this p1(2)] Cons.prems(3) pump_step_other[OF p1(1)] PumpStdin show ?thesis by (simp add: pumped_def)
    next
      case PumpCancelled
      with Cons.prems(1) have "delivers es inputs" by simp
      with Cons.IH[OF this p1(2)] Cons.prems(3) pump_step_other[OF p1(1)] PumpCancelled show ?thesis by (simp add: pumped_def)
    qed
  qed
qed

section \<open>Properties\<close>

text \<open>C40: a raw stream is faithful: however the two tasks are scheduled, when the operation returns, the channel was
  read to its end, the sink has exactly the bytes of standard output in order, and they are counted; the exit code is the
  last status that arrived, before or after the end of the data, and absent when none did; and error text below the
  limit is complete.\<close>

theorem raw_stream_faithful:
  assumes "exec_raw_streaming_cancellable max_output_tokens timeout_ms w = Some (Ok (written, out))"
    and "delivers (fst (raw_channel_task (rw_task w) False)) (rw_pump w)"
  defines "msgs \<equiv> channel_msgs (rw_task w)"
  shows "ChannelGone \<in> set (rw_task w)
    \<and> written = concat (map raw_stdout_part msgs) \<and> xo_stdout_bytes out = length written
    \<and> xo_exit_code out = last_exit None msgs
    \<and> (length (stderr_of msgs) < resolve_raw_stream_stderr_limit max_output_tokens \<longrightarrow> xo_stderr out = stderr_of msgs)"
proof -
  let ?limit = "resolve_raw_stream_stderr_limit max_output_tokens"
  obtain p es sent where p: "raw_pump ?limit (rw_pump w) (pump_start (rw_has_stdin w)) = Some (Ok p)"
    and t: "raw_channel_task (rw_task w) False = (es, sent, Some (Ok ()))"
    and fin: "pump_finish ?limit p = (written, out)"
    using assms(1) by (cases "raw_channel_task (rw_task w) False")
      (auto simp: exec_raw_streaming_cancellable_def Let_def split: if_splits raw_stop.splits option.splits result.splits)
  from assms(2) t have "delivers es (rw_pump w)" by simp
  from raw_pump_pumped[OF this p] have pumped: "pumped ?limit es (pump_start (rw_has_stdin w)) p"
    by (simp add: pump_start_def)
  from pumped fin task_events[OF t, of None] show ?thesis
    unfolding msgs_def by (auto simp: pumped_def pump_start_def pump_finish_def split: if_splits)
qed

theorem raw_stream_faithful_witness:
  "let w = \<lparr>rw_slot = True, rw_channel = True,
            rw_task = [StdinChunk ''in'' True, ChannelMsg (Data ''ab''), StdinEnd, ChannelMsg Eof, ChannelMsg (ExitStatus 3), ChannelGone],
            rw_pump = [PumpStdin (Some ''in'') True, PumpEvent (RawStdout ''ab'') True, PumpEvent RawClosed True,
                       PumpStdin (Some []) True, PumpEvent (RawExitStatus 3) True, PumpGone],
            rw_stop = RawFinishes, rw_has_stdin = True\<rparr>;
       out = \<lparr>xo_exit_code = Some 3, xo_stderr = [], xo_stdin_bytes = 2, xo_stdout_bytes = 2\<rparr> in
   exec_raw_streaming_cancellable None 1000 w = Some (Ok (''ab'', out)) \<and> last_exit None (channel_msgs (rw_task w)) = Some 3"
proof -
  let ?w = "\<lparr>rw_slot = True, rw_channel = True,
            rw_task = [StdinChunk ''in'' True, ChannelMsg (Data ''ab''), StdinEnd, ChannelMsg Eof, ChannelMsg (ExitStatus 3), ChannelGone],
            rw_pump = [PumpStdin (Some ''in'') True, PumpEvent (RawStdout ''ab'') True, PumpEvent RawClosed True,
                       PumpStdin (Some []) True, PumpEvent (RawExitStatus 3) True, PumpGone],
            rw_stop = RawFinishes, rw_has_stdin = True\<rparr>"
  let ?out = "\<lparr>xo_exit_code = Some 3, xo_stderr = [], xo_stdin_bytes = 2, xo_stdout_bytes = 2\<rparr>"
  have run: "exec_raw_streaming_cancellable None 1000 ?w = Some (Ok (''ab'', ?out))"
    by (simp add: exec_raw_streaming_cancellable_def Let_def pump_start_def pump_done_def pump_step_def pump_stdin_def
        pump_event_def pump_finish_def)
  have "delivers (fst (raw_channel_task (rw_task ?w) False)) (rw_pump ?w)" by simp
  from raw_stream_faithful[OF run this] run show ?thesis unfolding Let_def by simp
qed

end
