(* ===== verification/Staging.thy ===== *)
theory Staging
  imports Engine RawExec "HOL-Library.Sublist"
begin

text \<open>
  Uploads: the scripts that stage and install a file or a directory on the remote host, and the functions that run them,
  in \<open>src/src/transfer/exec_raw.rs\<close>, \<open>src/src/transfer/staging.rs\<close> and \<open>src/src/transfer/skeleton.rs\<close>. The remote file
  system is a tree of files and directories without links, a map from places to objects. A script is the list of the
  states it goes through with the error text so far, so that a script that is cut off anywhere is covered.
\<close>

section \<open>Definitions\<close>

subsection \<open>Trees\<close>

datatype tobj = OFile string | ODir

type_synonym rtree = "string list \<Rightarrow> tobj option"

definition t_exists :: "rtree \<Rightarrow> string list \<Rightarrow> bool" where
  "t_exists t p \<longleftrightarrow> t p \<noteq> None"

definition t_is_dir :: "rtree \<Rightarrow> string list \<Rightarrow> bool" where
  "t_is_dir t p \<longleftrightarrow> t p = Some ODir"

definition subtree :: "rtree \<Rightarrow> string list \<Rightarrow> rtree" where
  "subtree t p = (\<lambda>k. t (p @ k))"

definition remove_tree :: "string list \<Rightarrow> rtree \<Rightarrow> rtree" where
  "remove_tree p t = (\<lambda>k. if prefix p k then None else t k)"

definition graft :: "string list \<Rightarrow> rtree \<Rightarrow> rtree \<Rightarrow> rtree" where
  "graft p s t = (\<lambda>k. if prefix p k then s (drop (length p) k) else t k)"

text \<open>\<open>mkdir -p\<close>, \<open>mkdir\<close>, and the creation of a file that must not exist.\<close>

definition t_mkdir_p :: "string list \<Rightarrow> rtree \<Rightarrow> rtree option" where
  "t_mkdir_p p t =
     (if list_all (\<lambda>q. t q = None \<or> t q = Some ODir) (prefixes p)
      then Some (\<lambda>k. if prefix k p then Some ODir else t k) else None)"

definition t_create :: "tobj \<Rightarrow> string list \<Rightarrow> rtree \<Rightarrow> rtree option" where
  "t_create obj p t = (if t p = None \<and> t (butlast p) = Some ODir then Some (t(p \<mapsto> obj)) else None)"

text \<open>\<open>rename\<close>: a file replaces a file; a directory replaces nothing (an empty directory could be replaced, but no
  caller has a directory at the target), and it does not move into itself.\<close>

definition t_rename :: "string list \<Rightarrow> string list \<Rightarrow> rtree \<Rightarrow> rtree option" where
  "t_rename p q t =
     (if t (butlast q) \<noteq> Some ODir \<or> strict_prefix p q then None
      else if p = q then (if t p = None then None else Some t)
      else case t p of
        None \<Rightarrow> None
      | Some obj \<Rightarrow>
          if t q = Some ODir \<or> obj = ODir \<and> t q \<noteq> None then None
          else Some (graft q (subtree t p) (remove_tree p t)))"

text \<open>\<open>mv\<close> moves into an existing directory. \<open>ln\<close> makes a second name for a file; \<open>rm -f\<close> removes files only.\<close>

definition t_mv :: "string list \<Rightarrow> string list \<Rightarrow> rtree \<Rightarrow> rtree option" where
  "t_mv p q t = (if t_is_dir t q then t_rename p (q @ [last p]) t else t_rename p q t)"

definition t_ln :: "string list \<Rightarrow> string list \<Rightarrow> rtree \<Rightarrow> rtree option" where
  "t_ln p q t =
     (case t p of Some (OFile c) \<Rightarrow> if t q = None \<and> t (butlast q) = Some ODir then Some (t(q \<mapsto> OFile c)) else None | _ \<Rightarrow> None)"

definition t_rm_f :: "string list \<Rightarrow> rtree \<Rightarrow> rtree" where
  "t_rm_f p t = (if t_is_dir t p then t else t(p := None))"

subsection \<open>The remote host\<close>

text \<open>The working directory, and what fails: making the parents, creating an entry, storing bytes (after some number),
  the n-th \<open>mv\<close>, \<open>ln\<close>, \<open>rm\<close>; what a failing utility prints; and what the shell does with a trap text that is not
  the intended command.\<close>

record rhost =
  rh_cwd :: "string list"
  rh_mkdir_p :: bool
  rh_create :: bool
  rh_store :: "nat option"
  rh_mv :: "nat \<Rightarrow> bool"
  rh_ln :: bool
  rh_rm :: bool
  rh_noise :: string
  rh_trap :: "string \<Rightarrow> rtree \<Rightarrow> rtree"

definition place :: "rhost \<Rightarrow> string \<Rightarrow> string list" where
  "place h path = remote_place (rh_cwd h) path"

text \<open>The trap is a double-quoted text, expanded when it is set and parsed when it fires.\<close>

definition trap_safe :: "string \<Rightarrow> bool" where
  "trap_safe path \<longleftrightarrow> DQ \<notin> set path \<and> CHR ''$'' \<notin> set path \<and> CHR 0x60 \<notin> set path \<and> BSL \<notin> set path"

definition trap_rm_f :: "rhost \<Rightarrow> string \<Rightarrow> rtree \<Rightarrow> rtree" where
  "trap_rm_f h path t =
     (if \<not> trap_safe path then rh_trap h path t else if rh_rm h then t_rm_f (place h path) t else t)"

definition trap_rm_rf :: "rhost \<Rightarrow> string \<Rightarrow> rtree \<Rightarrow> rtree" where
  "trap_rm_rf h path t =
     (if \<not> trap_safe path then rh_trap h path t else if rh_rm h then remove_tree (place h path) t else t)"

subsection \<open>Markers\<close>

definition STAGE_MARKER :: string where "STAGE_MARKER = ''__SSH_MCP_STAGE=''"
definition STAGE_BASE_MARKER :: string where "STAGE_BASE_MARKER = ''__SSH_MCP_STAGE_BASE=''"
definition BACKUP_MARKER :: string where "BACKUP_MARKER = ''__SSH_MCP_BACKUP=''"
definition ERR_MARKER :: string where "ERR_MARKER = ''__SSH_MCP_ERR=''"

definition parse_marker_value :: "string \<Rightarrow> string \<Rightarrow> string option" where
  "parse_marker_value stderr marker =
     (case List.map_filter (\<lambda>line. strip_prefix line marker) (str_lines stderr) of [] \<Rightarrow> None | v # _ \<Rightarrow> Some v)"

definition invalid_params :: "string \<Rightarrow> engine_error" where
  "invalid_params = RemotePathInvalid"

text \<open>The errors that the markers of a failed script stand for.\<close>

definition stage_marker_error :: "string \<Rightarrow> engine_error option" where
  "stage_marker_error err =
     (if trim err = ''destination_exists''
      then Some (invalid_params ''destination exists and overwrite=false. Use overwrite=true to replace it.'')
      else if trim err = ''destination_is_directory'' then Some (invalid_params ''remote_path is an existing directory'')
      else if trim err = ''hardlink_failed''
      then Some (invalid_params ''overwrite=false requires hard-link support on the remote filesystem'')
      else None)"

definition failed_with_code :: "string \<Rightarrow> nat \<Rightarrow> string \<Rightarrow> string \<Rightarrow> engine_error" where
  "failed_with_code what n stderr shown =
     (case Option.bind (parse_marker_value stderr ERR_MARKER) stage_marker_error of
        Some e \<Rightarrow> e
      | None \<Rightarrow> TransportFailed (what @ '' failed: exit_code='' @ show_nat n @ ''; stderr='' @ shown))"

definition benign_line :: "string \<Rightarrow> bool" where
  "benign_line line \<longleftrightarrow>
     (let trimmed = trim line in
      trimmed = [] \<or> starts_with trimmed STAGE_MARKER \<or> starts_with trimmed STAGE_BASE_MARKER
      \<or> starts_with trimmed BACKUP_MARKER)"

definition ensure_remote_success :: "string \<Rightarrow> nat option \<Rightarrow> string \<Rightarrow> (unit, engine_error) result" where
  "ensure_remote_success what status_code stderr =
     (case status_code of
        Some n \<Rightarrow> if n = 0 then Ok () else Err (failed_with_code what n stderr stderr)
      | None \<Rightarrow>
          if parse_marker_value stderr ERR_MARKER \<noteq> None
          then Err (TransportFailed (what @ '' failed: missing exit status; stderr='' @ stderr))
          else if list_all benign_line (str_lines stderr) then Ok ()
          else Err (TransportFailed (what @ '' failed: missing exit status; stderr='' @ stderr)))"

definition ensure_remote_exec_success :: "string \<Rightarrow> nat option \<Rightarrow> string \<Rightarrow> (unit, engine_error) result" where
  "ensure_remote_exec_success what status_code stderr =
     (case status_code of
        Some n \<Rightarrow> if n = 0 then Ok () else Err (failed_with_code what n stderr (trim stderr))
      | None \<Rightarrow>
          (case parse_marker_value stderr ERR_MARKER of
             Some err \<Rightarrow> Err (TransportFailed (what @ '' failed: '' @ err @ ''; stderr='' @ trim stderr))
           | None \<Rightarrow> Ok ()))"

subsection \<open>Names\<close>

definition remote_parent_dir :: "string \<Rightarrow> string" where
  "remote_parent_dir path =
     (case rsplit_once SLASH path of
        Some (parent, _) \<Rightarrow> if parent = [] then ''/'' else parent
      | None \<Rightarrow> ''.'')"

definition remote_temp_sibling :: "string \<Rightarrow> string \<Rightarrow> string" where
  "remote_temp_sibling final_path tok = final_path @ ''.ssh-mcp-staging-'' @ tok"

definition remote_temp_dir_sibling :: "string \<Rightarrow> string \<Rightarrow> string" where
  "remote_temp_dir_sibling final_dir tok = final_dir @ ''.ssh-mcp-staging-dir-'' @ tok"

definition remote_backup_dir_sibling :: "string \<Rightarrow> string \<Rightarrow> string" where
  "remote_backup_dir_sibling final_dir tok = final_dir @ ''.ssh-mcp-backup-dir-'' @ tok"

subsection \<open>Scripts\<close>

text \<open>The states after the initial one, each with the error text so far; the exit code; and the number of the state
  from which on the trap is set, which is not reached in a script that sets none.\<close>

record script_run =
  run_steps :: "(rtree \<times> string) list"
  run_exit :: nat
  run_armed :: nat

definition halt :: "(rtree \<times> string) list \<Rightarrow> nat \<Rightarrow> script_run" where
  "halt ss n = \<lparr>run_steps = ss, run_exit = n, run_armed = Suc (length ss)\<rparr>"

definition err_line :: "string \<Rightarrow> string" where
  "err_line name = ERR_MARKER @ name @ [NL]"

definition stage_lines :: "string \<Rightarrow> string \<Rightarrow> string" where
  "stage_lines stage base = STAGE_MARKER @ stage @ [NL] @ STAGE_BASE_MARKER @ base @ [NL]"

text \<open>\<open>mkdir -p "$parent" && create "$sib"\<close>: the states, and whether it worked.\<close>

definition make_parents :: "rhost \<Rightarrow> string \<Rightarrow> rtree \<Rightarrow> rtree option" where
  "make_parents h parent t = (if rh_mkdir_p h then t_mkdir_p (place h parent) t else None)"

definition create_stage :: "rhost \<Rightarrow> tobj \<Rightarrow> string \<Rightarrow> string \<Rightarrow> rtree \<Rightarrow> rtree list \<times> bool" where
  "create_stage h obj parent sib t =
     (case make_parents h parent t of
        None \<Rightarrow> ([t], False)
      | Some t1 \<Rightarrow>
          (case (if rh_create h then t_create obj (place h sib) t1 else None) of
             None \<Rightarrow> ([t1], False)
           | Some t2 \<Rightarrow> ([t1, t2], True)))"

definition create_error :: "rhost \<Rightarrow> string \<Rightarrow> rtree \<Rightarrow> string" where
  "create_error h sib t = err_line (if t_exists t (place h sib) then ''staging_collision'' else ''staging_unwritable'')"

definition mv_nth :: "rhost \<Rightarrow> nat \<Rightarrow> string \<Rightarrow> string \<Rightarrow> rtree \<Rightarrow> rtree option" where
  "mv_nth h n p q t = (if rh_mv h n then t_mv (place h p) (place h q) t else None)"

text \<open>The end of an upload of a file: a step per change, and the exit code. \<open>mv\<close> or \<open>ln\<close> and \<open>rm\<close>.\<close>

definition install_file :: "rhost \<Rightarrow> bool \<Rightarrow> string \<Rightarrow> string \<Rightarrow> rtree \<times> string \<Rightarrow> script_run" where
  "install_file h overwrite dst stage s =
     (case s of (t, err) \<Rightarrow>
      if t_is_dir t (place h dst) then halt [(t, err @ err_line ''destination_is_directory'')] 1
      else if overwrite then
        (case mv_nth h 0 stage dst t of
           Some t1 \<Rightarrow> halt [(t1, err)] 0
         | None \<Rightarrow> halt [(t, err @ rh_noise h)] 1)
      else
        (case (if rh_ln h then t_ln (place h stage) (place h dst) t else None) of
           Some t1 \<Rightarrow>
             halt [(t1, err), (if rh_rm h then t_rm_f (place h stage) t1 else t1, err)] 0
         | None \<Rightarrow>
             halt [(t, err @ err_line (if t_exists t (place h dst) then ''destination_exists'' else ''hardlink_failed''))] 1))"

text \<open>A script with a trap, set in its initial state: when it fails, the trap runs last.\<close>

definition with_trap :: "(rtree \<Rightarrow> rtree) \<Rightarrow> script_run \<Rightarrow> script_run" where
  "with_trap trap r =
     (if run_exit r = 0 then r\<lparr>run_armed := 0\<rparr>
      else case last (run_steps r) of (t, err) \<Rightarrow> r\<lparr>run_steps := run_steps r @ [(trap t, err)], run_armed := 0\<rparr>)"

definition after_steps :: "(rtree \<times> string) list \<Rightarrow> script_run \<Rightarrow> script_run" where
  "after_steps ss r = r\<lparr>run_steps := ss @ run_steps r, run_armed := length ss + run_armed r\<rparr>"

text \<open>The script of \<open>put_file_exec_raw\<close>; \<open>input\<close> is what arrives on its standard input, and \<open>stored\<close> how much of it
  \<open>cat\<close> could store.\<close>

definition check_and_install ::
  "rhost \<Rightarrow> bool \<Rightarrow> string \<Rightarrow> string \<Rightarrow> nat \<Rightarrow> string \<Rightarrow> nat \<Rightarrow> rtree \<times> string \<Rightarrow> script_run" where
  "check_and_install h overwrite dst sib expected input stored s =
     (case s of (t, err) \<Rightarrow>
      if stored < length input then halt [(t, err @ rh_noise h)] 1
      else if length input \<noteq> expected then
        halt [(t, err @ err_line (''size_mismatch:'' @ show_nat (length input) @ '':'' @ show_nat expected))] 1
      else install_file h overwrite dst sib (t, err))"

definition put_file_script ::
  "rhost \<Rightarrow> bool \<Rightarrow> string \<Rightarrow> string \<Rightarrow> string \<Rightarrow> nat \<Rightarrow> string \<Rightarrow> rtree \<Rightarrow> script_run" where
  "put_file_script h overwrite parent dst sib expected input t =
     (case create_stage h (OFile []) parent sib t of
        (ts, False) \<Rightarrow> halt (map (\<lambda>t. (t, [])) ts @ [(last ts, create_error h sib (last ts))]) 1
      | (ts, True) \<Rightarrow>
          let err = stage_lines sib parent;
              stored = (case rh_store h of None \<Rightarrow> length input | Some n \<Rightarrow> min n (length input));
              received = map (\<lambda>n. ((last ts)(place h sib \<mapsto> OFile (take n input)), err)) [0..<Suc stored] in
          after_steps (map (\<lambda>t. (t, [])) ts)
            (with_trap (trap_rm_f h sib)
              (after_steps received (check_and_install h overwrite dst sib expected input stored (last received)))))"

text \<open>The exchange of a directory: the old one becomes the backup, the stage becomes the destination, and the backup is
  removed or restored.\<close>

definition swap_in :: "rhost \<Rightarrow> string \<Rightarrow> string \<Rightarrow> string \<Rightarrow> bool \<Rightarrow> rtree \<times> string \<Rightarrow> script_run" where
  "swap_in h dst stage backup had_dst s =
     (case s of (t, err0) \<Rightarrow>
      let err = err0 @ BACKUP_MARKER @ backup @ [NL] in
      case mv_nth h 1 stage dst t of
        Some t1 \<Rightarrow>
          halt ([(t1, err)] @ (if had_dst \<and> rh_rm h then [(remove_tree (place h backup) t1, err)] else [])) 0
      | None \<Rightarrow>
          (case (if had_dst then mv_nth h 2 backup dst t else Some t) of
             None \<Rightarrow> halt [(t, err @ rh_noise h @ err_line (''rollback_failed:'' @ backup))] 1
           | Some t1 \<Rightarrow> halt [(t1, err @ rh_noise h @ err_line ''install_failed'')] 1))"

definition swap_dir :: "rhost \<Rightarrow> string \<Rightarrow> string \<Rightarrow> string \<Rightarrow> rtree \<times> string \<Rightarrow> script_run" where
  "swap_dir h dst stage backup s =
     (case s of (t, err) \<Rightarrow>
      if \<not> t_exists t (place h dst) then swap_in h dst stage backup False (t, err)
      else if t_exists t (place h backup) then halt [(t, err @ err_line ''backup_collision'')] 1
      else case mv_nth h 0 dst backup t of
        None \<Rightarrow> halt [(t, err @ rh_noise h @ err_line ''backup_failed'')] 1
      | Some t1 \<Rightarrow> after_steps [(t1, err)] (swap_in h dst stage backup True (t1, err)))"

text \<open>What \<open>tar\<close> makes of the stream: the contents of the directory as they grow, and whether it succeeds.\<close>

record tar_run =
  tx_contents :: "rtree list"
  tx_ok :: bool

definition empty_dir :: rtree where
  "empty_dir = [[] \<mapsto> ODir]"

definition extracted :: "tar_run \<Rightarrow> rtree" where
  "extracted x = last (empty_dir # tx_contents x)"

definition extract_steps :: "string list \<Rightarrow> tar_run \<Rightarrow> rtree \<times> string \<Rightarrow> (rtree \<times> string) list" where
  "extract_steps p x s = (case s of (t, err) \<Rightarrow> map (\<lambda>c. (graft p c t, err)) (empty_dir # tx_contents x))"

text \<open>The scripts of \<open>put_dir_exec_raw\<close>.\<close>

definition put_dir_overwrite_script ::
  "rhost \<Rightarrow> string \<Rightarrow> string \<Rightarrow> string \<Rightarrow> string \<Rightarrow> tar_run \<Rightarrow> rtree \<Rightarrow> script_run" where
  "put_dir_overwrite_script h parent dst stage_sib backup_sib x t =
     (case create_stage h ODir parent stage_sib t of
        (ts, False) \<Rightarrow> halt (map (\<lambda>t. (t, [])) ts @ [(last ts, create_error h stage_sib (last ts))]) 1
      | (ts, True) \<Rightarrow>
          let s = (last ts, stage_lines stage_sib parent);
              unpacked = extract_steps (place h stage_sib) x s in
          after_steps (map (\<lambda>t. (t, [])) ts)
            (with_trap (trap_rm_rf h stage_sib) (after_steps unpacked
              (if \<not> tx_ok x then halt [(fst (last unpacked), snd s @ rh_noise h)] 1
               else swap_dir h dst stage_sib backup_sib (last unpacked)))))"

definition put_dir_new_script :: "rhost \<Rightarrow> string \<Rightarrow> string \<Rightarrow> tar_run \<Rightarrow> rtree \<Rightarrow> script_run" where
  "put_dir_new_script h parent dst x t =
     (let t1 = (case make_parents h parent t of None \<Rightarrow> t | Some t1 \<Rightarrow> t1) in
      case (if rh_create h then t_create ODir (place h dst) t1 else None) of
        None \<Rightarrow>
          halt [(t1, []), (t1, err_line (if t_exists t1 (place h dst) then ''destination_exists'' else ''mkdir_failed''))] 1
      | Some t2 \<Rightarrow>
          let s = (t2, stage_lines dst parent);
              unpacked = extract_steps (place h dst) x s in
          after_steps [(t1, []), (t2, [])]
            (with_trap (trap_rm_rf h dst) (after_steps unpacked
              (if tx_ok x then halt [last unpacked] 0
               else halt [(fst (last unpacked), snd s @ rh_noise h)] 1))))"

subsection \<open>Running a script\<close>

text \<open>What becomes of a script: it is not started; it ends and its status arrives; the client gives up (deadline,
  cancellation, error) while the script stops after some step, with or without its trap; or the channel ends without
  a status: the client has the error text of one step and the script stops after a later one.\<close>

datatype script_link = NotStarted engine_error | Completes | CutOff engine_error nat bool | StatusLost nat nat

definition step_at :: "rtree \<Rightarrow> script_run \<Rightarrow> nat \<Rightarrow> rtree \<times> string" where
  "step_at t r n = (let ss = (t, []) # run_steps r in ss ! min n (length ss - 1))"

definition run_final :: "rtree \<Rightarrow> script_run \<Rightarrow> rtree \<times> string" where
  "run_final t r = step_at t r (length (run_steps r))"

definition run_script ::
  "script_link \<Rightarrow> (rtree \<Rightarrow> rtree) \<Rightarrow> script_run \<Rightarrow> rtree \<Rightarrow> rtree \<times> (nat option \<times> string, engine_error) result" where
  "run_script link trap r t =
     (case link of
        NotStarted e \<Rightarrow> (t, Err e)
      | Completes \<Rightarrow> (fst (run_final t r), Ok (Some (run_exit r), snd (run_final t r)))
      | CutOff e n trapped \<Rightarrow>
          (let t1 = fst (step_at t r n) in
           (if trapped \<and> run_armed r \<le> min n (length (run_steps r)) then trap t1 else t1, Err e))
      | StatusLost n m \<Rightarrow> (fst (step_at t r (n + m)), Ok (None, snd (step_at t r n))))"

subsection \<open>Uploads over a raw stream\<close>

definition remote_staging :: "string \<Rightarrow> string option \<Rightarrow> string \<Rightarrow> string \<Rightarrow> transfer_staging" where
  "remote_staging staging_path backup_path final_path base =
     \<lparr>ts_local = None,
      ts_remote = Some \<lparr>sr_staging_path = staging_path, sr_backup_path = backup_path, sr_final_path = final_path,
                        sr_staging_base_home = base\<rparr>\<rparr>"

definition marker_or :: "string \<Rightarrow> string \<Rightarrow> string \<Rightarrow> string" where
  "marker_or stderr marker other = (case parse_marker_value stderr marker of Some v \<Rightarrow> v | None \<Rightarrow> other)"

text \<open>\<open>source\<close> is the metadata of the local file: its size when it is a regular file.\<close>

definition put_file_exec_raw ::
  "rhost \<Rightarrow> script_link \<Rightarrow> string \<Rightarrow> (nat option, io_error) result \<Rightarrow> string \<Rightarrow> bool \<Rightarrow> string \<Rightarrow> string \<Rightarrow> rtree \<Rightarrow>
   rtree \<times> (transfer_staging \<times> transfer_counts, engine_error) result" where
  "put_file_exec_raw h link remote_home source remote_dst overwrite tok input t =
     (case and_then (validate_remote_user_path remote_home ''remote_home'') (\<lambda>_.
           validate_remote_user_file_path remote_dst ''remote_path'') of
        Err e \<Rightarrow> (t, Err e)
      | Ok _ \<Rightarrow>
          (case source of
             Err e \<Rightarrow> (t, Err (LocalIoError e))
           | Ok None \<Rightarrow> (t, Err (invalid_params ''local_path is not a file''))
           | Ok (Some len) \<Rightarrow>
               let sib = remote_temp_sibling remote_dst tok;
                   dir = remote_parent_dir remote_dst;
                   script = put_file_script h overwrite dir remote_dst sib len input t in
               (case run_script link (trap_rm_f h sib) script t of
                  (t1, Err e) \<Rightarrow> (t1, Err e)
                | (t1, Ok (status_code, stderr)) \<Rightarrow>
                    (t1, and_then (ensure_remote_success ''put_file'' status_code stderr) (\<lambda>_.
                       Ok (remote_staging (marker_or stderr STAGE_MARKER sib) None remote_dst
                             (marker_or stderr STAGE_BASE_MARKER dir),
                           \<lparr>tr_bytes = len, tr_files = 1, tr_directories = 0\<rparr>))))))"

text \<open>\<open>source\<close> says whether the local path is a directory; \<open>tar_res\<close> is the result of the task that writes the archive.\<close>

definition put_dir_exec_raw ::
  "rhost \<Rightarrow> script_link \<Rightarrow> string \<Rightarrow> (bool, io_error) result \<Rightarrow> string \<Rightarrow> bool \<Rightarrow> string \<Rightarrow> tar_run \<Rightarrow>
   (transfer_counts, engine_error) result \<Rightarrow> rtree \<Rightarrow> rtree \<times> (transfer_staging \<times> transfer_counts, engine_error) result" where
  "put_dir_exec_raw h link remote_home source remote_dst_dir overwrite tok x tar_res t =
     (case and_then (validate_remote_user_path remote_home ''remote_home'') (\<lambda>_.
           validate_remote_user_path remote_dst_dir ''remote_path'') of
        Err e \<Rightarrow> (t, Err e)
      | Ok _ \<Rightarrow>
          (case source of
             Err e \<Rightarrow> (t, Err (LocalIoError e))
           | Ok False \<Rightarrow> (t, Err (invalid_params ''local_path is not a directory''))
           | Ok True \<Rightarrow>
               let dir = remote_parent_dir remote_dst_dir;
                   stage_sib = remote_temp_dir_sibling remote_dst_dir tok;
                   backup_sib = remote_backup_dir_sibling remote_dst_dir tok;
                   script = (if overwrite then put_dir_overwrite_script h dir remote_dst_dir stage_sib backup_sib x t
                             else put_dir_new_script h dir remote_dst_dir x t);
                   trap = trap_rm_rf h (if overwrite then stage_sib else remote_dst_dir);
                   both = (\<lambda>e. case tar_res of
                             Ok _ \<Rightarrow> e
                           | Err _ \<Rightarrow> TransportFailed ''put_dir failed; additionally tar encoder failed'') in
               (case run_script link trap script t of
                  (t1, Err e) \<Rightarrow> (t1, Err (both e))
                | (t1, Ok (status_code, stderr)) \<Rightarrow>
                    (t1, case ensure_remote_success ''put_dir'' status_code stderr of
                       Err e \<Rightarrow> Err (both e)
                     | Ok _ \<Rightarrow> and_then tar_res (\<lambda>counts.
                         Ok (remote_staging (marker_or stderr STAGE_MARKER stage_sib)
                               (case parse_marker_value stderr BACKUP_MARKER of
                                  Some b \<Rightarrow> if b = [] then None else Some b | None \<Rightarrow> None)
                               remote_dst_dir (marker_or stderr STAGE_BASE_MARKER dir),
                             counts))))))"

subsection \<open>Uploads by another tool into a stage\<close>

record remote_stage =
  st_path :: string
  st_base :: string
  st_is_destination :: bool

text \<open>The scripts of \<open>staging.rs\<close>. They have no trap.\<close>

definition prepare_script :: "rhost \<Rightarrow> tobj \<Rightarrow> string \<Rightarrow> string \<Rightarrow> rtree \<Rightarrow> script_run" where
  "prepare_script h obj parent sib t =
     (case create_stage h obj parent sib t of
        (ts, False) \<Rightarrow> halt (map (\<lambda>t. (t, [])) ts @ [(last ts, create_error h sib (last ts))]) 1
      | (ts, True) \<Rightarrow> halt (map (\<lambda>t. (t, [])) ts @ [(last ts, stage_lines sib parent)]) 0)"

definition prepare_new_dir_script :: "rhost \<Rightarrow> string \<Rightarrow> string \<Rightarrow> rtree \<Rightarrow> script_run" where
  "prepare_new_dir_script h parent dst t =
     (let t1 = (case make_parents h parent t of None \<Rightarrow> t | Some t1 \<Rightarrow> t1) in
      case (if rh_create h then t_create ODir (place h dst) t1 else None) of
        None \<Rightarrow>
          halt [(t1, []), (t1, err_line (if t_exists t1 (place h dst) then ''destination_exists'' else ''mkdir_failed''))] 1
      | Some t2 \<Rightarrow> halt [(t1, []), (t2, []), (t2, stage_lines dst parent)] 0)"

definition exec_checked ::
  "string \<Rightarrow> script_link \<Rightarrow> script_run \<Rightarrow> rtree \<Rightarrow> rtree \<times> (string, engine_error) result" where
  "exec_checked what link r t =
     (case run_script link (\<lambda>t. t) r t of
        (t1, Err e) \<Rightarrow> (t1, Err e)
      | (t1, Ok (status_code, stderr)) \<Rightarrow>
          (t1, and_then (ensure_remote_exec_success what status_code stderr) (\<lambda>_. Ok stderr)))"

definition remote_prepare_put_file_stage ::
  "rhost \<Rightarrow> script_link \<Rightarrow> string \<Rightarrow> string \<Rightarrow> string \<Rightarrow> rtree \<Rightarrow> rtree \<times> (remote_stage, engine_error) result" where
  "remote_prepare_put_file_stage h link remote_home remote_dst tok t =
     (case and_then (validate_remote_user_path remote_home ''remote_home'') (\<lambda>_.
           validate_remote_user_file_path remote_dst ''remote_path'') of
        Err e \<Rightarrow> (t, Err e)
      | Ok _ \<Rightarrow>
          let sib = remote_temp_sibling remote_dst tok; dir = remote_parent_dir remote_dst in
          (case exec_checked ''prepare_put_file_stage'' link (prepare_script h (OFile []) dir sib t) t of
             (t1, Err e) \<Rightarrow> (t1, Err e)
           | (t1, Ok stderr) \<Rightarrow>
               (t1, Ok \<lparr>st_path = marker_or stderr STAGE_MARKER sib, st_base = marker_or stderr STAGE_BASE_MARKER dir,
                        st_is_destination = False\<rparr>)))"

definition remote_finalize_put_file ::
  "rhost \<Rightarrow> script_link \<Rightarrow> string \<Rightarrow> string \<Rightarrow> bool \<Rightarrow> rtree \<Rightarrow> rtree \<times> (unit, engine_error) result" where
  "remote_finalize_put_file h link remote_dst stage_path overwrite t =
     (case and_then (validate_remote_user_file_path remote_dst ''remote_path'') (\<lambda>_.
           validate_remote_user_file_path stage_path ''remote_stage'') of
        Err e \<Rightarrow> (t, Err e)
      | Ok _ \<Rightarrow>
          (case exec_checked ''finalize_put_file'' link (install_file h overwrite remote_dst stage_path (t, [])) t of
             (t1, Err e) \<Rightarrow> (t1, Err e)
           | (t1, Ok _) \<Rightarrow> (t1, Ok ())))"

definition remote_prepare_put_dir_stage ::
  "rhost \<Rightarrow> script_link \<Rightarrow> string \<Rightarrow> string \<Rightarrow> bool \<Rightarrow> string \<Rightarrow> rtree \<Rightarrow> rtree \<times> (remote_stage, engine_error) result" where
  "remote_prepare_put_dir_stage h link remote_home remote_dst_dir overwrite tok t =
     (case and_then (validate_remote_user_path remote_home ''remote_home'') (\<lambda>_.
           validate_remote_user_path remote_dst_dir ''remote_path'') of
        Err e \<Rightarrow> (t, Err e)
      | Ok _ \<Rightarrow>
          let dir = remote_parent_dir remote_dst_dir; sib = remote_temp_dir_sibling remote_dst_dir tok in
          (case exec_checked ''prepare_put_dir_stage'' link
             (if overwrite then prepare_script h ODir dir sib t else prepare_new_dir_script h dir remote_dst_dir t) t of
             (t1, Err e) \<Rightarrow> (t1, Err e)
           | (t1, Ok stderr) \<Rightarrow>
               (t1, Ok \<lparr>st_path = marker_or stderr STAGE_MARKER sib, st_base = marker_or stderr STAGE_BASE_MARKER dir,
                        st_is_destination = \<not> overwrite\<rparr>)))"

definition remote_finalize_put_dir_overwrite_true ::
  "rhost \<Rightarrow> script_link \<Rightarrow> string \<Rightarrow> string \<Rightarrow> string \<Rightarrow> string \<Rightarrow> rtree \<Rightarrow>
   rtree \<times> (string option, engine_error) result" where
  "remote_finalize_put_dir_overwrite_true h link remote_home remote_dst_dir stage_dir tok t =
     (case and_then (validate_remote_user_path remote_home ''remote_home'') (\<lambda>_.
           and_then (validate_remote_user_path remote_dst_dir ''remote_path'') (\<lambda>_.
           validate_remote_user_path stage_dir ''remote_stage'')) of
        Err e \<Rightarrow> (t, Err e)
      | Ok _ \<Rightarrow>
          (case exec_checked ''finalize_put_dir'' link
             (swap_dir h remote_dst_dir stage_dir (remote_backup_dir_sibling remote_dst_dir tok) (t, [])) t of
             (t1, Err e) \<Rightarrow> (t1, Err e)
           | (t1, Ok stderr) \<Rightarrow>
               (t1, Ok (case parse_marker_value stderr BACKUP_MARKER of
                          Some b \<Rightarrow> if b = [] then None else Some b | None \<Rightarrow> None))))"

text \<open>The best-effort removals of \<open>skeleton.rs\<close>: the command may not arrive.\<close>

definition best_effort_remote_rm_file :: "rhost \<Rightarrow> bool \<Rightarrow> string \<Rightarrow> rtree \<Rightarrow> rtree" where
  "best_effort_remote_rm_file h arrives path t =
     (if is_ok (validate_remote_user_file_path path ''remote_stage'') \<and> arrives \<and> rh_rm h then t_rm_f (place h path) t else t)"

definition best_effort_remote_rm_dir :: "rhost \<Rightarrow> bool \<Rightarrow> string \<Rightarrow> rtree \<Rightarrow> rtree" where
  "best_effort_remote_rm_dir h arrives path t =
     (if is_ok (validate_remote_user_path path ''remote_stage'') \<and> arrives \<and> rh_rm h then remove_tree (place h path) t else t)"

text \<open>What the network does in a staged upload, and the tool: what it makes of the tree at the stage path, and its
  result.\<close>

record staged_world =
  sw_prepare :: script_link
  sw_upload :: "string \<Rightarrow> rtree \<Rightarrow> rtree \<times> (unit, engine_error) result"
  sw_finalize :: script_link
  sw_rm_arrives :: bool

definition put_file_with_remote_staging ::
  "rhost \<Rightarrow> staged_world \<Rightarrow> string \<Rightarrow> (nat option, io_error) result \<Rightarrow> string \<Rightarrow> bool \<Rightarrow> string \<Rightarrow> rtree \<Rightarrow>
   rtree \<times> (transfer_staging \<times> transfer_counts, engine_error) result" where
  "put_file_with_remote_staging h w remote_home source remote_path overwrite tok t =
     (case source of
        Err e \<Rightarrow> (t, Err (LocalIoError e))
      | Ok None \<Rightarrow> (t, Err (invalid_params ''local_path is not a file''))
      | Ok (Some len) \<Rightarrow>
          (case remote_prepare_put_file_stage h (sw_prepare w) remote_home remote_path tok t of
             (t1, Err e) \<Rightarrow> (t1, Err e)
           | (t1, Ok stage) \<Rightarrow>
               (case sw_upload w (st_path stage) t1 of
                  (t2, Err e) \<Rightarrow> (best_effort_remote_rm_file h (sw_rm_arrives w) (st_path stage) t2, Err e)
                | (t2, Ok _) \<Rightarrow>
                    (case remote_finalize_put_file h (sw_finalize w) remote_path (st_path stage) overwrite t2 of
                       (t3, Err e) \<Rightarrow> (best_effort_remote_rm_file h (sw_rm_arrives w) (st_path stage) t3, Err e)
                     | (t3, Ok _) \<Rightarrow>
                         (t3, Ok (remote_staging (st_path stage) None remote_path (st_base stage),
                                  \<lparr>tr_bytes = len, tr_files = 1, tr_directories = 0\<rparr>))))))"

definition put_dir_with_remote_staging ::
  "rhost \<Rightarrow> staged_world \<Rightarrow> string \<Rightarrow> string \<Rightarrow> bool \<Rightarrow> string \<Rightarrow> transfer_counts \<Rightarrow> rtree \<Rightarrow>
   rtree \<times> (transfer_staging \<times> transfer_counts, engine_error) result" where
  "put_dir_with_remote_staging h w remote_home remote_path overwrite tok counts t =
     (case remote_prepare_put_dir_stage h (sw_prepare w) remote_home remote_path overwrite tok t of
        (t1, Err e) \<Rightarrow> (t1, Err e)
      | (t1, Ok stage) \<Rightarrow>
          let cleanup_on_finalize_error = \<not> st_is_destination stage in
          (case sw_upload w (st_path stage) t1 of
             (t2, Err e) \<Rightarrow> (best_effort_remote_rm_dir h (sw_rm_arrives w) (st_path stage) t2, Err e)
           | (t2, Ok _) \<Rightarrow>
               (case (if overwrite
                      then remote_finalize_put_dir_overwrite_true h (sw_finalize w) remote_home remote_path (st_path stage) tok t2
                      else (t2, Ok None)) of
                  (t3, Err e) \<Rightarrow>
                    (if cleanup_on_finalize_error then best_effort_remote_rm_dir h (sw_rm_arrives w) (st_path stage) t3 else t3,
                     Err e)
                | (t3, Ok backup_path) \<Rightarrow>
                    (t3, Ok (remote_staging (st_path stage) backup_path remote_path (st_base stage), counts)))))"

text \<open>A change that leaves a tree as it was, except inside some places, and for directories on the way to a place.\<close>

definition touches :: "string list set \<Rightarrow> string list \<Rightarrow> rtree \<Rightarrow> rtree \<Rightarrow> bool" where
  "touches ps way t t' \<longleftrightarrow>
     (\<forall>k. t' k = t k \<or> (\<exists>p\<in>ps. prefix p k) \<or> (prefix k way \<and> t k = None \<and> t' k = Some ODir))"

definition all_states :: "(rtree \<Rightarrow> bool) \<Rightarrow> script_run \<Rightarrow> bool" where
  "all_states P r \<longleftrightarrow> list_all (\<lambda>s. P (fst s)) (run_steps r)"

section \<open>Lemmas\<close>

subsection \<open>Trees\<close>

named_theorems tree_simps

lemma not_prefix_parallel: "p \<parallel> q \<Longrightarrow> \<not> prefix p (q @ k)"
  by (metis parallelE prefixI prefix_same_cases)

lemma subtree_graft_same [tree_simps]: "subtree (graft p s t) p = s"
  by (simp add: subtree_def graft_def)

lemma subtree_graft_other [tree_simps]: "p \<parallel> q \<Longrightarrow> subtree (graft p s t) q = subtree t q"
  by (simp add: subtree_def graft_def not_prefix_parallel)

lemma subtree_remove_other [tree_simps]: "p \<parallel> q \<Longrightarrow> subtree (remove_tree p t) q = subtree t q"
  by (simp add: subtree_def remove_tree_def not_prefix_parallel)

lemma subtree_remove_same [tree_simps]: "subtree (remove_tree p t) p = (\<lambda>_. None)"
  by (simp add: subtree_def remove_tree_def)

lemma subtree_at: "t p = subtree t p []"
  by (simp add: subtree_def)

lemma subtree_upd_other [tree_simps]: "p \<parallel> q \<Longrightarrow> subtree (t(p := v)) q = subtree t q"
  using not_prefix_parallel[of p q] by (intro ext) (auto simp: subtree_def)

lemma parallel_neq: "p \<parallel> q \<Longrightarrow> p \<noteq> q"
  by auto

lemma t_rename_Some:
  assumes "t_rename p q t = Some t'" "p \<parallel> q"
  shows "t' = graft q (subtree t p) (remove_tree p t)" "t p \<noteq> None" "t q \<noteq> Some ODir" "t (butlast q) = Some ODir"
  using assms by (auto simp: t_rename_def split: if_splits option.splits)

lemma touches_refl [simp, intro]: "touches ps way t t"
  by (simp add: touches_def)

lemma touches_mono: "touches A way t t' \<Longrightarrow> A \<subseteq> B \<Longrightarrow> touches B way t t'"
  unfolding touches_def by blast

lemma touches_trans: "touches ps way t t1 \<Longrightarrow> touches ps way t1 t2 \<Longrightarrow> touches ps way t t2"
  unfolding touches_def by metis

lemma touches_graft: "touches ps way t t1 \<Longrightarrow> p \<in> ps \<Longrightarrow> touches ps way t (graft p s t1)"
  unfolding touches_def graft_def by auto

lemma touches_remove: "touches ps way t t1 \<Longrightarrow> p \<in> ps \<Longrightarrow> touches ps way t (remove_tree p t1)"
  unfolding touches_def remove_tree_def by auto

lemma touches_upd: "touches ps way t t1 \<Longrightarrow> p \<in> ps \<Longrightarrow> touches ps way t (t1(p := v))"
  unfolding touches_def by auto

lemma touches_mkdir_p: "t_mkdir_p way t = Some t' \<Longrightarrow> touches ps way t t'"
  by (auto simp: touches_def t_mkdir_p_def list_all_iff split: if_splits)

lemmas touches_intros = touches_refl touches_graft touches_remove touches_upd

subsection \<open>Places\<close>

lemma rsplit_once_None: "rsplit_once c s = None \<Longrightarrow> c \<notin> set s"
  using split_list_last[of c s] rsplit_once_Some[of c s] by fastforce

lemma name_part_append:
  assumes "name_part a" "SLASH \<notin> set s" "s = [] \<or> 3 \<le> length s"
  shows "name_part (a @ s)"
proof -
  have "a @ s \<noteq> b" if "s \<noteq> []" "length b \<le> 2" for b using that assms(3) by (auto dest: arg_cong[where f = length])
  from this[of "''.''"] this[of "''..''"] assms show ?thesis by (cases "s = []") (auto simp: name_part_def plain_part_def)
qed

lemma follow_name: "name_part x \<Longrightarrow> follow_parts cur [x] = cur @ [x]"
  by (simp add: name_part_def plain_part_def)

text \<open>The stage and the backup are siblings of the destination.\<close>

lemma place_siblings:
  assumes "name_part (last (split_on SLASH dst))"
  obtains way x where "place h dst = way @ [x]" "place h (remote_parent_dir dst) = way"
    "\<And>suf. SLASH \<notin> set suf \<Longrightarrow> 3 \<le> length suf \<Longrightarrow> place h (dst @ suf) = way @ [x @ suf]"
proof (cases "rsplit_once SLASH dst")
  case None
  then have no: "SLASH \<notin> set dst" by (rule rsplit_once_None)
  then have n: "name_part dst" using assms by (simp add: split_on_no_sep)
  have start: "\<not> starts_with (dst @ suf) [SLASH]" for suf
    using no n by (cases dst) (auto simp: starts_with_def name_part_def plain_part_def)
  have pl: "place h (dst @ suf) = rh_cwd h @ [dst @ suf]" if "SLASH \<notin> set suf" "suf = [] \<or> 3 \<le> length suf" for suf
    using start[of suf] no that follow_name[OF name_part_append[OF n that]]
    by (simp add: place_def remote_place_def split_on_no_sep del: follow_parts.simps)
  have "place h (remote_parent_dir dst) = rh_cwd h"
    using None by (simp add: remote_parent_dir_def place_def remote_place_def starts_with_def)
  with that[of "rh_cwd h" dst] pl pl[of "[]"] show ?thesis by simp
next
  case (Some ab)
  then obtain a b where ab: "rsplit_once SLASH dst = Some (a, b)" by (cases ab) simp
  then have dst: "dst = a @ SLASH # b" and no: "SLASH \<notin> set b" by (auto simp: rsplit_once_Some)
  have split: "split_on SLASH (dst @ suf) = split_on SLASH a @ [b @ suf]" if "SLASH \<notin> set suf" for suf
    using dst no that by (simp add: split_on_append_gen split_on_no_sep)
  have n: "name_part b" using assms split[of "[]"] by simp
  define start where "start = (if starts_with dst [SLASH] then [] else rh_cwd h)"
  have start: "(if starts_with (dst @ suf) [SLASH] then [] else rh_cwd h) = start" for suf
    using dst by (cases a) (auto simp: start_def starts_with_def)
  have pl: "place h (dst @ suf) = follow_parts start (split_on SLASH a) @ [b @ suf]"
    if "SLASH \<notin> set suf" "suf = [] \<or> 3 \<le> length suf" for suf
    using split[OF that(1)] follow_name[OF name_part_append[OF n that]]
    by (simp add: place_def remote_place_def start follow_parts_append del: follow_parts.simps)
  have "place h (remote_parent_dir dst) = follow_parts start (split_on SLASH a)"
    using dst ab by (cases a) (auto simp: remote_parent_dir_def place_def remote_place_def start_def starts_with_def)
  with that[of "follow_parts start (split_on SLASH a)" b] pl pl[of "[]"] show ?thesis by simp
qed

lemma sibling_parallel: "x \<noteq> y \<Longrightarrow> way @ [x] \<parallel> way @ [y]"
  by (simp add: parallel_def)

subsection \<open>Scripts\<close>

lemma all_states_simps [simp]:
  "all_states P (halt ss n) \<longleftrightarrow> (\<forall>s\<in>set ss. P (fst s))"
  "all_states P (after_steps ss r) \<longleftrightarrow> (\<forall>s\<in>set ss. P (fst s)) \<and> all_states P r"
  by (auto simp: all_states_def after_steps_def halt_def list_all_iff)

lemma script_run_simps [simp]:
  "run_exit (halt ss n) = n" "run_steps (halt ss n) = ss" "run_armed (halt ss n) = Suc (length ss)"
  "run_exit (after_steps ss r) = run_exit r" "run_steps (after_steps ss r) = ss @ run_steps r"
  "run_exit (with_trap trap r) = run_exit r" "run_steps (with_trap trap r) = [] \<longleftrightarrow> run_exit r = 0 \<and> run_steps r = []"
  "run_exit r = 0 \<Longrightarrow> run_steps (with_trap trap r) = run_steps r"
  "run_exit r \<noteq> 0 \<Longrightarrow> fst (last (run_steps (with_trap trap r))) = trap (fst (last (run_steps r)))"
  by (auto simp: halt_def after_steps_def with_trap_def split: prod.splits)

lemma all_states_with_trap:
  assumes "all_states P r" "run_steps r \<noteq> []" "\<And>t. P t \<Longrightarrow> P (trap t)"
  shows "all_states P (with_trap trap r)"
proof -
  have "P (trap (fst (last (run_steps r))))"
    using assms last_in_set[OF assms(2)] by (auto simp: all_states_def list_all_iff)
  with assms(1) show ?thesis by (auto simp: all_states_def with_trap_def list_all_iff case_prod_beta)
qed

lemma step_at_state: "P t \<Longrightarrow> all_states P r \<Longrightarrow> P (fst (step_at t r n))"
  using nth_mem[of "min n (length (run_steps r))" "(t, []) # run_steps r"]
  by (auto simp: step_at_def all_states_def list_all_iff Let_def)

lemma run_script_state:
  assumes "P t" "all_states P r" "run_armed r \<le> length (run_steps r) \<Longrightarrow> (\<And>t. P t \<Longrightarrow> P (trap t))"
  shows "P (fst (run_script link trap r t))"
  using assms step_at_state[OF assms(1,2)]
  by (auto simp: run_script_def run_final_def Let_def split: script_link.splits)

lemma run_completes: "run_steps r \<noteq> [] \<Longrightarrow>
   run_script Completes trap r t = (fst (last (run_steps r)), Ok (Some (run_exit r), snd (last (run_steps r))))"
  by (simp add: run_script_def run_final_def step_at_def Let_def last_conv_nth)

lemma create_stageE:
  assumes "create_stage h obj parent sib t = (ts, ok)" "place h parent = way" "place h sib \<in> ps"
  shows "\<forall>t'\<in>set ts. touches ps way t t'" "ts \<noteq> []" "\<not> ok \<Longrightarrow> last ts (place h sib) = t (place h sib) \<or> prefix (place h sib) way"
    "ok \<Longrightarrow> \<exists>t1. last ts = t1(place h sib \<mapsto> obj) \<and> touches {} way t t1 \<and> t1 (butlast (place h sib)) = Some ODir \<and> t1 (place h sib) = None
       \<and> set ts = {t1, t1(place h sib \<mapsto> obj)}"
  using assms touches_mkdir_p[of way t]
  by (auto simp: create_stage_def make_parents_def t_create_def t_mkdir_p_def list_all_iff intro!: touches_upd
      split: option.splits if_splits)

text \<open>What an upload of a file keeps.\<close>

definition file_kept ::
  "string list \<Rightarrow> string list \<Rightarrow> string list \<Rightarrow> string \<Rightarrow> nat \<Rightarrow> bool \<Rightarrow> rtree \<Rightarrow> rtree \<Rightarrow> bool" where
  "file_kept dst stage way input expected overwrite t t' \<longleftrightarrow>
     touches {dst, stage} way t t'
     \<and> (t' dst = t dst
        \<or> t' dst = Some (OFile input) \<and> length input = expected \<and> t dst \<noteq> Some ODir \<and> (overwrite \<or> t dst = None))"

lemma file_kept_trap:
  assumes "file_kept D (place h sib) way input expected overwrite t t1" "trap_safe sib" "D \<parallel> place h sib"
  shows "file_kept D (place h sib) way input expected overwrite t (trap_rm_f h sib t1)"
  using assms parallel_neq[OF assms(3)] by (auto simp: file_kept_def trap_rm_f_def t_rm_f_def intro: touches_upd)

lemma install_file_kept:
  fixes overwrite :: bool and err :: string
  assumes "D = place h dst" "S = place h sib" "D \<parallel> S" "touches {D, S} way t t1" "t1 D = t D" "t1 S = Some (OFile input)"
    "length input = expected"
  defines "r \<equiv> install_file h overwrite dst sib (t1, err)"
  shows "all_states (file_kept D S way input expected overwrite t) r" "run_steps r \<noteq> []"
    "run_exit r = 0 \<Longrightarrow> fst (last (run_steps r)) D = Some (OFile input) \<and> (overwrite \<or> t D = None)
       \<and> (rh_rm h \<longrightarrow> fst (last (run_steps r)) S = None)"
    "run_exit r \<noteq> 0 \<Longrightarrow> fst (last (run_steps r)) = t1"
proof -
  let ?mv = "graft D (subtree t1 S) (remove_tree S t1)"
  have ne: "D \<noteq> S" "S \<noteq> D" using assms(3) by auto
  have mv: "t' = ?mv" if "mv_nth h n sib dst t1 = Some t'" "\<not> t_is_dir t1 D" for n t'
    using that assms(1-3) t_rename_Some(1)[of S D t1 t'] parallel_commute[of S D]
    by (auto simp: mv_nth_def t_mv_def split: if_splits)
  have D: "?mv D = Some (OFile input)" using assms(6) by (simp add: graft_def subtree_def)
  have S: "?mv S = None" using assms(3) by (auto simp: graft_def remove_tree_def parallel_def)
  have mvt: "touches {D, S} way t ?mv" using assms(4) by (intro touches_graft touches_remove) auto
  have kept1: "file_kept D S way input expected overwrite t t1" using assms by (simp add: file_kept_def)
  show "all_states (file_kept D S way input expected overwrite t) r"
    unfolding r_def install_file_def
    using assms(1,2,4-7) kept1 mv D mvt ne
    by (auto simp: file_kept_def t_is_dir_def t_ln_def t_rm_f_def intro: touches_upd split: option.splits tobj.splits if_splits)
  show "run_steps r \<noteq> []" "run_exit r \<noteq> 0 \<Longrightarrow> fst (last (run_steps r)) = t1"
    by (auto simp: r_def install_file_def split: option.splits if_splits)
  show "fst (last (run_steps r)) D = Some (OFile input) \<and> (overwrite \<or> t D = None) \<and> (rh_rm h \<longrightarrow> fst (last (run_steps r)) S = None)"
    if "run_exit r = 0"
    using that assms(1,2,5,6) mv D S ne unfolding r_def install_file_def
    by (auto simp: t_is_dir_def t_ln_def t_rm_f_def split: option.splits if_splits)
qed

lemma check_and_install_kept:
  fixes overwrite :: bool and err :: string and expected :: nat
  assumes "D = place h dst" "S = place h sib" "D \<parallel> S" "touches {S} way t t1" "t1 D = t D" "t1 S = Some (OFile (take stored input))"
  defines "r \<equiv> check_and_install h overwrite dst sib expected input stored (t1, err)"
  shows "all_states (file_kept D S way input expected overwrite t) r" "run_steps r \<noteq> []"
    "run_exit r = 0 \<Longrightarrow> fst (last (run_steps r)) D = Some (OFile input) \<and> (overwrite \<or> t D = None)
       \<and> length input = expected \<and> (rh_rm h \<longrightarrow> fst (last (run_steps r)) S = None)"
    "run_exit r \<noteq> 0 \<Longrightarrow> fst (last (run_steps r)) = t1"
proof -
  have t1: "touches {D, S} way t t1" using assms(4) by (rule touches_mono) auto
  have kept: "file_kept D S way input expected overwrite t t1" using t1 assms(5) by (simp add: file_kept_def)
  let ?goal = "all_states (file_kept D S way input expected overwrite t) r \<and> run_steps r \<noteq> []
    \<and> (run_exit r = 0 \<longrightarrow> fst (last (run_steps r)) D = Some (OFile input) \<and> (overwrite \<or> t D = None)
       \<and> length input = expected \<and> (rh_rm h \<longrightarrow> fst (last (run_steps r)) S = None))
    \<and> (run_exit r \<noteq> 0 \<longrightarrow> fst (last (run_steps r)) = t1)"
  have ?goal
  proof (cases "\<not> stored < length input \<and> length input = expected")
    case True
    then have r: "r = install_file h overwrite dst sib (t1, err)" and S: "t1 S = Some (OFile input)"
      using assms(6) by (simp_all add: r_def check_and_install_def)
    from install_file_kept[OF assms(1-3) t1 assms(5) S conjunct2[OF True], of overwrite err] True show ?thesis unfolding r by simp
  next
    case False
    then show ?thesis by (auto simp: r_def check_and_install_def kept)
  qed
  then show "all_states (file_kept D S way input expected overwrite t) r" "run_steps r \<noteq> []"
    "run_exit r = 0 \<Longrightarrow> fst (last (run_steps r)) D = Some (OFile input) \<and> (overwrite \<or> t D = None)
       \<and> length input = expected \<and> (rh_rm h \<longrightarrow> fst (last (run_steps r)) S = None)"
    "run_exit r \<noteq> 0 \<Longrightarrow> fst (last (run_steps r)) = t1" by simp_all
qed

lemma put_file_script_kept:
  fixes overwrite :: bool and expected :: nat and input :: string and t :: rtree
  assumes "D = place h dst" "S = place h sib" "place h parent = way" "D \<parallel> S" "\<not> prefix D way" "\<not> prefix S way" "trap_safe sib"
  defines "r \<equiv> put_file_script h overwrite parent dst sib expected input t"
  shows "all_states (file_kept D S way input expected overwrite t) r \<and> run_steps r \<noteq> []
    \<and> (run_exit r = 0 \<longrightarrow> fst (last (run_steps r)) D = Some (OFile input) \<and> (overwrite \<or> t D = None) \<and> length input = expected)
    \<and> (rh_rm h \<longrightarrow> t S = None \<longrightarrow> fst (last (run_steps r)) S = None)"
proof -
  have D: "t' D = t D" if "touches {S} way t t'" for t'
    using that assms(4,5) by (auto simp: touches_def parallel_def)
  have kept: "file_kept D S way input expected overwrite t t'" if "touches {S} way t t'" for t'
    using D[OF that] touches_mono[OF that, of "{D, S}"] by (auto simp: file_kept_def)
  obtain ts ok where c: "create_stage h (OFile []) parent sib t = (ts, ok)" by fastforce
  note cs = create_stageE[OF c assms(3), of "{S}"]
  show ?thesis
  proof (cases ok)
    case False
    with c cs assms(2,6) kept show ?thesis by (auto simp: r_def put_file_script_def)
  next
    case True
    then obtain t1 where t1: "last ts = t1(S \<mapsto> OFile [])" "touches {} way t t1" "set ts = {t1, t1(S \<mapsto> OFile [])}"
      using cs(4) assms(2) by auto
    define stored where "stored = (case rh_store h of None \<Rightarrow> length input | Some n \<Rightarrow> min n (length input))"
    define received where "received = map (\<lambda>n. ((last ts)(S \<mapsto> OFile (take n input)), stage_lines sib parent)) [0..<Suc stored]"
    define here where "here = t1(S \<mapsto> OFile (take stored input))"
    define tail where "tail = check_and_install h overwrite dst sib expected input stored (here, stage_lines sib parent)"
    have "last received = (here, stage_lines sib parent)" by (simp add: received_def here_def t1(1))
    then have r: "r = after_steps (map (\<lambda>t. (t, [])) ts) (with_trap (trap_rm_f h sib) (after_steps received tail))"
      using c True by (simp add: r_def put_file_script_def Let_def stored_def[symmetric] assms(2)[symmetric]
          received_def[symmetric] tail_def del: upt_Suc)
    have upd: "touches {S} way t (t1(S \<mapsto> obj))" for obj
      by (rule touches_upd[OF touches_mono[OF t1(2)]]) auto
    have pre: "\<forall>s\<in>set (map (\<lambda>t. (t, [])) ts @ received). file_kept D S way input expected overwrite t (fst s)"
      using t1(1,3) kept[OF upd] kept[OF touches_mono[OF t1(2)]] by (auto simp: received_def)
    have here: "touches {S} way t here" "here D = t D" "here S = Some (OFile (take stored input))"
      using upd D[OF upd] by (auto simp: here_def)
    note ti = check_and_install_kept[OF assms(1,2,4) here, where overwrite = overwrite and expected = expected and err = "stage_lines sib parent",
      folded tail_def]
    have "all_states (file_kept D S way input expected overwrite t) (with_trap (trap_rm_f h sib) (after_steps received tail))"
      using file_kept_trap[of D h sib] pre ti(1,2) assms(2,4,7) by (intro all_states_with_trap) auto
    moreover have "fst (last (run_steps r)) S = None" if "rh_rm h"
      using that ti(2-4) here(3) assms(2,7) by (cases "run_exit tail = 0") (auto simp: r trap_rm_f_def t_rm_f_def t_is_dir_def)
    ultimately show ?thesis using pre ti(2,3) by (auto simp: r)
  qed
qed

text \<open>What the exchange of a directory keeps: the old content at the destination or in the backup, or the new one.\<close>

definition dir_kept ::
  "string list \<Rightarrow> string list \<Rightarrow> string list \<Rightarrow> string list \<Rightarrow> rtree option \<Rightarrow> rtree \<Rightarrow> rtree \<Rightarrow> bool" where
  "dir_kept dst stage backup way new t t' \<longleftrightarrow>
     touches {dst, stage, backup} way t t'
     \<and> (subtree t' dst = subtree t dst \<or> t' dst = None \<and> subtree t' backup = subtree t dst \<or> Some (subtree t' dst) = new)"

lemma mv_nth_absent:
  assumes "mv_nth h n p q t = Some t'" "place h p \<parallel> place h q" "t (place h q) = None"
  shows "t' = graft (place h q) (subtree t (place h p)) (remove_tree (place h p) t)"
  using assms t_rename_Some(1)[of "place h p" "place h q" t t'] by (auto simp: mv_nth_def t_mv_def t_is_dir_def split: if_splits)

lemma at_graft_other: "p \<parallel> q \<Longrightarrow> graft p s t q = t q" "p \<parallel> q \<Longrightarrow> remove_tree p t q = t q" "remove_tree p t p = None"
  using not_prefix_parallel[of p q "[]"] by (simp_all add: graft_def remove_tree_def)

lemma swap_in_kept:
  fixes had_dst :: bool and err :: string
  assumes P: "D = place h dst" "S = place h stage" "B = place h backup" "D \<parallel> S" "D \<parallel> B" "S \<parallel> B"
    and t1: "touches {D, S, B} way t t1" "t1 D = None" "subtree t1 S = new"
    and old: "if had_dst then subtree t1 B = subtree t D else subtree t1 D = subtree t D"
  defines "r \<equiv> swap_in h dst stage backup had_dst (t1, err)"
  shows "all_states (dir_kept D S B way (Some new) t) r \<and> run_steps r \<noteq> []
    \<and> (run_exit r = 0 \<longrightarrow> subtree (fst (last (run_steps r))) D = new \<and> fst (last (run_steps r)) S = None)"
proof -
  note par = P(4-6) P(4-6)[THEN parallel_commute[THEN iffD1]]
  let ?inst = "graft D new (remove_tree S t1)" and ?rest = "graft D (subtree t1 B) (remove_tree B t1)"
  have mv: "t' = ?inst" if "mv_nth h n stage dst t1 = Some t'" for n t'
    using mv_nth_absent[OF that] par P(1,2) t1(2,3) by simp
  have roll: "t' = ?rest" if "mv_nth h n backup dst t1 = Some t'" for n t'
    using mv_nth_absent[OF that] par P(1,3) t1(2) by simp
  have touch: "touches {D, S, B} way t ?inst" "touches {D, S, B} way t (remove_tree B ?inst)" "touches {D, S, B} way t ?rest"
    using t1(1) by (auto intro!: touches_graft touches_remove)
  have sub: "subtree ?inst D = new" "subtree (remove_tree B ?inst) D = new" "subtree ?rest D = subtree t1 B"
    using par by (simp_all add: tree_simps)
  have S: "?inst S = None" "remove_tree B ?inst S = None" using par by (simp_all add: at_graft_other)
  show ?thesis
    using mv roll touch sub S t1(1,2) old P(3)
    by (auto simp: r_def swap_in_def Let_def dir_kept_def split: option.splits if_splits)
qed

lemma swap_dir_kept:
  fixes err :: string
  assumes P: "D = place h dst" "S = place h stage" "B = place h backup" "D \<parallel> S" "D \<parallel> B" "S \<parallel> B"
    and t1: "touches {D, S, B} way t t1" "subtree t1 D = subtree t D" "subtree t1 S = new"
  defines "r \<equiv> swap_dir h dst stage backup (t1, err)"
  shows "all_states (dir_kept D S B way (Some new) t) r \<and> run_steps r \<noteq> []
    \<and> (run_exit r = 0 \<longrightarrow> subtree (fst (last (run_steps r))) D = new \<and> fst (last (run_steps r)) S = None)"
proof -
  have kept: "dir_kept D S B way (Some new) t t1" using t1 by (simp add: dir_kept_def)
  consider (absent) "t1 D = None" | (fails) err' where "r = halt [(t1, err')] 1"
    | (moved) t2 where "t1 D \<noteq> None" "t1 B = None" "mv_nth h 0 dst backup t1 = Some t2"
        "r = after_steps [(t2, err)] (swap_in h dst stage backup True (t2, err))"
    using P(1,3) by (fastforce simp: r_def swap_dir_def t_exists_def split: if_splits option.splits)
  then show ?thesis
  proof cases
    case absent
    then have "r = swap_in h dst stage backup False (t1, err)" using P(1) by (simp add: r_def swap_dir_def t_exists_def)
    with swap_in_kept[OF P t1(1) absent t1(3), of False err] t1(2) show ?thesis by simp
  next
    case fails
    with kept show ?thesis by simp
  next
    case moved
    have t2: "t2 = graft B (subtree t1 D) (remove_tree D t1)" using mv_nth_absent[OF moved(3)] P(1,3,5) moved(2) by simp
    have "touches {D, S, B} way t t2" unfolding t2 using t1(1) by (auto intro!: touches_graft touches_remove)
    moreover have "t2 D = None" "subtree t2 S = new" "subtree t2 B = subtree t D"
      using P(4-6) P(4-6)[THEN parallel_commute[THEN iffD1]] t1(2,3) by (simp_all add: t2 tree_simps at_graft_other)
    moreover from calculation have "dir_kept D S B way (Some new) t t2" by (simp add: dir_kept_def)
    ultimately show ?thesis using swap_in_kept[OF P, of way t t2 new True err] moved(4) by simp
  qed
qed

lemma last_extract_steps: "last (extract_steps p x (t, err)) = (graft p (extracted x) t, err)"
  by (simp add: extract_steps_def extracted_def last_map)

lemma extract_steps_states: "s \<in> set (extract_steps p x (t, err)) \<Longrightarrow> \<exists>c. fst s = graft p c t"
  by (auto simp: extract_steps_def)

lemma touches_subtree:
  assumes "touches {S} way t t'" "D \<parallel> S" "\<not> prefix D way"
  shows "subtree t' D = subtree t D"
proof
  fix k
  have "\<not> prefix S (D @ k)" using assms(2) parallel_commute not_prefix_parallel by metis
  moreover have "\<not> prefix (D @ k) way" using assms(3) by (metis append_prefixD)
  ultimately show "subtree t' D k = subtree t D k" using assms(1) by (auto simp: touches_def subtree_def)
qed

lemma dir_kept_trap:
  assumes "dir_kept D (place h stage) B way new t t1" "trap_safe stage" "D \<parallel> place h stage" "place h stage \<parallel> B"
  shows "dir_kept D (place h stage) B way new t (trap_rm_rf h stage t1)"
proof -
  have "place h stage \<parallel> D" using assms(3) parallel_commute by blast
  with assms show ?thesis
    by (auto simp: dir_kept_def trap_rm_rf_def tree_simps at_graft_other intro: touches_remove)
qed

lemma put_dir_overwrite_kept:
  fixes x :: tar_run and t :: rtree
  assumes P: "D = place h dst" "S = place h sib" "B = place h backup" "D \<parallel> S" "D \<parallel> B" "S \<parallel> B"
    and way: "place h parent = way" "\<not> prefix D way" "trap_safe sib"
  defines "r \<equiv> put_dir_overwrite_script h parent dst sib backup x t" and "new \<equiv> (if tx_ok x then Some (extracted x) else None)"
  shows "all_states (dir_kept D S B way new t) r \<and> run_steps r \<noteq> []
    \<and> (run_exit r = 0 \<longrightarrow> tx_ok x \<and> subtree (fst (last (run_steps r))) D = extracted x \<and> fst (last (run_steps r)) S = None)"
proof -
  have kept: "dir_kept D S B way new t t'" if "touches {S} way t t'" for t'
    using touches_subtree[OF that P(4) way(2)] touches_mono[OF that, of "{D, S, B}"] by (auto simp: dir_kept_def)
  obtain ts ok where c: "create_stage h ODir parent sib t = (ts, ok)" by fastforce
  note cs = create_stageE[OF c way(1), of "{S}"]
  show ?thesis
  proof (cases ok)
    case False
    with c cs P(2) kept show ?thesis by (auto simp: r_def put_dir_overwrite_script_def)
  next
    case True
    define err where "err = stage_lines sib parent"
    define unpacked where "unpacked = extract_steps S x (last ts, err)"
    define tail where "tail = (if \<not> tx_ok x then halt [(fst (last unpacked), err @ rh_noise h)] 1
                               else swap_dir h dst sib backup (last unpacked))"
    have r: "r = after_steps (map (\<lambda>t. (t, [])) ts) (with_trap (trap_rm_rf h sib) (after_steps unpacked tail))"
      using c True by (simp add: r_def put_dir_overwrite_script_def Let_def err_def[symmetric] P(2)[symmetric]
          unpacked_def[symmetric] tail_def)
    have touch: "touches {S} way t (last ts)" "\<forall>t'\<in>set ts. touches {S} way t t'" using cs(1,2) P(2) last_in_set by auto
    have un: "touches {S} way t (graft S c (last ts))" for c using touch(1) by (rule touches_graft) simp
    have pre: "\<forall>s\<in>set (map (\<lambda>t. (t, [])) ts @ unpacked). dir_kept D S B way new t (fst s)"
      using touch(2) kept kept[OF un] by (auto simp: unpacked_def dest!: extract_steps_states)
    have here: "last unpacked = (graft S (extracted x) (last ts), err)" by (simp add: unpacked_def last_extract_steps)
    have sub: "touches {D, S, B} way t (graft S (extracted x) (last ts))" by (rule touches_mono[OF un]) auto
    have ti: "all_states (dir_kept D S B way new t) tail \<and> run_steps tail \<noteq> []
      \<and> (run_exit tail = 0 \<longrightarrow> tx_ok x \<and> subtree (fst (last (run_steps tail))) D = extracted x \<and> fst (last (run_steps tail)) S = None)"
    proof (cases "tx_ok x")
      case True
      then show ?thesis
        using swap_dir_kept[OF P sub touches_subtree[OF un P(4) way(2)] subtree_graft_same, of err] by (simp add: tail_def here new_def)
    qed (simp add: tail_def here kept[OF un])
    have "all_states (dir_kept D S B way new t) (with_trap (trap_rm_rf h sib) (after_steps unpacked tail))"
      using dir_kept_trap[of D h sib] pre ti P(2,4,6) way(3) by (intro all_states_with_trap) auto
    with pre ti show ?thesis by (auto simp: r)
  qed
qed

lemma put_dir_new_kept:
  fixes x :: tar_run and t :: rtree
  assumes "D = place h dst" "place h parent = way" "\<not> prefix D way" "trap_safe dst"
  defines "r \<equiv> put_dir_new_script h parent dst x t" and "P \<equiv> \<lambda>t'. touches {D} way t t' \<and> (t D \<noteq> None \<longrightarrow> subtree t' D = subtree t D)"
  shows "all_states P r \<and> run_steps r \<noteq> [] \<and> (run_armed r \<le> length (run_steps r) \<longrightarrow> t D = None)
    \<and> (run_exit r = 0 \<longrightarrow> tx_ok x \<and> subtree (fst (last (run_steps r))) D = extracted x \<and> t D = None)"
proof -
  define t1 where "t1 = (case make_parents h parent t of None \<Rightarrow> t | Some t1 \<Rightarrow> t1)"
  have t1: "touches {} way t t1"
    using touches_mkdir_p[of way t] assms(2) by (auto simp: t1_def make_parents_def split: option.splits if_splits)
  have sub: "subtree t1 D = subtree t D"
    using t1 assms(3) by (auto simp: touches_def subtree_def dest: append_prefixD)
  have D: "t1 D = t D" using fun_cong[OF sub, of "[]"] by (simp add: subtree_def)
  have P1: "P t1" using touches_mono[OF t1, of "{D}"] sub by (simp add: P_def)
  show ?thesis
  proof (cases "if rh_create h then t_create ODir D t1 else None")
    case None
    then have "r = halt [(t1, []), (t1, err_line (if t_exists t1 D then ''destination_exists'' else ''mkdir_failed''))] 1"
      unfolding r_def put_dir_new_script_def Let_def t1_def[symmetric] assms(1)[symmetric] by (simp split del: if_split)
    then show ?thesis using P1 by simp
  next
    case (Some t2)
    then have t2: "t2 = t1(D \<mapsto> ODir)" "t D = None" using D by (auto simp: t_create_def split: if_splits)
    define unpacked where "unpacked = extract_steps D x (t2, stage_lines dst parent)"
    define tail where "tail = (if tx_ok x then halt [last unpacked] 0
                               else halt [(fst (last unpacked), stage_lines dst parent @ rh_noise h)] 1)"
    have r: "r = after_steps [(t1, []), (t2, [])] (with_trap (trap_rm_rf h dst) (after_steps unpacked tail))"
      unfolding r_def put_dir_new_script_def Let_def t1_def[symmetric] assms(1)[symmetric] tail_def unpacked_def snd_conv
      using Some by (simp split del: if_split)
    have P: "P t'" if "touches {D} way t t'" for t' using that t2(2) by (simp add: P_def)
    have P2: "touches {D} way t t2" unfolding t2 by (rule touches_upd[OF touches_mono[OF t1]]) auto
    have un: "P (graft D c t2)" for c by (rule P[OF touches_graft[OF P2]]) simp
    have here: "last unpacked = (graft D (extracted x) t2, stage_lines dst parent)" by (simp add: unpacked_def last_extract_steps)
    have pre: "\<forall>s\<in>set unpacked. P (fst s)" using un by (auto simp: unpacked_def dest!: extract_steps_states)
    have "P (trap_rm_rf h dst t')" if "P t'" for t'
      using that t2(2) assms(1,4) by (auto simp: P_def trap_rm_rf_def intro: touches_remove)
    then have "all_states P (with_trap (trap_rm_rf h dst) (after_steps unpacked tail))"
      using pre un by (intro all_states_with_trap) (auto simp: tail_def here)
    then show ?thesis using P1 P[OF P2] t2(2) by (auto simp: r tail_def here subtree_graft_same)
  qed
qed

lemma put_dir_overwrite_run:
  fixes x :: tar_run and t :: rtree and link :: script_link
  assumes P: "D = place h dst" "S = place h sib" "B = place h backup" "D \<parallel> S" "D \<parallel> B" "S \<parallel> B"
    and way: "place h parent = way" "\<not> prefix D way" "trap_safe sib"
  defines "r \<equiv> put_dir_overwrite_script h parent dst sib backup x t"
  defines "t' \<equiv> fst (run_script link (trap_rm_rf h sib) r t)"
  shows "dir_kept D S B way (if tx_ok x then Some (extracted x) else None) t t'"
    and "run_steps r \<noteq> []" "link = Completes \<Longrightarrow> run_exit r = 0 \<Longrightarrow> subtree t' D = extracted x"
proof -
  note k = put_dir_overwrite_kept[OF P way, where x = x and t = t, folded r_def]
  show "dir_kept D S B way (if tx_ok x then Some (extracted x) else None) t t'" unfolding t'_def
  proof (rule run_script_state[where P = "dir_kept D S B way (if tx_ok x then Some (extracted x) else None) t"])
    fix t1 assume "dir_kept D S B way (if tx_ok x then Some (extracted x) else None) t t1"
    with dir_kept_trap[of D h sib B way _ t t1] P(2,4,6) way(3)
    show "dir_kept D S B way (if tx_ok x then Some (extracted x) else None) t (trap_rm_rf h sib t1)" by simp
  qed (use k in \<open>simp_all add: dir_kept_def\<close>)
  show "run_steps r \<noteq> []" "link = Completes \<Longrightarrow> run_exit r = 0 \<Longrightarrow> subtree t' D = extracted x"
    using k by (simp_all add: t'_def run_completes)
qed

lemma put_dir_new_run:
  fixes x :: tar_run and t :: rtree and link :: script_link
  assumes "D = place h dst" "place h parent = way" "\<not> prefix D way" "trap_safe dst"
  defines "r \<equiv> put_dir_new_script h parent dst x t"
  defines "t' \<equiv> fst (run_script link (trap_rm_rf h dst) r t)"
  shows "touches {D} way t t'" "t D \<noteq> None \<Longrightarrow> subtree t' D = subtree t D" "run_steps r \<noteq> []"
    "link = Completes \<Longrightarrow> run_exit r = 0 \<Longrightarrow> subtree t' D = extracted x \<and> t D = None"
proof -
  define P where "P = (\<lambda>t'. touches {D} way t t' \<and> (t D \<noteq> None \<longrightarrow> subtree t' D = subtree t D))"
  note k = put_dir_new_kept[OF assms(1-4), where x = x and t = t, folded r_def P_def]
  have "P t'" unfolding t'_def
  proof (rule run_script_state[where P = P])
    fix t1 assume "run_armed r \<le> length (run_steps r)" "P t1"
    then show "P (trap_rm_rf h dst t1)"
      using k assms(1,4) by (auto simp: P_def trap_rm_rf_def intro: touches_remove)
  qed (use k in \<open>simp_all add: P_def\<close>)
  then show "touches {D} way t t'" "t D \<noteq> None \<Longrightarrow> subtree t' D = subtree t D" by (simp_all add: P_def)
  show "run_steps r \<noteq> []" "link = Completes \<Longrightarrow> run_exit r = 0 \<Longrightarrow> subtree t' D = extracted x \<and> t D = None"
    using k by (simp_all add: t'_def run_completes)
qed

lemma put_dir_exec_raw_run:
  assumes "put_dir_exec_raw h link home source dst overwrite tok x tar_res t = (t', r)"
  defines "run \<equiv> run_script link (trap_rm_rf h (if overwrite then remote_temp_dir_sibling dst tok else dst))
    (if overwrite then put_dir_overwrite_script h (remote_parent_dir dst) dst (remote_temp_dir_sibling dst tok)
                         (remote_backup_dir_sibling dst tok) x t
     else put_dir_new_script h (remote_parent_dir dst) dst x t) t"
  shows "t' = t \<and> \<not> is_ok r
    \<or> t' = fst run \<and> (is_ok r \<longrightarrow> (\<exists>c e. snd run = Ok (c, e) \<and> ensure_remote_success ''put_dir'' c e = Ok ()))"
  using assms(1) unfolding put_dir_exec_raw_def Let_def run_def[symmetric]
  by (auto split: result.splits prod.splits bool.splits)

lemma siblings:
  assumes "name_part (last (split_on SLASH dst))" "SLASH \<notin> set a" "3 \<le> length a" "SLASH \<notin> set b" "3 \<le> length b" "a \<noteq> b"
  shows "place h dst \<parallel> place h (dst @ a)" "place h (dst @ a) \<parallel> place h (dst @ b)"
    "\<not> prefix (place h dst) (place h (remote_parent_dir dst))" "\<not> prefix (place h (dst @ a)) (place h (remote_parent_dir dst))"
  by (rule place_siblings[OF assms(1), of h]; use assms in \<open>auto intro!: sibling_parallel dest: prefix_length_le\<close>)+

lemma parse_stage_lines:
  assumes "NL \<notin> set sib" "CR \<notin> set sib" "NL \<notin> set base"
  shows "parse_marker_value (stage_lines sib base) STAGE_MARKER = Some sib"
proof -
  have "str_lines (stage_lines sib base) = (STAGE_MARKER @ sib) # str_lines (STAGE_BASE_MARKER @ base @ [NL])"
  proof -
    have nl: "NL \<notin> set (STAGE_MARKER @ sib)" using assms(1) by (simp add: STAGE_MARKER_def)
    have "strip_cr (STAGE_MARKER @ sib) = STAGE_MARKER @ sib"
    proof (cases sib rule: rev_cases)
      case (snoc ys y)
      with assms(2) show ?thesis by (auto simp: strip_cr_def strip_suffix_def ends_with_def)
    qed (simp add: strip_cr_def strip_suffix_def ends_with_def STAGE_MARKER_def)
    with nl have "str_lines ((STAGE_MARKER @ sib) @ [NL]) = [STAGE_MARKER @ sib]"
      by (simp add: str_lines_def split_on_append[of NL "STAGE_MARKER @ sib" "[]", simplified])
    then show ?thesis
      using str_lines_append_line[of "STAGE_MARKER @ sib" "STAGE_BASE_MARKER @ base @ [NL]"] by (simp add: stage_lines_def)
  qed
  then show ?thesis by (simp add: parse_marker_value_def List.map_filter_def)
qed

text \<open>The stage that was prepared is the sibling, whatever the client saw of the script.\<close>

lemma prepare_stage_path:
  assumes "remote_prepare_put_file_stage h link home dst tok t = (t1, Ok stage)"
    and "NL \<notin> set (remote_temp_sibling dst tok)" "CR \<notin> set (remote_temp_sibling dst tok)" "NL \<notin> set (remote_parent_dir dst)"
  shows "st_path stage = remote_temp_sibling dst tok"
proof -
  let ?sib = "remote_temp_sibling dst tok" and ?dir = "remote_parent_dir dst"
  let ?r = "prepare_script h (OFile []) ?dir ?sib t"
  have none: "parse_marker_value [] STAGE_MARKER = None" "parse_marker_value (err_line ''staging_collision'') STAGE_MARKER = None"
    "parse_marker_value (err_line ''staging_unwritable'') STAGE_MARKER = None" by code_simp+
  have steps: "snd s \<in> {[], stage_lines ?sib ?dir, err_line ''staging_collision'', err_line ''staging_unwritable''}"
    if "s \<in> set ((t, []) # run_steps ?r)" for s
    using that by (auto simp: prepare_script_def create_error_def split: prod.splits bool.splits if_splits)
  have "step_at t ?r n \<in> set ((t, []) # run_steps ?r)" for n
    unfolding step_at_def Let_def by (rule nth_mem) simp
  then have "marker_or (snd (step_at t ?r n)) STAGE_MARKER ?sib = ?sib" for n
    using steps[of "step_at t ?r n"] none parse_stage_lines[OF assms(2-4)] by (auto simp: marker_or_def)
  then show ?thesis
    using assms(1)
    by (auto simp: remote_prepare_put_file_stage_def exec_checked_def run_script_def run_final_def Let_def
        split: result.splits prod.splits script_link.splits)
qed

lemma exec_checked_state:
  assumes "P t" "all_states P r"
  shows "P (fst (exec_checked what link r t))"
  using run_script_state[of P t r "\<lambda>t. t" link] assms by (auto simp: exec_checked_def split: prod.splits result.splits)

lemma exec_checked_completes:
  assumes "exec_checked what Completes r t = (t', Ok e)" "run_steps r \<noteq> []"
  shows "run_exit r = 0" "t' = fst (last (run_steps r))"
  using assms run_completes[OF assms(2), of "\<lambda>t. t" t]
  by (auto simp: exec_checked_def ensure_remote_exec_success_def split: if_splits)

lemma prepare_script_touches:
  assumes "place h dir = way" "place h sib \<in> ps"
  shows "all_states (touches ps way t) (prepare_script h obj dir sib t)"
proof -
  obtain ts ok where c: "create_stage h obj dir sib t = (ts, ok)" by fastforce
  from create_stageE(1,2)[OF c assms] show ?thesis using c last_in_set by (cases ok) (auto simp: prepare_script_def)
qed

lemma finalize_put_file_kept:
  assumes P: "D = place h dst" "S = place h sib" "D \<parallel> S" "touches {D, S} way t t2" "t2 D = t D" "t2 S = Some (OFile content)"
    and run: "remote_finalize_put_file h link dst sib overwrite t2 = (t3, f)"
  shows "file_kept D S way content (length content) overwrite t t3"
    and "link = Completes \<Longrightarrow> is_ok f \<Longrightarrow> t3 D = Some (OFile content) \<and> (overwrite \<or> t D = None)"
proof -
  let ?r = "install_file h overwrite dst sib (t2, [])"
  note ins = install_file_kept[OF P refl, of overwrite "[]"]
  have kept: "file_kept D S way content (length content) overwrite t t2" using P by (simp add: file_kept_def)
  obtain tc e where c: "exec_checked ''finalize_put_file'' link ?r t2 = (tc, e)" by fastforce
  define v where "v = and_then (validate_remote_user_file_path dst ''remote_path'') (\<lambda>_. validate_remote_user_file_path sib ''remote_stage'')"
  have "t3 = t2 \<and> \<not> is_ok f \<or> t3 = tc \<and> is_ok f = is_ok e"
    using run c unfolding remote_finalize_put_file_def v_def[symmetric] by (cases v; cases e) auto
  moreover have "file_kept D S way content (length content) overwrite t tc"
    using exec_checked_state[where P = "file_kept D S way content (length content) overwrite t", OF kept ins(1)] c
    by (metis fst_conv)
  moreover have "tc D = Some (OFile content) \<and> (overwrite \<or> t D = None)" if "link = Completes" "is_ok e"
    using exec_checked_completes[OF _ ins(2)] c that ins(3) by (cases e) auto
  ultimately show "file_kept D S way content (length content) overwrite t t3"
    and "link = Completes \<Longrightarrow> is_ok f \<Longrightarrow> t3 D = Some (OFile content) \<and> (overwrite \<or> t D = None)"
    using kept by auto
qed

text \<open>The same atomicity for an upload by another tool: the tool changes its stage only, and when it reports success the
  stage has the content.\<close>

theorem staged_put_file_atomic:
  assumes names: "name_part (last (split_on SLASH dst))" "SLASH \<notin> set tok"
    and lines: "NL \<notin> set (remote_temp_sibling dst tok)" "CR \<notin> set (remote_temp_sibling dst tok)" "NL \<notin> set (remote_parent_dir dst)"
    and tool: "\<And>p t k. k \<noteq> place h p \<Longrightarrow> fst (sw_upload w p t) k = t k"
      "\<And>p t. is_ok (snd (sw_upload w p t)) \<Longrightarrow> fst (sw_upload w p t) (place h p) = Some (OFile content)"
    and run: "put_file_with_remote_staging h w home source dst overwrite tok t = (t', r)"
  defines "D \<equiv> place h dst" and "S \<equiv> place h (remote_temp_sibling dst tok)"
  shows "touches {D, S} (place h (remote_parent_dir dst)) t t'
    \<and> (t' D = t D \<or> t' D = Some (OFile content) \<and> t D \<noteq> Some ODir \<and> (overwrite \<or> t D = None))
    \<and> (sw_finalize w = Completes \<and> is_ok r \<longrightarrow> t' D = Some (OFile content) \<and> (overwrite \<or> t D = None))"
proof -
  let ?sib = "remote_temp_sibling dst tok" and ?way = "place h (remote_parent_dir dst)"
  let ?kept = "file_kept D S ?way content (length content) overwrite t"
  have par: "D \<parallel> S" and nD: "\<not> prefix D ?way"
    using siblings[OF names(1), of "''.ssh-mcp-staging-'' @ tok" "''.ssh-mcp-backup-''" h] names(2)
    by (simp_all add: D_def S_def remote_temp_sibling_def)
  have D: "t1 D = t D" if "touches {S} ?way t t1" for t1
    using touches_subtree[OF that par nD] subtree_at[of t1 D] subtree_at[of t D] by simp
  have kept: "?kept t1" if "touches {S} ?way t t1" for t1
    using D[OF that] touches_mono[OF that, of "{D, S}"] by (auto simp: file_kept_def)
  have rm: "?kept (best_effort_remote_rm_file h a ?sib t1)" if "?kept t1" for a t1
    using that parallel_neq[OF par] by (auto simp: file_kept_def best_effort_remote_rm_file_def t_rm_f_def S_def intro: touches_upd)
  have prep: "touches {S} ?way t (fst (remote_prepare_put_file_stage h l home dst tok t))" for l
    using exec_checked_state[where P = "touches {S} ?way t", OF touches_refl prepare_script_touches[OF refl]]
    by (auto simp: remote_prepare_put_file_stage_def Let_def S_def split: result.splits prod.splits) (metis fst_conv insertI1)+
  obtain t1 p where pr: "remote_prepare_put_file_stage h (sw_prepare w) home dst tok t = (t1, p)" by fastforce
  have t1: "touches {S} ?way t t1" using prep[of "sw_prepare w"] pr by simp
  obtain t2 u where up: "sw_upload w ?sib t1 = (t2, u)" by fastforce
  have t2: "touches {S} ?way t t2"
    using t1 tool(1)[of _ ?sib t1] up by (auto simp: touches_def S_def)
  obtain t3 f where fi: "remote_finalize_put_file h (sw_finalize w) dst ?sib overwrite t2 = (t3, f)" by fastforce
  have fin: "?kept t3 \<and> (sw_finalize w = Completes \<and> is_ok f \<longrightarrow> t3 D = Some (OFile content) \<and> (overwrite \<or> t D = None))" if "is_ok u"
  proof -
    have S: "t2 S = Some (OFile content)" using tool(2)[of ?sib t1] that up by (simp add: S_def)
    from finalize_put_file_kept[OF D_def[THEN meta_eq_to_obj_eq] S_def[THEN meta_eq_to_obj_eq] par touches_mono[OF t2] D[OF t2] S fi]
    show ?thesis by simp
  qed
  have "?kept t' \<and> (sw_finalize w = Completes \<and> is_ok r \<longrightarrow> t' D = Some (OFile content) \<and> (overwrite \<or> t D = None))"
  proof (cases "\<exists>n. source = Ok (Some n)")
    case False
    then have "t' = t" "\<not> is_ok r" using run by (auto simp: put_file_with_remote_staging_def split: result.splits option.splits)
    then show ?thesis using kept[OF touches_refl] by simp
  next
    case True
    then obtain n where n: "source = Ok (Some n)" by blast
    show ?thesis
    proof (cases p)
      case (Err e)
      then have "t' = t1" "\<not> is_ok r" using run pr n by (auto simp: put_file_with_remote_staging_def)
      then show ?thesis using kept[OF t1] by simp
    next
      case (Ok stage)
      have path: "st_path stage = ?sib" using prepare_stage_path[OF pr[unfolded Ok] lines] .
      show ?thesis
        using run pr n Ok path up fi fin rm[OF kept[OF t2], of "sw_rm_arrives w"] rm[of t3 "sw_rm_arrives w"]
        by (cases u; cases f) (auto simp: put_file_with_remote_staging_def)
    qed
  qed
  then show ?thesis by (auto simp: file_kept_def)
qed

section \<open>Properties\<close>



section \<open>Witnesses\<close>

definition sample_host :: rhost where
  "sample_host = \<lparr>rh_cwd = [''home''], rh_mkdir_p = True, rh_create = True, rh_store = None, rh_mv = (\<lambda>_. True), rh_ln = True,
     rh_rm = True, rh_noise = [], rh_trap = (\<lambda>_ t. t)\<rparr>"

definition sample_tree :: rtree where
  "sample_tree = [[] \<mapsto> ODir, [''srv''] \<mapsto> ODir, [''srv'', ''a''] \<mapsto> OFile ''old'']"

definition sample_upload :: "rtree \<times> (transfer_staging \<times> transfer_counts, engine_error) result" where
  "sample_upload = put_file_exec_raw sample_host Completes ''/root'' (Ok (Some (length ''new''))) ''/srv/a'' True ''7'' ''new'' sample_tree"


definition sample_tar :: tar_run where
  "sample_tar = \<lparr>tx_contents = [[[] \<mapsto> ODir, [''f''] \<mapsto> OFile ''x'']], tx_ok = True\<rparr>"

definition cut_upload :: "rtree \<times> (transfer_staging \<times> transfer_counts, engine_error) result" where
  "cut_upload = put_dir_exec_raw sample_host (CutOff TransferCancelled 5 True) ''/root'' (Ok True) ''/srv/a'' True ''7'' sample_tar
     (Ok \<lparr>tr_bytes = 1, tr_files = 1, tr_directories = 0\<rparr>) sample_tree"


text \<open>A channel that ends without a status, after the stage was announced, is reported as a success although the script never
  installed the file.\<close>

lemma put_file_lost_status:
  "is_ok (snd (put_file_exec_raw sample_host (StatusLost 3 0) ''/root'' (Ok (Some 3)) ''/srv/a'' True ''7'' ''new'' sample_tree))
   \<and> fst (put_file_exec_raw sample_host (StatusLost 3 0) ''/root'' (Ok (Some 3)) ''/srv/a'' True ''7'' ''new'' sample_tree)
       [''srv'', ''a''] = Some (OFile ''old'')"
  by code_simp

end
