(* ===== verification/Install.thy ===== *)
theory Install
  imports Tar Staging
begin

text \<open>
  Downloads: the staging and the installation of files and directories below the local root, in
  \<open>src/src/transfer/exec_raw.rs\<close> and \<open>src/src/transfer/skeleton.rs\<close>, with the remote questions that a transfer asks
  (\<open>resolve_remote_home\<close>, \<open>probe_remote_kind\<close>, \<open>remote_validate_dir_contents\<close>) and the count of
  \<open>src/src/transfer/walk.rs\<close>. A local path is the list of its components; the paths were checked to have no links.
\<close>

section \<open>Definitions\<close>

subsection \<open>The local file system\<close>

datatype install_io = IoExists | IoUnsupported | IoOther

fun install_error :: "install_io \<Rightarrow> engine_error" where
  "install_error IoExists = LocalIoError AlreadyExistsE"
| "install_error IoUnsupported = LocalIoError OtherIoE"
| "install_error IoOther = LocalIoError OtherIoE"

text \<open>What fails for another reason than the state of the tree: the n-th rename, linking, creating, making the parents,
  synchronizing; whether removals work; and the check for links.\<close>

record local_world =
  lw_rename :: "nat \<Rightarrow> install_io option"
  lw_link :: "install_io option"
  lw_create :: "string list \<Rightarrow> install_io option"
  lw_parents :: bool
  lw_sync :: "install_io option"
  lw_remove :: bool
  lw_no_links :: "string list \<Rightarrow> (unit, local_path_error) result"

definition fs_rename :: "local_world \<Rightarrow> nat \<Rightarrow> string list \<Rightarrow> string list \<Rightarrow> rtree \<Rightarrow> (rtree, install_io) result" where
  "fs_rename w n p q t =
     (case lw_rename w n of
        Some e \<Rightarrow> Err e
      | None \<Rightarrow> (case t_rename p q t of Some t1 \<Rightarrow> Ok t1 | None \<Rightarrow> Err IoOther))"

definition fs_hard_link :: "local_world \<Rightarrow> string list \<Rightarrow> string list \<Rightarrow> rtree \<Rightarrow> (rtree, install_io) result" where
  "fs_hard_link w p q t =
     (if t_exists t q then Err IoExists
      else case lw_link w of
        Some e \<Rightarrow> Err e
      | None \<Rightarrow> (case t_ln p q t of Some t1 \<Rightarrow> Ok t1 | None \<Rightarrow> Err IoOther))"

definition fs_create_new :: "local_world \<Rightarrow> tobj \<Rightarrow> string list \<Rightarrow> rtree \<Rightarrow> (rtree, install_io) result" where
  "fs_create_new w obj p t =
     (if t_exists t p then Err IoExists
      else case lw_create w p of
        Some e \<Rightarrow> Err e
      | None \<Rightarrow> (case t_create obj p t of Some t1 \<Rightarrow> Ok t1 | None \<Rightarrow> Err IoOther))"

definition fs_remove_file :: "local_world \<Rightarrow> string list \<Rightarrow> rtree \<Rightarrow> rtree" where
  "fs_remove_file w p t = (if lw_remove w then t_rm_f p t else t)"

definition fs_remove_dir_all :: "local_world \<Rightarrow> string list \<Rightarrow> rtree \<Rightarrow> rtree" where
  "fs_remove_dir_all w p t = (if lw_remove w then remove_tree p t else t)"

subsection \<open>Staging names\<close>

definition place_file_name :: "string list \<Rightarrow> string \<Rightarrow> string" where
  "place_file_name p other = (if p = [] then other else from_utf8_lossy (last p))"

definition with_file_name :: "string list \<Rightarrow> string \<Rightarrow> string list" where
  "with_file_name p name = butlast p @ [name]"

definition attempt_suffix :: "nat \<Rightarrow> string" where
  "attempt_suffix attempt = (if attempt = 0 then [] else ''-'' @ show_nat attempt)"

definition local_temp_sibling_with_attempt :: "string list \<Rightarrow> string \<Rightarrow> nat \<Rightarrow> string list" where
  "local_temp_sibling_with_attempt final_path tok attempt =
     with_file_name final_path (place_file_name final_path ''file'' @ ''.ssh-mcp-staging-'' @ tok @ attempt_suffix attempt)"

definition local_temp_dir_sibling_with_attempt :: "string list \<Rightarrow> string \<Rightarrow> nat \<Rightarrow> string list" where
  "local_temp_dir_sibling_with_attempt final_dir tok attempt =
     with_file_name final_dir (place_file_name final_dir ''dir'' @ ''.ssh-mcp-staging-dir-'' @ tok @ attempt_suffix attempt)"

definition local_backup_dir_sibling :: "string list \<Rightarrow> string \<Rightarrow> string list" where
  "local_backup_dir_sibling final_dir tok =
     with_file_name final_dir (place_file_name final_dir ''dir'' @ ''.ssh-mcp-backup-dir-'' @ tok)"

text \<open>The loop over the candidates.\<close>

fun create_unique ::
  "local_world \<Rightarrow> tobj \<Rightarrow> (nat \<Rightarrow> string list) \<Rightarrow> nat list \<Rightarrow> rtree \<Rightarrow> (string list \<times> rtree, engine_error) result" where
  "create_unique w obj name [] t = Err (LocalIoError AlreadyExistsE)"
| "create_unique w obj name (attempt # attempts) t =
     (let candidate = name attempt in
      case lw_no_links w candidate of
        Err e \<Rightarrow> Err (LocalPathInvalid e)
      | Ok _ \<Rightarrow>
          (case fs_create_new w obj candidate t of
             Ok t1 \<Rightarrow> Ok (candidate, t1)
           | Err e \<Rightarrow> if e = IoExists then create_unique w obj name attempts t else Err (install_error e)))"

definition STAGING_ATTEMPTS :: nat where "STAGING_ATTEMPTS = 128"

definition create_unique_local_staging_file ::
  "local_world \<Rightarrow> string list \<Rightarrow> string \<Rightarrow> rtree \<Rightarrow> (string list \<times> rtree, engine_error) result" where
  "create_unique_local_staging_file w final_path tok t =
     create_unique w (OFile []) (local_temp_sibling_with_attempt final_path tok) [0..<STAGING_ATTEMPTS] t"

definition create_unique_local_staging_dir ::
  "local_world \<Rightarrow> string list \<Rightarrow> string \<Rightarrow> rtree \<Rightarrow> (string list \<times> rtree, engine_error) result" where
  "create_unique_local_staging_dir w final_dir tok t =
     create_unique w ODir (local_temp_dir_sibling_with_attempt final_dir tok) [0..<STAGING_ATTEMPTS] t"

subsection \<open>Installation\<close>

definition show_place :: "string list \<Rightarrow> string" where
  "show_place p = concat (map (\<lambda>s. SLASH # s) p)"

definition atomic_replace_file ::
  "local_world \<Rightarrow> string list \<Rightarrow> string list \<Rightarrow> rtree \<Rightarrow> rtree \<times> (unit, engine_error) result" where
  "atomic_replace_file w staging final_path t =
     (case fs_rename w 0 staging final_path t of
        Ok t1 \<Rightarrow> (t1, Ok ())
      | Err e \<Rightarrow>
          if e = IoExists then
            let t1 = fs_remove_file w final_path t in
            (case fs_rename w 1 staging final_path t1 of
               Ok t2 \<Rightarrow> (t2, Ok ())
             | Err e2 \<Rightarrow> (fs_remove_file w staging t1, Err (install_error e2)))
          else (fs_remove_file w staging t, Err (install_error e)))"

definition exists_error :: engine_error where
  "exists_error = invalid_params ''local destination exists and overwrite=false. Use overwrite=true to replace it.''"

definition atomic_install_file_overwrite_false ::
  "local_world \<Rightarrow> string list \<Rightarrow> string list \<Rightarrow> rtree \<Rightarrow> rtree \<times> (unit, engine_error) result" where
  "atomic_install_file_overwrite_false w staging final_path t =
     (case fs_hard_link w staging final_path t of
        Ok t1 \<Rightarrow> (fs_remove_file w staging t1, Ok ())
      | Err e \<Rightarrow>
          (fs_remove_file w staging t,
           Err (if e = IoExists then exists_error
                else if e = IoUnsupported
                then invalid_params ''overwrite=false requires hard-link support on the local filesystem''
                else install_error e)))"

text \<open>The second half of \<open>atomic_replace_dir\<close>: the stage becomes the destination, and the backup is removed or restored.\<close>

definition install_or_restore ::
  "local_world \<Rightarrow> string list \<Rightarrow> string list \<Rightarrow> string list \<Rightarrow> bool \<Rightarrow> rtree \<Rightarrow> rtree \<times> (unit, engine_error) result" where
  "install_or_restore w staging final_dir backup had_destination t =
     (case fs_rename w 1 staging final_dir t of
        Ok t1 \<Rightarrow> (if had_destination then fs_remove_dir_all w backup t1 else t1, Ok ())
      | Err install_e \<Rightarrow>
          if had_destination then
            (case fs_rename w 2 backup final_dir t of
               Ok t1 \<Rightarrow> (t1, Err (install_error install_e))
             | Err _ \<Rightarrow>
                 (t, Err (TransportFailed (''failed to install staged directory; rollback failed; backup retained at '' @ show_place backup))))
          else (t, Err (install_error install_e)))"

definition atomic_replace_dir ::
  "local_world \<Rightarrow> string list \<Rightarrow> string list \<Rightarrow> string list \<Rightarrow> rtree \<Rightarrow> rtree \<times> (unit, engine_error) result" where
  "atomic_replace_dir w staging final_dir backup t =
     (case (if lw_parents w then t_mkdir_p (butlast final_dir) t else None) of
        None \<Rightarrow> (t, Err (install_error IoOther))
      | Some t1 \<Rightarrow>
          if t_exists t1 final_dir then
            if t_exists t1 backup then (t1, Err (TransportFailed (''backup path already exists: '' @ show_place backup)))
            else (case fs_rename w 0 final_dir backup t1 of
                    Err e \<Rightarrow> (t1, Err (install_error e))
                  | Ok t2 \<Rightarrow> install_or_restore w staging final_dir backup True t2)
          else install_or_restore w staging final_dir backup False t1)"

subsection \<open>Downloads\<close>

definition local_staging :: "string list \<Rightarrow> string list option \<Rightarrow> string list \<Rightarrow> transfer_staging" where
  "local_staging staging_path backup_path final_path =
     \<lparr>ts_local = Some \<lparr>sl_staging_path = show_place staging_path, sl_backup_path = map_option show_place backup_path,
                       sl_final_path = show_place final_path\<rparr>,
      ts_remote = None\<rparr>"

definition install_download ::
  "local_world \<Rightarrow> bool \<Rightarrow> string list \<Rightarrow> string list \<Rightarrow> rtree \<Rightarrow> rtree \<times> (unit, engine_error) result" where
  "install_download w overwrite tmp local_dst t =
     (if overwrite then atomic_replace_file w tmp local_dst t else atomic_install_file_overwrite_false w tmp local_dst t)"

text \<open>\<open>raw\<close> is what the raw stream yields: the bytes written to the staging file, the exit code and the error text.\<close>

definition finish_file_download ::
  "local_world \<Rightarrow> (string \<times> nat option \<times> string, engine_error) result \<Rightarrow> string list \<Rightarrow> string list \<Rightarrow> bool \<Rightarrow> rtree \<Rightarrow>
   rtree \<times> (transfer_staging \<times> transfer_counts, engine_error) result" where
  "finish_file_download w raw tmp local_dst overwrite t =
     (case raw of
        Err e \<Rightarrow> (fs_remove_file w tmp t, Err e)
      | Ok (written, status_code, stderr) \<Rightarrow>
          let t1 = t(tmp \<mapsto> OFile written) in
          (case lw_sync w of
             Some e \<Rightarrow> (t1, Err (install_error e))
           | None \<Rightarrow>
               (case ensure_remote_success ''get_file'' status_code stderr of
                  Err e \<Rightarrow> (fs_remove_file w tmp t1, Err e)
                | Ok _ \<Rightarrow>
                    (case install_download w overwrite tmp local_dst t1 of
                       (t2, Err e) \<Rightarrow> (t2, Err e)
                     | (t2, Ok _) \<Rightarrow>
                         (t2, Ok (local_staging tmp None local_dst,
                                  \<lparr>tr_bytes = length written, tr_files = 1, tr_directories = 0\<rparr>))))))"

definition get_file_exec_raw ::
  "local_world \<Rightarrow> (string \<times> nat option \<times> string, engine_error) result \<Rightarrow> string \<Rightarrow> string list \<Rightarrow> bool \<Rightarrow> string \<Rightarrow> rtree \<Rightarrow>
   rtree \<times> (transfer_staging \<times> transfer_counts, engine_error) result" where
  "get_file_exec_raw w raw remote_src local_dst overwrite tok t =
     (case and_then (validate_remote_user_file_path remote_src ''remote_path'') (\<lambda>_.
           create_unique_local_staging_file w local_dst tok t) of
        Err e \<Rightarrow> (t, Err e)
      | Ok (tmp, t1) \<Rightarrow> finish_file_download w raw tmp local_dst overwrite t1)"

text \<open>Where a directory is unpacked, with its backup: a stage, or the destination itself.\<close>

definition download_target ::
  "local_world \<Rightarrow> string list \<Rightarrow> bool \<Rightarrow> string \<Rightarrow> rtree \<Rightarrow> (string list \<times> rtree, engine_error) result" where
  "download_target w local_dst_dir overwrite tok t =
     (if overwrite then create_unique_local_staging_dir w local_dst_dir tok t
      else case fs_create_new w ODir local_dst_dir t of
        Ok t1 \<Rightarrow> Ok (local_dst_dir, t1)
      | Err e \<Rightarrow> Err (if e = IoExists then exists_error else install_error e))"

definition install_dir_download ::
  "local_world \<Rightarrow> bool \<Rightarrow> string list \<Rightarrow> string list \<Rightarrow> string \<Rightarrow> transfer_counts \<Rightarrow> rtree \<Rightarrow>
   rtree \<times> (transfer_staging \<times> transfer_counts, engine_error) result" where
  "install_dir_download w overwrite target local_dst_dir tok counts t =
     (if overwrite then
        (let backup = local_backup_dir_sibling local_dst_dir tok in
         case atomic_replace_dir w target local_dst_dir backup t of
           (t1, Err e) \<Rightarrow> (fs_remove_dir_all w target t1, Err e)
         | (t1, Ok _) \<Rightarrow> (t1, Ok (local_staging target (Some backup) local_dst_dir, counts)))
      else (t, Ok (local_staging local_dst_dir None local_dst_dir, counts)))"

text \<open>\<open>content\<close> is what the extraction makes of the archive, \<open>extract_res\<close> its result, and \<open>exec_res\<close> that of the command.\<close>

definition finish_dir_download ::
  "local_world \<Rightarrow> (transfer_counts, engine_error) result \<Rightarrow> (nat option \<times> string, engine_error) result \<Rightarrow> string list \<Rightarrow>
   string list \<Rightarrow> bool \<Rightarrow> string \<Rightarrow> rtree \<Rightarrow> rtree \<times> (transfer_staging \<times> transfer_counts, engine_error) result" where
  "finish_dir_download w extract_res exec_res target local_dst_dir overwrite tok t =
     (let both = (\<lambda>e. case extract_res of
                   Ok _ \<Rightarrow> e
                 | Err _ \<Rightarrow> TransportFailed ''get_dir failed; additionally tar decoder failed'') in
      case exec_res of
        Err e \<Rightarrow> (fs_remove_dir_all w target t, Err (both e))
      | Ok (status_code, stderr) \<Rightarrow>
          (case ensure_remote_success ''get_dir'' status_code stderr of
             Err e \<Rightarrow> (fs_remove_dir_all w target t, Err (both e))
           | Ok _ \<Rightarrow>
               (case extract_res of
                  Err e \<Rightarrow> (fs_remove_dir_all w target t, Err e)
                | Ok counts \<Rightarrow> install_dir_download w overwrite target local_dst_dir tok counts t)))"

definition get_dir_exec_raw ::
  "local_world \<Rightarrow> rtree \<Rightarrow> (transfer_counts, engine_error) result \<Rightarrow> (nat option \<times> string, engine_error) result \<Rightarrow>
   string \<Rightarrow> string list \<Rightarrow> bool \<Rightarrow> string \<Rightarrow> rtree \<Rightarrow> rtree \<times> (transfer_staging \<times> transfer_counts, engine_error) result" where
  "get_dir_exec_raw w content extract_res exec_res remote_src_dir local_dst_dir overwrite tok t =
     (case and_then (validate_remote_user_path remote_src_dir ''remote_path'') (\<lambda>_.
           download_target w local_dst_dir overwrite tok t) of
        Err e \<Rightarrow> (t, Err e)
      | Ok (target, t1) \<Rightarrow>
          finish_dir_download w extract_res exec_res target local_dst_dir overwrite tok (graft target content t1))"

subsection \<open>Downloads by another tool\<close>

text \<open>\<open>download\<close> is what the tool makes of the tree at the staging path, with its result.\<close>

definition get_file_with_local_staging ::
  "local_world \<Rightarrow> (string list \<Rightarrow> rtree \<Rightarrow> rtree \<times> (unit, engine_error) result) \<Rightarrow> string \<Rightarrow> string list \<Rightarrow> bool \<Rightarrow> string \<Rightarrow>
   rtree \<Rightarrow> rtree \<times> (transfer_staging \<times> transfer_counts, engine_error) result" where
  "get_file_with_local_staging w download remote_path local_path overwrite tok t =
     (case and_then (validate_remote_user_file_path remote_path ''remote_path'') (\<lambda>_.
           create_unique_local_staging_file w local_path tok t) of
        Err e \<Rightarrow> (t, Err e)
      | Ok (tmp, t1) \<Rightarrow>
          (case download tmp t1 of
             (t2, Err e) \<Rightarrow> (fs_remove_file w tmp t2, Err e)
           | (t2, Ok _) \<Rightarrow>
               (case t2 tmp of
                  None \<Rightarrow> (t2, Err (LocalIoError NotFoundE))
                | Some obj \<Rightarrow>
                    (case install_download w overwrite tmp local_path t2 of
                       (t3, Err e) \<Rightarrow> (t3, Err e)
                     | (t3, Ok _) \<Rightarrow>
                         (t3, Ok (local_staging tmp None local_path,
                                  \<lparr>tr_bytes = (case obj of OFile c \<Rightarrow> length c | ODir \<Rightarrow> 0), tr_files = 1, tr_directories = 0\<rparr>))))))"

definition get_dir_with_local_staging ::
  "local_world \<Rightarrow> (string list \<Rightarrow> rtree \<Rightarrow> rtree \<times> (unit, engine_error) result) \<Rightarrow> (unit, engine_error) result \<Rightarrow>
   (string list \<Rightarrow> rtree \<Rightarrow> (transfer_counts, engine_error) result) \<Rightarrow> string \<Rightarrow> string list \<Rightarrow> bool \<Rightarrow> string \<Rightarrow>
   rtree \<Rightarrow> rtree \<times> (transfer_staging \<times> transfer_counts, engine_error) result" where
  "get_dir_with_local_staging w download validated count_dir remote_path local_path overwrite tok t =
     (case and_then (validate_remote_user_path remote_path ''remote_path'') (\<lambda>_.
           and_then validated (\<lambda>_. download_target w local_path overwrite tok t)) of
        Err e \<Rightarrow> (t, Err e)
      | Ok (target, t1) \<Rightarrow>
          (case download target t1 of
             (t2, Err e) \<Rightarrow> (fs_remove_dir_all w target t2, Err e)
           | (t2, Ok _) \<Rightarrow>
               (case count_dir target t2 of
                  Err e \<Rightarrow> (fs_remove_dir_all w target t2, Err e)
                | Ok counts \<Rightarrow> install_dir_download w overwrite target local_path tok counts t2)))"

subsection \<open>Counting a directory\<close>

definition zero_counts :: transfer_counts where
  "zero_counts = \<lparr>tr_bytes = 0, tr_files = 0, tr_directories = 0\<rparr>"

definition links_error :: engine_error where
  "links_error = invalid_params ''symlinks are not supported by directory transfer''"

definition unsupported_error :: engine_error where
  "unsupported_error = invalid_params ''unsupported file type in directory transfer''"

text \<open>The entries of one directory; a directory among them goes on top of the stack.\<close>

fun count_entries ::
  "(string \<times> ftree) list \<Rightarrow> ftree list \<Rightarrow> transfer_counts \<Rightarrow> (ftree list \<times> transfer_counts, engine_error) result" where
  "count_entries [] stack counts = Ok (stack, counts)"
| "count_entries ((name, e) # es) stack counts =
     (case e of
        FLink \<Rightarrow> Err links_error
      | FDir m t ds \<Rightarrow> count_entries es (e # stack) (counts\<lparr>tr_directories := tr_directories counts + 1\<rparr>)
      | FFile m t len c \<Rightarrow>
          count_entries es stack (counts\<lparr>tr_files := tr_files counts + 1, tr_bytes := tr_bytes counts + len\<rparr>)
      | FOther \<Rightarrow> Err unsupported_error)"

definition stack_weight :: "ftree list \<Rightarrow> nat" where
  "stack_weight stack = sum_list (map tree_weight stack)"

lemma count_entries_weight:
  "count_entries es stack counts = Ok (stack', counts') \<Longrightarrow>
   stack_weight stack' \<le> stack_weight stack + sum_list (map (\<lambda>e. tree_weight (snd e)) es)"
proof (induction es stack counts rule: count_entries.induct)
  case (2 name e es stack counts)
  then show ?case by (cases e) (force simp: stack_weight_def)+
qed simp

fun entries_of :: "ftree \<Rightarrow> (string \<times> ftree) list" where
  "entries_of (FDir m t es) = es"
| "entries_of _ = []"

lemma count_entries_decreases:
  "count_entries (entries_of dir) stack counts = Ok (stack', counts') \<Longrightarrow> stack_weight stack' < stack_weight (dir # stack)"
  by (cases dir) (auto simp: stack_weight_def dest!: count_entries_weight)

function count_stack :: "ftree list \<Rightarrow> transfer_counts \<Rightarrow> (transfer_counts, engine_error) result" where
  "count_stack [] counts = Ok counts"
| "count_stack (dir # stack) counts =
     (case count_entries (entries_of dir) stack counts of
        Err e \<Rightarrow> Err e
      | Ok (stack', counts') \<Rightarrow> count_stack stack' counts')"
  by pat_completeness auto
termination
  by (relation "measure (\<lambda>(stack, counts). stack_weight stack)") (auto dest!: count_entries_decreases)

definition count_dir_no_symlinks :: "ftree \<Rightarrow> (transfer_counts, engine_error) result" where
  "count_dir_no_symlinks root =
     (case root of
        FLink \<Rightarrow> Err links_error
      | FDir m t es \<Rightarrow> count_stack [root] zero_counts
      | _ \<Rightarrow> Err (invalid_params ''local_path is not a directory''))"

text \<open>The same by recursion on the tree: whether it has only files and directories, and its totals.\<close>

fun plain_tree :: "ftree \<Rightarrow> bool" where
  "plain_tree (FDir m t es) = list_all (\<lambda>e. plain_tree (snd e)) es"
| "plain_tree (FFile m t len c) = True"
| "plain_tree _ = False"

fun is_fdir :: "ftree \<Rightarrow> bool" where
  "is_fdir (FDir m t es) = True"
| "is_fdir _ = False"

fun tree_totals :: "ftree \<Rightarrow> nat \<times> nat \<times> nat" where
  "tree_totals (FFile m t len c) = (len, 1, 0)"
| "tree_totals (FDir m t es) =
     (sum_list (map (\<lambda>e. fst (tree_totals (snd e))) es), sum_list (map (\<lambda>e. fst (snd (tree_totals (snd e)))) es),
      1 + sum_list (map (\<lambda>e. snd (snd (tree_totals (snd e)))) es))"
| "tree_totals _ = (0, 0, 0)"

subsection \<open>Questions to the remote host\<close>

text \<open>\<open>out\<close> is the exit code, the output and the error text of a command.\<close>

definition nonzero_exit :: "nat option \<Rightarrow> bool" where
  "nonzero_exit status_code \<longleftrightarrow> (case status_code of None \<Rightarrow> False | Some n \<Rightarrow> n \<noteq> 0)"

definition resolve_remote_home ::
  "(nat option \<times> string \<times> string, engine_error) result \<Rightarrow> (string, engine_error) result" where
  "resolve_remote_home out =
     and_then out (\<lambda>(status_code, home, stderr).
       if nonzero_exit status_code then Err (TransportFailed (''failed to resolve HOME: stderr='' @ stderr))
       else if trim home = [] then Err (TransportFailed ''remote HOME is empty'')
       else if \<not> is_ok (validate_remote_user_path home ''remote_home'') then Err (TransportFailed ''invalid remote HOME'')
       else Ok home)"

definition probe_remote_kind ::
  "string \<Rightarrow> (nat option \<times> string \<times> string, engine_error) result \<Rightarrow> (transfer_kind, engine_error) result" where
  "probe_remote_kind remote_path out =
     and_then (validate_remote_user_path remote_path ''remote_path'') (\<lambda>_.
     and_then out (\<lambda>(status_code, stdout, stderr).
       if nonzero_exit status_code then Err (TransportFailed (''failed to probe remote path kind: stderr='' @ stderr))
       else if trim stdout = ''dir'' then Ok KindDirectory
       else if trim stdout = ''file'' then Ok KindFile
       else if trim stdout = ''missing'' then Err (invalid_params ''remote_path does not exist'')
       else Err (TransportFailed (''unexpected probe output: '' @ trim stdout))))"

text \<open>The probing script.\<close>

definition probe_script :: "rhost \<Rightarrow> string \<Rightarrow> rtree \<Rightarrow> string" where
  "probe_script h path t =
     (case t (place h path) of Some ODir \<Rightarrow> ''dir'' | Some (OFile _) \<Rightarrow> ''file'' | None \<Rightarrow> ''missing'')"

definition remote_validate_dir_contents ::
  "string \<Rightarrow> (nat option \<times> string, engine_error) result \<Rightarrow> (unit, engine_error) result" where
  "remote_validate_dir_contents remote_src_dir out =
     and_then (validate_remote_user_path remote_src_dir ''remote_path'') (\<lambda>_.
     and_then out (\<lambda>(status_code, stderr).
       case status_code of
         None \<Rightarrow> Err (TransportFailed ''remote dir validation failed: missing exit status'')
       | Some n \<Rightarrow>
           if n = 0 then Ok ()
           else (case parse_marker_value stderr ERR_MARKER of
                   None \<Rightarrow> Err (TransportFailed (''remote dir validation failed: stderr='' @ trim stderr))
                 | Some err \<Rightarrow>
                     if trim err = ''not_a_directory'' then Err (invalid_params ''remote_path is not a directory'')
                     else if trim err = ''unsupported_entry'' then Err unsupported_error
                     else Err (TransportFailed (''remote dir validation failed: stderr='' @ trim stderr)))))"

section \<open>Lemmas\<close>

lemma create_unique_Ok:
  "create_unique w obj name ns t = Ok (candidate, t1) \<Longrightarrow>
   \<exists>n\<in>set ns. candidate = name n \<and> t candidate = None \<and> t1 = t(candidate \<mapsto> obj)"
  by (induction ns)
    (auto simp: Let_def fs_create_new_def t_exists_def t_create_def split: result.splits if_splits option.splits)

lemma local_sibling_parallel:
  assumes "utf8_valid x" "a \<noteq> []"
  shows "way @ [x] \<parallel> with_file_name (way @ [x]) (place_file_name (way @ [x]) other @ a)"
  using assms by (simp add: with_file_name_def place_file_name_def from_utf8_lossy_valid sibling_parallel)

lemma local_siblings_parallel:
  "a \<noteq> b \<Longrightarrow> with_file_name p (place_file_name p other @ a) \<parallel> with_file_name p (place_file_name p other @ b)"
  by (simp add: with_file_name_def sibling_parallel)

lemma install_download_kept:
  assumes P: "D \<parallel> S" "touches {D, S} way t t2" "t2 D = t D" "t2 S = Some (OFile written)"
    and posix: "lw_rename w 0 \<noteq> Some IoExists"
    and run: "install_download w overwrite S D t2 = (t3, r)"
  shows "file_kept D S way written (length written) overwrite t t3"
    and "is_ok r \<Longrightarrow> t3 D = Some (OFile written) \<and> (overwrite \<or> t D = None)"
proof -
  let ?mv = "graft D (subtree t2 S) (remove_tree S t2)"
  have ne: "D \<noteq> S" "S \<parallel> D" using P(1) parallel_commute by auto
  have mv: "t' = ?mv" "t D \<noteq> Some ODir" if "fs_rename w n S D t2 = Ok t'" for n t'
    using that t_rename_Some[of S D t2 t', OF _ ne(2)] P(3) by (auto simp: fs_rename_def split: option.splits)
  have mvD: "?mv D = Some (OFile written)" using P(4) by (simp add: graft_def subtree_def)
  have mvt: "touches {D, S} way t ?mv" using P(2) by (intro touches_graft touches_remove) auto
  have noex: "fs_rename w 0 S D t2 \<noteq> Err IoExists" using posix by (auto simp: fs_rename_def split: option.splits)
  show "file_kept D S way written (length written) overwrite t t3"
    using run mv mvD mvt noex P(2,3,4) ne
    by (auto simp: install_download_def atomic_replace_file_def atomic_install_file_overwrite_false_def file_kept_def fs_remove_file_def
        t_rm_f_def fs_hard_link_def t_ln_def t_exists_def intro!: touches_upd
        split: result.splits if_splits option.splits tobj.splits)
  show "t3 D = Some (OFile written) \<and> (overwrite \<or> t D = None)" if "is_ok r"
    using that run mv mvD noex P(3,4) ne
    by (auto simp: install_download_def atomic_replace_file_def atomic_install_file_overwrite_false_def fs_remove_file_def
        t_rm_f_def fs_hard_link_def t_ln_def t_exists_def split: result.splits if_splits option.splits tobj.splits)
qed

lemma fs_rename_parallel:
  "fs_rename w n p q u = Ok t' \<Longrightarrow> p \<parallel> q \<Longrightarrow> t' = graft q (subtree u p) (remove_tree p u)"
  using t_rename_Some(1)[of p q u t'] by (auto simp: fs_rename_def split: option.splits)

lemma install_or_restore_kept:
  assumes P: "D \<parallel> S" "D \<parallel> B" "S \<parallel> B" and t1: "touches {D, S, B} way t t1" "t1 D = None" "subtree t1 S = content"
    and old: "if had then subtree t1 B = subtree t D else subtree t1 D = subtree t D"
    and run: "install_or_restore w S D B had t1 = (t2, r)"
  shows "dir_kept D S B way (Some content) t t2 \<and> (is_ok r \<longrightarrow> subtree t2 D = content)"
proof -
  note par = P P[THEN parallel_commute[THEN iffD1]]
  let ?inst = "graft D content (remove_tree S t1)" and ?rest = "graft D (subtree t1 B) (remove_tree B t1)"
  have mv: "t' = ?inst" if "fs_rename w n S D t1 = Ok t'" for n t'
    using fs_rename_parallel[OF that] par t1(3) by simp
  have roll: "t' = ?rest" if "fs_rename w n B D t1 = Ok t'" for n t'
    using fs_rename_parallel[OF that] par by simp
  have touch: "touches {D, S, B} way t ?inst" "touches {D, S, B} way t (remove_tree B ?inst)" "touches {D, S, B} way t ?rest"
    using t1(1) by (auto intro!: touches_graft touches_remove)
  have sub: "subtree ?inst D = content" "subtree (remove_tree B ?inst) D = content" "subtree ?rest D = subtree t1 B"
    using par by (simp_all add: tree_simps)
  show ?thesis
    using run mv roll touch sub t1(1,2) old
    by (auto simp: install_or_restore_def dir_kept_def fs_remove_dir_all_def split: result.splits if_splits)
qed

lemma atomic_replace_dir_kept:
  assumes P: "D \<parallel> S" "D \<parallel> B" "S \<parallel> B" "touches {D, S, B} way t t1" "subtree t1 D = subtree t D" "subtree t1 S = content"
    and D: "butlast D = way" "\<not> prefix D way" "\<not> prefix S way"
    and run: "atomic_replace_dir w S D B t1 = (t2, r)"
  shows "dir_kept D S B way (Some content) t t2 \<and> (is_ok r \<longrightarrow> subtree t2 D = content)"
proof (cases "if lw_parents w then t_mkdir_p way t1 else None")
  case None
  then have "t2 = t1" "\<not> is_ok r" using run D(1) by (auto simp: atomic_replace_dir_def)
  then show ?thesis using P(4,5) by (simp add: dir_kept_def)
next
  case (Some u)
  have u0: "touches {} way t1 u" using touches_mkdir_p[of way t1 u] Some by (auto split: if_splits)
  then have u: "touches {D, S, B} way t u" using touches_trans[OF P(4) touches_mono[OF u0]] by simp
  have sub: "subtree u p = subtree t1 p" if "\<not> prefix p way" for p
    using u0 that by (auto simp: touches_def subtree_def dest: append_prefixD)
  have kept: "dir_kept D S B way (Some content) t u" using u sub[OF D(2)] P(5) by (simp add: dir_kept_def)
  consider (absent) "u D = None" "install_or_restore w S D B False u = (t2, r)" | (fails) "t2 = u" "\<not> is_ok r"
    | (moved) t3 where "fs_rename w 0 D B u = Ok t3" "install_or_restore w S D B True t3 = (t2, r)"
    using run Some D(1) by (auto simp: atomic_replace_dir_def t_exists_def split: if_splits result.splits)
  then show ?thesis
  proof cases
    case absent
    from install_or_restore_kept[OF P(1-3) u absent(1) _ _ absent(2)] sub[OF D(2)] sub[OF D(3)] P(5,6) show ?thesis by simp
  next
    case fails
    with kept show ?thesis by simp
  next
    case moved
    have t3: "t3 = graft B (subtree u D) (remove_tree D u)" using fs_rename_parallel[OF moved(1) P(2)] .
    have "touches {D, S, B} way t t3" unfolding t3 using u by (auto intro!: touches_graft touches_remove)
    moreover have "t3 D = None" "subtree t3 S = content" "subtree t3 B = subtree t D"
      using P(1-3) P(1-3)[THEN parallel_commute[THEN iffD1]] sub[OF D(2)] sub[OF D(3)] P(5,6)
      by (simp_all add: t3 tree_simps at_graft_other)
    ultimately show ?thesis using install_or_restore_kept[OF P(1-3) _ _ _ _ moved(2)] by simp
  qed
qed

lemma ensure_ok_status:
  "ensure_remote_success what c e = Ok x \<Longrightarrow> c = None \<or> c = Some 0"
  by (auto simp: ensure_remote_success_def split: option.splits if_splits)

lemma finish_file_download_kept:
  assumes P: "D \<parallel> S" "touches {D, S} way t t1" "t1 D = t D" and posix: "lw_rename w 0 \<noteq> Some IoExists"
    and run: "finish_file_download w raw S D overwrite t1 = (t2, r)"
  shows "touches {D, S} way t t2
    \<and> (t2 D = t D \<or> (\<exists>written c e. raw = Ok (written, c, e) \<and> t2 D = Some (OFile written)) \<and> t D \<noteq> Some ODir \<and> (overwrite \<or> t D = None))
    \<and> (is_ok r \<longrightarrow> (\<exists>written c e. raw = Ok (written, c, e) \<and> (c = None \<or> c = Some 0) \<and> t2 D = Some (OFile written))
         \<and> (overwrite \<or> t D = None))"
proof (cases raw)
  case (Err e)
  with run P parallel_neq[OF P(1)] show ?thesis
    by (auto simp: finish_file_download_def fs_remove_file_def t_rm_f_def intro!: touches_upd)
next
  case (Ok wce)
  then obtain written c e where raw: "raw = Ok (written, c, e)" by (cases wce) auto
  let ?u = "t1(S \<mapsto> OFile written)"
  have u: "touches {D, S} way t ?u" "?u D = t D" "?u S = Some (OFile written)"
    using P parallel_neq[OF P(1)] by (auto intro!: touches_upd)
  have rm: "touches {D, S} way t (fs_remove_file w S ?u)" "fs_remove_file w S ?u D = t D"
    using u P parallel_neq[OF P(1)] by (auto simp: fs_remove_file_def t_rm_f_def intro!: touches_upd)
  obtain t3 i where i: "install_download w overwrite S D ?u = (t3, i)" by fastforce
  note k = install_download_kept[OF P(1) u posix i]
  show ?thesis
    using run raw i u rm k
    by (auto simp: finish_file_download_def Let_def file_kept_def dest: ensure_ok_status split: option.splits result.splits)
qed

lemma finish_dir_download_cases:
  assumes "finish_dir_download w extract_res exec_res S D overwrite tok t1 = (t2, r)"
  shows "t2 = fs_remove_dir_all w S t1 \<and> \<not> is_ok r
    \<or> (\<exists>counts. extract_res = Ok counts \<and> install_dir_download w overwrite S D tok counts t1 = (t2, r))"
  using assms by (auto simp: finish_dir_download_def Let_def split: result.splits)

lemma finish_dir_overwrite_kept:
  fixes w :: local_world and t :: rtree
  assumes x: "utf8_valid x" and S: "S = local_temp_dir_sibling_with_attempt (way @ [x]) tok n"
    and run: "finish_dir_download w extract_res exec_res S (way @ [x]) True tok (graft S content (t(S := v))) = (t2, r)"
  defines "D \<equiv> way @ [x]" and "B \<equiv> local_backup_dir_sibling (way @ [x]) tok"
  shows "dir_kept D S B way (Some content) t t2 \<and> (is_ok r \<longrightarrow> is_ok extract_res \<and> subtree t2 D = content)"
proof -
  have par: "D \<parallel> S" "D \<parallel> B" "S \<parallel> B"
    unfolding D_def B_def S local_temp_dir_sibling_with_attempt_def local_backup_dir_sibling_def
    by (rule local_sibling_parallel[OF x] local_siblings_parallel; simp)+
  have way: "butlast D = way" "\<not> prefix D way" "\<not> prefix S way"
    by (auto simp: D_def S local_temp_dir_sibling_with_attempt_def with_file_name_def dest: prefix_length_le)
  let ?u = "graft S content (t(S := v))"
  have u: "touches {D, S, B} way t ?u" "subtree ?u D = subtree t D" "subtree ?u S = content"
    using par par[THEN parallel_commute[THEN iffD1]] by (auto simp: tree_simps intro!: touches_graft touches_upd)
  have rm: "dir_kept D S B way (Some content) t (fs_remove_dir_all w S u')" if "dir_kept D S B way (Some content) t u'" for u'
    using that par(3) par(1)[THEN parallel_commute[THEN iffD1]]
    by (auto simp: dir_kept_def fs_remove_dir_all_def tree_simps at_graft_other intro: touches_remove)
  obtain t3 i where i: "atomic_replace_dir w S D B ?u = (t3, i)" by fastforce
  note k = atomic_replace_dir_kept[OF par u way i]
  have u0: "dir_kept D S B way (Some content) t ?u" using u by (simp add: dir_kept_def)
  from finish_dir_download_cases[OF run] show ?thesis
    using rm[OF u0] rm[of t3] k i by (cases i) (auto simp: install_dir_download_def Let_def D_def B_def)
qed

lemma finish_dir_new_kept:
  assumes run: "finish_dir_download w extract_res exec_res D D False tok (graft D content (t(D := v))) = (t2, r)"
  shows "touches {D} way t t2 \<and> (is_ok r \<longrightarrow> is_ok extract_res \<and> subtree t2 D = content)"
proof -
  have "touches {D} way t (graft D content (t(D := v)))" by (auto intro!: touches_graft touches_upd)
  moreover from this have "touches {D} way t (fs_remove_dir_all w D (graft D content (t(D := v))))"
    by (auto simp: fs_remove_dir_all_def intro: touches_remove)
  ultimately show ?thesis
    using finish_dir_download_cases[OF run] by (auto simp: install_dir_download_def tree_simps)
qed

lemma count_entries_plain:
  "list_all (\<lambda>e. plain_tree (snd e)) es \<Longrightarrow>
   \<exists>stack' counts'. count_entries es stack counts = Ok (stack', counts') \<and> (list_all plain_tree stack \<longrightarrow> list_all plain_tree stack')
     \<and> tr_bytes counts' + sum_list (map (fst \<circ> tree_totals) stack')
       = tr_bytes counts + sum_list (map (fst \<circ> tree_totals) stack) + sum_list (map (\<lambda>e. fst (tree_totals (snd e))) es)
     \<and> tr_files counts' + sum_list (map (fst \<circ> snd \<circ> tree_totals) stack')
       = tr_files counts + sum_list (map (fst \<circ> snd \<circ> tree_totals) stack) + sum_list (map (\<lambda>e. fst (snd (tree_totals (snd e)))) es)
     \<and> tr_directories counts' + sum_list (map (\<lambda>d. snd (snd (tree_totals d)) - 1) stack')
       = tr_directories counts + sum_list (map (\<lambda>d. snd (snd (tree_totals d)) - 1) stack) + sum_list (map (\<lambda>e. snd (snd (tree_totals (snd e)))) es)"
proof (induction es stack counts rule: count_entries.induct)
  case (2 name e es stack counts)
  then show ?case by (cases e) (force simp: algebra_simps)+
qed simp

text \<open>The count of a directory is the sum over the tree.\<close>

lemma count_entries_dirs:
  "count_entries es stack counts = Ok (stack', counts') \<Longrightarrow> list_all is_fdir stack \<Longrightarrow> list_all is_fdir stack'"
proof (induction es stack counts rule: count_entries.induct)
  case (2 name e es stack counts)
  then show ?case by (cases e) auto
qed simp

lemma count_stack_plain:
  "list_all plain_tree stack \<Longrightarrow> list_all is_fdir stack \<Longrightarrow>
   count_stack stack counts = Ok \<lparr>tr_bytes = tr_bytes counts + sum_list (map (fst \<circ> tree_totals) stack),
     tr_files = tr_files counts + sum_list (map (fst \<circ> snd \<circ> tree_totals) stack),
     tr_directories = tr_directories counts + sum_list (map (\<lambda>d. snd (snd (tree_totals d)) - 1) stack)\<rparr>"
proof (induction stack counts rule: count_stack.induct)
  case (2 dir stack counts)
  from "2.prems" obtain m t es where dir: "dir = FDir m t es" "list_all (\<lambda>e. plain_tree (snd e)) es" by (cases dir) auto
  from count_entries_plain[OF dir(2), of stack counts] obtain stack' counts' where
    c: "count_entries es stack counts = Ok (stack', counts')" "list_all plain_tree stack \<longrightarrow> list_all plain_tree stack'" and
    n: "tr_bytes counts' + sum_list (map (fst \<circ> tree_totals) stack')
       = tr_bytes counts + sum_list (map (fst \<circ> tree_totals) stack) + sum_list (map (\<lambda>e. fst (tree_totals (snd e))) es)"
     "tr_files counts' + sum_list (map (fst \<circ> snd \<circ> tree_totals) stack')
       = tr_files counts + sum_list (map (fst \<circ> snd \<circ> tree_totals) stack) + sum_list (map (\<lambda>e. fst (snd (tree_totals (snd e)))) es)"
     "tr_directories counts' + sum_list (map (\<lambda>d. snd (snd (tree_totals d)) - 1) stack')
       = tr_directories counts + sum_list (map (\<lambda>d. snd (snd (tree_totals d)) - 1) stack) + sum_list (map (\<lambda>e. snd (snd (tree_totals (snd e)))) es)"
    by blast
  have "list_all is_fdir stack'" using count_entries_dirs[OF c(1)] "2.prems"(2) by simp
  moreover have "list_all plain_tree stack'" using c(2) "2.prems"(1) by simp
  ultimately show ?case using "2.IH"[of "(stack', counts')"] dir(1) c(1) n by (simp add: ac_simps comp_def)
qed simp

lemma count_entries_not_plain:
  assumes "\<not> list_all (\<lambda>e. plain_tree (snd e)) es \<or> \<not> list_all plain_tree stack"
  shows "case count_entries es stack counts of Err e \<Rightarrow> e \<in> {links_error, unsupported_error}
    | Ok (stack', counts') \<Rightarrow> \<not> list_all plain_tree stack'"
  using assms
proof (induction es stack counts rule: count_entries.induct)
  case (2 name e es stack counts)
  then show ?case by (cases e) auto
qed simp

lemma count_stack_not_plain:
  "\<not> list_all plain_tree stack \<Longrightarrow> list_all is_fdir stack \<Longrightarrow> \<exists>e\<in>{links_error, unsupported_error}. count_stack stack counts = Err e"
proof (induction stack counts rule: count_stack.induct)
  case (2 dir stack counts)
  from "2.prems" obtain m t es where dir: "dir = FDir m t es" by (cases dir) auto
  with "2.prems"(1) count_entries_not_plain[of es stack counts]
  have c: "case count_entries es stack counts of Err e \<Rightarrow> e \<in> {links_error, unsupported_error}
    | Ok (stack', counts') \<Rightarrow> \<not> list_all plain_tree stack'" by simp
  show ?case
  proof (cases "count_entries es stack counts")
    case (Ok sc)
    with c count_entries_dirs[of es stack counts] "2.prems"(2) "2.IH"[of sc] dir show ?thesis by (cases sc) simp
  next
    case (Err e)
    with c dir show ?thesis by simp
  qed
qed simp

theorem count_dir_no_symlinks_totals:
  "if plain_tree (FDir m mt es)
   then count_dir_no_symlinks (FDir m mt es) =
     Ok \<lparr>tr_bytes = fst (tree_totals (FDir m mt es)), tr_files = fst (snd (tree_totals (FDir m mt es))),
         tr_directories = snd (snd (tree_totals (FDir m mt es))) - 1\<rparr>
   else \<exists>e\<in>{links_error, unsupported_error}. count_dir_no_symlinks (FDir m mt es) = Err e"
  using count_stack_plain[of "[FDir m mt es]" zero_counts] count_stack_not_plain[of "[FDir m mt es]" zero_counts]
  by (auto simp: count_dir_no_symlinks_def zero_counts_def)

text \<open>The answer of the probe is the kind of what is at the path.\<close>

theorem probe_remote_kind_exact:
  assumes "validate_remote_user_path path ''remote_path'' = Ok ()"
  shows "probe_remote_kind path (Ok (Some 0, probe_script h path t, [])) =
    (case t (place h path) of
       Some ODir \<Rightarrow> Ok KindDirectory
     | Some (OFile _) \<Rightarrow> Ok KindFile
     | None \<Rightarrow> Err (invalid_params ''remote_path does not exist''))"
proof -
  have "trim ''dir'' = ''dir''" "trim ''file'' = ''file''" "trim ''missing'' = ''missing''" by code_simp+
  with assms show ?thesis
    by (auto simp: probe_remote_kind_def probe_script_def nonzero_exit_def split: option.splits tobj.splits)
qed

section \<open>Properties\<close>

text \<open>C7: a download of a file is atomic at its destination, on a system whose \<open>rename\<close> replaces files: the destination is as it
  was or has the bytes that were received, an existing one is replaced only when that was asked for, and nothing else changes
  but one fresh staging file. Success means that the bytes are in place and that the remote command did not report a failure.\<close>

theorem get_file_atomic:
  assumes "utf8_valid x" "lw_rename w 0 \<noteq> Some IoExists"
    and "get_file_exec_raw w raw src (way @ [x]) overwrite tok t = (t', r)"
  shows "\<exists>n. let D = way @ [x]; S = local_temp_sibling_with_attempt D tok n in
    touches {D, S} way t t' \<and> (t' = t \<or> t S = None)
    \<and> (t' D = t D \<or> (\<exists>written c e. raw = Ok (written, c, e) \<and> t' D = Some (OFile written)) \<and> t D \<noteq> Some ODir \<and> (overwrite \<or> t D = None))
    \<and> (is_ok r \<longrightarrow> (\<exists>written c e. raw = Ok (written, c, e) \<and> (c = None \<or> c = Some 0) \<and> t' D = Some (OFile written))
         \<and> (overwrite \<or> t D = None))"
proof -
  let ?D = "way @ [x]"
  define v where "v = and_then (validate_remote_user_file_path src ''remote_path'') (\<lambda>_. create_unique_local_staging_file w ?D tok t)"
  show ?thesis
  proof (cases v)
    case (Err e)
    then have "t' = t" "r = Err e" using assms(3) by (auto simp: get_file_exec_raw_def v_def[symmetric])
    then show ?thesis by (simp add: Let_def)
  next
    case (Ok tp)
    then obtain S t1 where v: "v = Ok (S, t1)" by (cases tp) simp
    then obtain n where n: "S = local_temp_sibling_with_attempt ?D tok n" "t S = None" "t1 = t(S \<mapsto> OFile [])"
      using create_unique_Ok[of w "OFile []" "local_temp_sibling_with_attempt ?D tok" _ t S t1]
      by (auto simp: v_def create_unique_local_staging_file_def)
    have par: "?D \<parallel> S" using local_sibling_parallel[OF assms(1), of "''.ssh-mcp-staging-'' @ tok @ attempt_suffix n" way "''file''"]
      by (simp add: n(1) local_temp_sibling_with_attempt_def)
    have t1: "touches {?D, S} way t t1" "t1 ?D = t ?D" using par by (auto simp: n(3) intro!: touches_upd)
    have "finish_file_download w raw S ?D overwrite t1 = (t', r)"
      using assms(3) by (simp add: get_file_exec_raw_def v_def[symmetric] v)
    from finish_file_download_kept[OF par t1 assms(2) this] n(2) show ?thesis
      by (intro exI[of _ n]) (simp add: Let_def n(1))
  qed
qed

text \<open>C6: a download of a directory never loses the old one: the content that was at the destination is still there, or it is
  complete in the backup and the destination is free, or the new content is in place; without \<open>overwrite\<close> an existing destination
  is not touched. Nothing changes but the destination, one fresh stage, the backup and missing parents; success means that the
  destination has what was unpacked.\<close>

theorem get_dir_keeps_old:
  assumes "utf8_valid x"
    and "get_dir_exec_raw w content extract_res exec_res src (way @ [x]) overwrite tok t = (t', r)"
  shows "\<exists>n. let D = way @ [x]; S = local_temp_dir_sibling_with_attempt D tok n; B = local_backup_dir_sibling D tok in
    touches {D, S, B} way t t'
    \<and> (subtree t' D = subtree t D
       \<or> overwrite \<and> t' D = None \<and> subtree t' B = subtree t D
       \<or> overwrite \<and> subtree t' D = content
       \<or> \<not> overwrite \<and> t D = None)
    \<and> (is_ok r \<longrightarrow> is_ok extract_res \<and> subtree t' D = content \<and> (overwrite \<or> t D = None))"
proof -
  let ?D = "way @ [x]" and ?B = "local_backup_dir_sibling (way @ [x]) tok"
  define v where "v = and_then (validate_remote_user_path src ''remote_path'') (\<lambda>_. download_target w ?D overwrite tok t)"
  show ?thesis
  proof (cases v)
    case (Err e)
    then have "t' = t" "r = Err e" using assms(2) by (auto simp: get_dir_exec_raw_def v_def[symmetric])
    then show ?thesis by (simp add: Let_def)
  next
    case (Ok tp)
    then obtain S t1 where v: "v = Ok (S, t1)" by (cases tp) simp
    have run: "finish_dir_download w extract_res exec_res S ?D overwrite tok (graft S content t1) = (t', r)"
      using assms(2) by (simp add: get_dir_exec_raw_def v_def[symmetric] v)
    show ?thesis
    proof (cases overwrite)
      case True
      then obtain n where n: "S = local_temp_dir_sibling_with_attempt ?D tok n" "t1 = t(S \<mapsto> ODir)"
        using v create_unique_Ok[of w ODir "local_temp_dir_sibling_with_attempt ?D tok" _ t S t1]
        by (auto simp: v_def download_target_def create_unique_local_staging_dir_def)
      from finish_dir_overwrite_kept[OF assms(1) n(1), of w extract_res exec_res content t "Some ODir" t' r] run True show ?thesis
        by (intro exI[of _ n]) (auto simp: Let_def n dir_kept_def)
    next
      case False
      then have n: "S = ?D" "t1 = t(?D \<mapsto> ODir)" "t ?D = None"
        using v by (auto simp: v_def download_target_def fs_create_new_def t_exists_def t_create_def split: result.splits option.splits if_splits)
      from finish_dir_new_kept[of w extract_res exec_res ?D tok content t "Some ODir" t' r way] run False
      have "touches {?D} way t t' \<and> (is_ok r \<longrightarrow> is_ok extract_res \<and> subtree t' ?D = content)" by (simp add: n)
      with False n(3) show ?thesis by (auto simp: Let_def intro: touches_mono)
    qed
  qed
qed

section \<open>Witnesses\<close>

definition sample_local :: local_world where
  "sample_local = \<lparr>lw_rename = (\<lambda>_. None), lw_link = None, lw_create = (\<lambda>_. None), lw_parents = True, lw_sync = None,
     lw_remove = True, lw_no_links = (\<lambda>_. Ok ())\<rparr>"

definition local_tree :: rtree where
  "local_tree = [[] \<mapsto> ODir, [''d''] \<mapsto> ODir, [''d'', ''a''] \<mapsto> OFile ''old'']"

definition sample_download :: "rtree \<times> (transfer_staging \<times> transfer_counts, engine_error) result" where
  "sample_download = get_file_exec_raw sample_local (Ok (''new'', Some 0, [])) ''/srv/a'' ([''d''] @ [''a'']) True ''7'' local_tree"

theorem get_file_atomic_witness:
  "is_ok (snd sample_download) \<and> fst sample_download [''d'', ''a''] = Some (OFile ''new'')"
proof -
  have a: "utf8_valid ''a''" "is_ok (snd sample_download)" by code_simp+
  have b: "lw_rename sample_local 0 \<noteq> Some IoExists" by (simp add: sample_local_def)
  have "get_file_exec_raw sample_local (Ok (''new'', Some 0, [])) ''/srv/a'' ([''d''] @ [''a'']) True ''7'' local_tree
      = (fst sample_download, snd sample_download)" by (simp add: sample_download_def)
  from get_file_atomic[OF a(1) b this] a(2) show ?thesis by (auto simp: Let_def)
qed

definition failed_swap :: "rtree \<times> (transfer_staging \<times> transfer_counts, engine_error) result" where
  "failed_swap = get_dir_exec_raw (sample_local\<lparr>lw_rename := (\<lambda>n. if n = 0 then None else Some IoOther)\<rparr>) empty_dir (Ok zero_counts)
     (Ok (Some 0, [])) ''/srv'' ([] @ [''d'']) True ''7'' local_tree"

text \<open>Neither the new directory nor the old one can be moved to the destination: the backup keeps the old content.\<close>

theorem get_dir_keeps_old_witness:
  "fst failed_swap [''d''] = None
   \<and> subtree (fst failed_swap) (local_backup_dir_sibling [''d''] ''7'') = subtree local_tree [''d'']"
proof -
  have a: "utf8_valid ''d''" "fst failed_swap [''d''] = None" by code_simp+
  have c: "local_tree [''d''] \<noteq> None" "empty_dir [] \<noteq> None" by code_simp+
  have "get_dir_exec_raw (sample_local\<lparr>lw_rename := (\<lambda>n. if n = 0 then None else Some IoOther)\<rparr>) empty_dir (Ok zero_counts)
     (Ok (Some 0, [])) ''/srv'' ([] @ [''d'']) True ''7'' local_tree = (fst failed_swap, snd failed_swap)" by (simp add: failed_swap_def)
  from get_dir_keeps_old[OF a(1) this] a(2) c show ?thesis
    by (auto simp: Let_def subtree_def dest: fun_cong[where x = "[]"])
qed

text \<open>A download whose connection is lost, without a status, replaces the destination by what had arrived and reports success.\<close>

lemma get_file_truncated:
  "is_ok (snd (get_file_exec_raw sample_local (Ok (''ne'', None, [])) ''/srv/a'' [''d'', ''a''] True ''7'' local_tree))
   \<and> fst (get_file_exec_raw sample_local (Ok (''ne'', None, [])) ''/srv/a'' [''d'', ''a''] True ''7'' local_tree) [''d'', ''a'']
     = Some (OFile ''ne'')"
  by code_simp

text \<open>Where \<open>rename\<close> does not replace files, the old file is removed first, and a second failure loses both.\<close>

lemma replace_file_loses_both:
  "fst (get_file_exec_raw (sample_local\<lparr>lw_rename := (\<lambda>n. Some (if n = 0 then IoExists else IoOther))\<rparr>) (Ok (''new'', Some 0, []))
     ''/srv/a'' [''d'', ''a''] True ''7'' local_tree) [''d'', ''a''] = None"
  by code_simp

end
