(* ===== verification/HostKeys.thy ===== *)
theory HostKeys
  imports Prelude Paths
begin

text \<open>
  Host key verification: \<open>src/src/ssh/handler.rs\<close> and the policies of \<open>src/src/ssh/config.rs\<close>. The
  functions of russh that look a key up in a known-hosts file and that append one are parameters; what the
  handler relies on is \<open>known_hosts_laws\<close>. The removal of an entry works on the bytes of the file.
\<close>

section \<open>Definitions\<close>

subsection \<open>Policies and outcomes\<close>

datatype host_key_check_mode = ModeYes | ModeAcceptNew | ModeNo

fun as_openssh_value :: "host_key_check_mode \<Rightarrow> string" where
  "as_openssh_value ModeYes = ''yes''"
| "as_openssh_value ModeAcceptNew = ''accept-new''"
| "as_openssh_value ModeNo = ''no''"

datatype key_check_outcome = Accepted | AcceptedNew | KeyChanged | UnknownRejected

text \<open>The handler. The cell for the outcome is absent when nobody asked for it; else it holds the last outcome.\<close>

record ssh_handler =
  sh_host :: string
  sh_port :: nat
  sh_host_key_checking :: host_key_check_mode
  sh_known_hosts :: "string option"
  sh_key_check_outcome :: "key_check_outcome option option"

definition ssh_handler_new :: "string \<Rightarrow> nat \<Rightarrow> host_key_check_mode \<Rightarrow> string option \<Rightarrow> ssh_handler" where
  "ssh_handler_new host port mode known_hosts =
     \<lparr>sh_host = host, sh_port = port, sh_host_key_checking = mode, sh_known_hosts = known_hosts,
      sh_key_check_outcome = None\<rparr>"

definition ssh_handler_default :: ssh_handler where
  "ssh_handler_default = ssh_handler_new ''localhost'' 22 ModeNo None"

definition with_key_check_outcome :: "key_check_outcome option \<Rightarrow> ssh_handler \<Rightarrow> ssh_handler" where
  "with_key_check_outcome cell h = h\<lparr>sh_key_check_outcome := Some cell\<rparr>"

definition record_outcome :: "key_check_outcome \<Rightarrow> ssh_handler \<Rightarrow> ssh_handler" where
  "record_outcome outcome h =
     (case sh_key_check_outcome h of
        Some _ \<Rightarrow> h\<lparr>sh_key_check_outcome := Some (Some outcome)\<rparr>
      | None \<Rightarrow> h)"

definition host_port :: "ssh_handler \<Rightarrow> string" where
  "host_port h = sh_host h @ '':'' @ show_nat (sh_port h)"

subsection \<open>Verification\<close>

text \<open>The library: look a key up and learn a key, in a file that is named or in the default one, over the
  files \<open>'st\<close>; the printed SHA-256 fingerprint of a key.\<close>

record ('st, 'key) russh_keys =
  rk_check_path :: "'st \<Rightarrow> string \<Rightarrow> nat \<Rightarrow> 'key \<Rightarrow> string \<Rightarrow> (bool, string) result"
  rk_check :: "'st \<Rightarrow> string \<Rightarrow> nat \<Rightarrow> 'key \<Rightarrow> (bool, string) result"
  rk_learn_path :: "'st \<Rightarrow> string \<Rightarrow> nat \<Rightarrow> 'key \<Rightarrow> string \<Rightarrow> 'st \<times> (unit, string) result"
  rk_learn :: "'st \<Rightarrow> string \<Rightarrow> nat \<Rightarrow> 'key \<Rightarrow> 'st \<times> (unit, string) result"
  rk_fingerprint :: "'key \<Rightarrow> string"

definition check_known_hosts :: "('st, 'key) russh_keys \<Rightarrow> ssh_handler \<Rightarrow> 'st \<Rightarrow> 'key \<Rightarrow> (bool, string) result" where
  "check_known_hosts rk h st k =
     (case sh_known_hosts h of
        Some path \<Rightarrow> rk_check_path rk st (sh_host h) (sh_port h) k path
      | None \<Rightarrow> rk_check rk st (sh_host h) (sh_port h) k)"

definition learn_known_hosts ::
  "('st, 'key) russh_keys \<Rightarrow> ssh_handler \<Rightarrow> 'st \<Rightarrow> 'key \<Rightarrow> 'st \<times> (unit, string) result" where
  "learn_known_hosts rk h st k =
     (case sh_known_hosts h of
        Some path \<Rightarrow> rk_learn_path rk st (sh_host h) (sh_port h) k path
      | None \<Rightarrow> rk_learn rk st (sh_host h) (sh_port h) k)"

definition verification_failed :: "('st, 'key) russh_keys \<Rightarrow> ssh_handler \<Rightarrow> 'key \<Rightarrow> string \<Rightarrow> string" where
  "verification_failed rk h k e =
     ''SSH host key verification failed for '' @ host_port h @ '': '' @ e @ '' ('' @ rk_fingerprint rk k @ '')''"

definition check_server_key ::
  "('st, 'key) russh_keys \<Rightarrow> ssh_handler \<Rightarrow> 'st \<Rightarrow> 'key \<Rightarrow> 'st \<times> ssh_handler \<times> (bool, string) result" where
  "check_server_key rk h st k =
     (case sh_host_key_checking h of
        ModeNo \<Rightarrow> (st, record_outcome Accepted h, Ok True)
      | ModeYes \<Rightarrow>
          (case check_known_hosts rk h st k of
             Ok True \<Rightarrow> (st, record_outcome Accepted h, Ok True)
           | Ok False \<Rightarrow>
               (st, record_outcome UnknownRejected h,
                Err (''SSH host key verification failed for '' @ host_port h @ '': unknown host key ('' @ rk_fingerprint rk k
                  @ ''); add it to known_hosts or use --strict-host-key-checking=accept-new''))
           | Err e \<Rightarrow> (st, record_outcome KeyChanged h, Err (verification_failed rk h k e)))
      | ModeAcceptNew \<Rightarrow>
          (case check_known_hosts rk h st k of
             Ok True \<Rightarrow> (st, record_outcome Accepted h, Ok True)
           | Ok False \<Rightarrow>
               (case learn_known_hosts rk h st k of
                  (st1, Ok _) \<Rightarrow> (st1, record_outcome AcceptedNew h, Ok True)
                | (st1, Err e) \<Rightarrow>
                    (st1, h, Err (''failed to record SSH host key for '' @ host_port h @ '' ('' @ rk_fingerprint rk k @ '')'')))
           | Err e \<Rightarrow> (st, record_outcome KeyChanged h, Err (verification_failed rk h k e))))"

text \<open>Handshakes one after the other on the same files: each handler with the key its server presents, and
  whether the key was accepted.\<close>

fun handshakes ::
  "('st, 'key) russh_keys \<Rightarrow> (ssh_handler \<times> 'key) list \<Rightarrow> 'st \<Rightarrow> 'st \<times> (ssh_handler \<times> 'key \<times> bool) list" where
  "handshakes rk [] st = (st, [])"
| "handshakes rk ((h, k) # hs) st =
     (let (st1, _, r) = check_server_key rk h st k;
          (st2, log) = handshakes rk hs st1 in
      (st2, (h, k, r = Ok True) # log))"

text \<open>What the library documents. The file that is looked at is \<open>path\<close>, or the default one. A key is known when
  it is recorded for the host and the port; it is reported unknown only if no key of its algorithm is recorded
  there; another recorded key of the algorithm is an error. Learning a key appends to the file: recorded keys
  stay, and after a success the key is among them.\<close>

definition rk_check_in :: "('st, 'key) russh_keys \<Rightarrow> string option \<Rightarrow> 'st \<Rightarrow> string \<Rightarrow> nat \<Rightarrow> 'key \<Rightarrow> (bool, string) result" where
  "rk_check_in rk path st host port k =
     (case path of Some p \<Rightarrow> rk_check_path rk st host port k p | None \<Rightarrow> rk_check rk st host port k)"

definition rk_learn_in ::
  "('st, 'key) russh_keys \<Rightarrow> string option \<Rightarrow> 'st \<Rightarrow> string \<Rightarrow> nat \<Rightarrow> 'key \<Rightarrow> 'st \<times> (unit, string) result" where
  "rk_learn_in rk path st host port k =
     (case path of Some p \<Rightarrow> rk_learn_path rk st host port k p | None \<Rightarrow> rk_learn rk st host port k)"

definition known_hosts_laws ::
  "('st, 'key) russh_keys \<Rightarrow> ('key \<Rightarrow> 'alg) \<Rightarrow> ('st \<Rightarrow> string option \<Rightarrow> string \<Rightarrow> nat \<Rightarrow> 'key list) \<Rightarrow> bool" where
  "known_hosts_laws rk alg recorded \<longleftrightarrow>
     (\<forall>path st host port k.
        (rk_check_in rk path st host port k = Ok True \<longrightarrow> k \<in> set (recorded st path host port))
      \<and> (rk_check_in rk path st host port k = Ok False \<longrightarrow> (\<forall>k'\<in>set (recorded st path host port). alg k' \<noteq> alg k))
      \<and> ((\<exists>k'\<in>set (recorded st path host port). alg k' = alg k \<and> k' \<noteq> k) \<longrightarrow>
           (\<exists>e. rk_check_in rk path st host port k = Err e)))
   \<and> (\<forall>path st host port k st' r. rk_learn_in rk path st host port k = (st', r) \<longrightarrow>
        (\<forall>path' host' port'. set (recorded st path' host' port') \<subseteq> set (recorded st' path' host' port'))
      \<and> (r = Ok () \<longrightarrow> k \<in> set (recorded st' path host port)))"

subsection \<open>Removal of an entry\<close>

definition split_whitespace_first :: "string \<Rightarrow> string option" where
  "split_whitespace_first s =
     (case dropWhile ch_is_whitespace (str_chars s) of
        [] \<Rightarrow> None
      | chs \<Rightarrow> Some (concat (takeWhile (\<lambda>ch. \<not> ch_is_whitespace ch) chs)))"

definition line_matches_host :: "string \<Rightarrow> string \<Rightarrow> nat \<Rightarrow> bool" where
  "line_matches_host line host port =
     (let trimmed = trim line in
      if trimmed = [] \<or> starts_with trimmed ''#'' then False
      else case split_whitespace_first trimmed of
        None \<Rightarrow> False
      | Some first_field \<Rightarrow>
          list_ex (\<lambda>entry.
            let entry = trim entry in
            if starts_with entry ''|1|'' then False
            else if port = 22 then entry = host
            else entry = ''['' @ host @ '']:'' @ show_nat port)
            (split_on (CHR '','') first_field))"

definition kept_content :: "string \<Rightarrow> string \<Rightarrow> nat \<Rightarrow> string" where
  "kept_content content host port =
     (let kept = filter (\<lambda>line. \<not> line_matches_host line host port) (str_lines content) in
      join [NL] kept @ (if ends_with content [NL] then [NL] else []))"

text \<open>The files by path, and what the disk answers: the write of the temporary file may fail after some bytes,
  and the rename may fail. A file that is not UTF-8 cannot be read as text.\<close>

type_synonym files = "string \<rightharpoonup> string"

record disk_answers =
  da_write :: "(unit, nat) result"
  da_rename :: bool

definition remove_known_hosts_entry ::
  "disk_answers \<Rightarrow> string \<Rightarrow> nat \<Rightarrow> string \<Rightarrow> files \<Rightarrow> files \<times> (unit, io_error) result" where
  "remove_known_hosts_entry d host port known_hosts fs =
     (case fs known_hosts of
        None \<Rightarrow> (fs, Ok ())
      | Some content \<Rightarrow>
          if \<not> utf8_valid content then (fs, Err OtherIoE)
          else
            let new_content = kept_content content host port;
                temp_path = known_hosts @ ''.tmp'' in
            case da_write d of
              Err n \<Rightarrow> (fs(temp_path \<mapsto> take n new_content), Err OtherIoE)
            | Ok _ \<Rightarrow>
                if \<not> da_rename d then (fs(temp_path \<mapsto> new_content), Err OtherIoE)
                else ((fs(known_hosts \<mapsto> new_content))(temp_path := None), Ok ()))"

definition default_known_hosts_path :: "string option \<Rightarrow> string option" where
  "default_known_hosts_path home =
     map_option (\<lambda>h. path_join (path_join h ''.ssh'') ''known_hosts'') home"

section \<open>Lemmas\<close>

lemma check_known_hosts_in: "check_known_hosts rk h st k = rk_check_in rk (sh_known_hosts h) st (sh_host h) (sh_port h) k"
  by (simp add: check_known_hosts_def rk_check_in_def)

lemma learn_known_hosts_in: "learn_known_hosts rk h st k = rk_learn_in rk (sh_known_hosts h) st (sh_host h) (sh_port h) k"
  by (simp add: learn_known_hosts_def rk_learn_in_def)

lemma laws_unknown:
  "known_hosts_laws rk alg recorded \<Longrightarrow> rk_check_in rk path st host port k = Ok True \<Longrightarrow> k \<in> set (recorded st path host port)"
  unfolding known_hosts_laws_def by blast

lemma laws_changed:
  "known_hosts_laws rk alg recorded \<Longrightarrow> k' \<in> set (recorded st path host port) \<Longrightarrow> alg k' = alg k \<Longrightarrow> k' \<noteq> k \<Longrightarrow>
     \<exists>e. rk_check_in rk path st host port k = Err e"
  unfolding known_hosts_laws_def by blast

lemma laws_learn:
  assumes "known_hosts_laws rk alg recorded" "rk_learn_in rk path st host port k = (st', r)"
  shows "set (recorded st path' host' port') \<subseteq> set (recorded st' path' host' port')"
    and "r = Ok () \<Longrightarrow> k \<in> set (recorded st' path host port)"
  using assms unfolding known_hosts_laws_def by blast+

text \<open>A verification never forgets a key; an accepted key is recorded afterwards, and no other recorded key has its
  algorithm.\<close>

lemma check_server_key_keeps:
  assumes "known_hosts_laws rk alg recorded" "check_server_key rk h st k = (st', h', r)"
  shows "set (recorded st path host port) \<subseteq> set (recorded st' path host port)"
  using assms(2) laws_learn(1)[OF assms(1)]
  by (fastforce simp: check_server_key_def learn_known_hosts_in split: host_key_check_mode.splits result.splits prod.splits bool.splits)

lemma check_server_key_accepts:
  assumes "known_hosts_laws rk alg recorded" "check_server_key rk h st k = (st', h', Ok True)" "sh_host_key_checking h \<noteq> ModeNo"
  shows "k \<in> set (recorded st' (sh_known_hosts h) (sh_host h) (sh_port h))"
    and "k' \<in> set (recorded st (sh_known_hosts h) (sh_host h) (sh_port h)) \<Longrightarrow> alg k' = alg k \<Longrightarrow> k' = k"
proof -
  show "k \<in> set (recorded st' (sh_known_hosts h) (sh_host h) (sh_port h))"
    using assms(2,3) laws_unknown[OF assms(1)] laws_learn(2)[OF assms(1)]
    by (auto simp: check_server_key_def check_known_hosts_in learn_known_hosts_in
        split: host_key_check_mode.splits result.splits prod.splits bool.splits)
  show "k' \<in> set (recorded st (sh_known_hosts h) (sh_host h) (sh_port h)) \<Longrightarrow> alg k' = alg k \<Longrightarrow> k' = k"
    using assms(2,3) laws_changed[OF assms(1), of k' st "sh_known_hosts h" "sh_host h" "sh_port h" k]
    by (auto simp: check_server_key_def check_known_hosts_in
        split: host_key_check_mode.splits result.splits prod.splits bool.splits)
qed

text \<open>A key that is recorded when the handshakes begin is the only one of its algorithm that they accept.\<close>

lemma handshakes_pinned:
  assumes "known_hosts_laws rk alg recorded" "k \<in> set (recorded st path host port)"
    "(h, k', True) \<in> set (snd (handshakes rk hs st))" "sh_host_key_checking h \<noteq> ModeNo"
    "sh_known_hosts h = path" "sh_host h = host" "sh_port h = port" "alg k' = alg k"
  shows "k' = k"
  using assms(2,3)
proof (induction hs arbitrary: st)
  case (Cons e hs)
  obtain h1 k1 where e: "e = (h1, k1)" by (cases e)
  obtain st1 h1' r where c: "check_server_key rk h1 st k1 = (st1, h1', r)" by (cases "check_server_key rk h1 st k1")
  have "k \<in> set (recorded st1 path host port)" using check_server_key_keeps[OF assms(1) c] Cons.prems(1) by blast
  then show ?case
    using Cons.IH[of st1] Cons.prems check_server_key_accepts(2)[OF assms(1), of h st k' st1 h1' k] assms(4-8) e c
    by (auto simp: Let_def split: prod.splits)
qed simp

lemma check_server_key_strict:
  assumes "sh_host_key_checking h = ModeYes" "check_server_key rk h st k = (st', h', r)"
  shows "st' = st \<and> (r = Ok True \<longleftrightarrow> check_known_hosts rk h st k = Ok True)"
  using assms by (auto simp: check_server_key_def split: result.splits bool.splits)

subsection \<open>Lines of a file\<close>

lemma str_chars_append:
  assumes "utf8_valid a" "utf8_valid b"
  shows "str_chars (a @ b) = str_chars a @ str_chars b"
proof -
  have "str_chars (concat (str_chars a @ str_chars b)) = str_chars a @ str_chars b"
    using utf8_valid_scalars[OF assms(1)] utf8_valid_scalars[OF assms(2)] by (intro str_chars_concat_scalars) simp
  then show ?thesis by (simp add: concat_str_chars)
qed

lemma trim_snoc_CR: "utf8_valid s \<Longrightarrow> trim (s @ [CR]) = trim s"
proof -
  assume v: "utf8_valid s"
  have CR: "str_chars [CR] = [[CR]]" "ch_is_whitespace [CR]"
    by (simp_all add: str_chars_all_ascii ch_is_whitespace_def code_def in_range_def)
  have "str_chars (s @ [CR]) = str_chars s @ [[CR]]" using v CR by (simp add: str_chars_append utf8_valid_ascii code_def)
  then show ?thesis using CR(2)
    by (cases "\<forall>x\<in>set (str_chars s). ch_is_whitespace x") (auto simp: trim_def dropWhile_append dropWhile_eq_Nil_conv[THEN iffD2])
qed

lemma strip_cr_cases:
  obtains "strip_cr l = l" | l' where "l = l' @ [CR]" "strip_cr l = l'"
  by (cases "strip_suffix l [CR]") (auto simp: strip_cr_def strip_suffix_Some)

lemma utf8_valid_snoc_CR: "utf8_valid (l @ [CR]) \<Longrightarrow> utf8_valid l"
  using utf8_valid_split_ascii[of l CR "[]"] by (simp add: code_def)

lemma utf8_valid_parts: "utf8_valid s \<Longrightarrow> x \<in> set (split_on c s) \<Longrightarrow> code c < 128 \<Longrightarrow> utf8_valid x"
proof (induction "length s" arbitrary: s rule: less_induct)
  case less
  show ?case
  proof (cases "split_once c s")
    case None
    then have "c \<notin> set s" by (auto simp: split_once_def split: if_splits)
    with less.prems show ?thesis by (simp add: split_on_no_sep)
  next
    case (Some p)
    then obtain a b where s: "s = a @ c # b" "c \<notin> set a" by (cases p) (auto simp: split_once_Some)
    then have "utf8_valid a" "utf8_valid b" using utf8_valid_split_ascii less.prems by blast+
    with less.hyps[of b] less.prems s show ?thesis by (auto simp: split_on_append)
  qed
qed

lemma trim_strip_cr: "utf8_valid l \<Longrightarrow> trim (strip_cr l) = trim l"
  by (cases rule: strip_cr_cases[of l]) (auto simp: trim_snoc_CR dest: utf8_valid_snoc_CR)

text \<open>The lines of a text as records: trimmed, less the blank ones. A text that is joined from lines has their
  records.\<close>

definition line_records :: "string list \<Rightarrow> string list" where
  "line_records ls = filter (\<lambda>r. r \<noteq> []) (map trim ls)"

lemma trim_Nil [simp]: "trim [] = []"
  by (simp add: trim_def str_chars_def)

lemma line_records_append [simp]: "line_records (xs @ ys) = line_records xs @ line_records ys"
  by (simp add: line_records_def)

lemma line_records_strip:
  "\<forall>l\<in>set ls. utf8_valid l \<Longrightarrow> line_records (map strip_cr ls) = line_records ls"
  by (induction ls) (simp_all add: line_records_def trim_strip_cr)

lemma line_records_lines:
  assumes "utf8_valid s"
  shows "line_records (str_lines s) = line_records (split_on NL s)"
proof -
  have v: "\<forall>l\<in>set (split_on NL s). utf8_valid l" using utf8_valid_parts[OF assms] by (simp add: code_def)
  have "split_on NL s = butlast (split_on NL s) @ [last (split_on NL s)]" by simp
  then have "line_records (split_on NL s) = line_records (butlast (split_on NL s)) @ line_records [last (split_on NL s)]"
    by (metis line_records_append)
  moreover have "line_records (map strip_cr (butlast (split_on NL s))) = line_records (butlast (split_on NL s))"
    using v by (intro line_records_strip) (auto dest: in_set_butlastD)
  ultimately show ?thesis by (simp add: str_lines_def Let_def line_records_def)
qed

lemma utf8_valid_append: "utf8_valid a \<Longrightarrow> utf8_valid b \<Longrightarrow> utf8_valid (a @ b)"
  using utf8_valid_concat_scalars[of "str_chars a @ str_chars b"] utf8_valid_scalars[of a] utf8_valid_scalars[of b]
  by (simp add: concat_str_chars)

lemma utf8_valid_join: "\<forall>x\<in>set xs. utf8_valid x \<Longrightarrow> utf8_valid sep \<Longrightarrow> utf8_valid (join sep xs)"
  by (induction sep xs rule: join.induct) (auto intro!: utf8_valid_append simp: utf8_valid_ascii)

lemma str_lines_parts:
  assumes "utf8_valid s" "l \<in> set (str_lines s)"
  shows "utf8_valid l" "NL \<notin> set l"
proof -
  have "l \<in> strip_cr ` set (split_on NL s) \<or> l = last (split_on NL s)"
    using assms(2) by (auto simp: str_lines_def Let_def dest: in_set_butlastD split: if_splits)
  then obtain p where p: "p \<in> set (split_on NL s)" "l = p \<or> l = strip_cr p"
    using last_in_set[OF split_on_not_Nil, of NL s] by blast
  then have v: "utf8_valid p" "NL \<notin> set p"
    using utf8_valid_parts[OF assms(1) p(1)] split_on_parts[OF p(1)] by (simp_all add: code_def)
  moreover have "utf8_valid (strip_cr p) \<and> NL \<notin> set (strip_cr p)"
    using v by (cases rule: strip_cr_cases[of p]) (auto dest: utf8_valid_snoc_CR)
  ultimately show "utf8_valid l" "NL \<notin> set l" using p(2) by auto
qed

lemma kept_content_records:
  assumes "utf8_valid content"
  shows "utf8_valid (kept_content content host port)"
    and "line_records (str_lines (kept_content content host port))
       = line_records (filter (\<lambda>l. \<not> line_matches_host l host port) (str_lines content))"
proof -
  define kept where "kept = filter (\<lambda>l. \<not> line_matches_host l host port) (str_lines content)"
  have k: "\<forall>l\<in>set kept. utf8_valid l" "\<forall>l\<in>set kept. NL \<notin> set l"
    using str_lines_parts[OF assms] by (auto simp: kept_def)
  have NL: "utf8_valid [NL]" by (simp add: utf8_valid_ascii code_def)
  show v: "utf8_valid (kept_content content host port)"
    using utf8_valid_join[OF k(1) NL] NL by (auto simp: kept_content_def kept_def[symmetric] intro!: utf8_valid_append)
  have "line_records (split_on NL (join [NL] kept)) = line_records kept"
    using split_on_join[OF _ k(2)] by (cases "kept = []") (auto simp: line_records_def)
  then have "line_records (split_on NL (kept_content content host port)) = line_records kept"
    using split_on_append_gen[of NL "join [NL] kept" "[]"]
    by (simp add: kept_content_def kept_def[symmetric] line_records_def)
  then show "line_records (str_lines (kept_content content host port)) = line_records kept"
    by (simp add: line_records_lines[OF v])
qed

lemma line_matches_trim: "utf8_valid l \<Longrightarrow> line_matches_host (trim l) host port = line_matches_host l host port"
  by (simp add: line_matches_host_def trim_idem)

section \<open>Properties\<close>

text \<open>C12: host keys are pinned on first use. Over any sequence of handshakes, to any hosts and under any policies, two
  accepted keys of one algorithm for the same host, port and known-hosts file are equal, unless verification is
  switched off for one of them.\<close>

theorem host_keys_pinned:
  assumes "known_hosts_laws rk alg recorded" "i < j" "j < length (snd (handshakes rk hs st))"
    "snd (handshakes rk hs st) ! i = (h, k, True)" "snd (handshakes rk hs st) ! j = (h', k', True)"
    "sh_host_key_checking h \<noteq> ModeNo" "sh_host_key_checking h' \<noteq> ModeNo"
    "sh_known_hosts h' = sh_known_hosts h" "sh_host h' = sh_host h" "sh_port h' = sh_port h" "alg k' = alg k"
  shows "k' = k"
  using assms(2-5)
proof (induction hs arbitrary: st i j)
  case (Cons e hs)
  obtain h1 k1 where e: "e = (h1, k1)" by (cases e)
  obtain st1 h1' r where c: "check_server_key rk h1 st k1 = (st1, h1', r)" by (cases "check_server_key rk h1 st k1")
  have log: "snd (handshakes rk (e # hs) st) = (h1, k1, r = Ok True) # snd (handshakes rk hs st1)"
    by (simp add: e c Let_def split: prod.splits)
  obtain j' where j: "j = Suc j'" using Cons.prems(1) by (cases j) auto
  show ?case
  proof (cases i)
    case 0
    then have hk: "h1 = h" "k1 = k" "r = Ok True" using Cons.prems(3) log by auto
    have "k \<in> set (recorded st1 (sh_known_hosts h) (sh_host h) (sh_port h))"
      using check_server_key_accepts(1)[OF assms(1)] c hk assms(6) by blast
    moreover have "(h', k', True) \<in> set (snd (handshakes rk hs st1))"
      using Cons.prems(2,4) log j by (auto simp: in_set_conv_nth)
    ultimately show ?thesis using handshakes_pinned[OF assms(1)] assms(7-11) by blast
  next
    case (Suc i')
    then show ?thesis using Cons.IH[of i' j' st1] Cons.prems log j by simp
  qed
qed simp

text \<open>Under the strict policy nothing is learned, and only keys that the file already records are accepted.\<close>

theorem strict_never_learns:
  assumes "known_hosts_laws rk alg recorded" "\<forall>(h, k)\<in>set hs. sh_host_key_checking h = ModeYes"
  shows "fst (handshakes rk hs st) = st
     \<and> (\<forall>(h, k, a)\<in>set (snd (handshakes rk hs st)). a \<longrightarrow> k \<in> set (recorded st (sh_known_hosts h) (sh_host h) (sh_port h)))"
  using assms(2)
proof (induction hs)
  case (Cons e hs)
  obtain h k where e: "e = (h, k)" by (cases e)
  obtain st1 h1 r where c: "check_server_key rk h st k = (st1, h1, r)" by (cases "check_server_key rk h st k")
  have "st1 = st" "r = Ok True \<longrightarrow> k \<in> set (recorded st (sh_known_hosts h) (sh_host h) (sh_port h))"
    using check_server_key_strict[OF _ c] Cons.prems e laws_unknown[OF assms(1)] by (auto simp: check_known_hosts_in)
  with Cons e c show ?case by (auto simp: Let_def split: prod.splits)
qed simp

text \<open>Removing a host from the known hosts is all or nothing and exact. Whatever the disk does, the file has its old
  content or the new one; after a success no line names the host and port, and the other records are the ones that
  were there, in their order.\<close>

theorem remove_known_hosts_entry_exact:
  assumes "remove_known_hosts_entry d host port path fs = (fs', r)" "fs path = Some content" "utf8_valid content"
  shows "fs' path \<in> {Some content, Some (kept_content content host port)}
    \<and> (r = Ok () \<longrightarrow> (\<exists>new. fs' path = Some new \<and> (\<forall>l\<in>set (str_lines new). \<not> line_matches_host l host port)
      \<and> line_records (str_lines new) = line_records (filter (\<lambda>l. \<not> line_matches_host l host port) (str_lines content))))
    \<and> (\<forall>p. p \<noteq> path \<longrightarrow> p \<noteq> path @ ''.tmp'' \<longrightarrow> fs' p = fs p)"
proof (intro conjI impI)
  show "fs' path \<in> {Some content, Some (kept_content content host port)}"
    using assms by (auto simp: remove_known_hosts_entry_def Let_def split: result.splits if_splits)
  show "\<forall>p. p \<noteq> path \<longrightarrow> p \<noteq> path @ ''.tmp'' \<longrightarrow> fs' p = fs p"
    using assms by (auto simp: remove_known_hosts_entry_def Let_def split: result.splits if_splits)
  assume "r = Ok ()"
  then have new: "fs' path = Some (kept_content content host port)"
    using assms by (auto simp: remove_known_hosts_entry_def Let_def split: result.splits if_splits)
  have no: "\<not> line_matches_host l host port" if "l \<in> set (str_lines (kept_content content host port))" for l
  proof (cases "trim l = []")
    case False
    then have "trim l \<in> set (line_records (str_lines (kept_content content host port)))"
      using that by (simp add: line_records_def)
    then have "trim l \<in> set (line_records (filter (\<lambda>l. \<not> line_matches_host l host port) (str_lines content)))"
      by (simp only: kept_content_records(2)[OF assms(3)])
    then obtain m where "m \<in> set (str_lines content)" "\<not> line_matches_host m host port" "trim m = trim l"
      unfolding line_records_def by auto
    then show ?thesis
      using line_matches_trim[of m] line_matches_trim[of l] str_lines_parts(1)[OF assms(3)]
        str_lines_parts(1)[OF kept_content_records(1)[OF assms(3)] that] by metis
  qed (simp add: line_matches_host_def)
  with new kept_content_records(2)[OF assms(3)]
  show "\<exists>new. fs' path = Some new \<and> (\<forall>l\<in>set (str_lines new). \<not> line_matches_host l host port)
      \<and> line_records (str_lines new) = line_records (filter (\<lambda>l. \<not> line_matches_host l host port) (str_lines content))"
    by blast
qed

subsection \<open>Witnesses\<close>

text \<open>A library over one table of records, in which the algorithm of a key is its first component.\<close>

definition sample_recorded ::
  "((string option \<times> string \<times> nat) \<times> (nat \<times> nat)) list \<Rightarrow> string option \<Rightarrow> string \<Rightarrow> nat \<Rightarrow> (nat \<times> nat) list" where
  "sample_recorded st path host port = map snd (filter (\<lambda>e. fst e = (path, host, port)) st)"

definition sample_check where
  "sample_check st path host port k =
     (let ks = sample_recorded st path host port in
      if list_ex (\<lambda>k'. fst k' = fst k \<and> k' \<noteq> k) ks then Err ''the key has changed'' else Ok (k \<in> set ks))"

definition sample_keys :: "(((string option \<times> string \<times> nat) \<times> (nat \<times> nat)) list, nat \<times> nat) russh_keys" where
  "sample_keys =
     \<lparr>rk_check_path = (\<lambda>st host port k path. sample_check st (Some path) host port k),
      rk_check = (\<lambda>st host port k. sample_check st None host port k),
      rk_learn_path = (\<lambda>st host port k path. (st @ [((Some path, host, port), k)], Ok ())),
      rk_learn = (\<lambda>st host port k. (st @ [((None, host, port), k)], Ok ())),
      rk_fingerprint = (\<lambda>k. ''SHA256:'' @ show_nat (snd k))\<rparr>"

lemma sample_keys_in:
  "rk_check_in sample_keys path st host port k = sample_check st path host port k"
  "rk_learn_in sample_keys path st host port k = (st @ [((path, host, port), k)], Ok ())"
  by (simp_all add: rk_check_in_def rk_learn_in_def sample_keys_def split: option.split)

lemma sample_check_cases:
  "sample_check st path host port k = Ok b \<longleftrightarrow>
     (\<forall>k'\<in>set (sample_recorded st path host port). fst k' = fst k \<longrightarrow> k' = k) \<and> b = (k \<in> set (sample_recorded st path host port))"
  by (auto simp: sample_check_def Let_def list_ex_iff)

lemma sample_keys_laws: "known_hosts_laws sample_keys fst sample_recorded"
  unfolding known_hosts_laws_def sample_keys_in
proof (intro conjI allI impI)
  fix path st host port and k :: "nat \<times> nat"
  show "sample_check st path host port k = Ok True \<Longrightarrow> k \<in> set (sample_recorded st path host port)"
    by (simp add: sample_check_cases)
  show "sample_check st path host port k = Ok False \<Longrightarrow> \<forall>k'\<in>set (sample_recorded st path host port). fst k' \<noteq> fst k"
    by (auto simp: sample_check_cases)
  show "\<exists>k'\<in>set (sample_recorded st path host port). fst k' = fst k \<and> k' \<noteq> k \<Longrightarrow> \<exists>e. sample_check st path host port k = Err e"
    by (cases "sample_check st path host port k") (auto simp: sample_check_cases)
qed (auto simp: sample_recorded_def image_iff)

definition sample_handler :: "string \<Rightarrow> ssh_handler" where
  "sample_handler host = ssh_handler_new host 22 ModeAcceptNew None"

theorem host_keys_pinned_witness:
  "snd (handshakes sample_keys
     [(sample_handler ''alpha'', (1, 10)), (sample_handler ''beta'', (1, 20)), (sample_handler ''alpha'', (1, 66)),
      (sample_handler ''alpha'', (1, 10))] [])
   = [(sample_handler ''alpha'', (1, 10), True), (sample_handler ''beta'', (1, 20), True),
      (sample_handler ''alpha'', (1, 66), False), (sample_handler ''alpha'', (1, 10), True)]
   \<and> (1, 10) = (1 :: nat, 10 :: nat)"
proof -
  let ?hs = "[(sample_handler ''alpha'', (1, 10)), (sample_handler ''beta'', (1, 20)), (sample_handler ''alpha'', (1, 66)),
      (sample_handler ''alpha'', (1, 10))]"
  have log: "snd (handshakes sample_keys ?hs [])
   = [(sample_handler ''alpha'', (1, 10), True), (sample_handler ''beta'', (1, 20), True),
      (sample_handler ''alpha'', (1, 66), False), (sample_handler ''alpha'', (1, 10), True)]"
    by (simp add: sample_handler_def ssh_handler_new_def check_server_key_def check_known_hosts_def learn_known_hosts_def
        sample_keys_def sample_check_def sample_recorded_def)
  moreover have "(1, 10) = (1 :: nat, 10 :: nat)"
    by (rule host_keys_pinned[OF sample_keys_laws, of 0 3 ?hs "[]" "sample_handler ''alpha''" _ "sample_handler ''alpha''"])
       (unfold log, simp_all add: sample_handler_def ssh_handler_new_def)
  ultimately show ?thesis by blast
qed

definition sample_known_hosts :: string where
  "sample_known_hosts =
     ''# hosts'' @ [NL] @ ''alpha,10.0.0.1 ssh-ed25519 AAAA'' @ [NL] @ ''[alpha]:2222 ssh-rsa BBBB'' @ [NL]
     @ ''|1|x|y ssh-rsa CCCC'' @ [NL] @ ''beta ssh-rsa DDDD'' @ [NL]"

theorem remove_known_hosts_entry_exact_witness:
  "\<exists>new. fst (remove_known_hosts_entry \<lparr>da_write = Ok (), da_rename = True\<rparr> ''alpha'' 22 ''kh'' [''kh'' \<mapsto> sample_known_hosts])
       ''kh'' = Some new
     \<and> (\<forall>l\<in>set (str_lines new). \<not> line_matches_host l ''alpha'' 22)
     \<and> line_records (str_lines new)
       = [''# hosts'', ''[alpha]:2222 ssh-rsa BBBB'', ''|1|x|y ssh-rsa CCCC'', ''beta ssh-rsa DDDD'']"
proof -
  have v: "utf8_valid sample_known_hosts" by (simp add: sample_known_hosts_def utf8_valid_ascii code_def)
  have l: "line_records (filter (\<lambda>l. \<not> line_matches_host l ''alpha'' 22) (str_lines sample_known_hosts))
      = [''# hosts'', ''[alpha]:2222 ssh-rsa BBBB'', ''|1|x|y ssh-rsa CCCC'', ''beta ssh-rsa DDDD'']"
    by code_simp
  obtain fs' r where d: "remove_known_hosts_entry \<lparr>da_write = Ok (), da_rename = True\<rparr> ''alpha'' 22 ''kh''
      [''kh'' \<mapsto> sample_known_hosts] = (fs', r)" by fastforce
  have "r = Ok ()" using d v by (auto simp: remove_known_hosts_entry_def Let_def)
  with remove_known_hosts_entry_exact[OF d _ v] d l show ?thesis by simp
qed

end
