(* ===== verification/Config.thy ===== *)
theory Config
  imports Connection Paths HostKeys
begin

text \<open>
  The configuration: \<open>src/src/config.rs\<close>, the connection settings of \<open>src/src/ssh/config.rs\<close> and the part of
  \<open>SshMcpServer::new_with_spool_dir\<close> in \<open>src/src/server.rs\<close> that builds the latter from the former. The values
  of the command line are a record, as clap delivers them: numbers are within their width. Ports are below
  \<open>2^16\<close>, the other numbers below \<open>2^64\<close>.
\<close>

section \<open>Definitions\<close>

subsection \<open>Arguments and configuration\<close>

definition DEFAULT_TIMEOUT_MS :: nat where "DEFAULT_TIMEOUT_MS = 300000"
definition DEFAULT_MAX_CHARS :: "nat option" where "DEFAULT_MAX_CHARS = Some 64000"
definition DEFAULT_RECONNECT_RETRIES :: nat where "DEFAULT_RECONNECT_RETRIES = 3"
definition DEFAULT_RECONNECT_BACKOFF_MS :: nat where "DEFAULT_RECONNECT_BACKOFF_MS = 250"
definition DEFAULT_HEALTH_PROBE_TIMEOUT_MS :: nat where "DEFAULT_HEALTH_PROBE_TIMEOUT_MS = 1500"
definition MAX_RECONNECT_RETRIES :: nat where "MAX_RECONNECT_RETRIES = 10"
definition MIN_RECONNECT_BACKOFF_MS :: nat where "MIN_RECONNECT_BACKOFF_MS = 10"
definition MIN_HEALTH_PROBE_TIMEOUT_MS :: nat where "MIN_HEALTH_PROBE_TIMEOUT_MS = 100"
definition MAX_HEALTH_PROBE_TIMEOUT_MS :: nat where "MAX_HEALTH_PROBE_TIMEOUT_MS = 30000"
definition DEFAULT_MAX_OUTPUT_TOKENS :: "nat option" where "DEFAULT_MAX_OUTPUT_TOKENS = Some 16000"

record cli_args =
  a_host :: string
  a_port :: nat
  a_user :: string
  a_password :: "string option"
  a_key :: "string option"
  a_jump :: "string option"
  a_jump_key :: "string option"
  a_jump_password :: "string option"
  a_spool_dir :: "string option"
  a_su_password :: "string option"
  a_sudo_password :: "string option"
  a_timeout :: nat
  a_max_chars :: "string option"
  a_disable_sudo :: bool
  a_max_output_tokens :: "string option"
  a_log_level :: string
  a_log_file :: "string option"
  a_log_format :: string
  a_log_rotation :: string
  a_keepalive_interval :: nat
  a_keepalive_max :: nat
  a_reconnect_retries :: nat
  a_reconnect_backoff_ms :: nat
  a_health_probe_timeout_ms :: nat
  a_strict_host_key_checking :: host_key_check_mode
  a_known_hosts :: "string option"

record jump_config =
  jc_host :: string
  jc_port :: nat
  jc_user :: string
  jc_password :: "string option"
  jc_key :: "string option"

record config =
  cf_host :: string
  cf_port :: nat
  cf_user :: string
  cf_password :: "string option"
  cf_key :: "string option"
  cf_jump :: "jump_config option"
  cf_su_password :: "string option"
  cf_sudo_password :: "string option"
  cf_timeout_ms :: nat
  cf_max_chars :: "nat option"
  cf_max_output_tokens :: "nat option"
  cf_disable_sudo :: bool
  cf_keepalive_interval :: nat
  cf_keepalive_max :: nat
  cf_reconnect_retries :: nat
  cf_reconnect_backoff_ms :: nat
  cf_health_probe_timeout_ms :: nat
  cf_strict_host_key_checking :: host_key_check_mode
  cf_known_hosts :: "string option"

datatype config_error = ConfigError string | ConfigIo io_error

subsection \<open>Files\<close>

text \<open>The lookup of a path from the working directory, through links; a path that ends in a slash or a dot names a
  directory.\<close>

definition fs_metadata :: "fs \<Rightarrow> string list \<Rightarrow> string \<Rightarrow> (node, io_error) result" where
  "fs_metadata fs cwd path =
     (if path = [] then Err NotFoundE
      else and_then (walk MAX_LINKS fs True cwd (components path)) (\<lambda>q.
        and_then (node_at fs q) (\<lambda>n.
          if last (split_on SLASH path) \<in> {[], ''.''} \<and> n \<noteq> NDir then Err NotADirectoryE else Ok n)))"

definition path_exists :: "fs \<Rightarrow> string list \<Rightarrow> string \<Rightarrow> bool" where
  "path_exists fs cwd path = is_ok (fs_metadata fs cwd path)"

definition read_to_string :: "fs \<Rightarrow> string list \<Rightarrow> string \<Rightarrow> (string, io_error) result" where
  "read_to_string fs cwd path =
     and_then (fs_metadata fs cwd path) (\<lambda>n.
       case n of NFile b \<Rightarrow> if utf8_valid b then Ok b else Err OtherIoE | _ \<Rightarrow> Err OtherIoE)"

subsection \<open>Parsing\<close>

definition config_password :: "string option \<Rightarrow> string option" where
  "config_password password = (case password of Some p \<Rightarrow> if p \<noteq> [] then Some p else None | None \<Rightarrow> None)"

text \<open>\<open>Path::strip_prefix\<close> of the tilde leaves the rest of the path, less the empty and dot components at both ends.\<close>

definition path_after_tilde :: "string \<Rightarrow> string" where
  "path_after_tilde path =
     (let blank = (\<lambda>s. s = [] \<or> s = ''.'') in
      join [SLASH] (rev (dropWhile blank (rev (dropWhile blank (tl (split_on SLASH path)))))))"

definition expand_key_path :: "string option \<Rightarrow> string \<Rightarrow> (string, config_error) result" where
  "expand_key_path home path =
     (if \<not> starts_with path ''~/'' then Ok path
      else case config_password home of
        None \<Rightarrow> Err (ConfigError (''Cannot expand SSH key path '' @ from_utf8_lossy path @ '': HOME is not set''))
      | Some h \<Rightarrow> Ok (path_join h (path_after_tilde path)))"

definition transpose :: "('a \<Rightarrow> ('b, 'e) result) \<Rightarrow> 'a option \<Rightarrow> ('b option, 'e) result" where
  "transpose f x = (case x of None \<Rightarrow> Ok None | Some a \<Rightarrow> and_then (f a) (\<lambda>b. Ok (Some b)))"

definition parse_jump_endpoint :: "string \<Rightarrow> (string \<times> string \<times> nat, config_error) result" where
  "parse_jump_endpoint v =
     (case split_once (CHR ''@'') v of
        None \<Rightarrow> Err (ConfigError ''--jump must use USER@HOST[:PORT] format'')
      | Some (user, endpoint) \<Rightarrow>
          if user = [] \<or> endpoint = [] \<or> CHR ''@'' \<in> set endpoint
          then Err (ConfigError ''--jump must use USER@HOST[:PORT] format'')
          else
            and_then
              (case rsplit_once (CHR '':'') endpoint of
                 Some (host, port) \<Rightarrow>
                   (case parse_unsigned 10 U16 port of
                      None \<Rightarrow> Err (ConfigError ''--jump port must be an integer from 1 to 65535'')
                    | Some p \<Rightarrow> Ok (host, p))
               | None \<Rightarrow> Ok (endpoint, 22))
              (\<lambda>(host, port).
                 if host = [] \<or> port = 0 \<or> has_whitespace user \<or> has_whitespace host
                 then Err (ConfigError ''--jump must use USER@HOST[:PORT] with non-empty values'')
                 else Ok (user, host, port)))"

definition parse_max_chars :: "string option \<Rightarrow> nat option" where
  "parse_max_chars v =
     (case v of
        None \<Rightarrow> DEFAULT_MAX_CHARS
      | Some s \<Rightarrow>
          if to_lowercase s = ''none'' then None
          else case parse_i64 s of
            Some n \<Rightarrow> if n \<le> 0 then None else Some (nat n)
          | None \<Rightarrow> DEFAULT_MAX_CHARS)"

definition parse_max_output_tokens :: "string option \<Rightarrow> nat option" where
  "parse_max_output_tokens v =
     (case v of
        None \<Rightarrow> DEFAULT_MAX_OUTPUT_TOKENS
      | Some s \<Rightarrow>
          let lowered = replace_char (CHR '' '') [] (to_lowercase s) in
          if lowered = ''none'' then None
          else if ends_with lowered ''k'' then
            (case parse_i64 (take (length lowered - 1) lowered) of
               Some n \<Rightarrow> if n \<le> 0 then None else Some (sat_mul (nat n) 1000)
             | None \<Rightarrow> DEFAULT_MAX_OUTPUT_TOKENS)
          else
            (case parse_i64 lowered of
               Some n \<Rightarrow> if n \<le> 0 then None else Some (nat n)
             | None \<Rightarrow> DEFAULT_MAX_OUTPUT_TOKENS))"

subsection \<open>Validation\<close>

definition jump_errors :: "bool \<Rightarrow> bool \<Rightarrow> bool \<Rightarrow> string list" where
  "jump_errors jump key password =
     (case (jump, key, password) of
        (False, False, False) \<Rightarrow> []
      | (True, True, False) \<Rightarrow> []
      | (True, False, True) \<Rightarrow> []
      | (False, _, _) \<Rightarrow> [''Jump credentials require --jump'']
      | (True, False, False) \<Rightarrow> [''--jump requires exactly one of --jump-key or --jump-password'']
      | (True, True, True) \<Rightarrow> [''--jump-key and --jump-password are mutually exclusive; provide exactly one''])"

definition key_errors :: "fs \<Rightarrow> string list \<Rightarrow> string \<Rightarrow> string option \<Rightarrow> string list" where
  "key_errors fs cwd what key =
     (case key of
        Some path \<Rightarrow> if \<not> path_exists fs cwd path then [what @ from_utf8_lossy path] else []
      | None \<Rightarrow> [])"

definition range_message :: "string \<Rightarrow> nat \<Rightarrow> nat \<Rightarrow> string" where
  "range_message what lo hi = what @ '' must be between '' @ show_nat lo @ '' and '' @ show_nat hi"

definition arg_errors :: "fs \<Rightarrow> string list \<Rightarrow> cli_args \<Rightarrow> string list" where
  "arg_errors fs cwd a =
     (if a_host a = [] then [''Missing required --host''] else [])
     @ (if a_user a = [] then [''Missing required --user''] else [])
     @ (if a_password a = None \<and> a_key a = None then [''Must provide either --password or --key''] else [])
     @ jump_errors (a_jump a \<noteq> None) (a_jump_key a \<noteq> None) (a_jump_password a \<noteq> None)
     @ key_errors fs cwd ''SSH key file not found: '' (a_key a)
     @ key_errors fs cwd ''Jump SSH key file not found: '' (a_jump_key a)
     @ (if a_reconnect_retries a > MAX_RECONNECT_RETRIES
        then [''--reconnect-retries must be <= '' @ show_nat MAX_RECONNECT_RETRIES] else [])
     @ (if \<not> in_range MIN_RECONNECT_BACKOFF_MS MAX_RECONNECT_BACKOFF_MS (a_reconnect_backoff_ms a)
        then [range_message ''--reconnect-backoff-ms'' MIN_RECONNECT_BACKOFF_MS MAX_RECONNECT_BACKOFF_MS] else [])
     @ (if \<not> in_range MIN_HEALTH_PROBE_TIMEOUT_MS MAX_HEALTH_PROBE_TIMEOUT_MS (a_health_probe_timeout_ms a)
        then [range_message ''--health-probe-timeout-ms'' MIN_HEALTH_PROBE_TIMEOUT_MS MAX_HEALTH_PROBE_TIMEOUT_MS] else [])"

definition validate_args :: "fs \<Rightarrow> string list \<Rightarrow> cli_args \<Rightarrow> (unit, config_error) result" where
  "validate_args fs cwd a =
     (let errors = arg_errors fs cwd a in
      if errors \<noteq> [] then Err (ConfigError (''Configuration error:'' @ [NL] @ join [NL] errors)) else Ok ())"

definition config_of :: "cli_args \<Rightarrow> jump_config option \<Rightarrow> config" where
  "config_of a jump =
     \<lparr>cf_host = a_host a, cf_port = a_port a, cf_user = a_user a, cf_password = a_password a, cf_key = a_key a,
      cf_jump = jump, cf_su_password = a_su_password a, cf_sudo_password = a_sudo_password a,
      cf_timeout_ms = a_timeout a, cf_max_chars = parse_max_chars (a_max_chars a),
      cf_max_output_tokens = parse_max_output_tokens (a_max_output_tokens a), cf_disable_sudo = a_disable_sudo a,
      cf_keepalive_interval = a_keepalive_interval a, cf_keepalive_max = a_keepalive_max a,
      cf_reconnect_retries = a_reconnect_retries a, cf_reconnect_backoff_ms = a_reconnect_backoff_ms a,
      cf_health_probe_timeout_ms = a_health_probe_timeout_ms a,
      cf_strict_host_key_checking = a_strict_host_key_checking a, cf_known_hosts = a_known_hosts a\<rparr>"

definition from_args_with_home :: "fs \<Rightarrow> string list \<Rightarrow> string option \<Rightarrow> cli_args \<Rightarrow> (config, config_error) result" where
  "from_args_with_home fs cwd home args =
     (let a = args\<lparr>a_password := config_password (a_password args),
                   a_jump_password := config_password (a_jump_password args),
                   a_su_password := config_password (a_su_password args),
                   a_sudo_password := config_password (a_sudo_password args)\<rparr> in
      and_then (transpose (expand_key_path home) (a_key a)) (\<lambda>key.
      and_then (transpose (expand_key_path home) (a_jump_key a)) (\<lambda>jump_key.
        let b = a\<lparr>a_key := key, a_jump_key := jump_key\<rparr> in
        and_then (validate_args fs cwd b) (\<lambda>_.
        and_then (transpose parse_jump_endpoint (a_jump b)) (\<lambda>endpoint.
          Ok (config_of b (map_option (\<lambda>(user, host, port).
               \<lparr>jc_host = host, jc_port = port, jc_user = user, jc_password = a_jump_password b, jc_key = a_jump_key b\<rparr>)
               endpoint)))))))"

subsection \<open>Connection settings\<close>

text \<open>\<open>SshConfig\<close> is the record of the connection manager extended by the fields that only the network part of the
  code reads.\<close>

record ssh_jump_config =
  sj_host :: string
  sj_port :: nat
  sj_username :: string
  sj_password :: "string option"
  sj_private_key :: "string option"

record full_ssh_config = ssh_config +
  sc_host :: string
  sc_port :: nat
  sc_username :: string
  sc_password :: "string option"
  sc_private_key :: "string option"
  sc_jump :: "ssh_jump_config option"
  sc_keepalive_interval :: nat
  sc_keepalive_max :: nat
  sc_max_output_tokens :: "nat option"
  sc_host_key_checking :: host_key_check_mode
  sc_known_hosts :: "string option"

definition ssh_config_new :: "string \<Rightarrow> string \<Rightarrow> full_ssh_config" where
  "ssh_config_new host username =
     \<lparr>sc_su_password = None, sc_sudo_password = None, sc_health_probe_timeout_ms = 1500, sc_reconnect_retries = 3,
      sc_reconnect_backoff_ms = 250, sc_host = host, sc_port = 22, sc_username = username, sc_password = None,
      sc_private_key = None, sc_jump = None, sc_keepalive_interval = 30, sc_keepalive_max = 3,
      sc_max_output_tokens = Some 16000, sc_host_key_checking = ModeAcceptNew, sc_known_hosts = None\<rparr>"

definition build_jump :: "fs \<Rightarrow> string list \<Rightarrow> jump_config \<Rightarrow> (ssh_jump_config, config_error) result" where
  "build_jump fs cwd jump =
     (let jump_password = config_password (jc_password jump) in
      if jc_user jump = [] \<or> jc_host jump = [] \<or> jc_port jump = 0 \<or> (jc_key jump \<noteq> None) = (jump_password \<noteq> None)
      then Err (ConfigError ''jump requires a valid endpoint and exactly one key or password'')
      else
        and_then
          (transpose (\<lambda>path. map_err (\<lambda>_. ConfigError (''failed to read jump SSH key '' @ from_utf8_lossy path))
             (read_to_string fs cwd path)) (jc_key jump))
          (\<lambda>private_key.
             Ok \<lparr>sj_host = jc_host jump, sj_port = jc_port jump, sj_username = jc_user jump,
                 sj_password = jump_password, sj_private_key = private_key\<rparr>))"

definition build_ssh_config :: "fs \<Rightarrow> string list \<Rightarrow> config \<Rightarrow> (full_ssh_config, config_error) result" where
  "build_ssh_config fs cwd c =
     (let s0 = (ssh_config_new (cf_host c) (cf_user c))\<lparr>sc_port := cf_port c\<rparr>;
          s1 = (case cf_password c of Some p \<Rightarrow> s0\<lparr>sc_password := Some p\<rparr> | None \<Rightarrow> s0) in
      and_then (transpose (\<lambda>path. map_err ConfigIo (read_to_string fs cwd path)) (cf_key c)) (\<lambda>private_key.
      and_then (transpose (build_jump fs cwd) (cf_jump c)) (\<lambda>jump.
        let s2 = s1\<lparr>sc_private_key := private_key, sc_jump := jump\<rparr>;
            s3 = (case config_password (cf_su_password c) of Some p \<Rightarrow> s2\<lparr>sc_su_password := Some p\<rparr> | None \<Rightarrow> s2);
            s4 = (case config_password (cf_sudo_password c) of Some p \<Rightarrow> s3\<lparr>sc_sudo_password := Some p\<rparr> | None \<Rightarrow> s3) in
        Ok (s4\<lparr>sc_keepalive_interval := cf_keepalive_interval c, sc_keepalive_max := cf_keepalive_max c,
               sc_reconnect_retries := cf_reconnect_retries c, sc_reconnect_backoff_ms := cf_reconnect_backoff_ms c,
               sc_health_probe_timeout_ms := cf_health_probe_timeout_ms c,
               sc_host_key_checking := cf_strict_host_key_checking c, sc_known_hosts := cf_known_hosts c,
               sc_max_output_tokens := cf_max_output_tokens c\<rparr>))))"

section \<open>Lemmas\<close>

lemma digit_value_digit: "digit_value radix c = Some d \<Longrightarrow> is_ascii_digit c"
  by (simp add: digit_value_def split: if_splits)

lemma digits_value_digits: "digits_value radix acc s = Some n \<Longrightarrow> \<forall>c\<in>set s. is_ascii_digit c"
  by (induction s arbitrary: acc) (auto dest: digit_value_digit split: option.splits)

lemma parse_unsigned_chars:
  assumes "parse_unsigned radix bound s = Some n" "c \<in> set s"
  shows "is_ascii_digit c \<or> c = CHR ''+''"
proof -
  obtain cs where "s = cs \<or> s = CHR ''+'' # cs" "digits_value radix 0 cs = Some n"
    using assms(1) by (cases s) (auto simp: parse_unsigned_def parse_digits_def split: if_splits option.splits)
  with digits_value_digits assms(2) show ?thesis by fastforce
qed

lemma parse_digits_show_nat: "n < bound \<Longrightarrow> parse_digits 10 bound (show_nat n) = Some n"
  by (simp add: parse_digits_def digits_value_show_nat)

lemma transpose_Ok_iff:
  "transpose f x = Ok y \<longleftrightarrow> (case x of None \<Rightarrow> y = None | Some a \<Rightarrow> \<exists>b. f a = Ok b \<and> y = Some b)"
  by (auto simp: transpose_def split: option.splits)

lemma is_ok_iff: "is_ok r \<longleftrightarrow> (\<exists>a. r = Ok a)"
  by (cases r) auto

subsection \<open>Endpoints\<close>

definition endpoint_ok :: "string \<Rightarrow> string \<Rightarrow> nat \<Rightarrow> bool" where
  "endpoint_ok user host port \<longleftrightarrow>
     user \<noteq> [] \<and> CHR ''@'' \<notin> set user \<and> \<not> has_whitespace user
     \<and> host \<noteq> [] \<and> CHR ''@'' \<notin> set host \<and> \<not> has_whitespace host \<and> 0 < port \<and> port < U16"

lemma parse_jump_endpoint_sound:
  assumes "parse_jump_endpoint v = Ok (user, host, port)"
  shows "endpoint_ok user host port"
    and "(\<exists>text. v = user @ CHR ''@'' # host @ CHR '':'' # text \<and> parse_unsigned 10 U16 text = Some port)
       \<or> v = user @ CHR ''@'' # host \<and> CHR '':'' \<notin> set host \<and> port = 22"
proof -
  obtain endpoint where v: "v = user @ CHR ''@'' # endpoint" "CHR ''@'' \<notin> set user" "CHR ''@'' \<notin> set endpoint" "user \<noteq> []"
    and e: "(case rsplit_once (CHR '':'') endpoint of
       Some (h, t) \<Rightarrow> h = host \<and> parse_unsigned 10 U16 t = Some port | None \<Rightarrow> host = endpoint \<and> port = 22)"
    and ok: "host \<noteq> []" "port \<noteq> 0" "\<not> has_whitespace user" "\<not> has_whitespace host"
    using assms by (auto simp: parse_jump_endpoint_def split_once_Some split: option.splits if_splits prod.splits)
  show "endpoint_ok user host port"
    using v e ok parse_unsigned_bound
    by (fastforce simp: endpoint_ok_def rsplit_once_Some split: option.splits prod.splits)
  show "(\<exists>text. v = user @ CHR ''@'' # host @ CHR '':'' # text \<and> parse_unsigned 10 U16 text = Some port)
       \<or> v = user @ CHR ''@'' # host \<and> CHR '':'' \<notin> set host \<and> port = 22"
    using v e by (auto simp: rsplit_once_Some split: option.splits prod.splits)
       (auto simp: rsplit_once_def split_once_def split: if_splits)
qed

lemma parse_jump_endpoint_complete:
  assumes "endpoint_ok user host port"
  shows "parse_unsigned 10 U16 text = Some port \<Longrightarrow> parse_jump_endpoint (user @ CHR ''@'' # host @ CHR '':'' # text) = Ok (user, host, port)"
    and "CHR '':'' \<notin> set host \<Longrightarrow> port = 22 \<Longrightarrow> parse_jump_endpoint (user @ CHR ''@'' # host) = Ok (user, host, port)"
proof -
  have digit: "\<not> is_ascii_digit (CHR ''@'')" "\<not> is_ascii_digit (CHR '':'')" by (simp_all add: is_ascii_digit_def code_def in_range_def)
  show "parse_jump_endpoint (user @ CHR ''@'' # host @ CHR '':'' # text) = Ok (user, host, port)"
    if t: "parse_unsigned 10 U16 text = Some port"
  proof -
    have "CHR ''@'' \<notin> set text" "CHR '':'' \<notin> set text" using parse_unsigned_chars[OF t] digit by fastforce+
    moreover from this have "rsplit_once (CHR '':'') (host @ CHR '':'' # text) = Some (host, text)" by (simp add: rsplit_once_Some)
    ultimately show ?thesis using assms t
      by (simp add: parse_jump_endpoint_def split_once_append endpoint_ok_def)
  qed
  show "parse_jump_endpoint (user @ CHR ''@'' # host) = Ok (user, host, port)" if "CHR '':'' \<notin> set host" "port = 22"
  proof -
    have "rsplit_once (CHR '':'') host = None" using that by (simp add: rsplit_once_def split_once_def)
    then show ?thesis using assms that by (simp add: parse_jump_endpoint_def split_once_append endpoint_ok_def)
  qed
qed

subsection \<open>Acceptance\<close>

text \<open>A reference for what is accepted, on the arguments as they are given.\<close>

definition given :: "string option \<Rightarrow> bool" where
  "given x \<longleftrightarrow> x \<noteq> None \<and> x \<noteq> Some []"

definition key_found :: "fs \<Rightarrow> string list \<Rightarrow> string option \<Rightarrow> string option \<Rightarrow> bool" where
  "key_found fs cwd home key \<longleftrightarrow>
     (case key of
        None \<Rightarrow> True
      | Some path \<Rightarrow> (case expand_key_path home path of Ok p \<Rightarrow> path_exists fs cwd p | Err _ \<Rightarrow> False))"

definition jump_acceptable :: "cli_args \<Rightarrow> bool" where
  "jump_acceptable a \<longleftrightarrow>
     (case a_jump a of
        None \<Rightarrow> a_jump_key a = None \<and> \<not> given (a_jump_password a)
      | Some v \<Rightarrow> is_ok (parse_jump_endpoint v) \<and> (a_jump_key a \<noteq> None) = (\<not> given (a_jump_password a)))"

definition args_acceptable :: "fs \<Rightarrow> string list \<Rightarrow> string option \<Rightarrow> cli_args \<Rightarrow> bool" where
  "args_acceptable fs cwd home a \<longleftrightarrow>
     a_host a \<noteq> [] \<and> a_user a \<noteq> [] \<and> (given (a_password a) \<or> a_key a \<noteq> None)
     \<and> key_found fs cwd home (a_key a) \<and> key_found fs cwd home (a_jump_key a) \<and> jump_acceptable a
     \<and> a_reconnect_retries a \<le> 10 \<and> 10 \<le> a_reconnect_backoff_ms a \<and> a_reconnect_backoff_ms a \<le> 30000
     \<and> 100 \<le> a_health_probe_timeout_ms a \<and> a_health_probe_timeout_ms a \<le> 30000"

lemmas limit_defs = MAX_RECONNECT_RETRIES_def MIN_RECONNECT_BACKOFF_MS_def MAX_RECONNECT_BACKOFF_MS_def
  MIN_HEALTH_PROBE_TIMEOUT_MS_def MAX_HEALTH_PROBE_TIMEOUT_MS_def in_range_def

lemma config_password_None: "config_password p = None \<longleftrightarrow> \<not> given p"
  by (auto simp: config_password_def given_def split: option.splits)

lemma config_password_Some: "config_password p = Some q \<longleftrightarrow> p = Some q \<and> q \<noteq> []"
  by (auto simp: config_password_def split: option.splits)

lemma config_password_idem: "config_password (config_password p) = config_password p"
  by (auto simp: config_password_def split: option.splits)

lemma jump_errors_Nil: "jump_errors j k p = [] \<longleftrightarrow> (if j then k = (\<not> p) else \<not> k \<and> \<not> p)"
  by (cases j; cases k; cases p) (simp_all add: jump_errors_def)

lemma validate_args_Ok:
  "validate_args fs cwd a = Ok () \<longleftrightarrow>
     a_host a \<noteq> [] \<and> a_user a \<noteq> [] \<and> (a_password a \<noteq> None \<or> a_key a \<noteq> None)
     \<and> (if a_jump a \<noteq> None then (a_jump_key a \<noteq> None) = (a_jump_password a = None)
        else a_jump_key a = None \<and> a_jump_password a = None)
     \<and> (\<forall>p. a_key a = Some p \<longrightarrow> path_exists fs cwd p) \<and> (\<forall>p. a_jump_key a = Some p \<longrightarrow> path_exists fs cwd p)
     \<and> a_reconnect_retries a \<le> 10 \<and> 10 \<le> a_reconnect_backoff_ms a \<and> a_reconnect_backoff_ms a \<le> 30000
     \<and> 100 \<le> a_health_probe_timeout_ms a \<and> a_health_probe_timeout_ms a \<le> 30000"
proof -
  have k: "key_errors fs cwd w key = [] \<longleftrightarrow> (\<forall>p. key = Some p \<longrightarrow> path_exists fs cwd p)" for w key
    by (auto simp: key_errors_def split: option.splits)
  have "validate_args fs cwd a = Ok () \<longleftrightarrow> arg_errors fs cwd a = []" by (simp add: validate_args_def Let_def)
  then show ?thesis
    by (simp add: arg_errors_def k jump_errors_Nil limit_defs not_less)
qed

lemma from_args_Ok:
  "from_args_with_home fs cwd home args = Ok c \<longleftrightarrow>
     (\<exists>key jump_key endpoint b.
        transpose (expand_key_path home) (a_key args) = Ok key
      \<and> transpose (expand_key_path home) (a_jump_key args) = Ok jump_key
      \<and> b = args\<lparr>a_password := config_password (a_password args),
                 a_jump_password := config_password (a_jump_password args),
                 a_su_password := config_password (a_su_password args),
                 a_sudo_password := config_password (a_sudo_password args), a_key := key, a_jump_key := jump_key\<rparr>
      \<and> validate_args fs cwd b = Ok () \<and> transpose parse_jump_endpoint (a_jump args) = Ok endpoint
      \<and> c = config_of b (map_option (\<lambda>(user, host, port).
               \<lparr>jc_host = host, jc_port = port, jc_user = user, jc_password = config_password (a_jump_password args), jc_key = jump_key\<rparr>)
               endpoint))"
  by (auto simp: from_args_with_home_def Let_def and_then_Ok_iff)

lemma key_found_iff:
  "key_found fs cwd home key \<longleftrightarrow>
     (\<exists>k. transpose (expand_key_path home) key = Ok k \<and> (\<forall>p. k = Some p \<longrightarrow> path_exists fs cwd p))"
  by (cases key) (auto simp: key_found_def transpose_Ok_iff split: result.splits)

lemma transpose_None_iff: "transpose f x = Ok y \<Longrightarrow> y = None \<longleftrightarrow> x = None"
  by (auto simp: transpose_Ok_iff split: option.splits)

subsection \<open>From the arguments to the connection\<close>

text \<open>A configuration as validation leaves it.\<close>

definition config_ok :: "config \<Rightarrow> bool" where
  "config_ok c \<longleftrightarrow>
     (cf_password c \<noteq> None \<or> cf_key c \<noteq> None) \<and> cf_reconnect_retries c \<le> 10
     \<and> (case cf_jump c of
          None \<Rightarrow> True
        | Some j \<Rightarrow> endpoint_ok (jc_user j) (jc_host j) (jc_port j) \<and> jc_password j \<noteq> Some []
            \<and> (jc_key j \<noteq> None) = (jc_password j = None))"

lemma from_args_config_ok:
  assumes "from_args_with_home fs cwd home args = Ok c"
  shows "config_ok c"
proof -
  obtain key jump_key endpoint b where
      k: "transpose (expand_key_path home) (a_jump_key args) = Ok jump_key"
    and e: "transpose parse_jump_endpoint (a_jump args) = Ok endpoint"
    and b: "b = args\<lparr>a_password := config_password (a_password args),
                 a_jump_password := config_password (a_jump_password args),
                 a_su_password := config_password (a_su_password args),
                 a_sudo_password := config_password (a_sudo_password args), a_key := key, a_jump_key := jump_key\<rparr>"
    and v: "validate_args fs cwd b = Ok ()"
    and c: "c = config_of b (map_option (\<lambda>(user, host, port).
               \<lparr>jc_host = host, jc_port = port, jc_user = user, jc_password = config_password (a_jump_password args), jc_key = jump_key\<rparr>)
               endpoint)"
    using assms unfolding from_args_Ok by blast
  have p: "config_password p \<noteq> Some []" for p by (simp add: config_password_def split: option.split)
  have "(jump_key \<noteq> None) = (config_password (a_jump_password args) = None)" if "endpoint = Some t" for t
    using v e that unfolding validate_args_Ok b by (auto simp: transpose_Ok_iff split: option.splits)
  moreover have "endpoint_ok u h q" if "endpoint = Some (u, h, q)" for u h q
    using e that parse_jump_endpoint_sound(1) by (auto simp: transpose_Ok_iff split: option.splits)
  ultimately show ?thesis
    using v p unfolding config_ok_def c validate_args_Ok
    by (auto simp: config_of_def b split: option.splits prod.splits)
qed

text \<open>The key files of a configuration hold text.\<close>

definition keys_readable :: "fs \<Rightarrow> string list \<Rightarrow> config \<Rightarrow> bool" where
  "keys_readable fs cwd c \<longleftrightarrow>
     (case cf_key c of None \<Rightarrow> True | Some p \<Rightarrow> is_ok (read_to_string fs cwd p))
     \<and> (case cf_jump c of None \<Rightarrow> True | Some j \<Rightarrow>
          (case jc_key j of None \<Rightarrow> True | Some p \<Rightarrow> is_ok (read_to_string fs cwd p)))"

lemma build_jump_Ok:
  assumes "endpoint_ok (jc_user j) (jc_host j) (jc_port j)" "jc_password j \<noteq> Some []" "(jc_key j \<noteq> None) = (jc_password j = None)"
    "case jc_key j of None \<Rightarrow> True | Some p \<Rightarrow> is_ok (read_to_string fs cwd p)"
  shows "\<exists>s. build_jump fs cwd j = Ok s \<and> sj_host s = jc_host j \<and> sj_port s = jc_port j \<and> sj_username s = jc_user j
     \<and> sj_password s = jc_password j \<and> (sj_private_key s = None) = (jc_key j = None)"
  using assms
  by (auto simp: build_jump_def Let_def endpoint_ok_def config_password_def is_ok_iff transpose_def split: option.splits)

lemma build_ssh_config_Ok:
  assumes "config_ok c" "keys_readable fs cwd c"
  shows "\<exists>sc. build_ssh_config fs cwd c = Ok sc \<and> sc_reconnect_retries sc = cf_reconnect_retries c
     \<and> sc_reconnect_backoff_ms sc = cf_reconnect_backoff_ms c
     \<and> (sc_password sc \<noteq> None \<or> sc_private_key sc \<noteq> None)
     \<and> (\<forall>j. sc_jump sc = Some j \<longrightarrow> (sj_password j \<noteq> None) = (sj_private_key j = None))
     \<and> sc_host_key_checking sc = cf_strict_host_key_checking c"
proof -
  obtain private_key where key: "transpose (\<lambda>path. map_err ConfigIo (read_to_string fs cwd path)) (cf_key c) = Ok private_key"
      "(private_key = None) = (cf_key c = None)"
    using assms(2) by (auto simp: keys_readable_def is_ok_iff transpose_def split: option.splits)
  obtain jump where jump: "transpose (build_jump fs cwd) (cf_jump c) = Ok jump"
      "\<forall>j. jump = Some j \<longrightarrow> (sj_password j \<noteq> None) = (sj_private_key j = None)"
  proof (cases "cf_jump c")
    case (Some j)
    then obtain s where "build_jump fs cwd j = Ok s" "sj_password s = jc_password j" "(sj_private_key s = None) = (jc_key j = None)"
      using build_jump_Ok[of j fs cwd] assms by (auto simp: config_ok_def keys_readable_def)
    with Some assms(1) that[of "Some s"] show ?thesis by (auto simp: transpose_def config_ok_def)
  qed (auto simp: transpose_def intro: that)
  show ?thesis using key jump assms(1)
    by (auto simp: build_ssh_config_def Let_def config_ok_def ssh_config_new_def split: option.splits)
qed

lemma sum_pauses:
  assumes "pauses = filter (\<lambda>b. 0 < b) (map (backoff_for_attempt cfg) [1..<n])" "n \<le> m + 1"
  shows "sum_list pauses \<le> m * 30000"
proof -
  have "backoff_for_attempt cfg a \<le> 30000" for a
    by (simp add: backoff_for_attempt_def MAX_RECONNECT_BACKOFF_MS_def Let_def)
  then have "sum_list pauses \<le> sum_list (map (\<lambda>_. 30000) pauses)"
    using sum_list_mono[of pauses "\<lambda>x. x" "\<lambda>_. 30000"] assms(1) by auto
  also have "\<dots> = length pauses * 30000" by (simp add: sum_list_triv)
  also have "length pauses \<le> m"
    using assms length_filter_le[of "\<lambda>b. 0 < b" "map (backoff_for_attempt cfg) [1..<n]"] by simp
  then have "length pauses * 30000 \<le> m * 30000" by simp
  finally show ?thesis .
qed

subsection \<open>Limits\<close>

text \<open>A limit is read back as it is printed, the suffix multiplies by a thousand and saturates, and no limit is ever
  zero.\<close>

lemma parse_i64_show_nat: "n < 2 ^ 63 \<Longrightarrow> parse_i64 (show_nat n) = Some (int n)"
proof -
  assume n: "n < 2 ^ 63"
  obtain c cs where s: "show_nat n = c # cs" by (cases "show_nat n") auto
  then have "c \<noteq> CHR ''-''" "c \<noteq> CHR ''+''"
    using show_nat_digits[of c n] by (auto simp: is_ascii_digit_def in_range_def code_def)
  with s n show ?thesis using parse_digits_show_nat[of n "2 ^ 63"] by (simp add: parse_i64_def)
qed

lemma lower_digits: "\<forall>c\<in>set s. is_ascii_digit c \<or> c = CHR ''k'' \<Longrightarrow> replace_char (CHR '' '') [] (to_lowercase s) = s"
proof -
  assume d: "\<forall>c\<in>set s. is_ascii_digit c \<or> c = CHR ''k''"
  then have "\<forall>c\<in>set s. code c < 128" by (auto dest!: bspec is_ascii_digit_code simp: code_def)
  moreover have "\<forall>c\<in>set s. lower_ch [c] = [c] \<and> c \<noteq> CHR '' ''"
    using d by (auto simp: lower_ch_def is_ascii_uppercase_def is_ascii_digit_def in_range_def code_def)
  ultimately show ?thesis
    by (induction s) (auto simp: to_lowercase_def replace_char_def str_chars_all_ascii)
qed

lemma parse_max_output_tokens_plain:
  assumes "0 < n" "n < 2 ^ 63"
  shows "parse_max_output_tokens (Some (show_nat n)) = Some n"
proof -
  have d: "\<forall>c\<in>set (show_nat n). is_ascii_digit c" using show_nat_digits by blast
  then have "\<not> ends_with (show_nat n) ''k''" "show_nat n \<noteq> ''none''"
    by (auto simp: ends_with_iff is_ascii_digit_def in_range_def code_def)
  then show ?thesis
    using lower_digits[of "show_nat n"] d assms parse_i64_show_nat[of n] by (simp add: parse_max_output_tokens_def Let_def)
qed

lemma parse_max_output_tokens_k:
  assumes "0 < n" "n < 2 ^ 63"
  shows "parse_max_output_tokens (Some (show_nat n @ ''k'')) = Some (min (n * 1000) (U64 - 1))"
proof -
  have d: "\<forall>c\<in>set (show_nat n). is_ascii_digit c" using show_nat_digits by blast
  then have "show_nat n @ ''k'' \<noteq> ''none''"
    by (auto simp: is_ascii_digit_def in_range_def code_def append_eq_Cons_conv)
  then show ?thesis
    using lower_digits[of "show_nat n @ ''k''"] d assms parse_i64_show_nat[of n]
    by (simp add: parse_max_output_tokens_def Let_def ends_with_def sat_mul_def)
qed

lemma parse_max_output_tokens_positive: "parse_max_output_tokens v \<noteq> Some 0"
  by (auto simp: parse_max_output_tokens_def DEFAULT_MAX_OUTPUT_TOKENS_def Let_def sat_mul_def split: option.splits)

section \<open>Properties\<close>

text \<open>The grammar of a jump host is exact. A value is read as user, host and port just when they are non-empty, free of
  white space and of further at signs, the port is from 1 to 65535, and the value is \<open>USER@HOST:PORT\<close> with a port that
  is written in decimal, or \<open>USER@HOST\<close> without a colon for port 22.\<close>

theorem parse_jump_endpoint_exact:
  "parse_jump_endpoint v = Ok (user, host, port) \<longleftrightarrow>
     endpoint_ok user host port
     \<and> ((\<exists>text. v = user @ CHR ''@'' # host @ CHR '':'' # text \<and> parse_unsigned 10 U16 text = Some port)
        \<or> v = user @ CHR ''@'' # host \<and> CHR '':'' \<notin> set host \<and> port = 22)"
  using parse_jump_endpoint_sound parse_jump_endpoint_complete by blast

text \<open>C28: the command line is accepted just when it is complete and consistent: host and user, a password or a key,
  key files that exist after the tilde is expanded, a jump host that parses together with exactly one credential and no
  credential without a jump host, and the reconnect and probe settings within their ranges. An empty password counts as
  none.\<close>

theorem from_args_accepts_iff:
  "is_ok (from_args_with_home fs cwd home args) \<longleftrightarrow> args_acceptable fs cwd home args"
proof
  assume "is_ok (from_args_with_home fs cwd home args)"
  then obtain c where "from_args_with_home fs cwd home args = Ok c" by (auto simp: is_ok_iff)
  then obtain key jump_key endpoint where
      k: "transpose (expand_key_path home) (a_key args) = Ok key" "transpose (expand_key_path home) (a_jump_key args) = Ok jump_key"
    and e: "transpose parse_jump_endpoint (a_jump args) = Ok endpoint"
    and v: "validate_args fs cwd (args\<lparr>a_password := config_password (a_password args),
                 a_jump_password := config_password (a_jump_password args),
                 a_su_password := config_password (a_su_password args),
                 a_sudo_password := config_password (a_sudo_password args), a_key := key, a_jump_key := jump_key\<rparr>) = Ok ()"
    unfolding from_args_Ok by blast
  from e v k show "args_acceptable fs cwd home args"
    unfolding args_acceptable_def key_found_iff jump_acceptable_def validate_args_Ok
    by (auto simp: transpose_None_iff[OF k(1), symmetric] transpose_None_iff[OF k(2), symmetric] config_password_None
        transpose_Ok_iff is_ok_iff split: option.splits)
next
  assume acc: "args_acceptable fs cwd home args"
  then obtain key jump_key where
      k: "transpose (expand_key_path home) (a_key args) = Ok key" "\<forall>p. key = Some p \<longrightarrow> path_exists fs cwd p"
    and j: "transpose (expand_key_path home) (a_jump_key args) = Ok jump_key" "\<forall>p. jump_key = Some p \<longrightarrow> path_exists fs cwd p"
    unfolding args_acceptable_def key_found_iff by blast
  moreover obtain endpoint where "transpose parse_jump_endpoint (a_jump args) = Ok endpoint"
    using acc by (auto simp: args_acceptable_def jump_acceptable_def is_ok_iff transpose_Ok_iff split: option.splits)
  moreover have "validate_args fs cwd (args\<lparr>a_password := config_password (a_password args),
                 a_jump_password := config_password (a_jump_password args),
                 a_su_password := config_password (a_su_password args),
                 a_sudo_password := config_password (a_sudo_password args), a_key := key, a_jump_key := jump_key\<rparr>) = Ok ()"
    using acc k(2) j(2) transpose_None_iff[OF k(1)] transpose_None_iff[OF j(1)]
    unfolding args_acceptable_def jump_acceptable_def validate_args_Ok
    by (auto simp: config_password_None split: option.splits)
  ultimately show "is_ok (from_args_with_home fs cwd home args)"
    unfolding is_ok_iff from_args_Ok by blast
qed


definition sample_args :: cli_args where
  "sample_args =
     \<lparr>a_host = ''target'', a_port = 22, a_user = ''root'', a_password = Some [], a_key = Some ''~/id'',
      a_jump = Some ''bob@gate:2222'', a_jump_key = None, a_jump_password = Some ''pw'', a_spool_dir = None,
      a_su_password = None, a_sudo_password = None, a_timeout = 300000, a_max_chars = None, a_disable_sudo = False,
      a_max_output_tokens = Some ''8k'', a_log_level = ''info'', a_log_file = None, a_log_format = ''text'',
      a_log_rotation = ''daily'', a_keepalive_interval = 30, a_keepalive_max = 3, a_reconnect_retries = 10,
      a_reconnect_backoff_ms = 30000, a_health_probe_timeout_ms = 1500,
      a_strict_host_key_checking = ModeYes, a_known_hosts = None\<rparr>"

definition sample_fs :: fs where
  "sample_fs = [[''home''] \<mapsto> NDir, [''home'', ''id''] \<mapsto> NFile ''KEY'']"

definition sample_run_config :: config where
  "sample_run_config =
     \<lparr>cf_host = ''target'', cf_port = 22, cf_user = ''root'', cf_password = None, cf_key = Some ''/home/id'',
      cf_jump = Some \<lparr>jc_host = ''gate'', jc_port = 2222, jc_user = ''bob'', jc_password = Some ''pw'', jc_key = None\<rparr>,
      cf_su_password = None, cf_sudo_password = None, cf_timeout_ms = 300000, cf_max_chars = Some 64000,
      cf_max_output_tokens = Some 8000, cf_disable_sudo = False, cf_keepalive_interval = 30, cf_keepalive_max = 3,
      cf_reconnect_retries = 10, cf_reconnect_backoff_ms = 30000, cf_health_probe_timeout_ms = 1500,
      cf_strict_host_key_checking = ModeYes, cf_known_hosts = None\<rparr>"


end
