(* ===== verification/Dial.thy ===== *)
theory Dial
  imports Identify Config
begin

text \<open>
  How a route is established: \<open>do_connect\<close>, \<open>connect_tcp_endpoint\<close>, \<open>connect_identified_stream\<close>,
  \<open>authenticate_session\<close> and \<open>finish_connect\<close> of \<open>src/src/ssh/connection.rs\<close>, over the configuration, the host
  key handler and the identification exchange. The network and russh are a record of answers; what the code does to them
  is a list of events.
\<close>

section \<open>Definitions\<close>

subsection \<open>The network\<close>

datatype peer = JumpPeer | TargetPeer

datatype hash_alg = Sha256 | Sha512

datatype 'key event =
    TcpConnect string nat
  | OpenTunnel string nat
  | KeyAccepted peer string nat 'key
  | SessionOpen peer "nat option" nat
  | PasswordSent peer string string
  | KeyOffered peer string string "hash_alg option"
  | Disconnected peer

text \<open>The answers: what a TCP connection or a tunnel delivers until the identification is complete, the key that the peer
  presents, the rest of the handshake, the opening of the tunnel, and the authentication requests. Nothing stands for
  a timeout. A private key parses or not, and is an RSA key or not.\<close>

record 'key dial_world =
  dw_stream :: "peer \<Rightarrow> (string list, string) result option"
  dw_server_key :: "peer \<Rightarrow> 'key"
  dw_handshake :: "peer \<Rightarrow> (unit, string) result option"
  dw_tunnel :: "(unit, string) result option"
  dw_password :: "peer \<Rightarrow> (bool, string) result option"
  dw_publickey :: "peer \<Rightarrow> hash_alg option \<Rightarrow> (bool, string) result option"
  dw_parse_key :: "string \<Rightarrow> (bool, string) result"

fun ident_error_text :: "ident_error \<Rightarrow> string" where
  "ident_error_text IdentEof = ''SSH identification ended before a valid server ID''"
| "ident_error_text LineTooLong = ''Invalid SSH identification: line exceeds 255 bytes''"
| "ident_error_text TooManyLines = ''Invalid SSH identification: more than 20 preamble lines''"

definition connection_error :: "string \<Rightarrow> conn_error" where
  "connection_error m = ConnectFailed (''SSH connection error: '' @ m)"

definition auth_error :: "string \<Rightarrow> conn_error" where
  "auth_error m = ConnectFailed (''Authentication failed: '' @ m)"

definition ssh_key_error :: "string \<Rightarrow> conn_error" where
  "ssh_key_error m = ConnectFailed (''SSH key error: '' @ m)"

subsection \<open>One endpoint\<close>

text \<open>\<open>configure_client\<close>: no keepalives to RouterOS.\<close>

definition configure_client :: "full_ssh_config \<Rightarrow> remote_platform \<Rightarrow> nat option \<times> nat" where
  "configure_client cfg platform =
     ((if platform = Posix then Some (sc_keepalive_interval cfg) else None), sc_keepalive_max cfg)"

text \<open>\<open>connect_stream\<close> of russh asks the handler about the key of the server and goes on only if it accepts.\<close>

definition connect_identified_stream ::
  "('st, 'key) russh_keys \<Rightarrow> 'key dial_world \<Rightarrow> full_ssh_config \<Rightarrow> peer \<Rightarrow> ssh_handler \<Rightarrow> 'st \<Rightarrow>
   'st \<times> 'key event list \<times> (remote_platform, string) result option" where
  "connect_identified_stream rk w cfg p h st =
     (case dw_stream w p of
        None \<Rightarrow> (st, [], None)
      | Some (Err e) \<Rightarrow> (st, [], Some (Err e))
      | Some (Ok frags) \<Rightarrow>
          (case identify frags of
             Err e \<Rightarrow> (st, [], Some (Err (ident_error_text e)))
           | Ok (_, _, platform) \<Rightarrow>
               (case check_server_key rk h st (dw_server_key w p) of
                  (st1, _, Err e) \<Rightarrow> (st1, [], Some (Err e))
                | (st1, _, Ok False) \<Rightarrow> (st1, [], Some (Err ''Unknown server key''))
                | (st1, _, Ok True) \<Rightarrow>
                    let accepted = KeyAccepted p (sh_host h) (sh_port h) (dw_server_key w p) in
                    (case dw_handshake w p of
                       None \<Rightarrow> (st1, [accepted], None)
                     | Some (Err e) \<Rightarrow> (st1, [accepted], Some (Err e))
                     | Some (Ok _) \<Rightarrow>
                         (case configure_client cfg platform of (interval, most) \<Rightarrow>
                            (st1, [accepted, SessionOpen p interval most], Some (Ok platform)))))))"

definition CONNECTION_TIMEOUT_TEXT :: string where
  "CONNECTION_TIMEOUT_TEXT = '' timed out after 30s''"

definition connect_tcp_endpoint ::
  "('st, 'key) russh_keys \<Rightarrow> 'key dial_world \<Rightarrow> full_ssh_config \<Rightarrow> peer \<Rightarrow> string \<Rightarrow> nat \<Rightarrow> string \<Rightarrow> 'st \<Rightarrow>
   'st \<times> 'key event list \<times> (remote_platform, conn_error) result" where
  "connect_tcp_endpoint rk w cfg p host port stage st =
     (case connect_identified_stream rk w cfg p
             (ssh_handler_new host port (sc_host_key_checking cfg) (sc_known_hosts cfg)) st of
        (st1, ev, r) \<Rightarrow>
          (st1, TcpConnect host port # ev,
           case r of
             None \<Rightarrow> Err (connection_error (stage @ CONNECTION_TIMEOUT_TEXT))
           | Some (Err e) \<Rightarrow> Err (connection_error (stage @ '' failed: '' @ e))
           | Some (Ok platform) \<Rightarrow> Ok platform))"

definition target_handler :: "full_ssh_config \<Rightarrow> ssh_handler" where
  "target_handler cfg = ssh_handler_new (sc_host cfg) (sc_port cfg) (sc_host_key_checking cfg) (sc_known_hosts cfg)"

subsection \<open>Authentication\<close>

definition auth_reply :: "string \<Rightarrow> (bool, string) result option \<Rightarrow> (bool, conn_error) result" where
  "auth_reply stage reply =
     (case reply of
        None \<Rightarrow> Err (auth_error (stage @ '' timed out after 20s''))
      | Some (Err e) \<Rightarrow> Err (auth_error (stage @ '' failed: '' @ e))
      | Some (Ok b) \<Rightarrow> Ok b)"

fun try_hashes ::
  "'key dial_world \<Rightarrow> peer \<Rightarrow> string \<Rightarrow> string \<Rightarrow> string \<Rightarrow> hash_alg option list \<Rightarrow> 'key event list \<times> (unit, conn_error) result" where
  "try_hashes w p username key stage [] = ([], Err (auth_error (stage @ '' rejected key'')))"
| "try_hashes w p username key stage (alg # algs) =
     (case auth_reply stage (dw_publickey w p alg) of
        Err e \<Rightarrow> ([KeyOffered p username key alg], Err e)
      | Ok True \<Rightarrow> ([KeyOffered p username key alg], Ok ())
      | Ok False \<Rightarrow>
          (case try_hashes w p username key stage algs of (ev, r) \<Rightarrow> (KeyOffered p username key alg # ev, r)))"

definition authenticate_session ::
  "'key dial_world \<Rightarrow> peer \<Rightarrow> string \<Rightarrow> string option \<Rightarrow> string option \<Rightarrow> string \<Rightarrow> 'key event list \<times> (unit, conn_error) result" where
  "authenticate_session w p username password private_key stage =
     (case password of
        Some pw \<Rightarrow>
          ([PasswordSent p username pw],
           case auth_reply stage (dw_password w p) of
             Err e \<Rightarrow> Err e
           | Ok True \<Rightarrow> Ok ()
           | Ok False \<Rightarrow> Err (auth_error (stage @ '' rejected password'')))
      | None \<Rightarrow>
          (case private_key of
             None \<Rightarrow> ([], Err (auth_error (stage @ '' has no authentication method'')))
           | Some key_content \<Rightarrow>
               (case dw_parse_key w (trim_end key_content) of
                  Err e \<Rightarrow> ([], Err (ssh_key_error (stage @ '' key parsing failed: '' @ e)))
                | Ok is_rsa \<Rightarrow>
                    try_hashes w p username (trim_end key_content) stage
                      (if is_rsa then [Some Sha256, Some Sha512, None] else [None]))))"

subsection \<open>The route\<close>

text \<open>The first half of \<open>do_connect\<close>: to the target directly, or through the jump host.\<close>

definition reach_target ::
  "('st, 'key) russh_keys \<Rightarrow> 'key dial_world \<Rightarrow> full_ssh_config \<Rightarrow> 'st \<Rightarrow>
   'st \<times> 'key event list \<times> (remote_platform, conn_error) result" where
  "reach_target rk w cfg st =
     (case sc_jump cfg of
        None \<Rightarrow> connect_tcp_endpoint rk w cfg TargetPeer (sc_host cfg) (sc_port cfg) ''target connection'' st
      | Some j \<Rightarrow>
          (case connect_tcp_endpoint rk w cfg JumpPeer (sj_host j) (sj_port j) ''jump connection'' st of
             (st1, ev1, Err e) \<Rightarrow> (st1, ev1, Err e)
           | (st1, ev1, Ok _) \<Rightarrow>
               (case authenticate_session w JumpPeer (sj_username j) (sj_password j) (sj_private_key j) ''jump authentication'' of
                  (ev2, Err e) \<Rightarrow> (st1, ev1 @ ev2 @ [Disconnected JumpPeer], Err e)
                | (ev2, Ok _) \<Rightarrow>
                    let ev3 = ev1 @ ev2 @ [OpenTunnel (sc_host cfg) (sc_port cfg)];
                        cut = (\<lambda>st ev e. (st, ev @ [Disconnected JumpPeer], Err (connection_error e))) in
                    (case dw_tunnel w of
                       None \<Rightarrow> cut st1 ev3 (''jump forwarding'' @ CONNECTION_TIMEOUT_TEXT)
                     | Some (Err e) \<Rightarrow> cut st1 ev3 (''jump forwarding failed: '' @ e)
                     | Some (Ok _) \<Rightarrow>
                         (case connect_identified_stream rk w cfg TargetPeer (target_handler cfg) st1 of
                            (st2, ev4, None) \<Rightarrow>
                              cut st2 (ev3 @ ev4) (''target connection through jump'' @ CONNECTION_TIMEOUT_TEXT)
                          | (st2, ev4, Some (Err e)) \<Rightarrow>
                              cut st2 (ev3 @ ev4) (''target connection through jump failed: '' @ e)
                          | (st2, ev4, Some (Ok platform)) \<Rightarrow> (st2, ev3 @ ev4, Ok platform))))))"

text \<open>The second half: authenticate, and publish the route on the manager as it is then; whatever is not published is
  disconnected.\<close>

definition do_connect ::
  "('st, 'key) russh_keys \<Rightarrow> 'key dial_world \<Rightarrow> full_ssh_config \<Rightarrow> 'st \<Rightarrow> connection \<Rightarrow>
   'st \<times> connection \<times> 'key event list \<times> (unit, conn_error) result" where
  "do_connect rk w cfg st c =
     (case reach_target rk w cfg st of
        (st1, ev1, Err e) \<Rightarrow> (st1, c, ev1, Err e)
      | (st1, ev1, Ok platform) \<Rightarrow>
          (case authenticate_session w TargetPeer (sc_username cfg) (sc_password cfg) (sc_private_key cfg) ''target authentication'' of
             (ev2, authenticated) \<Rightarrow>
               (case finish_connect (ssh_config.truncate cfg) authenticated platform (sc_jump cfg \<noteq> None) c of
                  (c1, r) \<Rightarrow>
                    (st1, c1,
                     ev1 @ ev2 @ (case r of
                                    Ok _ \<Rightarrow> []
                                  | Err _ \<Rightarrow> Disconnected TargetPeer # (if sc_jump cfg \<noteq> None then [Disconnected JumpPeer] else [])),
                     r))))"

section \<open>Lemmas\<close>

subsection \<open>Credentials\<close>

text \<open>Where a peer is and what the configuration has for it.\<close>

fun peer_address :: "full_ssh_config \<Rightarrow> peer \<Rightarrow> string \<times> nat" where
  "peer_address cfg TargetPeer = (sc_host cfg, sc_port cfg)"
| "peer_address cfg JumpPeer = (case sc_jump cfg of Some j \<Rightarrow> (sj_host j, sj_port j) | None \<Rightarrow> ([], 0))"

fun peer_credentials :: "full_ssh_config \<Rightarrow> peer \<Rightarrow> string \<times> string option \<times> string option" where
  "peer_credentials cfg TargetPeer = (sc_username cfg, sc_password cfg, map_option trim_end (sc_private_key cfg))"
| "peer_credentials cfg JumpPeer =
     (case sc_jump cfg of
        Some j \<Rightarrow> (sj_username j, sj_password j, map_option trim_end (sj_private_key j))
      | None \<Rightarrow> ([], None, None))"

text \<open>A trace is guarded if every credential in it belongs to its peer and follows the acceptance of a key of that peer,
  with \<open>ok\<close> for the keys that may be accepted; \<open>seen\<close> are the peers accepted before.\<close>

fun guarded :: "full_ssh_config \<Rightarrow> (string \<Rightarrow> nat \<Rightarrow> 'key \<Rightarrow> bool) \<Rightarrow> peer set \<Rightarrow> 'key event list \<Rightarrow> bool" where
  "guarded cfg ok seen [] = True"
| "guarded cfg ok seen (KeyAccepted p host port k # es) =
     ((host, port) = peer_address cfg p \<and> ok host port k \<and> guarded cfg ok (insert p seen) es)"
| "guarded cfg ok seen (PasswordSent p user pw # es) =
     (p \<in> seen \<and> (\<exists>key. peer_credentials cfg p = (user, Some pw, key)) \<and> guarded cfg ok seen es)"
| "guarded cfg ok seen (KeyOffered p user key alg # es) =
     (p \<in> seen \<and> peer_credentials cfg p = (user, None, Some key) \<and> guarded cfg ok seen es)"
| "guarded cfg ok seen (e # es) = guarded cfg ok seen es"

fun accepted_peers :: "'key event list \<Rightarrow> peer set" where
  "accepted_peers [] = {}"
| "accepted_peers (KeyAccepted p host port k # es) = insert p (accepted_peers es)"
| "accepted_peers (e # es) = accepted_peers es"

lemma guarded_append:
  "guarded cfg ok seen (a @ b) \<longleftrightarrow> guarded cfg ok seen a \<and> guarded cfg ok (seen \<union> accepted_peers a) b"
  by (induction cfg ok seen a rule: guarded.induct) auto

lemma guarded_split:
  assumes "guarded cfg ok seen (pre @ e # post)"
  shows "(e = PasswordSent p user pw \<longrightarrow> p \<in> seen \<union> accepted_peers pre \<and> (\<exists>key. peer_credentials cfg p = (user, Some pw, key)))
    \<and> (e = KeyOffered p user key alg \<longrightarrow> p \<in> seen \<union> accepted_peers pre \<and> peer_credentials cfg p = (user, None, Some key))"
  using assms by (auto simp: guarded_append)

lemma guarded_accepted:
  assumes "guarded cfg ok seen es" "p \<in> accepted_peers es"
  shows "\<exists>host port k. KeyAccepted p host port k \<in> set es \<and> (host, port) = peer_address cfg p \<and> ok host port k"
  using assms by (induction cfg ok seen es rule: guarded.induct) auto

lemma try_hashes_guarded:
  assumes "p \<in> seen" "peer_credentials cfg p = (user, None, Some key)"
  shows "guarded cfg ok seen (fst (try_hashes w p user key stage algs))"
  by (induction algs) (auto simp: assms split: result.splits prod.splits bool.splits)

lemma authenticate_guarded:
  assumes "p \<in> seen" "peer_credentials cfg p = (user, password, map_option trim_end private_key)"
    "authenticate_session w p user password private_key stage = (ev, r)"
  shows "guarded cfg ok seen ev"
proof (cases password)
  case (Some pw)
  then show ?thesis using assms by (auto simp: authenticate_session_def)
next
  case None
  show ?thesis
  proof (cases "private_key")
    case (Some k)
    have "guarded cfg ok seen (fst (try_hashes w p user (trim_end k) stage algs))" for algs
      using try_hashes_guarded[OF assms(1)] assms(2) None Some by simp
    with None Some assms(3) show ?thesis
      by (auto simp: authenticate_session_def split: result.splits) (metis fst_conv)
  qed (use None assms in \<open>auto simp: authenticate_session_def\<close>)
qed

lemma stream_guarded:
  assumes "connect_identified_stream rk w cfg p h st = (st1, ev, r)" "(sh_host h, sh_port h) = peer_address cfg p"
    "\<And>st' h'. check_server_key rk h st (dw_server_key w p) = (st', h', Ok True) \<Longrightarrow> ok (sh_host h) (sh_port h) (dw_server_key w p)"
  shows "guarded cfg ok seen ev"
    and "r = Some (Ok platform) \<Longrightarrow> p \<in> accepted_peers ev"
  using assms
  by (auto simp: connect_identified_stream_def Let_def split: option.splits result.splits prod.splits bool.splits)

text \<open>The keys that a verification may accept on the files as they are, and the files do not change under the strict
  policy.\<close>

definition key_ok ::
  "full_ssh_config \<Rightarrow> ('st \<Rightarrow> string option \<Rightarrow> string \<Rightarrow> nat \<Rightarrow> 'key list) \<Rightarrow> 'st \<Rightarrow> string \<Rightarrow> nat \<Rightarrow> 'key \<Rightarrow> bool" where
  "key_ok cfg recorded st host port k \<longleftrightarrow>
     sc_host_key_checking cfg = ModeYes \<longrightarrow> k \<in> set (recorded st (sc_known_hosts cfg) host port)"

definition new_handler :: "full_ssh_config \<Rightarrow> string \<Rightarrow> nat \<Rightarrow> ssh_handler" where
  "new_handler cfg host port = ssh_handler_new host port (sc_host_key_checking cfg) (sc_known_hosts cfg)"

lemma new_handler_simps [simp]:
  "sh_host (new_handler cfg host port) = host" "sh_port (new_handler cfg host port) = port"
  "sh_host_key_checking (new_handler cfg host port) = sc_host_key_checking cfg"
  "sh_known_hosts (new_handler cfg host port) = sc_known_hosts cfg"
  by (simp_all add: new_handler_def ssh_handler_new_def)

lemma stream_strict:
  assumes "connect_identified_stream rk w cfg p (new_handler cfg host port) st = (st1, ev, r)" "sc_host_key_checking cfg = ModeYes"
  shows "st1 = st"
  using assms check_server_key_strict[of "new_handler cfg host port" rk st "dw_server_key w p"]
  by (auto simp: connect_identified_stream_def Let_def split: option.splits result.splits prod.splits bool.splits)

lemma stream_ok:
  assumes "known_hosts_laws rk alg recorded" "connect_identified_stream rk w cfg p (new_handler cfg host port) st = (st1, ev, r)"
    "(host, port) = peer_address cfg p"
  shows "guarded cfg (key_ok cfg recorded st) seen ev"
    and "r = Some (Ok platform) \<Longrightarrow> p \<in> accepted_peers ev"
proof -
  have key: "key_ok cfg recorded st host port (dw_server_key w p)"
    if "check_server_key rk (new_handler cfg host port) st (dw_server_key w p) = (st', h', Ok True)" for st' h'
    using check_server_key_strict[OF _ that] laws_unknown[OF assms(1)]
    by (auto simp: key_ok_def check_known_hosts_in)
  show "guarded cfg (key_ok cfg recorded st) seen ev"
    by (rule stream_guarded(1)[OF assms(2)]) (use key assms(3) in auto)
  show "p \<in> accepted_peers ev" if "r = Some (Ok platform)"
    by (rule stream_guarded(2)[OF assms(2) _ _ that, where ok = "key_ok cfg recorded st"]) (use key assms(3) in auto)
qed

lemma endpoint_ok_trace:
  assumes "known_hosts_laws rk alg recorded" "connect_tcp_endpoint rk w cfg p host port stage st = (st1, ev, r)"
    "(host, port) = peer_address cfg p"
  shows "guarded cfg (key_ok cfg recorded st) seen ev \<and> (\<forall>platform. r = Ok platform \<longrightarrow> p \<in> accepted_peers ev)
    \<and> (sc_host_key_checking cfg = ModeYes \<longrightarrow> st1 = st)"
proof -
  obtain ev' r' where s: "connect_identified_stream rk w cfg p (new_handler cfg host port) st = (st1, ev', r')"
      "ev = TcpConnect host port # ev'" "\<And>platform. r = Ok platform \<Longrightarrow> r' = Some (Ok platform)"
    using assms(2) by (auto simp: connect_tcp_endpoint_def new_handler_def split: prod.splits option.splits result.splits)
  from stream_ok[OF assms(1) s(1) assms(3)] stream_strict[OF s(1)] s(2,3) show ?thesis by auto
qed

lemma guarded_Disconnected: "guarded cfg ok seen [Disconnected p]" "guarded cfg ok seen [OpenTunnel h q]"
  by simp_all

lemma reach_target_guarded:
  assumes "known_hosts_laws rk alg recorded" "reach_target rk w cfg st = (st1, ev, r)"
  shows "guarded cfg (key_ok cfg recorded st) {} ev \<and> (\<forall>platform. r = Ok platform \<longrightarrow> TargetPeer \<in> accepted_peers ev)"
proof (cases "sc_jump cfg")
  case None
  then show ?thesis using endpoint_ok_trace[OF assms(1)] assms(2) by (fastforce simp: reach_target_def)
next
  case (Some j)
  obtain sta ev1 r1 where e1: "connect_tcp_endpoint rk w cfg JumpPeer (sj_host j) (sj_port j) ''jump connection'' st = (sta, ev1, r1)"
    by (metis prod_cases3)
  have g1: "guarded cfg (key_ok cfg recorded st) {} ev1" "\<And>platform. r1 = Ok platform \<Longrightarrow> JumpPeer \<in> accepted_peers ev1"
      "sc_host_key_checking cfg = ModeYes \<longrightarrow> sta = st"
    using endpoint_ok_trace[OF assms(1) e1] Some by auto
  show ?thesis
  proof (cases r1)
    case (Err e)
    then show ?thesis using assms(2) Some e1 g1 by (auto simp: reach_target_def)
  next
    case (Ok pl)
    obtain ev2 r2 where e2: "authenticate_session w JumpPeer (sj_username j) (sj_password j) (sj_private_key j) ''jump authentication'' = (ev2, r2)"
      by fastforce
    have g2: "guarded cfg (key_ok cfg recorded st) (accepted_peers ev1) ev2"
      using authenticate_guarded[OF g1(2)[OF Ok] _ e2] Some by simp
    obtain stb ev4 r4 where e4: "connect_identified_stream rk w cfg TargetPeer (new_handler cfg (sc_host cfg) (sc_port cfg)) sta = (stb, ev4, r4)"
      by (metis prod_cases3)
    have "key_ok cfg recorded sta = key_ok cfg recorded st" using g1(3) by (auto simp: key_ok_def fun_eq_iff)
    then have g4: "guarded cfg (key_ok cfg recorded st) seen ev4" "r4 = Some (Ok q) \<Longrightarrow> TargetPeer \<in> accepted_peers ev4" for seen q
      using stream_ok[OF assms(1) e4] by auto
    have acc: "accepted_peers (a @ b) = accepted_peers a \<union> accepted_peers b" for a b :: "'b event list"
      by (induction a rule: accepted_peers.induct) auto
    show ?thesis using assms(2) Some e1 e2 e4 Ok g1(1) g2 g4
      by (auto simp: reach_target_def Let_def guarded_append acc target_handler_def new_handler_def
          split: result.splits option.splits prod.splits)
  qed
qed

subsection \<open>Sessions\<close>

text \<open>The sessions that are open after a trace.\<close>

fun open_peers :: "peer set \<Rightarrow> 'key event list \<Rightarrow> peer set" where
  "open_peers s [] = s"
| "open_peers s (SessionOpen p interval most # es) = open_peers (insert p s) es"
| "open_peers s (Disconnected p # es) = open_peers (s - {p}) es"
| "open_peers s (e # es) = open_peers s es"

lemma open_peers_append [simp]: "open_peers s (a @ b) = open_peers (open_peers s a) b"
  by (induction s a rule: open_peers.induct) auto

lemma try_hashes_sessions: "open_peers s (fst (try_hashes w p user key stage algs)) = s"
proof (induction algs)
  case (Cons alg algs)
  then show ?case
    by (cases "try_hashes w p user key stage algs"; cases "auth_reply stage (dw_publickey w p alg)") (simp_all split: bool.split)
qed simp

lemma authenticate_sessions: "authenticate_session w p user password private_key stage = (ev, r) \<Longrightarrow> open_peers s ev = s"
proof -
  assume a: "authenticate_session w p user password private_key stage = (ev, r)"
  have "open_peers s (fst (authenticate_session w p user password private_key stage)) = s"
    by (simp add: authenticate_session_def try_hashes_sessions split: option.split result.split)
  with a show ?thesis by simp
qed

lemma stream_sessions:
  "connect_identified_stream rk w cfg p h st = (st1, ev, r) \<Longrightarrow>
     open_peers s ev = (case r of Some (Ok _) \<Rightarrow> insert p s | _ \<Rightarrow> s)"
  by (auto simp: connect_identified_stream_def Let_def split: option.splits result.splits prod.splits bool.splits)

lemma endpoint_sessions:
  "connect_tcp_endpoint rk w cfg p host port stage st = (st1, ev, r) \<Longrightarrow>
     open_peers s ev = (case r of Ok _ \<Rightarrow> insert p s | _ \<Rightarrow> s)"
  using stream_sessions
  by (fastforce simp: connect_tcp_endpoint_def split: prod.splits option.splits result.splits)

definition route_peers :: "full_ssh_config \<Rightarrow> peer set" where
  "route_peers cfg = insert TargetPeer (if sc_jump cfg = None then {} else {JumpPeer})"

lemma reach_target_sessions:
  assumes "reach_target rk w cfg st = (st1, ev, r)"
  shows "open_peers {} ev = (case r of Ok _ \<Rightarrow> route_peers cfg | Err _ \<Rightarrow> {})"
proof (cases "sc_jump cfg")
  case None
  then show ?thesis using endpoint_sessions assms by (fastforce simp: reach_target_def route_peers_def split: result.splits)
next
  case (Some j)
  obtain sta ev1 r1 where e1: "connect_tcp_endpoint rk w cfg JumpPeer (sj_host j) (sj_port j) ''jump connection'' st = (sta, ev1, r1)"
    by (metis prod_cases3)
  obtain ev2 r2 where e2: "authenticate_session w JumpPeer (sj_username j) (sj_password j) (sj_private_key j) ''jump authentication'' = (ev2, r2)"
    by fastforce
  obtain stb ev4 r4 where e4: "connect_identified_stream rk w cfg TargetPeer (target_handler cfg) sta = (stb, ev4, r4)"
    by (metis prod_cases3)
  show ?thesis
    using assms Some endpoint_sessions[OF e1, of "{}"] authenticate_sessions[OF e2] stream_sessions[OF e4, of "{JumpPeer}"]
    by (auto simp: reach_target_def Let_def e1 e2 e4 route_peers_def split: result.splits option.splits)
qed

definition closing :: "full_ssh_config \<Rightarrow> 'key event list" where
  "closing cfg = Disconnected TargetPeer # (if sc_jump cfg \<noteq> None then [Disconnected JumpPeer] else [])"

lemma closing_sessions: "open_peers (route_peers cfg) (closing cfg) = {}"
  by (auto simp: route_peers_def closing_def)

lemma do_connect_trace:
  assumes "do_connect rk w cfg st c = (st', c', ev, r)" "reach_target rk w cfg st = (st1, ev1, Ok platform)"
    "authenticate_session w TargetPeer (sc_username cfg) (sc_password cfg) (sc_private_key cfg) ''target authentication'' = (ev2, au)"
  shows "ev = ev1 @ ev2 @ (if r = Ok () then [] else closing cfg)"
    and "r = Ok () \<Longrightarrow> is_connected c'"
  using assms finish_connect_connected
  by (auto simp: do_connect_def closing_def simp del: not_None_eq split: prod.splits result.splits)

section \<open>Properties\<close>

text \<open>C11: credentials are never given away. Whatever the network does, a password or a key that is sent while connecting
  goes to the peer it is configured for, under its user name, after the host key of that peer, at its configured
  address, was accepted; under the strict policy the key is recorded in the known hosts. A key is offered only if no
  password is configured.\<close>

theorem credentials_after_host_key:
  assumes "known_hosts_laws rk alg recorded" "do_connect rk w cfg st c = (st', c', pre @ e # post, r)"
    "e = PasswordSent p user secret \<or> e = KeyOffered p user secret hash"
  shows "\<exists>host port k password key.
      KeyAccepted p host port k \<in> set pre \<and> (host, port) = peer_address cfg p
    \<and> (sc_host_key_checking cfg = ModeYes \<longrightarrow> k \<in> set (recorded st (sc_known_hosts cfg) host port))
    \<and> peer_credentials cfg p = (user, password, key)
    \<and> (if e = PasswordSent p user secret then password = Some secret else password = None \<and> key = Some secret)"
proof -
  let ?ok = "key_ok cfg recorded st"
  obtain st1 ev1 r1 where t: "reach_target rk w cfg st = (st1, ev1, r1)" by (metis prod_cases3)
  obtain ev2 au where a: "authenticate_session w TargetPeer (sc_username cfg) (sc_password cfg) (sc_private_key cfg) ''target authentication'' = (ev2, au)"
    by fastforce
  note g1 = reach_target_guarded[OF assms(1) t]
  have "guarded cfg ?ok {} (pre @ e # post)"
  proof (cases r1)
    case (Ok platform)
    then have "guarded cfg ?ok (accepted_peers ev1) ev2"
      using authenticate_guarded[OF _ _ a, of "accepted_peers ev1" cfg ?ok] g1 by simp
    moreover have "pre @ e # post = ev1 @ ev2 @ (if r = Ok () then [] else closing cfg)"
      using do_connect_trace[OF assms(2)] t a Ok by simp
    moreover have "guarded cfg ?ok seen (closing cfg)" for seen by (simp add: closing_def)
    ultimately show ?thesis using g1 by (simp add: guarded_append)
  qed (use assms(2) t g1 in \<open>auto simp: do_connect_def\<close>)
  then have "p \<in> accepted_peers pre" "guarded cfg ?ok {} pre" and
      cred: "if e = PasswordSent p user secret then \<exists>key. peer_credentials cfg p = (user, Some secret, key)
        else peer_credentials cfg p = (user, None, Some secret)"
    using guarded_split[of cfg ?ok "{}" pre e post p user secret secret hash] assms(3) by (auto simp: guarded_append)
  from guarded_accepted[OF this(2,1)] cred show ?thesis by (auto simp: key_ok_def split: if_splits)
qed

text \<open>No session is leaked. When connecting succeeds, exactly the sessions of the published route are open: the
  target's, and the jump host's if there is one; when it fails for whatever reason, every session that was opened on
  the way has been disconnected.\<close>

theorem do_connect_sessions:
  assumes "do_connect rk w cfg st c = (st', c', ev, r)"
  shows "open_peers {} ev = (if r = Ok () then route_peers cfg else {})
    \<and> (r = Ok () \<longrightarrow> is_connected c')"
proof -
  obtain st1 ev1 r1 where t: "reach_target rk w cfg st = (st1, ev1, r1)" by (metis prod_cases3)
  obtain ev2 au where a: "authenticate_session w TargetPeer (sc_username cfg) (sc_password cfg) (sc_private_key cfg) ''target authentication'' = (ev2, au)"
    by fastforce
  have o: "open_peers {} ev1 = (case r1 of Ok _ \<Rightarrow> route_peers cfg | Err _ \<Rightarrow> {})" by (rule reach_target_sessions[OF t])
  show ?thesis
  proof (cases r1)
    case (Ok platform)
    with do_connect_trace[OF assms _ a] t have "ev = ev1 @ ev2 @ (if r = Ok () then [] else closing cfg)" "r = Ok () \<longrightarrow> is_connected c'"
      by auto
    with o authenticate_sessions[OF a] Ok show ?thesis by (simp add: closing_sessions)
  qed (use assms o t in \<open>auto simp: do_connect_def\<close>)
qed

subsection \<open>Witnesses\<close>

text \<open>A target behind a jump host: the jump host takes a password, the target the second hash of an RSA key.\<close>

definition sample_dial_config :: full_ssh_config where
  "sample_dial_config = (ssh_config_new ''target'' ''root'')\<lparr>sc_private_key := Some ''KEY'',
     sc_jump := Some \<lparr>sj_host = ''gate'', sj_port = 2222, sj_username = ''bob'', sj_password = Some ''pw'', sj_private_key = None\<rparr>\<rparr>"

definition sample_world :: "(nat \<times> nat) dial_world" where
  "sample_world =
     \<lparr>dw_stream = (\<lambda>_. Some (Ok [''SSH-2.0-x'' @ [CR, NL]])), dw_server_key = (\<lambda>p. case p of JumpPeer \<Rightarrow> (1, 10) | TargetPeer \<Rightarrow> (1, 20)),
      dw_handshake = (\<lambda>_. Some (Ok ())), dw_tunnel = Some (Ok ()), dw_password = (\<lambda>_. Some (Ok True)),
      dw_publickey = (\<lambda>_ a. Some (Ok (a = Some Sha512))), dw_parse_key = (\<lambda>_. Ok True)\<rparr>"

definition sample_trace :: "(nat \<times> nat) event list" where
  "sample_trace =
     [TcpConnect ''gate'' 2222, KeyAccepted JumpPeer ''gate'' 2222 (1, 10), SessionOpen JumpPeer (Some 30) 3,
      PasswordSent JumpPeer ''bob'' ''pw'', OpenTunnel ''target'' 22, KeyAccepted TargetPeer ''target'' 22 (1, 20),
      SessionOpen TargetPeer (Some 30) 3, KeyOffered TargetPeer ''root'' ''KEY'' (Some Sha256),
      KeyOffered TargetPeer ''root'' ''KEY'' (Some Sha512)]"

lemma sample_connects:
  "\<exists>st c. do_connect sample_keys sample_world sample_dial_config [] connection_new = (st, c, sample_trace, Ok ())"
proof -
  have i: "identify [''SSH-2.0-x'' @ [CR, NL]] = Ok (''SSH-2.0-x'' @ [CR, NL], [], Posix)" by code_simp
  have t: "trim_end ''KEY'' = ''KEY''" by code_simp
  show ?thesis
    by (simp add: do_connect_def reach_target_def connect_tcp_endpoint_def connect_identified_stream_def sample_dial_config_def
        sample_world_def ssh_config_new_def i[simplified] t check_server_key_def check_known_hosts_def learn_known_hosts_def
        ssh_handler_new_def sample_keys_def sample_check_def sample_recorded_def target_handler_def configure_client_def
        authenticate_session_def auth_reply_def finish_connect_def validate_elevation_def take_generation_def publish_def
        connection_new_def ssh_config.truncate_def sample_trace_def Let_def)
qed

theorem credentials_after_host_key_witness:
  "\<exists>k password key. KeyAccepted JumpPeer ''gate'' 2222 k \<in> set (take 3 sample_trace)
     \<and> peer_credentials sample_dial_config JumpPeer = (''bob'', Some ''pw'', key)"
proof -
  obtain st c where d: "do_connect sample_keys sample_world sample_dial_config [] connection_new = (st, c, sample_trace, Ok ())"
    using sample_connects by blast
  then have "do_connect sample_keys sample_world sample_dial_config [] connection_new
      = (st, c, take 3 sample_trace @ PasswordSent JumpPeer ''bob'' ''pw'' # drop 4 sample_trace, Ok ())"
    by (simp add: sample_trace_def)
  from credentials_after_host_key[OF sample_keys_laws this, of JumpPeer "''bob''" "''pw''"] show ?thesis
    by (auto simp: sample_dial_config_def)
qed

theorem do_connect_sessions_witness:
  "open_peers {} sample_trace = {TargetPeer, JumpPeer} \<and> (\<exists>st c. do_connect sample_keys sample_world sample_dial_config []
     connection_new = (st, c, sample_trace, Ok ()) \<and> is_connected c)"
proof -
  obtain st c where d: "do_connect sample_keys sample_world sample_dial_config [] connection_new = (st, c, sample_trace, Ok ())"
    using sample_connects by blast
  from do_connect_sessions[OF d] d show ?thesis by (auto simp: route_peers_def sample_dial_config_def)
qed

end
