(* ===== verification/Launch.thy ===== *)
theory Launch
  imports Markers Spooler Exec
begin

text \<open>
  How a command of the shell tools is started and how its result comes back: \<open>src/src/server/exec.rs\<close>, the
  helpers of \<open>src/src/server.rs\<close> that it uses, and the replies of \<open>src/src/background/response.rs\<close>. The theory
  composes the shell wrapper, the marker handshake, the spool directory, the job registry, the streaming task and the
  connection manager. Replies that are JSON objects are constructors with their fields.
\<close>

section \<open>Definitions\<close>

subsection \<open>State, environment and world\<close>

record launch_state =
  ls_conn :: connection
  ls_disk :: disk
  ls_registry :: job_registry
  ls_heap :: heap

text \<open>What the server knows: the settings, and the user and umask it runs under. Encoding a state as JSON may fail.\<close>

record server_env =
  se_config :: ssh_config
  se_user :: string
  se_host :: string
  se_port :: nat
  se_max_chars :: "nat option"
  se_max_output_tokens :: "nat option"
  se_base_dir :: string
  se_uid :: nat
  se_mode :: nat
  se_to_json :: "persisted_job_state \<Rightarrow> string option"

text \<open>What a call meets: the clock, the counter of job ids, a fresh reference, the network, the messages of the channel
  up to the point where the marker reader stops and how the wait for them ends, the events after that, the device that
  holds the log, and whether the stream ends before the deadline. If not, \<open>meanwhile\<close> is what the streaming task and
  others have done by then, and the check of the process has its own world.\<close>

record launch_world =
  lw_epoch_ms :: nat
  lw_counter :: nat
  lw_now :: int
  lw_end :: int
  lw_fresh :: nat
  lw_net :: net_world
  lw_elevate :: su_world
  lw_slot :: "(unit, string) result"
  lw_run :: run_world
  lw_head :: "channel_msg list"
  lw_head_end :: channel_end
  lw_rest :: "wait_event list"
  lw_accepts :: "string \<Rightarrow> bool"
  lw_error_text :: "log_error \<Rightarrow> string"
  lw_in_time :: bool
  lw_meanwhile :: "disk \<times> heap \<Rightarrow> disk \<times> heap"
  lw_check :: "job_registry \<Rightarrow> heap \<Rightarrow> string \<Rightarrow> (job_registry \<times> heap \<times> job_state option \<times> process_status, check_error) result"

definition make_job_id :: "nat \<Rightarrow> nat \<Rightarrow> string" where
  "make_job_id epoch_ms counter = show_nat epoch_ms @ ''-'' @ show_nat counter"

definition server_connection_id :: "server_env \<Rightarrow> string" where
  "server_connection_id e = se_user e @ ''@'' @ se_host e @ '':'' @ show_nat (se_port e)"

subsection \<open>The log file\<close>

datatype log_file_error =
    SpoolDirBad background_error
  | LogOutsideSpool string
  | LogSymlink
  | LogIrregular
  | LogFileIo io_error

definition open_truncated :: "disk \<Rightarrow> string \<Rightarrow> (disk, log_file_error) result" where
  "open_truncated d path =
     (case raw_open_write (d_fs d) path of
        Ok p \<Rightarrow> Ok (d\<lparr>d_fs := (d_fs d)(p \<mapsto> NFile [])\<rparr>)
      | Err e \<Rightarrow>
          (case symlink_metadata (d_fs d) path of
             Ok meta \<Rightarrow> if is_symlink meta then Err LogSymlink else Err (LogFileIo e)
           | Err _ \<Rightarrow> Err (LogFileIo e)))"

definition ensure_local_log_file :: "server_env \<Rightarrow> string \<Rightarrow> disk \<Rightarrow> (disk, log_file_error) result" where
  "ensure_local_log_file e path d =
     and_then (map_err SpoolDirBad (ensure_dir_inner (se_mode e) (se_base_dir e) (se_uid e) d)) (\<lambda>d1.
       if path_parent path \<noteq> Some (components (se_base_dir e)) then Err (LogOutsideSpool (se_base_dir e))
       else
         and_then
           (case symlink_metadata (d_fs d1) path of
              Ok meta \<Rightarrow> if is_symlink meta then Err LogSymlink else if \<not> is_file meta then Err LogIrregular else Ok ()
            | Err NotFoundE \<Rightarrow> Ok ()
            | Err x \<Rightarrow> Err (LogFileIo x))
           (\<lambda>_. open_truncated d1 path))"

definition register_running_job :: "server_env \<Rightarrow> launch_world \<Rightarrow> string \<Rightarrow> nat \<Rightarrow> string \<Rightarrow> string \<Rightarrow> launch_state \<Rightarrow> launch_state" where
  "register_running_job e w jid p path cmd s =
     (let j = new_running (lw_now w) \<lparr>n_job_id = jid, n_pid = p, n_log_path = path, n_command = cmd,
                n_connection_id = server_connection_id e\<rparr>;
          s1 = s\<lparr>ls_registry := registry_insert (ls_registry s) jid (lw_fresh w), ls_heap := (ls_heap s)(lw_fresh w \<mapsto> j)\<rparr> in
      case persist_job_state (se_to_json e) (se_mode e) (se_base_dir e) (se_uid e) (ls_disk s1) j of
        Ok d \<Rightarrow> s1\<lparr>ls_disk := d\<rparr>
      | Err _ \<Rightarrow> s1)"

subsection \<open>The channel\<close>

text \<open>A channel is opened and the wrapper queued on it; a failure before that is retried once on a fresh route.\<close>

definition try_open_and_exec_background_wrapper ::
  "try_world \<Rightarrow> string \<Rightarrow> connection \<Rightarrow> remote_request list \<times> (nat, pre_exec_error) result" where
  "try_open_and_exec_background_wrapper w wrapped c =
     (case open_channel_attempt_detailed (tw_opening w) c of
        Err (g, x) \<Rightarrow> ([], Err (ChannelOpen g x))
      | Ok g \<Rightarrow> (case tw_send w of Err m \<Rightarrow> ([], Err (ExecSend g m)) | Ok _ \<Rightarrow> ([ExecRequest g wrapped], Ok g)))"

datatype launch_error =
    LaunchInvalid invalid_params
  | LaunchLogPath log_path_error
  | LaunchBadJobId background_error
  | LaunchLogFile log_file_error
  | LaunchConn conn_error
  | LaunchNoSlot string
  | LaunchReconnectFailed pre_exec_error conn_error
  | LaunchRetryFailed pre_exec_error pre_exec_error
  | LaunchMarkers marker_stream_error
  | LaunchStreaming log_error
  | LaunchLogUnreadable io_error

definition open_background_wrapper_channel_with_retry ::
  "ssh_config \<Rightarrow> run_world \<Rightarrow> string \<Rightarrow> connection \<Rightarrow> connection \<times> remote_request list \<times> (nat, launch_error) result" where
  "open_background_wrapper_channel_with_retry cfg w wrapped c =
     (case try_open_and_exec_background_wrapper (rw_first w) wrapped c of
        (log, Ok g) \<Rightarrow> (c, log, Ok g)
      | (log, Err first) \<Rightarrow>
          (case ensure_connected cfg (rw_net w) (drop_failed_route first c) of
             (c1, Err x) \<Rightarrow> (c1, log, Err (LaunchReconnectFailed first x))
           | (c1, Ok _) \<Rightarrow>
               (case try_open_and_exec_background_wrapper (rw_second w) wrapped c1 of
                  (log1, r) \<Rightarrow> (c1, log @ log1, map_err (LaunchRetryFailed first) r))))"

text \<open>The part that both ways of running share: slot, channel, markers, registration. The result has the process id, the
  bytes that came after the markers, and the events still to come.\<close>

definition start_wrapper ::
  "server_env \<Rightarrow> launch_world \<Rightarrow> string \<Rightarrow> string \<Rightarrow> string \<Rightarrow> string \<Rightarrow> launch_state \<Rightarrow>
   launch_state \<times> remote_request list \<times> (nat \<times> string \<times> wait_event list, launch_error) result" where
  "start_wrapper e w jid path cmd_exec cmd_registry s =
     (let remote_log = remote_job_log_path jid;
          wrapper = build_background_wrapper_script jid cmd_exec remote_log in
      case lw_slot w of
        Err m \<Rightarrow> (s, [], Err (LaunchNoSlot m))
      | Ok _ \<Rightarrow>
          (case open_background_wrapper_channel_with_retry (se_config e) (lw_run w) (wrap_in_posix_shell wrapper False) (ls_conn s) of
             (c1, log, Err x) \<Rightarrow> (s\<lparr>ls_conn := c1\<rparr>, log, Err x)
           | (c1, log, Ok _) \<Rightarrow>
               (case read_background_markers_from_channel (lw_head w) (lw_head_end w) jid remote_log of
                  Err x \<Rightarrow> (s\<lparr>ls_conn := c1\<rparr>, log, Err (LaunchMarkers x))
                | Ok (markers, initial_stdout, unread) \<Rightarrow>
                    (register_running_job e w jid (bm_pid markers) path cmd_registry (s\<lparr>ls_conn := c1\<rparr>), log,
                     Ok (bm_pid markers, initial_stdout, map Arrives unread @ lw_rest w)))))"

text \<open>The streaming task, run to its end; its state file is written if that succeeds.\<close>

definition run_stream ::
  "server_env \<Rightarrow> launch_world \<Rightarrow> string \<Rightarrow> string \<Rightarrow> string \<Rightarrow> wait_event list \<Rightarrow> launch_state \<Rightarrow>
   launch_state \<times> (int option, log_error) result" where
  "run_stream e w jid path initial_stdout es s =
     (case stream_channel (lw_accepts w) (lw_error_text w) (lw_end w) (ls_registry s) (ls_heap s) (d_fs (ls_disk s)) jid path
             initial_stdout es of
        (fs1, h1, persisted, r) \<Rightarrow>
          let d1 = (ls_disk s)\<lparr>d_fs := fs1\<rparr>;
              d2 = (case persisted of
                      None \<Rightarrow> d1
                    | Some j \<Rightarrow>
                        (case persist_job_state (se_to_json e) (se_mode e) (se_base_dir e) (se_uid e) d1 j of
                           Ok d \<Rightarrow> d | Err _ \<Rightarrow> d1)) in
          (s\<lparr>ls_heap := h1, ls_disk := d2\<rparr>, r))"

subsection \<open>Replies\<close>

record timeout_snapshot =
  ts_state :: string
  ts_still_running :: bool
  ts_exit_code :: "nat option"
  ts_state_reason :: "string option"
  ts_elapsed_time :: string
  ts_log_exists :: bool
  ts_log_tail :: string
  ts_tail_lines_used :: nat

datatype timeout_hint = HintStillRunning | HintStateLost | HintFinished

datatype tool_reply =
    ToolError launch_error
  | BackgroundError launch_error
  | BackgroundStarted string nat string
  | TimeoutReply string nat string timeout_snapshot timeout_hint
  | CommandReply bool string

text \<open>\<open>background_json_timeout\<close>: the hint that goes with a snapshot.\<close>

definition background_json_timeout :: "string \<Rightarrow> nat \<Rightarrow> string \<Rightarrow> timeout_snapshot \<Rightarrow> tool_reply" where
  "background_json_timeout jid p path snap =
     TimeoutReply jid p path snap
       (if ts_still_running snap then HintStillRunning
        else if ts_state snap = ''state_lost'' then HintStateLost
        else HintFinished)"

definition calltool_from_command_output :: "command_output \<Rightarrow> tool_reply" where
  "calltool_from_command_output output =
     (let text = (if co_stderr output = [] then co_stdout output
                  else if co_stdout output = [] then co_stderr output
                  else co_stdout output @ [NL] @ ''--- stderr ---'' @ [NL] @ co_stderr output) in
      case co_exit_code output of
        Some 0 \<Rightarrow> CommandReply True text
      | status_code \<Rightarrow>
          let text1 = (if text = [] then text else text @ [NL, NL]) in
          CommandReply False (text1 @ (case status_code of
             Some n \<Rightarrow> ''Command failed with exit code '' @ show_nat n
           | None \<Rightarrow> ''Command failed: exit status unavailable'')))"

text \<open>The log as the reply of a foreground command shows it.\<close>

definition log_text :: "nat option \<Rightarrow> string \<Rightarrow> string" where
  "log_text limit content =
     (case limit of
        None \<Rightarrow> from_utf8_lossy content
      | Some n \<Rightarrow>
          if length content \<le> n then from_utf8_lossy content
          else
            let tail = last_bytes (min TAIL_BYTES (length content)) content in
            from_utf8_lossy (take n content)
            @ [NL] @ ''[Output truncated: '' @ show_nat (length content div 4) @ '' tokens total]''
            @ [NL] @ ''[Tip: Use '' @ [SQ] @ ''head -n 100'' @ [SQ] @ '' for first lines, '' @ [SQ] @ ''tail -n 100'' @ [SQ]
            @ '' for last lines]''
            @ [NL] @ ''[Tip: For large output use SFTP/SCP tools to download files]''
            @ (if tail = [] then [] else NL # from_utf8_lossy tail))"

definition open_followed :: "fs \<Rightarrow> string \<Rightarrow> (string, io_error) result" where
  "open_followed fs path =
     and_then (walk MAX_LINKS fs True [] (components path)) (\<lambda>p.
       case node_at fs p of Ok (NFile b) \<Rightarrow> Ok b | Ok _ \<Rightarrow> Err OtherIoE | Err x \<Rightarrow> Err x)"

subsection \<open>The snapshot after a timeout\<close>

definition DEFAULT_CHECK_PROCESS_TAIL_LINES :: nat where "DEFAULT_CHECK_PROCESS_TAIL_LINES = 50"

definition log_is_file :: "fs \<Rightarrow> string \<Rightarrow> bool" where
  "log_is_file fs path =
     (case symlink_metadata fs path of Ok meta \<Rightarrow> \<not> is_symlink meta \<and> is_file meta | Err _ \<Rightarrow> False)"

definition tail_or_empty :: "fs \<Rightarrow> string \<Rightarrow> nat \<Rightarrow> string" where
  "tail_or_empty fs path n = (case read_local_log_tail fs path n of Ok t \<Rightarrow> t | Err _ \<Rightarrow> [])"

text \<open>When the check fails, the registered job is the source.\<close>

definition fallback_snapshot :: "int \<Rightarrow> fs \<Rightarrow> string \<Rightarrow> job_state option \<Rightarrow> timeout_snapshot" where
  "fallback_snapshot now fs path registered =
     (let (still_running, state0, code0, reason0, elapsed) =
            (case registered of
               None \<Rightarrow> (True, status_as_str Running, None, None, [])
             | Some j \<Rightarrow>
                 (status j = Running, status_as_str (status j),
                  if status j = Completed \<or> status j = Failed
                  then (case exit_code j of None \<Rightarrow> None | Some rc \<Rightarrow> if 0 \<le> rc then Some (nat rc) else None) else None,
                  state_reason j, elapsed_time now j));
          missing = (\<not> still_running \<and> code0 = None) in
      \<lparr>ts_state = (if missing then status_as_str StateLost else state0), ts_still_running = still_running,
       ts_exit_code = (if still_running then None else code0),
       ts_state_reason = (if missing then get_or_insert reason0 ''timeout_recovery_missing_terminal_exit_code'' else reason0),
       ts_elapsed_time = elapsed, ts_log_exists = log_is_file fs path,
       ts_log_tail = tail_or_empty fs path DEFAULT_CHECK_PROCESS_TAIL_LINES,
       ts_tail_lines_used = DEFAULT_CHECK_PROCESS_TAIL_LINES\<rparr>)"

definition registered_job :: "job_registry \<Rightarrow> heap \<Rightarrow> string \<Rightarrow> job_state option" where
  "registered_job r h jid = (case registry_get r jid of None \<Rightarrow> None | Some ref \<Rightarrow> h ref)"

text \<open>The check of the process ends with a look at the log file, which can fail as well.\<close>

definition log_file_exists :: "fs \<Rightarrow> string \<Rightarrow> (bool, log_error) result" where
  "log_file_exists fs path =
     (case symlink_metadata fs path of
        Ok meta \<Rightarrow> if is_symlink meta then Err LogIsSymlink else Ok (is_file meta)
      | Err NotFoundE \<Rightarrow> Ok False
      | Err x \<Rightarrow> Err (LogIo x))"

definition build_timeout_recovery_snapshot ::
  "launch_world \<Rightarrow> string \<Rightarrow> string \<Rightarrow> launch_state \<Rightarrow> launch_state \<times> timeout_snapshot" where
  "build_timeout_recovery_snapshot w jid path s =
     (let fs = d_fs (ls_disk s);
          fallback = (\<lambda>s. (s, fallback_snapshot (lw_end w) fs path (registered_job (ls_registry s) (ls_heap s) jid))) in
      case lw_check w (ls_registry s) (ls_heap s) jid of
        Err _ \<Rightarrow> fallback s
      | Ok (r1, h1, _, st) \<Rightarrow>
          let s1 = s\<lparr>ls_registry := r1, ls_heap := h1\<rparr> in
          (case (log_file_exists fs path, read_local_log_tail fs path DEFAULT_CHECK_PROCESS_TAIL_LINES) of
             (Ok there, Ok tail) \<Rightarrow>
               (s1, \<lparr>ts_state = ps_state st, ts_still_running = ps_running st, ts_exit_code = ps_exit_code st,
                     ts_state_reason = ps_state_reason st, ts_elapsed_time = ps_elapsed_time st,
                     ts_log_exists = there, ts_log_tail = tail,
                     ts_tail_lines_used = DEFAULT_CHECK_PROCESS_TAIL_LINES\<rparr>)
           | _ \<Rightarrow> fallback s1))"

subsection \<open>Foreground and background\<close>

definition u32_of :: "int option \<Rightarrow> nat option" where
  "u32_of rc0 = (case rc0 of None \<Rightarrow> None | Some rc \<Rightarrow> if 0 \<le> rc then Some (min (nat rc) 255) else None)"

definition execute_detachable_foreground_impl ::
  "server_env \<Rightarrow> launch_world \<Rightarrow> string \<Rightarrow> string \<Rightarrow> launch_state \<Rightarrow> launch_state \<times> remote_request list \<times> tool_reply" where
  "execute_detachable_foreground_impl e w cmd_exec cmd_registry s =
     (let jid = make_job_id (lw_epoch_ms w) (lw_counter w) in
      case log_path_for (se_base_dir e) jid of
        Err x \<Rightarrow> (s, [], ToolError (LaunchBadJobId x))
      | Ok path \<Rightarrow>
          (case ensure_local_log_file e path (ls_disk s) of
             Err x \<Rightarrow> (s, [], ToolError (LaunchLogFile x))
           | Ok d \<Rightarrow>
               (case start_wrapper e w jid path cmd_exec cmd_registry (s\<lparr>ls_disk := d\<rparr>) of
                  (s1, log, Err x) \<Rightarrow> (s1, log, ToolError x)
                | (s1, log, Ok (p, initial_stdout, es)) \<Rightarrow>
                    if \<not> lw_in_time w then
                      let (d2, h2) = lw_meanwhile w (ls_disk s1, ls_heap s1);
                          (s3, snap) = build_timeout_recovery_snapshot w jid path (s1\<lparr>ls_disk := d2, ls_heap := h2\<rparr>) in
                      (s3, log, background_json_timeout jid p (from_utf8_lossy path) snap)
                    else
                      (case run_stream e w jid path initial_stdout es s1 of
                         (s2, Err x) \<Rightarrow> (s2, log, ToolError (LaunchStreaming x))
                       | (s2, Ok join_code) \<Rightarrow>
                           let registry_code = (case registered_job (ls_registry s2) (ls_heap s2) jid of
                                                  None \<Rightarrow> None | Some j \<Rightarrow> exit_code j);
                               status_code = u32_of (if registry_code \<noteq> None then registry_code else join_code) in
                           (case open_followed (d_fs (ls_disk s2)) path of
                              Err x \<Rightarrow> (s2, log, ToolError (LaunchLogUnreadable x))
                            | Ok content \<Rightarrow>
                                (s2, log,
                                 calltool_from_command_output
                                   (command_output_new\<lparr>co_stdout := log_text (map_option (\<lambda>t. sat_mul t 4) (se_max_output_tokens e)) content,
                                      co_exit_code := status_code\<rparr>)))))))"

datatype background_privilege = NormalPrivilege | SudoPrivilege "string option"

text \<open>The command to run, the command to show, and whether elevation by \<open>su\<close> is attempted.\<close>

fun with_privilege :: "background_privilege \<Rightarrow> string \<Rightarrow> string \<times> string \<times> bool" where
  "with_privilege NormalPrivilege sanitized = (sanitized, sanitized, True)"
| "with_privilege (SudoPrivilege password) sanitized = (wrap_sudo_command sanitized password, ''sudo '' @ sanitized, False)"

text \<open>The streaming task goes on after the reply of a background command; the state is that at its end.\<close>

definition execute_background_impl ::
  "server_env \<Rightarrow> launch_world \<Rightarrow> string \<Rightarrow> string option \<Rightarrow> background_privilege \<Rightarrow> launch_state \<Rightarrow>
   launch_state \<times> remote_request list \<times> tool_reply" where
  "execute_background_impl e w cmd log_option privilege s =
     (let jid = make_job_id (lw_epoch_ms w) (lw_counter w) in
      case (case log_option of Some p \<Rightarrow> Ok p | None \<Rightarrow> log_path_for (se_base_dir e) jid) of
        Err x \<Rightarrow> (s, [], BackgroundError (LaunchBadJobId x))
      | Ok path \<Rightarrow>
          (case (case log_option of Some p \<Rightarrow> validate_background_log_path (se_base_dir e) p | None \<Rightarrow> Ok ()) of
             Err x \<Rightarrow> (s, [], BackgroundError (LaunchLogPath x))
           | Ok _ \<Rightarrow>
          (case ensure_local_log_file e path (ls_disk s) of
             Err x \<Rightarrow> (s, [], BackgroundError (LaunchLogFile x))
           | Ok d \<Rightarrow>
          (case sanitize_command cmd (se_max_chars e) of
             Err x \<Rightarrow> (s\<lparr>ls_disk := d\<rparr>, [], BackgroundError (LaunchInvalid x))
           | Ok sanitized \<Rightarrow>
          (case ensure_connected (se_config e) (lw_net w) (ls_conn s) of
             (c1, Err x) \<Rightarrow> (s\<lparr>ls_disk := d, ls_conn := c1\<rparr>, [], BackgroundError (LaunchConn x))
           | (c1, Ok _) \<Rightarrow>
               let (cmd_exec, cmd_registry, attempt_su) = with_privilege privilege sanitized;
                   c2 = (if attempt_su \<and> sc_su_password (se_config e) \<noteq> None
                         then fst (ensure_elevated_for_generation (se_config e) (lw_elevate w) None c1) else c1) in
               (case start_wrapper e w jid path cmd_exec cmd_registry (s\<lparr>ls_disk := d, ls_conn := c2\<rparr>) of
                  (s1, log, Err x) \<Rightarrow> (s1, log, BackgroundError x)
                | (s1, log, Ok (p, initial_stdout, es)) \<Rightarrow>
                    (fst (run_stream e w jid path initial_stdout es s1), log,
                     BackgroundStarted jid p (case log_option of Some q \<Rightarrow> q | None \<Rightarrow> from_utf8_lossy path))))))))"

text \<open>The tools.\<close>

definition execute_command_with_timeout ::
  "server_env \<Rightarrow> launch_world \<Rightarrow> string \<Rightarrow> launch_state \<Rightarrow> launch_state \<times> remote_request list \<times> tool_reply" where
  "execute_command_with_timeout e w cmd s =
     (case sanitize_command cmd (se_max_chars e) of
        Err x \<Rightarrow> (s, [], ToolError (LaunchInvalid x))
      | Ok sanitized \<Rightarrow>
          (case ensure_connected (se_config e) (lw_net w) (ls_conn s) of
             (c1, Err x) \<Rightarrow> (s\<lparr>ls_conn := c1\<rparr>, [], ToolError (LaunchConn x))
           | (c1, Ok _) \<Rightarrow>
               let c2 = (if sc_su_password (se_config e) \<noteq> None
                         then fst (ensure_elevated_for_generation (se_config e) (lw_elevate w) None c1) else c1) in
               execute_detachable_foreground_impl e w sanitized sanitized (s\<lparr>ls_conn := c2\<rparr>)))"

definition execute_sudo_command_with_timeout ::
  "server_env \<Rightarrow> launch_world \<Rightarrow> string \<Rightarrow> launch_state \<Rightarrow> launch_state \<times> remote_request list \<times> tool_reply" where
  "execute_sudo_command_with_timeout e w cmd s =
     (case sanitize_command cmd (se_max_chars e) of
        Err x \<Rightarrow> (s, [], ToolError (LaunchInvalid x))
      | Ok sanitized \<Rightarrow>
          let wrapped = wrap_sudo_command sanitized (sc_sudo_password (se_config e)) in
          (case ensure_connected (se_config e) (lw_net w) (ls_conn s) of
             (c1, Err x) \<Rightarrow> (s\<lparr>ls_conn := c1\<rparr>, [], ToolError (LaunchConn x))
           | (c1, Ok _) \<Rightarrow>
               execute_detachable_foreground_impl e w wrapped (''sudo '' @ sanitized) (s\<lparr>ls_conn := c1\<rparr>)))"

text \<open>The two tools, in the foreground and in the background.\<close>

record shell_call =
  sh_sudo :: bool
  sh_background :: bool
  sh_command :: string
  sh_log_path :: "string option"

definition run_shell_call :: "server_env \<Rightarrow> launch_world \<Rightarrow> shell_call \<Rightarrow> launch_state \<Rightarrow> launch_state \<times> remote_request list \<times> tool_reply" where
  "run_shell_call e w q s =
     (if sh_background q then
        execute_background_impl e w (sh_command q) (sh_log_path q)
          (if sh_sudo q then SudoPrivilege (sc_sudo_password (se_config e)) else NormalPrivilege) s
      else if sh_sudo q then execute_sudo_command_with_timeout e w (sh_command q) s
      else execute_command_with_timeout e w (sh_command q) s)"

section \<open>Lemmas\<close>

subsection \<open>Requests\<close>

lemma try_wrapper_cases:
  assumes "try_open_and_exec_background_wrapper w wrapped c = (log, r)"
  shows "(\<exists>g. r = Ok g \<and> log = [ExecRequest g wrapped]) \<or> (\<exists>e. r = Err e \<and> log = [])"
  using assms by (auto simp: try_open_and_exec_background_wrapper_def split: result.splits prod.splits)

lemma open_wrapper_cases:
  assumes "open_background_wrapper_channel_with_retry cfg w wrapped c = (c', log, r)"
  shows "(\<exists>g. r = Ok g \<and> log = [ExecRequest g wrapped]) \<or> (\<exists>e. r = Err e \<and> log = [])"
proof -
  obtain l1 r1 where t1: "try_open_and_exec_background_wrapper (rw_first w) wrapped c = (l1, r1)" by fastforce
  show ?thesis
  proof (cases r1)
    case (Err first)
    with try_wrapper_cases[OF t1] have l1: "l1 = []" by simp
    obtain c1 q where en: "ensure_connected cfg (rw_net w) (drop_failed_route first c) = (c1, q)" by fastforce
    obtain l2 r2 where t2: "try_open_and_exec_background_wrapper (rw_second w) wrapped c1 = (l2, r2)" by fastforce
    from try_wrapper_cases[OF t2] show ?thesis
      using assms t1 Err l1 en t2 by (cases q) (auto simp: open_background_wrapper_channel_with_retry_def)
  qed (use assms t1 try_wrapper_cases[OF t1] in \<open>auto simp: open_background_wrapper_channel_with_retry_def\<close>)
qed

text \<open>The request that carries a command.\<close>

definition wrapper_request :: "string \<Rightarrow> string \<Rightarrow> string" where
  "wrapper_request jid cmd = wrap_in_posix_shell (build_background_wrapper_script jid cmd (remote_job_log_path jid)) False"

lemma start_wrapper_cases:
  assumes "start_wrapper e w jid path cmd reg s = (s', log, r)"
  shows "(\<exists>g. log = [ExecRequest g (wrapper_request jid cmd)]) \<and> (\<exists>x. r = Err (LaunchMarkers x))
    \<or> (\<exists>g p i es. log = [ExecRequest g (wrapper_request jid cmd)] \<and> r = Ok (p, i, es)
        \<and> registered_job (ls_registry s') (ls_heap s') jid = Some (new_running (lw_now w) \<lparr>n_job_id = jid, n_pid = p,
            n_log_path = path, n_command = reg, n_connection_id = server_connection_id e\<rparr>))
    \<or> log = [] \<and> (\<exists>x. r = Err x)"
proof (cases "lw_slot w")
  case (Ok u)
  obtain c1 l r1 where o: "open_background_wrapper_channel_with_retry (se_config e) (lw_run w) (wrapper_request jid cmd) (ls_conn s) = (c1, l, r1)"
    by (metis prod_cases3)
  from open_wrapper_cases[OF o] show ?thesis
    using assms Ok o
    by (auto simp: start_wrapper_def wrapper_request_def Let_def register_running_job_def registered_job_def registry_get_def
        registry_insert_def split: result.splits prod.splits)
qed (use assms in \<open>auto simp: start_wrapper_def Let_def\<close>)

text \<open>What a reply says about the command: it was started with a process id, or it is an error of a kind that leaves it
  open whether the command runs, or it was not started.\<close>

fun reply_error :: "tool_reply \<Rightarrow> launch_error option" where
  "reply_error (ToolError x) = Some x"
| "reply_error (BackgroundError x) = Some x"
| "reply_error _ = None"

fun may_have_run :: "launch_error \<Rightarrow> bool" where
  "may_have_run (LaunchMarkers x) = True"
| "may_have_run (LaunchStreaming x) = True"
| "may_have_run (LaunchLogUnreadable x) = True"
| "may_have_run _ = False"

definition started_once :: "string \<Rightarrow> string \<Rightarrow> remote_request list \<Rightarrow> tool_reply \<Rightarrow> bool" where
  "started_once jid cmd log reply \<longleftrightarrow>
     (\<exists>g. log = [ExecRequest g (wrapper_request jid cmd)]) \<and> (\<forall>x. reply_error reply = Some x \<longrightarrow> may_have_run x)
     \<or> log = [] \<and> reply_error reply \<noteq> None"

lemma calltool_no_error [simp]: "reply_error (calltool_from_command_output out) = None"
  by (simp add: calltool_from_command_output_def Let_def split: option.split nat.split)

lemma timeout_no_error [simp]: "reply_error (background_json_timeout jid p path snap) = None"
  by (simp add: background_json_timeout_def)

lemma foreground_started_once:
  assumes "execute_detachable_foreground_impl e w cmd reg s = (s', log, reply)"
  shows "started_once (make_job_id (lw_epoch_ms w) (lw_counter w)) cmd log reply"
proof -
  let ?jid = "make_job_id (lw_epoch_ms w) (lw_counter w)"
  show ?thesis
  proof (cases "log_path_for (se_base_dir e) ?jid")
    case (Ok path)
    show ?thesis
    proof (cases "ensure_local_log_file e path (ls_disk s)")
      case (Ok d)
      obtain s1 l r where st: "start_wrapper e w ?jid path cmd reg (s\<lparr>ls_disk := d\<rparr>) = (s1, l, r)" by (metis prod_cases3)
      from start_wrapper_cases[OF st] show ?thesis
        using assms st Ok \<open>log_path_for (se_base_dir e) ?jid = Ok path\<close>
        by (auto simp: execute_detachable_foreground_impl_def started_once_def Let_def split: prod.splits result.splits if_splits)
    qed (use assms Ok in \<open>auto simp: execute_detachable_foreground_impl_def started_once_def Let_def\<close>)
  qed (use assms in \<open>auto simp: execute_detachable_foreground_impl_def started_once_def Let_def\<close>)
qed

lemma start_wrapper_started:
  assumes "start_wrapper e w jid path cmd reg s = (s', log, r)"
  shows "(\<exists>g. log = [ExecRequest g (wrapper_request jid cmd)]) \<and> (\<forall>x. r = Err x \<longrightarrow> may_have_run x) \<or> log = [] \<and> (\<exists>x. r = Err x)"
  using start_wrapper_cases[OF assms] by auto

lemma background_started_once:
  assumes "execute_background_impl e w cmd log_option privilege s = (s', log, reply)"
  shows "log = [] \<and> reply_error reply \<noteq> None
    \<or> (\<exists>sanitized. sanitize_command cmd (se_max_chars e) = Ok sanitized
        \<and> started_once (make_job_id (lw_epoch_ms w) (lw_counter w)) (fst (with_privilege privilege sanitized)) log reply)"
  using assms unfolding execute_background_impl_def Let_def
  by (auto simp: started_once_def split: result.splits prod.splits dest!: start_wrapper_started)

subsection \<open>The log file\<close>

lemma walk_end:
  "walk fuel fs False cur cs = Ok p \<Longrightarrow> cs \<noteq> [] \<Longrightarrow> last cs = Normal n \<Longrightarrow> p \<noteq> [] \<and> last p = n"
proof (induction fuel fs False cur cs rule: walk.induct)
  case (5 fuel fs cur s cs)
  then show ?case by (cases "cs = []") (auto split: option.splits node.splits nat.splits if_splits)
qed (auto split: if_splits)

lemma walk_follow_file:
  "walk fuel fs False cur cs = Ok p \<Longrightarrow> fs p = Some (NFile b) \<Longrightarrow> walk fuel fs True cur cs = Ok p"
proof (induction fuel fs False cur cs rule: walk.induct)
  case (5 fuel fs cur s cs)
  then show ?case by (cases "cs = []") (auto split: option.splits node.splits nat.splits if_splits)
qed auto

text \<open>The path leads to a file with the content \<open>b\<close>, in a private spool directory.\<close>

definition log_holds :: "server_env \<Rightarrow> string \<Rightarrow> string list \<Rightarrow> disk \<Rightarrow> string \<Rightarrow> bool" where
  "log_holds e path p d b \<longleftrightarrow>
     private_dir d (se_base_dir e) (se_uid e) \<and> walk MAX_LINKS (d_fs d) False [] (components path) = Ok p
     \<and> p \<noteq> [] \<and> d_fs d p = Some (NFile b)"

lemma raw_open_write_target:
  assumes "raw_open_write fs path = Ok p"
  shows "walk MAX_LINKS fs False [] (components path) = Ok p" "fs p = None \<or> (\<exists>b. fs p = Some (NFile b))" "p \<noteq> []"
  using assms by (auto simp: raw_open_write_def node_at_def split: result.splits if_splits option.splits node.splits)

lemma ensure_local_log_file_holds:
  assumes "ensure_local_log_file e path d = Ok d'"
  shows "\<exists>p. log_holds e path p d' []"
proof -
  obtain d1 p where d1: "ensure_dir_inner (se_mode e) (se_base_dir e) (se_uid e) d = Ok d1"
    and p: "raw_open_write (d_fs d1) path = Ok p" and d': "d' = d1\<lparr>d_fs := (d_fs d1)(p \<mapsto> NFile [])\<rparr>"
    using assms by (auto simp: ensure_local_log_file_def open_truncated_def split: if_splits result.splits)
  note t = raw_open_write_target[OF p]
  from private_dir_write_file[OF ensure_dir_private[OF d1] t(2,3)] walk_write_file[OF t(1,2)] t(3)
  show ?thesis unfolding log_holds_def d' by (auto simp: d')
qed

lemma persist_keeps_log:
  assumes "persist_job_state to_json (se_mode e) (se_base_dir e) (se_uid e) d j = Ok d'" "log_holds e path p d b"
    "has_root (se_base_dir e)" "last p \<noteq> job_id j @ ''.state''"
  shows "log_holds e path p d' b"
proof -
  have dir: "private_dir d (se_base_dir e) (se_uid e)" using assms(2) by (simp add: log_holds_def)
  obtain q sp payload where st: "state_path_for (se_base_dir e) (job_id j) = Ok sp"
    and q: "open_spool_write_no_symlink (d_fs d) sp = Ok q" and d': "d' = d\<lparr>d_fs := (d_fs d)(q \<mapsto> NFile payload)\<rparr>"
    using assms(1) ensure_dir_stable[OF dir] by (auto simp: persist_job_state_def split: if_splits option.splits)
  have jid: "validate_job_id (job_id j) = Ok ()" and sp: "sp = path_join (se_base_dir e) (job_id j @ ''.state'')"
    using st by (auto simp: state_path_for_def)
  have "SLASH \<notin> set (job_id j @ ''.state'')"
    using jid by (auto simp: validate_job_id_iff list_all_iff is_job_id_byte_def is_ascii_alphanumeric_def is_ascii_digit_def
        is_ascii_lowercase_def is_ascii_uppercase_def in_range_def code_def)
  then have "components sp = components (se_base_dir e) @ [Normal (job_id j @ ''.state'')]"
    unfolding sp by (intro components_join_seg(1)[OF assms(3)]) auto
  then have "last q = job_id j @ ''.state''" using walk_end[OF open_write_target(1)[OF q]] by simp
  with assms(4) have "p \<noteq> q" by auto
  moreover have "walk MAX_LINKS ((d_fs d)(q \<mapsto> NFile payload)) False [] (components path) = Ok p"
    by (rule walk_write_file) (use assms(2) open_write_target(2)[OF q] in \<open>auto simp: log_holds_def\<close>)
  ultimately show ?thesis
    using assms(2) private_dir_write_file[OF dir open_write_target(2,3)[OF q], of payload] by (simp add: log_holds_def d')
qed

lemma open_append_holds: "log_holds e path p d b \<Longrightarrow> open_append_no_symlink (d_fs d) path = Ok (d_fs d, p)"
  by (simp add: log_holds_def open_append_no_symlink_def symlink_metadata_def node_at_def raw_open_append_def)

lemma open_followed_holds: "log_holds e path p d b \<Longrightarrow> open_followed (d_fs d) path = Ok b"
  using walk_follow_file[of MAX_LINKS "d_fs d" "[]" "components path" p b]
  by (simp add: log_holds_def open_followed_def node_at_def)

lemma log_holds_write:
  "log_holds e path p d b \<Longrightarrow> log_holds e path p (d\<lparr>d_fs := (d_fs d)(p \<mapsto> NFile x)\<rparr>) x"
  using private_dir_write_file[of d "se_base_dir e" "se_uid e" p x] walk_write_file[of MAX_LINKS "d_fs d" False "[]" _ p p x]
  by (auto simp: log_holds_def)

subsection \<open>The stream\<close>

lemma final_status_append: "final_status s (a @ b) = final_status (final_status s a) b"
  by (induction s a rule: final_status.induct) auto

lemma final_status_Some: "final_status (Some x) es \<noteq> None"
  by (induction "Some x" es arbitrary: x rule: final_status.induct) auto

lemma final_status_None_append: "final_status None (a @ b) = None \<longleftrightarrow> final_status None a = None \<and> final_status None b = None"
  by (cases "final_status None a") (auto simp: final_status_append final_status_Some)

lemma output_of_append: "output_of (a @ b) = output_of a @ output_of b"
  by (induction a rule: output_of.induct) auto

lemma output_of_harmless: "list_all harmless ms \<Longrightarrow> output_of (map Arrives ms) = data_of ms"
  by (induction ms rule: data_of.induct) auto

lemma stream_loop_to_end:
  assumes "\<And>x. accepts x"
  shows "fs p = Some (NFile b) \<Longrightarrow> final_status None es = None \<Longrightarrow>
    stream_loop accepts p fs None saw (es @ [Arrives (ExitStatus n), Arrives Close])
      = (fs(p \<mapsto> NFile (b @ output_of es)), Ok (Some (clamp_exit_status n)))"
proof (induction es arbitrary: fs b saw)
  case (Cons ev es)
  have st: "final_status None [ev] = None" "final_status None es = None"
    using Cons.prems(2) final_status_None_append[of "[ev]" es] by simp_all
  show ?case
  proof (cases ev)
    case (Arrives m)
    with Cons st assms show ?thesis by (cases m) (auto simp: write_all_def)
  qed (use Cons st in auto)
qed (auto simp: fun_upd_idem)

lemma read_loop_suffix:
  "read_loop jid path r msgs fin = Ok (m, got, unread) \<Longrightarrow> \<exists>k. unread = drop k msgs"
proof (induction msgs arbitrary: r)
  case Nil
  then show ?case by (subst (asm) read_loop.simps) (auto split: if_splits)
next
  case (Cons x msgs)
  show ?case
  proof (cases "parsed_lines r < 3")
    case True
    then obtain r' where "read_loop jid path r' msgs fin = Ok (m, got, unread)"
      using Cons.prems by (subst (asm) read_loop.simps) (auto split: channel_msg.splits)
    with Cons.IH obtain k where "unread = drop k msgs" by blast
    then show ?thesis by (intro exI[of _ "Suc k"]) simp
  next
    case False
    then show ?thesis using Cons.prems by (subst (asm) read_loop.simps) (auto intro: exI[of _ 0])
  qed
qed

subsection \<open>Job ids\<close>

lemma make_job_id_chars: "c \<in> set (make_job_id t n) \<Longrightarrow> is_ascii_digit c \<or> c = CHR ''-''"
  using show_nat_digits by (auto simp: make_job_id_def)

lemma job_id_char_props:
  assumes "is_ascii_digit c \<or> c = CHR ''-''"
  shows "is_job_id_byte c" "code c < 128" "c \<noteq> NL" "c \<noteq> CR" "c \<noteq> DQ" "c \<noteq> CHR ''$''" "c \<noteq> CHR 0x60" "c \<noteq> BSL" "c \<noteq> SLASH"
  using assms by (auto simp: is_job_id_byte_def is_ascii_alphanumeric_def is_ascii_digit_def in_range_def code_def)

lemma make_job_id_valid: "length (make_job_id t n) \<le> 128 \<Longrightarrow> validate_job_id (make_job_id t n) = Ok ()"
  using job_id_char_props(1)[OF make_job_id_chars] by (auto simp: validate_job_id_iff list_all_iff make_job_id_def)

lemma line_safe_ascii: "\<forall>c\<in>set s. code c < 128 \<and> c \<noteq> NL \<and> c \<noteq> CR \<Longrightarrow> line_safe s"
  unfolding line_safe_def by (metis last_in_set utf8_valid_ascii)

lemma make_job_id_safe:
  "line_safe (make_job_id t n)" "line_safe (remote_job_log_path (make_job_id t n))"
  "\<forall>c\<in>set (make_job_id t n). c \<noteq> DQ \<and> c \<noteq> CHR ''$'' \<and> c \<noteq> CHR 0x60 \<and> c \<noteq> BSL"
proof -
  have c: "\<forall>c\<in>set (make_job_id t n). code c < 128 \<and> c \<noteq> NL \<and> c \<noteq> CR"
    using job_id_char_props(2-4)[OF make_job_id_chars] by blast
  then show "line_safe (make_job_id t n)" by (rule line_safe_ascii)
  have "\<forall>c\<in>set (remote_job_log_path (make_job_id t n)). code c < 128 \<and> c \<noteq> NL \<and> c \<noteq> CR"
    using c unfolding remote_job_log_path_def set_append ball_Un by (simp add: code_def)
  then show "line_safe (remote_job_log_path (make_job_id t n))" by (rule line_safe_ascii)
  show "\<forall>c\<in>set (make_job_id t n). c \<noteq> DQ \<and> c \<noteq> CHR ''$'' \<and> c \<noteq> CHR 0x60 \<and> c \<noteq> BSL"
    using job_id_char_props(5-8)[OF make_job_id_chars] by blast
qed

text \<open>Two calls never share a job id, unless the counter wraps.\<close>

lemma make_job_id_distinct: "make_job_id t n = make_job_id t' n' \<Longrightarrow> n = n'"
proof -
  assume eq: "make_job_id t n = make_job_id t' n'"
  have "CHR ''-'' \<notin> set (show_nat m)" for m
    using show_nat_digits[of "CHR ''-''" m] by (auto simp: is_ascii_digit_def in_range_def code_def)
  then have "split_once (CHR ''-'') (make_job_id t n) = Some (show_nat t, show_nat n)" for t n
    by (simp add: make_job_id_def split_once_append)
  with eq have "show_nat n = show_nat n'" by (metis option.inject prod.inject)
  then show ?thesis by (metis digits_value_show_nat option.inject)
qed

subsection \<open>The handshake and the stream together\<close>

lemma start_wrapper_ok:
  assumes "lw_slot w = Ok ()"
    "open_background_wrapper_channel_with_retry (se_config e) (lw_run w) (wrapper_request jid cmd) (ls_conn s) = (c1, log, Ok g)"
    "line_safe jid" "line_safe (remote_job_log_path jid)" "0 < n" "n < U32"
    "list_all harmless (lw_head w)" "data_of (lw_head w) = unlines (marker_lines jid n (remote_job_log_path jid)) @ early"
  shows "\<exists>got unread k. start_wrapper e w jid path cmd reg s
      = (register_running_job e w jid n path reg (s\<lparr>ls_conn := c1\<rparr>), log, Ok (n, got, map Arrives unread @ lw_rest w))
    \<and> got @ data_of unread = early \<and> unread = drop k (lw_head w)"
proof -
  obtain got unread where m: "read_background_markers_from_channel (lw_head w) (lw_head_end w) jid (remote_job_log_path jid)
      = Ok (\<lparr>bm_job_id = jid, bm_pid = n, bm_remote_log_path = remote_job_log_path jid\<rparr>, got, unread)" "got @ data_of unread = early"
    using read_background_markers_chunking[OF assms(3-8), of "[]" "lw_head_end w"] by auto
  then obtain k where "unread = drop k (lw_head w)"
    using read_loop_suffix unfolding read_background_markers_from_channel_def by blast
  with m assms(1,2) show ?thesis
    by (auto simp: start_wrapper_def Let_def wrapper_request_def)
qed

lemma register_keeps:
  fixes e w jid n path reg s
  defines "s1 \<equiv> register_running_job e w jid n path reg s"
  assumes "log_holds e path p (ls_disk s) b" "has_root (se_base_dir e)" "last p = jid @ ''.log''"
  shows "log_holds e path p (ls_disk s1) b"
    and "registry_get (ls_registry s1) jid = Some (lw_fresh w)"
    and "\<exists>j. ls_heap s1 (lw_fresh w) = Some j \<and> job_id j = jid"
proof -
  let ?j = "new_running (lw_now w) \<lparr>n_job_id = jid, n_pid = n, n_log_path = path, n_command = reg,
      n_connection_id = server_connection_id e\<rparr>"
  have "job_id ?j = jid" by (simp add: new_running_def)
  moreover from this have "log_holds e path p d b"
    if "persist_job_state (se_to_json e) (se_mode e) (se_base_dir e) (se_uid e) (ls_disk s) ?j = Ok d" for d
    using persist_keeps_log[OF that assms(2,3)] assms(4) by simp
  ultimately show "log_holds e path p (ls_disk s1) b" "registry_get (ls_registry s1) jid = Some (lw_fresh w)"
      "\<exists>j. ls_heap s1 (lw_fresh w) = Some j \<and> job_id j = jid"
    using assms(2) unfolding s1_def register_running_job_def Let_def
    by (auto simp: registry_get_def registry_insert_def split: result.splits)
qed

lemma run_stream_to_end:
  assumes "log_holds e path p (ls_disk s) []" "has_root (se_base_dir e)" "last p = jid @ ''.log''" "\<And>x. lw_accepts w x"
    "registry_get (ls_registry s) jid = Some ref" "ls_heap s ref = Some j" "job_id j = jid" "final_status None es = None"
  shows "\<exists>s'. run_stream e w jid path got (es @ [Arrives (ExitStatus m), Arrives Close]) s = (s', Ok (Some (clamp_exit_status m)))
    \<and> log_holds e path p (ls_disk s') (got @ output_of es) \<and> ls_registry s' = ls_registry s
    \<and> (\<exists>j'. ls_heap s' ref = Some j' \<and> exit_code j' = Some (clamp_exit_status m))"
proof -
  let ?fs = "(d_fs (ls_disk s))(p \<mapsto> NFile (got @ output_of es))"
  let ?j = "mark_exit (lw_end w) (clamp_exit_status m) j"
  have fp: "d_fs (ls_disk s) p = Some (NFile [])" using assms(1) by (simp add: log_holds_def)
  have "stream_channel_inner (lw_accepts w) (d_fs (ls_disk s)) path got (es @ [Arrives (ExitStatus m), Arrives Close])
      = (?fs, Ok (Some (clamp_exit_status m)))"
    using stream_loop_to_end[of "lw_accepts w" "d_fs (ls_disk s)" p "[]" es False m] fp assms(4,8)
      stream_loop_to_end[of "lw_accepts w" "(d_fs (ls_disk s))(p \<mapsto> NFile got)" p got es False m]
    by (auto simp: stream_channel_inner_def open_append_holds[OF assms(1)] write_all_def)
  then have sc: "stream_channel (lw_accepts w) (lw_error_text w) (lw_end w) (ls_registry s) (ls_heap s) (d_fs (ls_disk s)) jid path
      got (es @ [Arrives (ExitStatus m), Arrives Close])
      = (?fs, (ls_heap s)(ref \<mapsto> ?j), Some ?j, Ok (Some (clamp_exit_status m)))"
    using assms(5,6) by (simp add: stream_channel_def terminal_update_def update_job_terminal_def apply_update_def Let_def)
  have h1: "log_holds e path p ((ls_disk s)\<lparr>d_fs := ?fs\<rparr>) (got @ output_of es)" by (rule log_holds_write[OF assms(1)])
  have "job_id ?j = jid" "exit_code ?j = Some (clamp_exit_status m)" using assms(7) by (simp_all add: mark_exit_def)
  then show ?thesis
    using h1 persist_keeps_log[OF _ h1 assms(2), where j = ?j] assms(3)
    by (auto simp: run_stream_def sc Let_def split: result.splits)
qed

section \<open>Properties\<close>

text \<open>The command that a call should run.\<close>

definition intended_command :: "server_env \<Rightarrow> shell_call \<Rightarrow> string \<Rightarrow> string" where
  "intended_command e q sanitized =
     (if sh_sudo q then wrap_sudo_command sanitized (sc_sudo_password (se_config e)) else sanitized)"

text \<open>A call of a shell tool starts its command at most once. Either exactly one request is sent, the wrapper of the
  job with the sanitized command under the intended privilege, and then every error that is reported leaves open whether
  the command has run; or nothing is sent, and the call reports an error.\<close>

lemma run_shell_call_once:
  assumes "run_shell_call e w q s = (s', log, reply)"
  shows "log = [] \<and> reply_error reply \<noteq> None
    \<or> (\<exists>sanitized g. sanitize_command (sh_command q) (se_max_chars e) = Ok sanitized
        \<and> log = [ExecRequest g (wrapper_request (make_job_id (lw_epoch_ms w) (lw_counter w)) (intended_command e q sanitized))]
        \<and> (\<forall>x. reply_error reply = Some x \<longrightarrow> may_have_run x))"
proof (cases "sh_background q")
  case True
  with assms background_started_once[of e w "sh_command q" "sh_log_path q" _ s s' log reply] show ?thesis
    by (fastforce simp: run_shell_call_def intended_command_def started_once_def split: if_splits)
next
  case False
  then show ?thesis
    using assms foreground_started_once[of e w _ _ _ s' log reply]
    by (fastforce simp: run_shell_call_def intended_command_def started_once_def execute_command_with_timeout_def
        execute_sudo_command_with_timeout_def Let_def split: if_splits result.splits prod.splits)
qed


subsection \<open>Timeouts\<close>

text \<open>A snapshot that cannot mislead: it is in one of the four states, has an exit code just in the two that have one, and a
  reason when the state is lost; and the hint that goes with it.\<close>

definition snapshot_ok :: "timeout_snapshot \<Rightarrow> bool" where
  "snapshot_ok t \<longleftrightarrow>
     (if ts_still_running t then ts_state t = ''running'' \<and> ts_exit_code t = None
      else if ts_exit_code t = None then ts_state t = ''state_lost'' \<and> ts_state_reason t \<noteq> None
      else ts_state t = (if ts_exit_code t = Some 0 then ''completed'' else ''failed''))"

definition hint_for :: "timeout_snapshot \<Rightarrow> timeout_hint" where
  "hint_for t = (if ts_state t = ''running'' then HintStillRunning else if ts_exit_code t = None then HintStateLost else HintFinished)"

text \<open>A job that is consistent and whose exit code, if it has one, is not negative.\<close>

definition job_sound :: "job_state \<Rightarrow> bool" where
  "job_sound j \<longleftrightarrow> job_ok j \<and> (\<forall>rc. exit_code j = Some rc \<longrightarrow> 0 \<le> rc)"

definition heap_sound :: "heap \<Rightarrow> bool" where
  "heap_sound h \<longleftrightarrow> (\<forall>ref j. h ref = Some j \<longrightarrow> job_sound j)"

lemma effective_exit_code:
  "e_exit_code (effective j pr settled) = Some rc \<Longrightarrow> exit_code j = Some rc \<or> exit_code settled = Some rc"
  by (auto simp: effective_def effective_settled_def exited_def lost_def split: job_status.splits option.splits if_splits)

lemma reconcile_sound:
  assumes "effective_ok e" "\<forall>rc. e_exit_code e = Some rc \<longrightarrow> 0 \<le> rc" "job_sound j" "e_running e \<longrightarrow> status j = Running"
  shows "job_sound (reconcile now e j)"
  using assms
  by (auto simp: reconcile_def effective_ok_def job_sound_def job_ok_def mark_exit_def mark_state_lost_def get_or_insert_def
      split: job_status.splits option.splits)

lemma reported_snapshot_ok:
  assumes "effective_ok e" "\<forall>rc. e_exit_code e = Some rc \<longrightarrow> 0 \<le> rc" "ts_state t = status_as_str (e_status e)"
    "ts_still_running t = e_running e" "ts_exit_code t = reported_exit_code e" "ts_state_reason t = e_reason e"
  shows "snapshot_ok t"
  using assms by (cases "e_status e") (auto simp: snapshot_ok_def effective_ok_def reported_exit_code_def)

lemma fallback_snapshot_ok:
  assumes "\<forall>j. registered = Some j \<longrightarrow> job_sound j"
  shows "snapshot_ok (fallback_snapshot now fs path registered)"
proof (cases registered)
  case (Some j)
  with assms have "job_sound j" by simp
  with Some show ?thesis
    by (cases "status j") (auto simp: fallback_snapshot_def snapshot_ok_def job_sound_def job_ok_def get_or_insert_def Let_def)
qed (simp add: fallback_snapshot_def snapshot_ok_def Let_def)

lemma check_process_sound:
  assumes "check_process now probe env fresh load r h jid = Ok (r', h', persisted, ps)"
    "heap_sound h" "\<And>j. load = Ok (Some j) \<Longrightarrow> job_sound j" "\<And>g. heap_sound g \<Longrightarrow> heap_sound (env g)"
  shows "heap_sound h'"
    and "\<exists>e. effective_ok e \<and> (\<forall>rc. e_exit_code e = Some rc \<longrightarrow> 0 \<le> rc) \<and> ps_state ps = status_as_str (e_status e)
      \<and> ps_running ps = e_running e \<and> ps_exit_code ps = reported_exit_code e \<and> ps_state_reason ps = e_reason e"
proof -
  from assms(1) obtain h1 ref j pr where find: "find_job r h fresh load jid = Ok (r', h1, ref)" and j: "h1 ref = Some j"
    and res: "settle_and_update now env h1 ref j pr = (h', persisted, ps)"
    by (auto simp: check_process_def split: option.splits)
  have h1: "heap_sound h1"
    using find assms(2,3) by (auto simp: find_job_def heap_sound_def split: option.splits result.splits if_splits)
  define h2 where "h2 = (if status j = Running \<and> \<not> pr \<and> exit_code j = None then env h1 else h1)"
  define settled where "settled = unwrap_or (h2 ref) j"
  define e where "e = effective j pr settled"
  have h2: "heap_sound h2" using h1 assms(4) by (simp add: h2_def)
  have js: "job_sound j" "job_sound settled"
    using h1 h2 j by (auto simp: heap_sound_def settled_def unwrap_or_def split: option.splits)
  have e: "effective_ok e" "\<forall>rc. e_exit_code e = Some rc \<longrightarrow> 0 \<le> rc"
    using effective_is_ok effective_exit_code js unfolding e_def job_sound_def by blast+
  have "e_running e \<longrightarrow> status settled = Running"
    using j by (auto simp: e_def effective_running settled_def h2_def unwrap_or_def)
  from reconcile_sound[OF e js(2) this] h2 show "heap_sound h'"
    using res by (auto simp: settle_and_update_def Let_def h2_def[symmetric] settled_def[symmetric] e_def[symmetric] heap_sound_def
        split: if_splits)
  show "\<exists>e. effective_ok e \<and> (\<forall>rc. e_exit_code e = Some rc \<longrightarrow> 0 \<le> rc) \<and> ps_state ps = status_as_str (e_status e)
      \<and> ps_running ps = e_running e \<and> ps_exit_code ps = reported_exit_code e \<and> ps_state_reason ps = e_reason e"
    using res e by (intro exI[of _ e])
      (auto simp: settle_and_update_def Let_def h2_def[symmetric] settled_def[symmetric] e_def[symmetric])
qed


subsection \<open>Witnesses\<close>

definition sample_env :: server_env where
  "sample_env = \<lparr>se_config = plain_config, se_user = ''u'', se_host = ''h'', se_port = 22, se_max_chars = None,
     se_max_output_tokens = None, se_base_dir = ''/s'', se_uid = 1000, se_mode = 448, se_to_json = (\<lambda>_. Some ''{}'')\<rparr>"

definition sample_route_state :: connection where
  "sample_route_state = connection_new\<lparr>cn_session := Some sample_route, cn_next_generation := 2, cn_remote_platform := Some Posix\<rparr>"

definition sample_launch_state :: launch_state where
  "sample_launch_state = \<lparr>ls_conn = sample_route_state,
     ls_disk = \<lparr>d_fs = [[''s''] \<mapsto> NDir], d_uid = (\<lambda>_. 1000), d_mode = (\<lambda>_. 448)\<rparr>, ls_registry = registry_new 60, ls_heap = Map.empty\<rparr>"

text \<open>The job \<open>7-1\<close> writes \<open>a\<close> with the markers, \<open>b\<close> to standard error, and fails with status 3.\<close>

definition sample_launch :: launch_world where
  "sample_launch = \<lparr>lw_epoch_ms = 7, lw_counter = 1, lw_now = 5, lw_end = 9, lw_fresh = 0, lw_net = sample_net, lw_elevate = sample_su,
     lw_slot = Ok (), lw_run = sample_run [],
     lw_head = [OtherMsg, Data (unlines (marker_lines ''7-1'' 4711 (remote_job_log_path ''7-1'')) @ ''a'')], lw_head_end = ChannelEnded,
     lw_rest = [Arrives (ExtendedData 1 ''b''), Arrives (ExitStatus 3), Arrives Close],
     lw_accepts = (\<lambda>_. True), lw_error_text = (\<lambda>_. []), lw_in_time = True, lw_meanwhile = id,
     lw_check = check_process 9 (\<lambda>_. Ok False) id 1 (Ok None)\<rparr>"

lemma sample_job_id: "make_job_id (lw_epoch_ms sample_launch) (lw_counter sample_launch) = ''7-1''"
  by (simp add: sample_launch_def) code_simp

lemma sample_sent:
  "open_background_wrapper_channel_with_retry (se_config sample_env) (lw_run sample_launch) wrapped (ls_conn sample_launch_state)
     = (sample_route_state, [ExecRequest 1 wrapped], Ok 1)"
  by (simp add: open_background_wrapper_channel_with_retry_def try_open_and_exec_background_wrapper_def sample_launch_def sample_run_def
      sample_try_def sample_launch_state_def sample_route_state_def open_channel_attempt_detailed_def sample_route_def is_closed_def
      connection_new_def)

lemma sample_log_file: "\<exists>d. ensure_local_log_file sample_env ''/s/7-1.log'' (ls_disk sample_launch_state) = Ok d"
proof -
  have c: "components ''/s'' = [RootDir, Normal ''s'']" "components ''/s/7-1.log'' = [RootDir, Normal ''s'', Normal ''7-1.log'']"
    "path_parent ''/s/7-1.log'' = Some [RootDir, Normal ''s'']" by code_simp+
  have "ensure_dir_inner 448 ''/s'' 1000 (ls_disk sample_launch_state) = Ok (ls_disk sample_launch_state)"
    by (rule ensure_dir_stable) (simp add: private_dir_def c sample_launch_state_def node_at_def)
  then show ?thesis
    by (simp add: ensure_local_log_file_def sample_env_def c sample_launch_state_def symlink_metadata_def node_at_def open_truncated_def
        raw_open_write_def)
qed


lemma sample_start:
  "ls_conn s = sample_route_state \<Longrightarrow>
   fst (snd (start_wrapper sample_env sample_launch jid path cmd reg s)) = [ExecRequest 1 (wrapper_request jid cmd)]"
  using sample_sent[of "wrapper_request jid cmd"]
  by (simp add: start_wrapper_def Let_def wrapper_request_def sample_launch_state_def sample_launch_def split: result.split)

definition sample_job :: job_state where
  "sample_job = new_running 5 \<lparr>n_job_id = ''7-1'', n_pid = 4711, n_log_path = ''/s/7-1.log'', n_command = ''c'', n_connection_id = ''x''\<rparr>"


end
