(* ===== verification/Server.thy ===== *)
theory Server
  imports Launch Engine
begin

text \<open>
  The front of the server: the arguments of the tools (\<open>src/src/server/args.rs\<close>), the native RouterOS command
  (\<open>src/src/ssh/routeros.rs\<close> and \<open>src/src/server/handlers/routeros.rs\<close>), the polling of a job
  (\<open>src/src/server/handlers/check_process.rs\<close>), and which tools are listed and where a call is routed
  (\<open>src/src/server.rs\<close>). The decoders that serde derives for the parameters of the other tools are parameters.
\<close>

section \<open>Definitions\<close>

subsection \<open>Arguments\<close>

text \<open>JSON values. A number is an unsigned or a negative 64-bit integer, or neither. The members of an object are in the
  order of the map.\<close>

datatype json =
    JNull
  | JBool bool
  | JUnsigned nat
  | JNegative nat
  | JFloat string
  | JString string
  | JArray "json list"
  | JObject "(string \<times> json) list"

type_synonym json_args = "(string \<times> json) list"

fun as_str :: "json \<Rightarrow> string option" where
  "as_str (JString s) = Some s"
| "as_str _ = None"

fun as_bool :: "json \<Rightarrow> bool option" where
  "as_bool (JBool b) = Some b"
| "as_bool _ = None"

fun as_u64 :: "json \<Rightarrow> nat option" where
  "as_u64 (JUnsigned n) = Some n"
| "as_u64 _ = None"

fun as_i64 :: "json \<Rightarrow> int option" where
  "as_i64 (JUnsigned n) = (if n < 2 ^ 63 then Some (int n) else None)"
| "as_i64 (JNegative n) = Some (- int n)"
| "as_i64 _ = None"

datatype mcp_error =
    MissingCommand
  | InvalidTimeout
  | LogPathNotString
  | UnknownParameter string
  | CommandNotString
  | InvalidCommand invalid_params
  | NotOneLine
  | TimeoutNotPositive
  | NotOnRouteros string
  | ToolDisabled string
  | UnknownTool string
  | BadParams string string
  | DetectionCancelled
  | DetectionTimedOut
  | DetectionFailed conn_error
  | PlatformUnavailable

record common_tool_args =
  ca_command :: string
  ca_background :: bool
  ca_timeout_ms :: "nat option"
  ca_log_path :: "string option"

definition parse_timeout_ms :: "json option \<Rightarrow> (nat option, mcp_error) result" where
  "parse_timeout_ms v =
     (case v of
        None \<Rightarrow> Ok None
      | Some JNull \<Rightarrow> Ok None
      | Some x \<Rightarrow>
          (case as_u64 x of
             Some u \<Rightarrow> if u = 0 then Err InvalidTimeout else Ok (Some u)
           | None \<Rightarrow>
               (case as_i64 x of
                  Some i \<Rightarrow> if i \<le> 0 then Err InvalidTimeout else Ok (Some (nat i))
                | None \<Rightarrow> Err InvalidTimeout)))"

definition parse_log_path :: "json option \<Rightarrow> (string option, mcp_error) result" where
  "parse_log_path v =
     (case v of
        None \<Rightarrow> Ok None
      | Some JNull \<Rightarrow> Ok None
      | Some x \<Rightarrow> (case as_str x of Some s \<Rightarrow> Ok (Some s) | None \<Rightarrow> Err LogPathNotString))"

definition parse_common_tool_args :: "json_args \<Rightarrow> (common_tool_args, mcp_error) result" where
  "parse_common_tool_args args =
     (case Option.bind (map_of args ''command'') as_str of
        None \<Rightarrow> Err MissingCommand
      | Some cmd \<Rightarrow>
          let background = (case Option.bind (map_of args ''background'') as_bool of Some b \<Rightarrow> b | None \<Rightarrow> False) in
          and_then (if background then Ok None else parse_timeout_ms (map_of args ''timeout_ms'')) (\<lambda>timeout_ms.
          and_then (if background then parse_log_path (map_of args ''log_path'') else Ok None) (\<lambda>path.
            Ok \<lparr>ca_command = cmd, ca_background = background, ca_timeout_ms = timeout_ms, ca_log_path = path\<rparr>)))"

definition parse_routeros_tool_args :: "json_args \<Rightarrow> nat option \<Rightarrow> (string \<times> nat option, mcp_error) result" where
  "parse_routeros_tool_args args max_chars =
     (case find (\<lambda>name. name \<noteq> ''command'' \<and> name \<noteq> ''timeout_ms'') (map fst args) of
        Some name \<Rightarrow> Err (UnknownParameter name)
      | None \<Rightarrow>
          (case Option.bind (map_of args ''command'') as_str of
             None \<Rightarrow> Err CommandNotString
           | Some cmd0 \<Rightarrow>
               and_then (map_err InvalidCommand (sanitize_command cmd0 max_chars)) (\<lambda>cmd.
                 if NUL \<in> set cmd \<or> CR \<in> set cmd \<or> NL \<in> set cmd then Err NotOneLine
                 else
                   (case map_of args ''timeout_ms'' of
                      None \<Rightarrow> Ok (cmd, None)
                    | Some v \<Rightarrow>
                        (case as_u64 v of
                           Some n \<Rightarrow> if n > 0 then Ok (cmd, Some n) else Err TimeoutNotPositive
                         | None \<Rightarrow> Err TimeoutNotPositive)))))"

subsection \<open>Native commands\<close>

text \<open>What a native request meets. Every wait can be ended by a stop: shutdown, cancellation or the deadline.\<close>

record native_world =
  zw_deadline_ok :: bool
  zw_slot :: "((unit, string) result, string) result"
  zw_now :: nat
  zw_ping :: bool
  zw_dials :: "dial list"
  zw_connect_stopped :: "string option"
  zw_stop_before_open :: "string option"
  zw_opening :: open_outcome
  zw_open_stopped :: "string option"
  zw_stop_before_exec :: "string option"
  zw_exec :: "((unit, string) result, string) result"
  zw_events :: "native_wait list"
  zw_owner_lost :: bool

datatype native_message =
    TimeoutTooLarge
  | NativeStopped string
  | NoNativeSlot string
  | NativeConn conn_error
  | EnqueueFailed string
  | NativeChannel native_error
  | OwnerLost

record native_failure =
  nf_output :: command_output
  nf_message :: native_message
  nf_may_have_run :: bool

definition native_not_started :: "native_message \<Rightarrow> (command_output, native_failure) result" where
  "native_not_started m = Err \<lparr>nf_output = command_output_new, nf_message = m, nf_may_have_run = False\<rparr>"

text \<open>The owner after the channel is open: the request is queued at most once, as it is.\<close>

definition native_on_channel ::
  "nat option \<Rightarrow> native_world \<Rightarrow> string \<Rightarrow> nat \<Rightarrow> remote_request list \<times> (command_output, native_failure) result" where
  "native_on_channel limit w cmd g =
     (case zw_stop_before_exec w of
        Some reason \<Rightarrow> ([], native_not_started (NativeStopped reason))
      | None \<Rightarrow>
          (case zw_exec w of
             Err reason \<Rightarrow> ([], native_not_started (NativeStopped reason))
           | Ok (Err m) \<Rightarrow> ([], native_not_started (EnqueueFailed m))
           | Ok (Ok _) \<Rightarrow>
               ([ExecRequest g cmd],
                case native_exec limit (zw_events w) of
                  Ok out \<Rightarrow> Ok out
                | Err (out, m, executed) \<Rightarrow> Err \<lparr>nf_output = out, nf_message = NativeChannel m, nf_may_have_run = executed\<rparr>)))"

text \<open>The whole owner. A stop while the channel is being opened is reported at once; the owner still waits for the channel
  and then only closes it. When the opening exhausts its budget, its route is retired.\<close>

definition routeros_owner ::
  "ssh_config \<Rightarrow> nat option \<Rightarrow> native_world \<Rightarrow> string \<Rightarrow> connection \<Rightarrow>
   connection \<times> remote_request list \<times> (command_output, native_failure) result" where
  "routeros_owner cfg limit w cmd c =
     (case zw_slot w of
        Err reason \<Rightarrow> (c, [], native_not_started (NativeStopped reason))
      | Ok (Err m) \<Rightarrow> (c, [], native_not_started (NoNativeSlot m))
      | Ok (Ok _) \<Rightarrow>
          (case ensure_connected_transport_only cfg (zw_now w) (zw_ping w) (zw_dials w) c of
             (c1, connected) \<Rightarrow>
               (case zw_connect_stopped w of
                  Some reason \<Rightarrow> (c1, [], native_not_started (NativeStopped reason))
                | None \<Rightarrow>
                    (case connected of
                       Err x \<Rightarrow> (c1, [], native_not_started (NativeConn x))
                     | Ok _ \<Rightarrow>
                         (case zw_stop_before_open w of
                            Some reason \<Rightarrow> (c1, [], native_not_started (NativeStopped reason))
                          | None \<Rightarrow>
                              let retired = (\<lambda>g x. case (x, g) of (BudgetElapsed, Some g) \<Rightarrow> invalidate_session_for_generation g c1 | _ \<Rightarrow> c1) in
                              (case (open_channel_attempt_detailed (zw_opening w) c1, zw_open_stopped w) of
                                 (Err (g, x), None) \<Rightarrow> (retired g x, [], native_not_started (NativeConn x))
                               | (Err (g, x), Some reason) \<Rightarrow> (retired g x, [], native_not_started (NativeStopped reason))
                               | (Ok g, Some reason) \<Rightarrow> (c1, [], native_not_started (NativeStopped reason))
                               | (Ok g, None) \<Rightarrow> (case native_on_channel limit w cmd g of (log, r) \<Rightarrow> (c1, log, r))))))))"

definition exec_routeros_command ::
  "ssh_config \<Rightarrow> nat option \<Rightarrow> native_world \<Rightarrow> string \<Rightarrow> connection \<Rightarrow>
   connection \<times> remote_request list \<times> (command_output, native_failure) result" where
  "exec_routeros_command cfg limit w cmd c =
     (if \<not> zw_deadline_ok w then (c, [], native_not_started TimeoutTooLarge)
      else case routeros_owner cfg limit w cmd c of
        (c1, log, r) \<Rightarrow>
          (c1, log, if zw_owner_lost w
                    then Err \<lparr>nf_output = command_output_new, nf_message = OwnerLost, nf_may_have_run = True\<rparr> else r))"

definition append_truncation_notice :: "command_output \<Rightarrow> command_output" where
  "append_truncation_notice out =
     (let notice = (\<lambda>name truncated. if truncated then [NL] @ ''['' @ name @ '' truncated at the configured output limit]'' else []) in
      out\<lparr>co_stdout := co_stdout out @ notice ''stdout'' (co_stdout_truncated out) @ notice ''stderr'' (co_stderr_truncated out)\<rparr>)"

datatype routeros_reply = NativeReply tool_reply | NativeFailed string bool

text \<open>The text of a failure up to its message, and whether the reply warns that the command may have run.\<close>

definition failure_result :: "native_failure \<Rightarrow> routeros_reply" where
  "failure_result f =
     (let out = append_truncation_notice (nf_output f);
          t1 = (if co_stderr out = [] then co_stdout out
                else if co_stdout out = [] then co_stderr out
                else co_stdout out @ [NL] @ ''--- stderr ---'' @ [NL] @ co_stderr out);
          t2 = (if t1 = [] then t1 else t1 @ [NL, NL]);
          t3 = (case co_exit_code out of
                  Some n \<Rightarrow> t2 @ ''SSH exit status received: '' @ show_nat n @ [NL]
                | None \<Rightarrow> t2) in
      NativeFailed t3 (nf_may_have_run f))"

definition execute_routeros_tool ::
  "ssh_config \<Rightarrow> nat option \<Rightarrow> native_world \<Rightarrow> string \<Rightarrow> connection \<Rightarrow> connection \<times> remote_request list \<times> routeros_reply" where
  "execute_routeros_tool cfg limit w cmd c =
     (case exec_routeros_command cfg limit w cmd c of
        (c1, log, Ok out) \<Rightarrow> (c1, log, NativeReply (calltool_from_command_output (append_truncation_notice out)))
      | (c1, log, Err f) \<Rightarrow> (c1, log, failure_result f))"

subsection \<open>The platform\<close>

text \<open>\<open>resolve_remote_platform\<close>: the frozen platform, or what one attempt to connect finds. A cancellation or the limit of
  ten seconds ends the attempt after the dials that are listed.\<close>

datatype attempt_end = AttemptEnds | AttemptCancelled | AttemptTimedOut

record platform_world =
  pw_cancelled :: bool
  pw_now :: nat
  pw_ping :: bool
  pw_dials :: "dial list"
  pw_end :: attempt_end

definition resolve_remote_platform ::
  "ssh_config \<Rightarrow> platform_world \<Rightarrow> connection \<Rightarrow> connection \<times> (remote_platform, mcp_error) result" where
  "resolve_remote_platform cfg w c =
     (case cn_remote_platform c of
        Some p \<Rightarrow> (c, Ok p)
      | None \<Rightarrow>
          if pw_cancelled w then (c, Err DetectionCancelled)
          else
            (case ensure_connected_transport_only cfg (pw_now w) (pw_ping w) (pw_dials w) c of
               (c1, r) \<Rightarrow>
                 (c1, case pw_end w of
                        AttemptCancelled \<Rightarrow> Err DetectionCancelled
                      | AttemptTimedOut \<Rightarrow> Err DetectionTimedOut
                      | AttemptEnds \<Rightarrow>
                          and_then (map_err DetectionFailed r) (\<lambda>_.
                            case cn_remote_platform c1 of Some p \<Rightarrow> Ok p | None \<Rightarrow> Err PlatformUnavailable))))"

subsection \<open>Listing and routing\<close>

definition list_tools :: "remote_platform \<Rightarrow> bool \<Rightarrow> string list" where
  "list_tools platform disable_sudo =
     (if platform = Routeros then [''shell'']
      else [''shell''] @ (if \<not> disable_sudo then [''sudo_shell'', ''sudo_apply_patch''] else [])
        @ [''check_process'', ''transfer'', ''apply_patch''])"

text \<open>What a call leads to. \<open>decode\<close> is the derived decoder of a tool's parameters.\<close>

datatype 'p routed =
    RunNative string nat
  | RunShell shell_call nat
  | RunTransfer 'p
  | RunCheck 'p
  | RunPatch bool 'p
  | Rejected mcp_error

definition resolve_timeout :: "nat \<Rightarrow> nat option \<Rightarrow> nat" where
  "resolve_timeout default_ms timeout_ms = (case timeout_ms of Some t \<Rightarrow> t | None \<Rightarrow> default_ms)"

definition route_shell :: "nat \<Rightarrow> bool \<Rightarrow> json_args \<Rightarrow> 'p routed" where
  "route_shell default_ms sudo args =
     (case parse_common_tool_args args of
        Err x \<Rightarrow> Rejected x
      | Ok p \<Rightarrow>
          RunShell \<lparr>sh_sudo = sudo, sh_background = ca_background p, sh_command = ca_command p, sh_log_path = ca_log_path p\<rparr>
            (resolve_timeout default_ms (ca_timeout_ms p)))"

definition route_posix ::
  "(string \<Rightarrow> json_args \<Rightarrow> ('p, string) result) \<Rightarrow> nat \<Rightarrow> bool \<Rightarrow> string \<Rightarrow> json_args \<Rightarrow> 'p routed" where
  "route_posix decode default_ms disable_sudo tool args =
     (let decoded = (\<lambda>f. case decode tool args of Ok p \<Rightarrow> f p | Err m \<Rightarrow> Rejected (BadParams tool m)) in
      if tool = ''shell'' then route_shell default_ms False args
      else if tool = ''sudo_shell'' then
        (if disable_sudo then Rejected (ToolDisabled tool) else route_shell default_ms True args)
      else if tool = ''transfer'' then decoded RunTransfer
      else if tool = ''check_process'' then decoded RunCheck
      else if tool = ''apply_patch'' then decoded (RunPatch False)
      else if tool = ''sudo_apply_patch'' then
        (if disable_sudo then Rejected (ToolDisabled tool) else decoded (RunPatch True))
      else Rejected (UnknownTool tool))"

definition route_tool ::
  "(string \<Rightarrow> json_args \<Rightarrow> ('p, string) result) \<Rightarrow> nat \<Rightarrow> nat option \<Rightarrow> bool \<Rightarrow> remote_platform \<Rightarrow> string \<Rightarrow> json_args \<Rightarrow>
   'p routed" where
  "route_tool decode default_ms max_chars disable_sudo platform tool args =
     (if platform = Routeros \<and> tool = ''shell'' then
        (case parse_routeros_tool_args args max_chars of
           Err x \<Rightarrow> Rejected x
         | Ok (cmd, timeout_ms) \<Rightarrow> RunNative cmd (resolve_timeout default_ms timeout_ms))
      else if platform = Routeros
           \<and> tool \<in> {''sudo_shell'', ''sudo_apply_patch'', ''check_process'', ''transfer'', ''apply_patch''} then
        Rejected (NotOnRouteros tool)
      else route_posix decode default_ms disable_sudo tool args)"

text \<open>The handlers of a routed call: the shell tools send commands here; the other tools are those of the other theories.\<close>

datatype 'p call_reply = ShellReply tool_reply | NativeDone routeros_reply | Delegated "'p routed"

definition call_tool ::
  "(string \<Rightarrow> json_args \<Rightarrow> ('p, string) result) \<Rightarrow> server_env \<Rightarrow> nat \<Rightarrow> bool \<Rightarrow> platform_world \<Rightarrow> launch_world \<Rightarrow> native_world \<Rightarrow>
   string \<Rightarrow> json_args \<Rightarrow> launch_state \<Rightarrow> launch_state \<times> remote_request list \<times> 'p call_reply" where
  "call_tool decode e default_ms disable_sudo pw w zw tool args s =
     (case resolve_remote_platform (se_config e) pw (ls_conn s) of
        (c1, Err x) \<Rightarrow> (s\<lparr>ls_conn := c1\<rparr>, [], Delegated (Rejected x))
      | (c1, Ok platform) \<Rightarrow>
          let s1 = s\<lparr>ls_conn := c1\<rparr> in
          (case route_tool decode default_ms (se_max_chars e) disable_sudo platform tool args of
             RunShell q _ \<Rightarrow> (case run_shell_call e w q s1 of (s2, log, reply) \<Rightarrow> (s2, log, ShellReply reply))
           | RunNative cmd _ \<Rightarrow>
               (case execute_routeros_tool (se_config e) (se_max_output_tokens e) zw cmd c1 of
                  (c2, log, reply) \<Rightarrow> (s1\<lparr>ls_conn := c2\<rparr>, log, NativeDone reply))
           | other \<Rightarrow> (s1, [], Delegated other)))"

subsection \<open>Polling a job\<close>

text \<open>\<open>execute_check_process\<close> on a command: one check, and a second one after the wait if the job was still running and the
  wait was not cancelled. \<open>check\<close> is told whether it comes after the wait.\<close>

definition poll_command ::
  "(bool \<Rightarrow> 's \<Rightarrow> 's \<times> (process_status, check_error) result) \<Rightarrow> nat \<Rightarrow> bool \<Rightarrow> 's \<Rightarrow> 's \<times> (process_status, check_error) result" where
  "poll_command check wait_for cancelled s =
     (case check False s of
        (s1, Err x) \<Rightarrow> (s1, Err x)
      | (s1, Ok initial) \<Rightarrow>
          if wait_for = 0 \<or> \<not> ps_running initial then (s1, Ok initial)
          else if cancelled then (s1, Ok initial)
          else check True s1)"

text \<open>\<open>execute_check_transfer\<close>: a snapshot, renewed after the wait; \<open>meanwhile\<close> is what the task of the transfer and others
  do to the jobs during the wait.\<close>

record poll_world =
  po_retention :: nat
  po_now :: nat
  po_later :: nat
  po_cancelled :: bool
  po_meanwhile :: "transfer_registry \<Rightarrow> transfer_registry"
  po_local_len :: "string \<Rightarrow> nat option"
  po_remote_out :: "string \<Rightarrow> string option"

definition progress_probe :: "string \<Rightarrow> string" where
  "progress_probe path =
     ''sh -c '' @ [SQ] @ ''if [ -f '' @ [DQ] @ ''$1'' @ [DQ] @ '' ]; then wc -c < '' @ [DQ] @ ''$1'' @ [DQ] @ ''; else printf 0; fi'' @ [SQ]
       @ '' sh '' @ [SQ] @ escape_for_shell path @ [SQ]"

definition bytes_done :: "poll_world \<Rightarrow> transfer_snapshot \<Rightarrow> nat option" where
  "bytes_done w sn =
     (case sn_result sn of
        Some r \<Rightarrow> map_option tr_bytes (cr_counts r)
      | None \<Rightarrow>
          (case sn_progress_target sn of
             Some (TargetLocal path) \<Rightarrow> po_local_len w path
           | Some (TargetRemote path) \<Rightarrow>
               Option.bind (po_remote_out w (progress_probe path)) (\<lambda>out. parse_unsigned 10 U64 (trim out))
           | None \<Rightarrow> None))"

definition execute_check_transfer ::
  "poll_world \<Rightarrow> string \<Rightarrow> nat \<Rightarrow> transfer_registry \<Rightarrow>
   transfer_registry \<times> (transfer_snapshot \<times> nat option, check_error) result" where
  "execute_check_transfer w jid wait_for tjobs =
     (case registry_snapshot (po_retention w) jid (po_now w) tjobs of
        (tjobs1, None) \<Rightarrow> (tjobs1, Err (JobNotFound jid))
      | (tjobs1, Some sn) \<Rightarrow>
          if wait_for > 0 \<and> sn_running sn \<and> \<not> po_cancelled w then
            (case registry_snapshot (po_retention w) jid (po_later w) (po_meanwhile w tjobs1) of
               (tjobs2, updated) \<Rightarrow> let sn' = (case updated of Some u \<Rightarrow> u | None \<Rightarrow> sn) in (tjobs2, Ok (sn', bytes_done w sn')))
          else (tjobs1, Ok (sn, bytes_done w sn)))"

datatype polled = PolledTransfer transfer_snapshot "nat option" | PolledCommand process_status

definition execute_check_process ::
  "(bool \<Rightarrow> 's \<Rightarrow> 's \<times> (process_status, check_error) result) \<Rightarrow> poll_world \<Rightarrow> string \<Rightarrow> nat \<Rightarrow> transfer_registry \<Rightarrow> 's \<Rightarrow>
   transfer_registry \<times> 's \<times> (polled, check_error) result" where
  "execute_check_process check w jid wait_for tjobs s =
     (case registry_contains (po_retention w) jid (po_now w) tjobs of
        (tjobs1, True) \<Rightarrow>
          (case execute_check_transfer w jid wait_for tjobs1 of
             (tjobs2, r) \<Rightarrow> (tjobs2, s, and_then r (\<lambda>(sn, n). Ok (PolledTransfer sn n))))
      | (tjobs1, False) \<Rightarrow>
          (case poll_command check wait_for (po_cancelled w) s of
             (s1, r) \<Rightarrow> (tjobs1, s1, and_then r (\<lambda>ps. Ok (PolledCommand ps)))))"

section \<open>Lemmas\<close>

lemma and_then_Err_iff: "and_then r f = Err x \<longleftrightarrow> r = Err x \<or> (\<exists>a. r = Ok a \<and> f a = Err x)"
  by (cases r) auto

lemma map_err_Err_iff: "map_err g r = Err x \<longleftrightarrow> (\<exists>y. r = Err y \<and> x = g y)"
  by (cases r) auto

subsection \<open>Native commands\<close>

lemma native_loop_flag:
  "native_loop es c = (c', r) \<Longrightarrow> c_may_have_run c \<Longrightarrow> c_may_have_run c' \<or> r = Err ExecRejected"
proof (induction es arbitrary: c)
  case Nil
  then show ?case by (simp add: collector_event_def)
next
  case (Cons a es)
  show ?case
  proof (cases a)
    case (Waited m)
    with Cons show ?thesis by (cases m) (auto simp: collector_event_def split: if_splits)
  qed (use Cons.prems in simp)
qed

lemma native_exec_flag: "native_exec limit es = Err (out, m, flag) \<Longrightarrow> \<not> flag \<Longrightarrow> m = ExecRejected"
  using native_loop_flag[of es "(collector_new limit)\<lparr>c_may_have_run := True\<rparr>"]
  by (auto simp: native_exec_def collector_finish_def Let_def split: prod.splits result.splits)

text \<open>A failure that denies that the command ran is right: nothing was queued, or the peer rejected the request.\<close>

definition native_truthful :: "string \<Rightarrow> remote_request list \<Rightarrow> (command_output, native_failure) result \<Rightarrow> bool" where
  "native_truthful cmd log r \<longleftrightarrow>
     (log = [] \<or> (\<exists>g. log = [ExecRequest g cmd]))
     \<and> (\<forall>f. r = Err f \<longrightarrow> \<not> nf_may_have_run f \<longrightarrow> log = [] \<or> nf_message f = NativeChannel ExecRejected)
     \<and> (\<forall>out. r = Ok out \<longrightarrow> log \<noteq> [])"

lemma native_truthful_not_started [simp]: "native_truthful cmd [] (native_not_started m)"
  by (simp add: native_truthful_def native_not_started_def)

lemma native_on_channel_truthful: "native_on_channel limit w cmd g = (log, r) \<Longrightarrow> native_truthful cmd log r"
  using native_exec_flag[of limit "zw_events w"]
  by (fastforce simp: native_on_channel_def native_truthful_def native_not_started_def split: option.splits result.splits)

lemma routeros_owner_truthful: "routeros_owner cfg limit w cmd c = (c', log, r) \<Longrightarrow> native_truthful cmd log r"
  by (auto simp: routeros_owner_def Let_def split: option.splits result.splits prod.splits dest: native_on_channel_truthful)

lemma exec_routeros_command_truthful: "exec_routeros_command cfg limit w cmd c = (c', log, r) \<Longrightarrow> native_truthful cmd log r"
  using routeros_owner_truthful[of cfg limit w cmd c]
  by (auto simp: exec_routeros_command_def native_truthful_def native_not_started_def split: if_splits prod.splits)

subsection \<open>Routing\<close>

lemma route_tool_shell:
  assumes "route_tool decode default_ms max_chars disable_sudo p tool args = RunShell q t"
  shows "p = Posix \<and> tool = (if sh_sudo q then ''sudo_shell'' else ''shell'') \<and> (sh_sudo q \<longrightarrow> \<not> disable_sudo)
     \<and> Option.bind (map_of args ''command'') as_str = Some (sh_command q)"
proof -
  have p: "parse_common_tool_args args = Ok a \<Longrightarrow> Option.bind (map_of args ''command'') as_str = Some (ca_command a)" for a
    by (auto simp: parse_common_tool_args_def Let_def split: option.splits result.splits if_splits)
  show ?thesis
    using assms
    by (cases p) (auto simp: route_tool_def route_posix_def route_shell_def Let_def dest!: p split: if_splits result.splits prod.splits)
qed

lemma route_tool_native:
  assumes "route_tool decode default_ms max_chars disable_sudo p tool args = RunNative cmd t"
  shows "p = Routeros \<and> tool = ''shell'' \<and> (\<exists>cmd0. Option.bind (map_of args ''command'') as_str = Some cmd0 \<and> sanitize_command cmd0 max_chars = Ok cmd)
     \<and> NUL \<notin> set cmd \<and> CR \<notin> set cmd \<and> NL \<notin> set cmd"
  using assms
  by (auto simp: route_tool_def route_posix_def route_shell_def Let_def parse_routeros_tool_args_def
      split: if_splits result.splits prod.splits option.splits)

section \<open>Properties\<close>

text \<open>C35: a tool is offered exactly if it is served. Whatever the arguments, a call of a tool is refused as unsupported,
  disabled or unknown just when the list of the tools, for the platform of the host and the configured use of sudo, does not
  have it.\<close>

theorem tool_listed_iff_served:
  "tool \<in> set (list_tools p disable_sudo) \<longleftrightarrow>
   route_tool decode default_ms max_chars disable_sudo p tool args
     \<notin> {Rejected (NotOnRouteros tool), Rejected (ToolDisabled tool), Rejected (UnknownTool tool)}"
proof -
  have c: "parse_common_tool_args args = Err x \<Longrightarrow> x \<in> {MissingCommand, InvalidTimeout, LogPathNotString}" for x
    by (auto simp: parse_common_tool_args_def parse_timeout_ms_def parse_log_path_def Let_def and_then_Err_iff
        split: option.splits result.splits if_splits json.splits)
  have n: "parse_routeros_tool_args args max_chars = Err x \<Longrightarrow>
      x \<notin> {NotOnRouteros tool, ToolDisabled tool, UnknownTool tool}" for x
    by (auto simp: parse_routeros_tool_args_def and_then_Err_iff map_err_Err_iff split: option.splits result.splits if_splits)
  show ?thesis
    by (cases p) (auto simp: list_tools_def route_tool_def route_posix_def route_shell_def Let_def dest!: c n split: if_splits result.splits)
qed

text \<open>What may be sent for a call, with what is replied. The command is the argument of the call after trimming.\<close>

definition sends_at_most_once ::
  "server_env \<Rightarrow> bool \<Rightarrow> launch_world \<Rightarrow> remote_platform option \<Rightarrow> string \<Rightarrow> json_args \<Rightarrow> remote_request list \<Rightarrow> 'p call_reply \<Rightarrow> bool" where
  "sends_at_most_once e disable_sudo w platform tool args log r \<longleftrightarrow>
     (case r of
        Delegated _ \<Rightarrow> log = []
      | ShellReply reply \<Rightarrow>
          platform = Some Posix \<and> tool \<in> {''shell'', ''sudo_shell''} \<and> (tool = ''sudo_shell'' \<longrightarrow> \<not> disable_sudo)
          \<and> (log = [] \<and> reply_error reply \<noteq> None
             \<or> (\<exists>cmd g. map_option trim (Option.bind (map_of args ''command'') as_str) = Some cmd
                  \<and> log = [ExecRequest g (wrapper_request (make_job_id (lw_epoch_ms w) (lw_counter w))
                       (if tool = ''sudo_shell'' then wrap_sudo_command cmd (sc_sudo_password (se_config e)) else cmd))]
                  \<and> (\<forall>x. reply_error reply = Some x \<longrightarrow> may_have_run x)))
      | NativeDone reply \<Rightarrow>
          platform = Some Routeros \<and> tool = ''shell''
          \<and> (log = [] \<and> (\<exists>text flag. reply = NativeFailed text flag)
             \<or> (\<exists>cmd g. map_option trim (Option.bind (map_of args ''command'') as_str) = Some cmd
                  \<and> NUL \<notin> set cmd \<and> CR \<notin> set cmd \<and> NL \<notin> set cmd \<and> log = [ExecRequest g cmd])))"

lemma sanitize_command_trim: "sanitize_command s max_chars = Ok t \<Longrightarrow> t = trim s"
  by (auto simp: sanitize_command_def Let_def split: if_splits option.splits)

lemma resolve_remote_platform_frozen:
  "resolve_remote_platform cfg w c = (c1, Ok p) \<Longrightarrow> cn_remote_platform c1 = Some p"
  by (auto simp: resolve_remote_platform_def split: option.splits if_splits prod.splits attempt_end.splits)


text \<open>A failed native command is reported for what it is. When the failure says that the command did not start, no
  request was queued or the host rejected it; in any other case with a queued request the failure warns that the command may have run.
  A success means that the one request was queued, with exactly the command.\<close>

theorem native_failure_truthful:
  assumes "exec_routeros_command cfg limit w cmd c = (c', log, r)"
  shows "(log = [] \<or> (\<exists>g. log = [ExecRequest g cmd]))
    \<and> (\<forall>out. r = Ok out \<longrightarrow> log \<noteq> [])
    \<and> (\<forall>f. r = Err f \<longrightarrow> failure_result f = NativeFailed text False \<longrightarrow> log = [] \<or> nf_message f = NativeChannel ExecRejected)"
  using exec_routeros_command_truthful[OF assms] by (auto simp: native_truthful_def failure_result_def Let_def)

text \<open>The poll of a transfer that waits says that the transfer is running just if it was running at the end of the wait,
  or its record was gone by then.\<close>

lemma check_transfer_waits:
  assumes "execute_check_transfer w jid wait_for tjobs = (tjobs', Ok (sn, n))" "wait_for > 0" "\<not> po_cancelled w"
    "transfer_prune (po_retention w) (po_now w) tjobs jid = Some j" "\<not> transfer_is_terminal j"
  shows "case transfer_prune (po_retention w) (po_later w) (po_meanwhile w (transfer_prune (po_retention w) (po_now w) tjobs)) jid of
           Some j' \<Rightarrow> sn = job_snapshot (po_later w) j' | None \<Rightarrow> sn = job_snapshot (po_now w) j"
  using assms by (auto simp: execute_check_transfer_def registry_snapshot_def Let_def job_snapshot_def split: if_splits option.splits)

subsection \<open>Witnesses\<close>

definition frozen_state :: launch_state where
  "frozen_state = sample_launch_state\<lparr>ls_conn := connection_new\<lparr>cn_remote_platform := Some Posix\<rparr>\<rparr>"

lemma sample_reconnect:
  "ensure_connected plain_config sample_net (connection_new\<lparr>cn_remote_platform := Some Posix\<rparr>) = (sample_route_state, Ok ())"
proof -
  let ?c = "connection_new\<lparr>cn_remote_platform := Some Posix\<rparr>"
  have "connect_with_retry plain_config [Dialed (Ok ()) Posix False] ?c = (sample_route_state, Some (Ok (), 1, []))"
    by (simp add: connect_with_retry_def retry_loop.simps[of _ "_ # _"] max_attempts_def sat_add_def plain_config_def
        sample_config_def connect_transport_only_def is_connected_def session_generation_def finish_connect_def
        validate_elevation_def take_generation_def publish_def sample_route_def Let_def connection_new_def sample_route_state_def)
  then show ?thesis
    by (simp add: ensure_connected_def sample_net_def ensure_connected_transport_only_def ensure_turn_def
      ensure_transport_inner.simps[of _ _ _ _ ?c] initialize_auto_elevation_def claim_auto_elevation_def
      plain_config_def sample_config_def sample_route_state_def)
      (simp add: connection_new_def initialize_auto_elevation_def claim_auto_elevation_def)
qed

text \<open>The host is dialled, the request is queued, and the host rejects it.\<close>

definition sample_native :: native_world where
  "sample_native = \<lparr>zw_deadline_ok = True, zw_slot = Ok (Ok ()), zw_now = 0, zw_ping = True, zw_dials = [Dialed (Ok ()) Routeros False],
     zw_connect_stopped = None, zw_stop_before_open = None, zw_opening = Opened, zw_open_stopped = None, zw_stop_before_exec = None,
     zw_exec = Ok (Ok ()), zw_events = [Waited Failure], zw_owner_lost = False\<rparr>"

definition sample_detection :: platform_world where
  "sample_detection = \<lparr>pw_cancelled = False, pw_now = 0, pw_ping = True, pw_dials = [], pw_end = AttemptEnds\<rparr>"

definition sample_args :: json_args where
  "sample_args = [(''background'', JBool True), (''command'', JString '' ls '')]"

definition no_decoder :: "string \<Rightarrow> json_args \<Rightarrow> (unit, string) result" where
  "no_decoder tool args = Err ''none''"


definition router_route :: connection where
  "router_route = connection_new\<lparr>cn_session := Some (sample_route\<lparr>ar_platform := Routeros\<rparr>), cn_next_generation := 2,
     cn_remote_platform := Some Routeros\<rparr>"

lemma sample_router_connect:
  "ensure_connected_transport_only plain_config 0 True [Dialed (Ok ()) Routeros False] connection_new = (router_route, Ok ())"
proof -
  have "connect_with_retry plain_config [Dialed (Ok ()) Routeros False] connection_new = (router_route, Some (Ok (), 1, []))"
    by (simp add: connect_with_retry_def retry_loop.simps[of _ "_ # _"] max_attempts_def sat_add_def plain_config_def
        sample_config_def connect_transport_only_def is_connected_def session_generation_def finish_connect_def
        validate_elevation_def take_generation_def publish_def sample_route_def Let_def connection_new_def router_route_def)
  then show ?thesis
    by (simp add: ensure_connected_transport_only_def ensure_turn_def ensure_transport_inner.simps[of _ _ _ _ connection_new])
      (simp add: connection_new_def)
qed

theorem native_failure_truthful_witness:
  "\<exists>f. exec_routeros_command plain_config None sample_native ''/ip route print'' connection_new
      = (router_route, [ExecRequest 1 ''/ip route print''], Err f)
    \<and> failure_result f = NativeFailed [] False \<and> nf_message f = NativeChannel ExecRejected"
proof -
  have from_utf8_lossy_Nil: "from_utf8_lossy [] = []" by code_simp
  have "native_exec None [Waited Failure] = Err (command_output_new, ExecRejected, False)"
    by (simp add: native_exec_def collector_new_def collector_event_def collector_finish_def byte_prefix_finish_def command_output_new_def
        BYTES_PER_TOKEN_def from_utf8_lossy_Nil)
  then have r: "exec_routeros_command plain_config None sample_native ''/ip route print'' connection_new
      = (router_route, [ExecRequest 1 ''/ip route print''],
         Err \<lparr>nf_output = command_output_new, nf_message = NativeChannel ExecRejected, nf_may_have_run = False\<rparr>)"
    by (simp add: exec_routeros_command_def routeros_owner_def sample_native_def sample_router_connect Let_def native_on_channel_def)
      (simp add: router_route_def open_channel_attempt_detailed_def sample_route_def is_closed_def connection_new_def native_on_channel_def)
  have f: "failure_result \<lparr>nf_output = command_output_new, nf_message = NativeChannel ExecRejected, nf_may_have_run = False\<rparr>
      = NativeFailed [] False" by code_simp
  from native_failure_truthful[OF r, of "[]"] r f show ?thesis by auto
qed

end
