(* ===== verification/Transports.thy ===== *)
theory Transports
  imports Shell Install HostKeys
begin

text \<open>
  The transports that run another program: \<open>sftp\<close> and \<open>scp\<close> (\<open>src/src/transfer/openssh.rs\<close>), \<open>rsync\<close>
  (\<open>src/src/transfer/rsync.rs\<close>), the jump host's proxy command (\<open>src/src/transfer/mod.rs\<close>), the supervision of a child
  (\<open>src/src/transfer/process.rs\<close>) and the probe of \<open>sftp\<close> at the start (\<open>src/src/transfer/startup.rs\<close>). What a program does to the
  tree of the side that is written is a parameter; the model has the exact argument lists and input that it gets.
\<close>

section \<open>Definitions\<close>

subsection \<open>Endpoints\<close>

record transfer_jump_options =
  jo_host :: string
  jo_port :: nat
  jo_user :: string
  jo_key_path :: "string option"

record transfer_ssh_options =
  so_host :: string
  so_port :: nat
  so_user :: string
  so_key_path :: "string option"
  so_host_key_checking :: host_key_check_mode
  so_known_hosts :: "string option"
  so_jump :: "transfer_jump_options option"

record openssh_endpoint =
  oe_host :: string
  oe_port :: nat
  oe_user :: string
  oe_key_path :: string
  oe_host_key_checking :: host_key_check_mode
  oe_known_hosts :: "string option"
  oe_jump :: "transfer_jump_options option"

record rsync_endpoint =
  re_host :: string
  re_port :: nat
  re_user :: string
  re_key_path :: "string option"
  re_host_key_checking :: host_key_check_mode
  re_known_hosts :: "string option"
  re_jump :: "transfer_jump_options option"

datatype openssh_transport = OsSftp | OsScp

text \<open>The endpoints that the engine makes of its options, once the key is known to be there.\<close>

definition openssh_endpoint_of :: "transfer_ssh_options \<Rightarrow> string \<Rightarrow> openssh_endpoint" where
  "openssh_endpoint_of opts key =
     \<lparr>oe_host = so_host opts, oe_port = so_port opts, oe_user = so_user opts, oe_key_path = key,
      oe_host_key_checking = so_host_key_checking opts, oe_known_hosts = so_known_hosts opts, oe_jump = so_jump opts\<rparr>"

definition rsync_endpoint_of :: "transfer_ssh_options \<Rightarrow> rsync_endpoint" where
  "rsync_endpoint_of opts =
     \<lparr>re_host = so_host opts, re_port = so_port opts, re_user = so_user opts, re_key_path = so_key_path opts,
      re_host_key_checking = so_host_key_checking opts, re_known_hosts = so_known_hosts opts, re_jump = so_jump opts\<rparr>"

definition display :: "string \<Rightarrow> string" where
  "display path = from_utf8_lossy path"

definition null_known_hosts_path :: string where
  "null_known_hosts_path = ''/dev/null''"

definition sh_quote :: "string \<Rightarrow> string" where
  "sh_quote v = [SQ] @ escape_for_shell v @ [SQ]"

definition SPACE :: string where "SPACE = '' ''"

text \<open>The command line that reaches the target through the jump host, if the jump host has a key.\<close>

definition openssh_proxy_command ::
  "string \<Rightarrow> nat \<Rightarrow> transfer_jump_options \<Rightarrow> host_key_check_mode \<Rightarrow> string option \<Rightarrow> string option" where
  "openssh_proxy_command target_host target_port jump mode known_hosts =
     map_option (\<lambda>key. join SPACE
       ([''ssh'', ''-i'', sh_quote (display key), ''-p'', show_nat (jo_port jump),
         ''-o'', ''BatchMode=yes'', ''-o'', ''PasswordAuthentication=no'', ''-o'', ''KbdInteractiveAuthentication=no'',
         ''-o'', ''PreferredAuthentications=publickey'', ''-o'', ''IdentitiesOnly=yes'',
         ''-o'', ''StrictHostKeyChecking='' @ as_openssh_value mode]
        @ (if mode = ModeNo then [''-o'', ''UserKnownHostsFile=/dev/null'']
           else case known_hosts of
             Some path \<Rightarrow> [''-o'', sh_quote (''UserKnownHostsFile='' @ display path)]
           | None \<Rightarrow> [])
        @ [''-W'', sh_quote (target_host @ '':'' @ show_nat target_port), sh_quote (jo_user jump @ ''@'' @ jo_host jump)]))
     (jo_key_path jump)"

definition common_ssh_options :: "openssh_endpoint \<Rightarrow> string list" where
  "common_ssh_options ep =
     [''-i'', display (oe_key_path ep), ''-o'', ''BatchMode=yes'', ''-o'', ''PasswordAuthentication=no'',
      ''-o'', ''KbdInteractiveAuthentication=no'', ''-o'', ''PreferredAuthentications=publickey'',
      ''-o'', ''IdentitiesOnly=yes'', ''-o'', ''StrictHostKeyChecking='' @ as_openssh_value (oe_host_key_checking ep)]
     @ (if oe_host_key_checking ep = ModeNo then [''-o'', ''UserKnownHostsFile='' @ null_known_hosts_path]
        else case oe_known_hosts ep of Some path \<Rightarrow> [''-o'', ''UserKnownHostsFile='' @ display path] | None \<Rightarrow> [])
     @ [''-o'', ''LogLevel=ERROR'']
     @ (case oe_jump ep of
          None \<Rightarrow> []
        | Some jump \<Rightarrow>
            (case openssh_proxy_command (oe_host ep) (oe_port ep) jump (oe_host_key_checking ep) (oe_known_hosts ep) of
               None \<Rightarrow> []
             | Some proxy \<Rightarrow> [''-o'', ''ProxyCommand='' @ proxy]))"

subsection \<open>Children\<close>

text \<open>A child: the program, its arguments, and the text written to its input, if that is a pipe.\<close>

record child =
  ch_program :: string
  ch_args :: "string list"
  ch_stdin :: "string option"

text \<open>How the wait for a child ends: it exits, with its status code unless a signal ended it; or the wait fails, the time
  is over, the transfer is cancelled, or the output cannot be read.\<close>

datatype child_end =
    Exited "int option" string string
  | WaitFailed io_error
  | ChildTimedOut
  | ChildCancelled
  | OutputUnread io_error
  | ReaderLost string

datatype stdin_end = StdinIo io_error | StdinTimedOut | StdinCancelled

datatype child_outcome = NotSpawned io_error | StdinBroken stdin_end | Spawned child_end

record captured_output =
  cap_status :: "int option"
  cap_stdout :: string
  cap_stderr :: string

definition succeeded :: "captured_output \<Rightarrow> bool" where
  "succeeded c \<longleftrightarrow> cap_status c = Some 0"

fun debug_transport :: "transfer_transport \<Rightarrow> string" where
  "debug_transport ExecRaw = ''ExecRaw''"
| "debug_transport Sftp = ''Sftp''"
| "debug_transport Scp = ''Scp''"
| "debug_transport Rsync = ''Rsync''"

definition unsupported :: "transfer_transport \<Rightarrow> string \<Rightarrow> engine_error" where
  "unsupported transport reason = TransportFailed (''transport '' @ debug_transport transport @ '' unsupported: '' @ reason)"

definition classify_spawn_error_with_reason :: "io_error \<Rightarrow> transfer_transport \<Rightarrow> string \<Rightarrow> engine_error" where
  "classify_spawn_error_with_reason e transport reason =
     (if e = NotFoundE then unsupported transport reason else LocalIoError e)"

definition wait_child_with_timeout :: "nat \<Rightarrow> child_end \<Rightarrow> (captured_output, engine_error) result" where
  "wait_child_with_timeout timeout_ms e =
     (case e of
        Exited status_code out err \<Rightarrow> Ok \<lparr>cap_status = status_code, cap_stdout = out, cap_stderr = err\<rparr>
      | WaitFailed io \<Rightarrow> Err (LocalIoError io)
      | ChildTimedOut \<Rightarrow> Err (TransferTimeout timeout_ms)
      | ChildCancelled \<Rightarrow> Err TransferCancelled
      | OutputUnread io \<Rightarrow> Err (LocalIoError io)
      | ReaderLost pipe \<Rightarrow> Err (TransportFailed (pipe @ '' task join failed'')))"

definition run_child :: "transfer_transport \<Rightarrow> string \<Rightarrow> nat \<Rightarrow> child_outcome \<Rightarrow> (captured_output, engine_error) result" where
  "run_child transport missing timeout_ms out =
     (case out of
        NotSpawned e \<Rightarrow> Err (classify_spawn_error_with_reason e transport missing)
      | StdinBroken (StdinIo e) \<Rightarrow> Err (LocalIoError e)
      | StdinBroken StdinTimedOut \<Rightarrow> Err (TransferTimeout timeout_ms)
      | StdinBroken StdinCancelled \<Rightarrow> Err TransferCancelled
      | Spawned e \<Rightarrow> wait_child_with_timeout timeout_ms e)"

definition show_exit_code :: "int option \<Rightarrow> string" where
  "show_exit_code c =
     (case c of
        None \<Rightarrow> ''None''
      | Some n \<Rightarrow> ''Some('' @ (if n < 0 then CHR ''-'' # show_nat (nat (- n)) else show_nat (nat n)) @ '')'')"

definition ssh_version_child :: child where
  "ssh_version_child = \<lparr>ch_program = ''ssh'', ch_args = [''-V''], ch_stdin = None\<rparr>"

definition check_local_ssh :: "transfer_transport \<Rightarrow> nat \<Rightarrow> child_outcome \<Rightarrow> (unit, engine_error) result" where
  "check_local_ssh transport timeout_ms out =
     and_then (run_child transport (''missing local OpenSSH binary '' @ [SQ] @ ''ssh'' @ [SQ]) timeout_ms out) (\<lambda>c.
       if succeeded c then Ok () else Err (unsupported transport (''local '' @ [SQ] @ ''ssh -V'' @ [SQ] @ '' failed'')))"

subsection \<open>SFTP and SCP\<close>

definition sftp_quote_token :: "string \<Rightarrow> string" where
  "sftp_quote_token s = [DQ] @ concat (map (\<lambda>c. if c = BSL then [BSL, BSL] else if c = DQ then [BSL, DQ] else [c]) s) @ [DQ]"

definition scp_remote_spec :: "openssh_endpoint \<Rightarrow> string \<Rightarrow> string" where
  "scp_remote_spec ep remote_path = oe_user ep @ ''@'' @ oe_host ep @ '':'' @ [SQ] @ escape_for_shell remote_path @ [SQ]"

definition sftp_child :: "openssh_endpoint \<Rightarrow> string \<Rightarrow> child" where
  "sftp_child ep batch =
     \<lparr>ch_program = ''sftp'',
      ch_args = [''-P'', show_nat (oe_port ep)] @ common_ssh_options ep @ [''-b'', ''-'', oe_user ep @ ''@'' @ oe_host ep],
      ch_stdin = Some batch\<rparr>"

definition scp_child :: "openssh_endpoint \<Rightarrow> string list \<Rightarrow> child" where
  "scp_child ep args =
     \<lparr>ch_program = ''scp'', ch_args = [''-P'', show_nat (oe_port ep)] @ common_ssh_options ep @ args, ch_stdin = None\<rparr>"

definition scp_version_child :: child where
  "scp_version_child = \<lparr>ch_program = ''scp'', ch_args = [''-V''], ch_stdin = None\<rparr>"

definition scp_legacy_args :: "string list \<Rightarrow> string list" where
  "scp_legacy_args extra = ''-O'' # extra"

definition scp_receive_args :: "string list \<Rightarrow> string list" where
  "scp_receive_args extra = ''-T'' # extra"

definition openssh_transport_of :: "openssh_transport \<Rightarrow> transfer_transport" where
  "openssh_transport_of transport = (case transport of OsSftp \<Rightarrow> Sftp | OsScp \<Rightarrow> Scp)"

definition openssh_bin :: "openssh_transport \<Rightarrow> string" where
  "openssh_bin transport = (case transport of OsSftp \<Rightarrow> ''sftp'' | OsScp \<Rightarrow> ''scp'')"

definition classify_openssh_failure :: "captured_output \<Rightarrow> engine_error" where
  "classify_openssh_failure c =
     TransportFailed (''OpenSSH transport failed: exit_code='' @ show_exit_code (cap_status c)
       @ ''; stderr='' @ trim (from_utf8_lossy (cap_stderr c)))"

definition run_openssh_child :: "openssh_transport \<Rightarrow> nat \<Rightarrow> child_outcome \<Rightarrow> (captured_output, engine_error) result" where
  "run_openssh_child transport timeout_ms out =
     run_child (openssh_transport_of transport) (''missing local OpenSSH binary '' @ [SQ] @ openssh_bin transport @ [SQ]) timeout_ms out"

definition openssh_checked :: "openssh_transport \<Rightarrow> nat \<Rightarrow> child_outcome \<Rightarrow> (unit, engine_error) result" where
  "openssh_checked transport timeout_ms out =
     and_then (run_openssh_child transport timeout_ms out) (\<lambda>c. if succeeded c then Ok () else Err (classify_openssh_failure c))"

text \<open>The preflight; \<open>ssh_out\<close> and \<open>tool_out\<close> are what its children come to.\<close>

definition preflight ::
  "openssh_endpoint \<Rightarrow> openssh_transport \<Rightarrow> nat \<Rightarrow> (child \<Rightarrow> child_outcome) \<Rightarrow> (unit, engine_error) result" where
  "preflight ep transport timeout_ms run =
     and_then (if oe_jump ep \<noteq> None then check_local_ssh (openssh_transport_of transport) timeout_ms (run ssh_version_child) else Ok ())
       (\<lambda>_. case transport of
          OsSftp \<Rightarrow> openssh_checked OsSftp timeout_ms (run (sftp_child ep (''quit'' @ [NL])))
        | OsScp \<Rightarrow> and_then (run_openssh_child OsScp timeout_ms (run scp_version_child)) (\<lambda>_. Ok ()))"

text \<open>One run of the tool on the tree of the side that it writes.\<close>

type_synonym tool = "child \<Rightarrow> rtree \<Rightarrow> rtree \<times> child_outcome"

definition openssh_step :: "tool \<Rightarrow> openssh_transport \<Rightarrow> nat \<Rightarrow> child \<Rightarrow> rtree \<Rightarrow> rtree \<times> (unit, engine_error) result" where
  "openssh_step run transport timeout_ms c t =
     (case run c t of (t1, out) \<Rightarrow> (t1, openssh_checked transport timeout_ms out))"

definition put_file_child :: "openssh_endpoint \<Rightarrow> openssh_transport \<Rightarrow> string \<Rightarrow> string \<Rightarrow> child" where
  "put_file_child ep transport local_path stage_path =
     (case transport of
        OsSftp \<Rightarrow> sftp_child ep (''put '' @ sftp_quote_token (display local_path) @ '' '' @ sftp_quote_token stage_path @ [NL])
      | OsScp \<Rightarrow> scp_child ep (scp_legacy_args [display local_path, scp_remote_spec ep stage_path]))"

definition get_file_child :: "openssh_endpoint \<Rightarrow> openssh_transport \<Rightarrow> string \<Rightarrow> string \<Rightarrow> child" where
  "get_file_child ep transport remote_path tmp_path =
     (case transport of
        OsSftp \<Rightarrow> sftp_child ep (''get '' @ sftp_quote_token remote_path @ '' '' @ sftp_quote_token tmp_path @ [NL])
      | OsScp \<Rightarrow> scp_child ep (scp_legacy_args (scp_receive_args [scp_remote_spec ep remote_path, tmp_path])))"

definition put_dir_child :: "openssh_endpoint \<Rightarrow> openssh_transport \<Rightarrow> string \<Rightarrow> string \<Rightarrow> string \<Rightarrow> child" where
  "put_dir_child ep transport local_path canonical stage_path =
     (case transport of
        OsSftp \<Rightarrow>
          sftp_child ep (''put -r '' @ sftp_quote_token (display local_path @ ''/.'') @ '' '' @ sftp_quote_token stage_path @ [NL])
      | OsScp \<Rightarrow> scp_child ep (scp_legacy_args [''-r'', display canonical, scp_remote_spec ep stage_path]))"

definition get_dir_child :: "openssh_endpoint \<Rightarrow> openssh_transport \<Rightarrow> string \<Rightarrow> string \<Rightarrow> child" where
  "get_dir_child ep transport remote_path extract_target =
     (case transport of
        OsSftp \<Rightarrow>
          sftp_child ep (''get -r '' @ sftp_quote_token (remote_path @ ''/.'') @ '' '' @ sftp_quote_token extract_target @ [NL])
      | OsScp \<Rightarrow> scp_child ep (scp_legacy_args (scp_receive_args [''-r'', scp_remote_spec ep remote_path, extract_target])))"

text \<open>\<open>scp -r\<close> wants its target absent. The removal runs on the host, unless the command does not get there.\<close>

record removal =
  rmv_ran :: bool
  rmv_out :: "(nat option \<times> string, engine_error) result"

definition remove_remote_dir :: "rhost \<Rightarrow> removal \<Rightarrow> string \<Rightarrow> rtree \<Rightarrow> rtree \<times> (unit, engine_error) result" where
  "remove_remote_dir h w path t =
     (case validate_remote_user_path path ''remote_stage'' of
        Err e \<Rightarrow> (t, Err e)
      | Ok _ \<Rightarrow>
          (if rmv_ran w then remove_tree (place h path) t else t,
           and_then (rmv_out w) (\<lambda>(status_code, err). ensure_remote_exec_success ''reset scp remote directory'' status_code err)))"

definition remove_local_dir :: "(unit, io_error) result \<Rightarrow> string list \<Rightarrow> rtree \<Rightarrow> rtree \<times> (unit, engine_error) result" where
  "remove_local_dir out path t =
     (case out of
        Ok _ \<Rightarrow> (remove_tree path t, Ok ())
      | Err NotFoundE \<Rightarrow> (t, Ok ())
      | Err e \<Rightarrow> (t, Err (LocalIoError e)))"

definition after :: "rtree \<times> (unit, engine_error) result \<Rightarrow> (rtree \<Rightarrow> rtree \<times> (unit, engine_error) result) \<Rightarrow>
    rtree \<times> (unit, engine_error) result" where
  "after r f = (case r of (t1, Err e) \<Rightarrow> (t1, Err e) | (t1, Ok _) \<Rightarrow> f t1)"

definition openssh_put_file ::
  "rhost \<Rightarrow> staged_world \<Rightarrow> tool \<Rightarrow> nat \<Rightarrow> openssh_endpoint \<Rightarrow> openssh_transport \<Rightarrow> string \<Rightarrow> (nat option, io_error) result \<Rightarrow> string \<Rightarrow>
   string \<Rightarrow> bool \<Rightarrow> string \<Rightarrow> rtree \<Rightarrow> rtree \<times> (transfer_staging \<times> transfer_counts, engine_error) result" where
  "openssh_put_file h w run timeout_ms ep transport remote_home source local_path remote_path overwrite tok t =
     put_file_with_remote_staging h
       (w\<lparr>sw_upload := \<lambda>stage_path. openssh_step run transport timeout_ms (put_file_child ep transport local_path stage_path)\<rparr>)
       remote_home source remote_path overwrite tok t"

definition openssh_get_file ::
  "local_world \<Rightarrow> tool \<Rightarrow> nat \<Rightarrow> openssh_endpoint \<Rightarrow> openssh_transport \<Rightarrow> string \<Rightarrow> string list \<Rightarrow> bool \<Rightarrow> string \<Rightarrow> rtree \<Rightarrow>
   rtree \<times> (transfer_staging \<times> transfer_counts, engine_error) result" where
  "openssh_get_file w run timeout_ms ep transport remote_path local_path overwrite tok t =
     get_file_with_local_staging w
       (\<lambda>tmp. openssh_step run transport timeout_ms (get_file_child ep transport remote_path (show_place tmp)))
       remote_path local_path overwrite tok t"

definition openssh_put_dir ::
  "rhost \<Rightarrow> staged_world \<Rightarrow> removal \<Rightarrow> tool \<Rightarrow> nat \<Rightarrow> openssh_endpoint \<Rightarrow> openssh_transport \<Rightarrow> string \<Rightarrow> (string, io_error) result \<Rightarrow>
   (transfer_counts, engine_error) result \<Rightarrow> string \<Rightarrow> string \<Rightarrow> bool \<Rightarrow> string \<Rightarrow> rtree \<Rightarrow>
   rtree \<times> (transfer_staging \<times> transfer_counts, engine_error) result" where
  "openssh_put_dir h w rw run timeout_ms ep transport remote_home canonicalized counted local_path remote_path overwrite tok t =
     (case and_then (map_err LocalIoError canonicalized) (\<lambda>canonical. and_then counted (\<lambda>counts. Ok (canonical, counts))) of
        Err e \<Rightarrow> (t, Err e)
      | Ok (canonical, counts) \<Rightarrow>
          put_dir_with_remote_staging h
            (w\<lparr>sw_upload := \<lambda>stage_path t.
                 after (if transport = OsScp then remove_remote_dir h rw stage_path t else (t, Ok ()))
                   (openssh_step run transport timeout_ms (put_dir_child ep transport local_path canonical stage_path))\<rparr>)
            remote_home remote_path overwrite tok counts t)"

definition openssh_get_dir ::
  "local_world \<Rightarrow> (unit, io_error) result \<Rightarrow> tool \<Rightarrow> nat \<Rightarrow> openssh_endpoint \<Rightarrow> openssh_transport \<Rightarrow> (unit, engine_error) result \<Rightarrow>
   (string list \<Rightarrow> rtree \<Rightarrow> (transfer_counts, engine_error) result) \<Rightarrow> string \<Rightarrow> string list \<Rightarrow> bool \<Rightarrow> string \<Rightarrow> rtree \<Rightarrow>
   rtree \<times> (transfer_staging \<times> transfer_counts, engine_error) result" where
  "openssh_get_dir w removed run timeout_ms ep transport validated count_dir remote_path local_path overwrite tok t =
     get_dir_with_local_staging w
       (\<lambda>target t. after (if transport = OsScp then remove_local_dir removed target t else (t, Ok ()))
          (openssh_step run transport timeout_ms (get_dir_child ep transport remote_path (show_place target))))
       validated count_dir remote_path local_path overwrite tok t"

definition dispatch_transfer :: "transfer_operation \<Rightarrow> transfer_kind \<Rightarrow> 'r \<Rightarrow> 'r \<Rightarrow> 'r \<Rightarrow> 'r \<Rightarrow> 'r" where
  "dispatch_transfer operation kind put_file get_file put_dir get_dir =
     (case (operation, kind) of
        (OpPut, KindFile) \<Rightarrow> put_file
      | (OpGet, KindFile) \<Rightarrow> get_file
      | (OpPut, KindDirectory) \<Rightarrow> put_dir
      | (OpGet, KindDirectory) \<Rightarrow> get_dir)"

subsection \<open>rsync\<close>

definition rsync_version_child :: child where
  "rsync_version_child = \<lparr>ch_program = ''rsync'', ch_args = [''--version''], ch_stdin = None\<rparr>"

definition run_rsync_child :: "nat \<Rightarrow> child_outcome \<Rightarrow> (captured_output, engine_error) result" where
  "run_rsync_child timeout_ms out = run_child Rsync ''missing local rsync binary'' timeout_ms out"

definition check_local_rsync :: "nat \<Rightarrow> child_outcome \<Rightarrow> (unit, engine_error) result" where
  "check_local_rsync timeout_ms out =
     and_then (run_rsync_child timeout_ms out) (\<lambda>c.
       if succeeded c then Ok () else Err (TransportFailed ''rsync --version failed''))"

definition remote_rsync_command :: string where
  "remote_rsync_command = ''sh -c '' @ [SQ] @ ''command -v rsync'' @ [SQ]"

definition check_remote_rsync :: "(nat option \<times> string, engine_error) result \<Rightarrow> (bool, engine_error) result" where
  "check_remote_rsync out = and_then out (\<lambda>(status_code, stdout). Ok (status_code = Some 0 \<and> trim stdout \<noteq> []))"

definition build_ssh_options :: "rsync_endpoint \<Rightarrow> string" where
  "build_ssh_options ep =
     join SPACE
       ([''-o'', ''BatchMode=yes'', ''-o'', ''IdentitiesOnly=yes'',
         ''-o'', ''StrictHostKeyChecking='' @ as_openssh_value (re_host_key_checking ep)]
        @ (if re_host_key_checking ep = ModeNo then [''-o'', ''UserKnownHostsFile='' @ null_known_hosts_path]
           else case re_known_hosts ep of
             Some path \<Rightarrow> [''-o'', ''UserKnownHostsFile='' @ sh_quote (display path)]
           | None \<Rightarrow> [])
        @ [''-o'', ''LogLevel=ERROR'']
        @ (if re_port ep \<noteq> 22 then [''-p'', show_nat (re_port ep)] else [])
        @ (case re_key_path ep of Some key \<Rightarrow> [''-i'', sh_quote (display key)] | None \<Rightarrow> [])
        @ (case re_jump ep of
             None \<Rightarrow> []
           | Some jump \<Rightarrow>
               (case openssh_proxy_command (re_host ep) (re_port ep) jump (re_host_key_checking ep) (re_known_hosts ep) of
                  None \<Rightarrow> []
                | Some proxy \<Rightarrow> [''-o'', sh_quote (''ProxyCommand='' @ proxy)])))"

definition rsync_remote_spec :: "rsync_endpoint \<Rightarrow> string \<Rightarrow> string" where
  "rsync_remote_spec ep remote_path = re_user ep @ ''@'' @ re_host ep @ '':'' @ remote_path"

definition rsync_child :: "rsync_endpoint \<Rightarrow> rsync_options \<Rightarrow> string \<Rightarrow> string \<Rightarrow> child" where
  "rsync_child ep options src dst =
     \<lparr>ch_program = ''rsync'',
      ch_args = [''--archive'', ''--checksum'', ''--inplace'', ''--partial'', ''--stats'']
        @ (if ro_compress options then [''--compress''] else [])
        @ (if ro_delete options then [''--delete''] else [])
        @ [''-e'', ''ssh '' @ build_ssh_options ep, src, dst],
      ch_stdin = None\<rparr>"

text \<open>The counts in the statistics, one line at a time: the files, the bytes, and whether the preferred count was found.\<close>

definition stats_line :: "string \<Rightarrow> nat \<times> nat \<times> bool \<Rightarrow> nat \<times> nat \<times> bool" where
  "stats_line line st =
     (case st of (files, bytes, found) \<Rightarrow>
       (case strip_prefix line ''Number of regular files transferred: '' of
          Some rest \<Rightarrow> (case parse_unsigned 10 U64 rest of Some n \<Rightarrow> (n, bytes, True) | None \<Rightarrow> st)
        | None \<Rightarrow>
            (case strip_prefix line ''Number of files: '' of
               Some rest \<Rightarrow>
                 (if found then st
                  else case Option.bind (split_whitespace_first rest) (parse_unsigned 10 U64) of
                    Some n \<Rightarrow> (n, bytes, found) | None \<Rightarrow> st)
             | None \<Rightarrow>
                 (case strip_prefix line ''Total transferred file size: '' of
                    Some rest \<Rightarrow>
                      (case parse_unsigned 10 U64 (filter is_ascii_digit rest) of Some n \<Rightarrow> (files, n, found) | None \<Rightarrow> st)
                  | None \<Rightarrow> st))))"

definition parse_rsync_stats :: "string \<Rightarrow> transfer_counts" where
  "parse_rsync_stats stdout =
     (case fold stats_line (str_lines stdout) (0, 0, False) of
        (files, bytes, _) \<Rightarrow> \<lparr>tr_bytes = bytes, tr_files = files, tr_directories = 0\<rparr>)"

definition classify_rsync_failure :: "int option \<Rightarrow> string \<Rightarrow> engine_error" where
  "classify_rsync_failure status_code stderr =
     (let low = to_lowercase stderr; says = (\<lambda>ws. \<exists>w\<in>set ws. str_contains low w) in
      TransportFailed
        (if says [''rsync: not found'', ''rsync: command not found'', ''could not find rsync'']
         then ''rsync not found on remote host after preflight''
         else if says [''connection refused'', ''connection timed out'', ''no route to host'', ''network is unreachable'']
         then ''rsync failed: network error; stderr='' @ trim stderr
         else if says [''permission denied'', ''access denied'']
         then ''rsync failed: permission denied; stderr='' @ trim stderr
         else ''rsync failed: exit_code='' @ show_exit_code status_code @ ''; stderr='' @ trim stderr))"

definition run_rsync_tool ::
  "tool \<Rightarrow> nat \<Rightarrow> rsync_endpoint \<Rightarrow> rsync_options \<Rightarrow> string \<Rightarrow> string \<Rightarrow> rtree \<Rightarrow> rtree \<times> (transfer_counts, engine_error) result" where
  "run_rsync_tool run timeout_ms ep options src dst t =
     (case run (rsync_child ep options src dst) t of
        (t1, out) \<Rightarrow>
          (t1, and_then (run_rsync_child timeout_ms out) (\<lambda>c.
             if \<not> succeeded c then Err (classify_rsync_failure (cap_status c) (from_utf8_lossy (cap_stderr c)))
             else Ok (parse_rsync_stats (from_utf8_lossy (cap_stdout c))))))"

definition rsync_step ::
  "tool \<Rightarrow> nat \<Rightarrow> rsync_endpoint \<Rightarrow> rsync_options \<Rightarrow> string \<Rightarrow> string \<Rightarrow> rtree \<Rightarrow> rtree \<times> (unit, engine_error) result" where
  "rsync_step run timeout_ms ep options src dst t =
     (case run_rsync_tool run timeout_ms ep options src dst t of (t1, r) \<Rightarrow> (t1, and_then r (\<lambda>_. Ok ())))"

definition rsync_put_file ::
  "rhost \<Rightarrow> staged_world \<Rightarrow> tool \<Rightarrow> nat \<Rightarrow> rsync_endpoint \<Rightarrow> rsync_options \<Rightarrow> string \<Rightarrow> (nat option, io_error) result \<Rightarrow> string \<Rightarrow>
   string \<Rightarrow> bool \<Rightarrow> string \<Rightarrow> rtree \<Rightarrow> rtree \<times> (transfer_staging \<times> transfer_counts, engine_error) result" where
  "rsync_put_file h w run timeout_ms ep options remote_home source local_path remote_path overwrite tok t =
     put_file_with_remote_staging h
       (w\<lparr>sw_upload := \<lambda>stage_path. rsync_step run timeout_ms ep options (display local_path) (rsync_remote_spec ep stage_path)\<rparr>)
       remote_home source remote_path overwrite tok t"

definition rsync_get_file ::
  "local_world \<Rightarrow> tool \<Rightarrow> nat \<Rightarrow> rsync_endpoint \<Rightarrow> rsync_options \<Rightarrow> string \<Rightarrow> string list \<Rightarrow> bool \<Rightarrow> string \<Rightarrow> rtree \<Rightarrow>
   rtree \<times> (transfer_staging \<times> transfer_counts, engine_error) result" where
  "rsync_get_file w run timeout_ms ep options remote_path local_path overwrite tok t =
     get_file_with_local_staging w
       (\<lambda>tmp. rsync_step run timeout_ms ep options (rsync_remote_spec ep remote_path) (show_place tmp))
       remote_path local_path overwrite tok t"

definition rsync_put_dir ::
  "rhost \<Rightarrow> staged_world \<Rightarrow> tool \<Rightarrow> nat \<Rightarrow> rsync_endpoint \<Rightarrow> rsync_options \<Rightarrow> string \<Rightarrow> (transfer_counts, engine_error) result \<Rightarrow> string \<Rightarrow>
   string \<Rightarrow> bool \<Rightarrow> string \<Rightarrow> rtree \<Rightarrow> rtree \<times> (transfer_staging \<times> transfer_counts, engine_error) result" where
  "rsync_put_dir h w run timeout_ms ep options remote_home counted local_path remote_path overwrite tok t =
     (case counted of
        Err e \<Rightarrow> (t, Err e)
      | Ok counts \<Rightarrow>
          put_dir_with_remote_staging h
            (w\<lparr>sw_upload := \<lambda>stage_path.
                 rsync_step run timeout_ms ep options (display local_path @ ''/.'') (rsync_remote_spec ep stage_path)\<rparr>)
            remote_home remote_path overwrite tok counts t)"

definition rsync_get_dir ::
  "local_world \<Rightarrow> tool \<Rightarrow> nat \<Rightarrow> rsync_endpoint \<Rightarrow> rsync_options \<Rightarrow> (unit, engine_error) result \<Rightarrow>
   (string list \<Rightarrow> rtree \<Rightarrow> (transfer_counts, engine_error) result) \<Rightarrow> string \<Rightarrow> string list \<Rightarrow> bool \<Rightarrow> string \<Rightarrow> rtree \<Rightarrow>
   rtree \<times> (transfer_staging \<times> transfer_counts, engine_error) result" where
  "rsync_get_dir w run timeout_ms ep options validated count_dir remote_path local_path overwrite tok t =
     get_dir_with_local_staging w
       (\<lambda>target. rsync_step run timeout_ms ep options (rsync_remote_spec ep (remote_path @ ''/.'')) (show_place target))
       validated count_dir remote_path local_path overwrite tok t"

text \<open>The checks of \<open>rsync::run_transfer\<close> before the transfer.\<close>

definition rsync_preflight ::
  "rsync_endpoint \<Rightarrow> nat \<Rightarrow> (child \<Rightarrow> child_outcome) \<Rightarrow> (nat option \<times> string, engine_error) result \<Rightarrow> (unit, engine_error) result" where
  "rsync_preflight ep timeout_ms run remote =
     and_then (if re_jump ep \<noteq> None then check_local_ssh Rsync timeout_ms (run ssh_version_child) else Ok ()) (\<lambda>_.
     and_then (check_local_rsync timeout_ms (run rsync_version_child)) (\<lambda>_.
     and_then (check_remote_rsync remote) (\<lambda>there.
       if there then Ok () else Err (unsupported Rsync ''rsync not found on remote host''))))"

subsection \<open>The whole transports\<close>

text \<open>What \<open>run_transfer\<close> gets beside the endpoint, and what it meets on both sides. A transport changes the tree of the side
  that it writes.\<close>

record transport_call =
  tc_operation :: transfer_operation
  tc_kind :: transfer_kind
  tc_local_path :: string
  tc_local_place :: "string list"
  tc_remote_path :: string
  tc_remote_home :: string
  tc_overwrite :: bool
  tc_token :: string
  tc_timeout_ms :: nat

record transport_world =
  tw_host :: rhost
  tw_staged :: staged_world
  tw_local :: local_world
  tw_tool :: tool
  tw_probe :: "child \<Rightarrow> child_outcome"
  tw_remote_rsync :: "(nat option \<times> string, engine_error) result"
  tw_source :: "(nat option, io_error) result"
  tw_canonical :: "(string, io_error) result"
  tw_counted :: "(transfer_counts, engine_error) result"
  tw_validated :: "(unit, engine_error) result"
  tw_count_dir :: "string list \<Rightarrow> rtree \<Rightarrow> (transfer_counts, engine_error) result"
  tw_removal :: removal
  tw_local_removal :: "(unit, io_error) result"

definition openssh_run_transfer ::
  "transport_world \<Rightarrow> openssh_endpoint \<Rightarrow> openssh_transport \<Rightarrow> transport_call \<Rightarrow> rtree \<Rightarrow>
   rtree \<times> (transfer_staging \<times> transfer_counts, engine_error) result" where
  "openssh_run_transfer w ep transport c t =
     (let ms = tc_timeout_ms c in
      case preflight ep transport ms (tw_probe w) of
        Err e \<Rightarrow> (t, Err e)
      | Ok _ \<Rightarrow>
          dispatch_transfer (tc_operation c) (tc_kind c)
            (openssh_put_file (tw_host w) (tw_staged w) (tw_tool w) ms ep transport (tc_remote_home c) (tw_source w) (tc_local_path c)
               (tc_remote_path c) (tc_overwrite c) (tc_token c) t)
            (openssh_get_file (tw_local w) (tw_tool w) ms ep transport (tc_remote_path c) (tc_local_place c) (tc_overwrite c)
               (tc_token c) t)
            (openssh_put_dir (tw_host w) (tw_staged w) (tw_removal w) (tw_tool w) ms ep transport (tc_remote_home c) (tw_canonical w)
               (tw_counted w) (tc_local_path c) (tc_remote_path c) (tc_overwrite c) (tc_token c) t)
            (openssh_get_dir (tw_local w) (tw_local_removal w) (tw_tool w) ms ep transport (tw_validated w) (tw_count_dir w)
               (tc_remote_path c) (tc_local_place c) (tc_overwrite c) (tc_token c) t))"

definition rsync_run_transfer ::
  "transport_world \<Rightarrow> rsync_endpoint \<Rightarrow> rsync_options \<Rightarrow> transport_call \<Rightarrow> rtree \<Rightarrow>
   rtree \<times> (transfer_staging \<times> transfer_counts, engine_error) result" where
  "rsync_run_transfer w ep options c t =
     (let ms = tc_timeout_ms c in
      case rsync_preflight ep ms (tw_probe w) (tw_remote_rsync w) of
        Err e \<Rightarrow> (t, Err e)
      | Ok _ \<Rightarrow>
          dispatch_transfer (tc_operation c) (tc_kind c)
            (rsync_put_file (tw_host w) (tw_staged w) (tw_tool w) ms ep options (tc_remote_home c) (tw_source w) (tc_local_path c)
               (tc_remote_path c) (tc_overwrite c) (tc_token c) t)
            (rsync_get_file (tw_local w) (tw_tool w) ms ep options (tc_remote_path c) (tc_local_place c) (tc_overwrite c) (tc_token c) t)
            (rsync_put_dir (tw_host w) (tw_staged w) (tw_tool w) ms ep options (tc_remote_home c) (tw_counted w) (tc_local_path c)
               (tc_remote_path c) (tc_overwrite c) (tc_token c) t)
            (rsync_get_dir (tw_local w) (tw_tool w) ms ep options (tw_validated w) (tw_count_dir w) (tc_remote_path c)
               (tc_local_place c) (tc_overwrite c) (tc_token c) t))"

subsection \<open>Reading command lines\<close>

text \<open>How OpenSSH's programs read their arguments: an option with a value takes the next argument, whatever it is, unless the
  value is attached to it; the first argument that is no option ends the options.\<close>

fun getopt :: "string list \<Rightarrow> (string \<times> string) list" where
  "getopt [] = []"
| "getopt (a # rest) =
     (let valued = (\<lambda>x. x \<in> {''-i'', ''-o'', ''-p'', ''-P'', ''-W'', ''-b''}) in
      if valued a then (case rest of [] \<Rightarrow> [] | v # rest' \<Rightarrow> (a, v) # getopt rest')
      else if a \<in> {''-O'', ''-T'', ''-r''} then getopt rest
      else if valued (take 2 a) then (take 2 a, drop 2 a) # getopt rest
      else [])"

definition chosen :: "string \<Rightarrow> (string \<times> string) list \<Rightarrow> string list" where
  "chosen name ps = map snd (filter (\<lambda>(a, v). a = ''-o'' \<and> starts_with v (name @ ''='')) ps)"

definition settings :: "string \<Rightarrow> string list \<Rightarrow> string list" where
  "settings name args = chosen name (getopt args)"

text \<open>The words of a batch line: separated by spaces; inside double quotes a backslash makes the next character literal.\<close>

fun sftp_words :: "bool \<Rightarrow> string option \<Rightarrow> string \<Rightarrow> string list option" where
  "sftp_words quoted w [] = (if quoted then None else Some (case w of None \<Rightarrow> [] | Some x \<Rightarrow> [x]))"
| "sftp_words True w (c # cs) =
     (if c = DQ then sftp_words False w cs
      else if c = BSL then (case cs of [] \<Rightarrow> None | d # ds \<Rightarrow> sftp_words True (Some ((case w of None \<Rightarrow> [] | Some x \<Rightarrow> x) @ [d])) ds)
      else sftp_words True (Some ((case w of None \<Rightarrow> [] | Some x \<Rightarrow> x) @ [c])) cs)"
| "sftp_words False w (c # cs) =
     (if c = DQ then sftp_words True (Some (case w of None \<Rightarrow> [] | Some x \<Rightarrow> x)) cs
      else if c = CHR '' '' then map_option ((@) (case w of None \<Rightarrow> [] | Some x \<Rightarrow> [x])) (sftp_words False None cs)
      else sftp_words False (Some ((case w of None \<Rightarrow> [] | Some x \<Rightarrow> x) @ [c])) cs)"

section \<open>Lemmas\<close>

subsection \<open>Words of a shell\<close>

text \<open>A text that a shell reads as a part of a word with the value \<open>v\<close>.\<close>

definition word_text :: "string \<Rightarrow> string \<Rightarrow> bool" where
  "word_text s v \<longleftrightarrow>
     (\<exists>ps. static_word ps = Some v \<and> (\<forall>w rest. sh_lex Unq w (s @ rest) = sh_lex Unq (Some (the_word w @ ps)) rest))"

definition plain_char :: "char \<Rightarrow> bool" where
  "plain_char c \<longleftrightarrow> \<not> sh_special c \<and> c \<notin> {SQ, DQ, CHR '' '', CHR ''|'', CHR '';''}"

lemma static_word_append: "static_word a = Some x \<Longrightarrow> static_word b = Some y \<Longrightarrow> static_word (a @ b) = Some (x @ y)"
  by (induction a arbitrary: x rule: static_word.induct) auto

lemma the_word_Some [simp]: "the_word (Some w) = w"
  by (simp add: the_word_def)

lemma word_text_append: "word_text s v \<Longrightarrow> word_text s' v' \<Longrightarrow> word_text (s @ s') (v @ v')"
  unfolding word_text_def by (metis append.assoc static_word_append the_word_Some)

lemma word_text_plain: "s \<noteq> [] \<Longrightarrow> list_all plain_char s \<Longrightarrow> word_text s s"
proof -
  assume s: "s \<noteq> []" "list_all plain_char s"
  have "sh_lex Unq w (s @ rest) = sh_lex Unq (Some (the_word w @ map Raw s)) rest" for w rest
  proof (cases s)
    case (Cons c cs)
    then have "sh_lex Unq w (s @ rest) = sh_lex Unq (Some (the_word w @ [Raw c])) (cs @ rest)"
      using s(2) by (simp add: plain_char_def)
    also have "\<dots> = sh_lex Unq (Some ((the_word w @ [Raw c]) @ map Raw cs)) rest"
      using s(2) Cons by (intro sh_lex_unq_plain) (simp add: plain_char_def list_all_iff)
    finally show ?thesis by (simp add: Cons)
  qed (use s in simp)
  moreover have "static_word (map Raw s) = Some s" using static_word_raw[of s "[]"] by simp
  ultimately show ?thesis by (auto simp: word_text_def)
qed

lemma word_text_quote: "word_text (sh_quote v) v"
  unfolding word_text_def sh_quote_def
  by (rule exI[of _ "map Quoted v"]) (simp add: sh_lex_escaped the_word_def split: option.split)

lemma sh_lex_words:
  assumes "list_all2 word_text ts vs" "ts \<noteq> []"
  shows "\<exists>pss. map static_word pss = map Some vs \<and> sh_lex Unq None (join SPACE ts) = Some (map Word pss)"
  using assms
proof (induction ts vs rule: list_all2_induct)
  case (Cons t ts v vs)
  obtain ps where ps: "static_word ps = Some v" "\<And>w rest. sh_lex Unq w (t @ rest) = sh_lex Unq (Some (the_word w @ ps)) rest"
    using Cons.hyps(1) by (auto simp: word_text_def)
  show ?case
  proof (cases ts)
    case Nil
    then show ?thesis using Cons.hyps ps ps(2)[of None "[]"] by (intro exI[of _ "[ps]"]) (simp add: the_word_def flush_def)
  next
    case (Cons t' ts')
    then obtain pss where "map static_word pss = map Some vs" "sh_lex Unq None (join SPACE ts) = Some (map Word pss)"
      using Cons.IH by auto
    with ps Cons show ?thesis
      by (intro exI[of _ "ps # pss"]) (simp add: SPACE_def the_word_def flush_def)
  qed
qed simp

lemma sh_pipeline_words: "map static_word pss = map Some vs \<Longrightarrow> sh_pipeline (map Word pss) = Some [vs]"
  by (induction pss arbitrary: vs) (auto simp: Cons_eq_map_conv)

lemma sh_argv_words: "list_all2 word_text ts vs \<Longrightarrow> ts \<noteq> [] \<Longrightarrow> sh_argv (join SPACE ts) = Some [vs]"
  using sh_lex_words[of ts vs] by (auto simp: sh_argv_def sh_read_def dest: sh_pipeline_words)

lemma word_text_number: "word_text (show_nat n) (show_nat n)"
  using show_nat_digits plain_number_chars[of "show_nat n"]
  by (intro word_text_plain) (auto simp: plain_char_def list_all_iff)

lemma word_text_mode: "word_text (as_openssh_value mode) (as_openssh_value mode)"
  by (rule word_text_plain; cases mode; simp add: plain_char_def sh_special_def)

text \<open>A literal word.\<close>

lemma word_text_literal: "s \<noteq> [] \<and> list_all plain_char s \<Longrightarrow> word_text s s"
  by (simp add: word_text_plain)

lemmas word_texts = word_text_quote word_text_number word_text_mode
  word_text_append[OF word_text_literal word_text_mode] word_text_append[OF word_text_literal word_text_quote] word_text_literal

text \<open>The arguments that the two command lines stand for.\<close>

definition known_hosts_setting :: "host_key_check_mode \<Rightarrow> string option \<Rightarrow> string list" where
  "known_hosts_setting mode known_hosts =
     (if mode = ModeNo then [''-o'', ''UserKnownHostsFile=/dev/null'']
      else case known_hosts of Some path \<Rightarrow> [''-o'', ''UserKnownHostsFile='' @ display path] | None \<Rightarrow> [])"

definition jump_args :: "string \<Rightarrow> nat \<Rightarrow> transfer_jump_options \<Rightarrow> host_key_check_mode \<Rightarrow> string option \<Rightarrow> string \<Rightarrow> string list" where
  "jump_args target_host target_port jump mode known_hosts key =
     [''-i'', display key, ''-p'', show_nat (jo_port jump),
      ''-o'', ''BatchMode=yes'', ''-o'', ''PasswordAuthentication=no'', ''-o'', ''KbdInteractiveAuthentication=no'',
      ''-o'', ''PreferredAuthentications=publickey'', ''-o'', ''IdentitiesOnly=yes'',
      ''-o'', ''StrictHostKeyChecking='' @ as_openssh_value mode]
     @ known_hosts_setting mode known_hosts
     @ [''-W'', target_host @ '':'' @ show_nat target_port, jo_user jump @ ''@'' @ jo_host jump]"

definition proxy_setting :: "string \<Rightarrow> nat \<Rightarrow> transfer_jump_options option \<Rightarrow> host_key_check_mode \<Rightarrow> string option \<Rightarrow> string list" where
  "proxy_setting host port jump mode known_hosts =
     (case jump of
        None \<Rightarrow> []
      | Some j \<Rightarrow>
          (case openssh_proxy_command host port j mode known_hosts of
             None \<Rightarrow> []
           | Some proxy \<Rightarrow> [''-o'', ''ProxyCommand='' @ proxy]))"

definition rsync_ssh_args :: "rsync_endpoint \<Rightarrow> string list" where
  "rsync_ssh_args ep =
     [''-o'', ''BatchMode=yes'', ''-o'', ''IdentitiesOnly=yes'',
      ''-o'', ''StrictHostKeyChecking='' @ as_openssh_value (re_host_key_checking ep)]
     @ known_hosts_setting (re_host_key_checking ep) (re_known_hosts ep)
     @ [''-o'', ''LogLevel=ERROR'']
     @ (if re_port ep \<noteq> 22 then [''-p'', show_nat (re_port ep)] else [])
     @ (case re_key_path ep of Some key \<Rightarrow> [''-i'', display key] | None \<Rightarrow> [])
     @ proxy_setting (re_host ep) (re_port ep) (re_jump ep) (re_host_key_checking ep) (re_known_hosts ep)"

lemma list_all2_words_append:
  "list_all2 word_text a x \<Longrightarrow> list_all2 word_text b y \<Longrightarrow> list_all2 word_text (a @ b) (x @ y)"
  by (rule list_all2_appendI)

lemma known_hosts_words:
  "list_all2 word_text (if mode = ModeNo then [''-o'', ''UserKnownHostsFile=/dev/null'']
     else case known_hosts of Some path \<Rightarrow> [''-o'', sh_quote (''UserKnownHostsFile='' @ display path)] | None \<Rightarrow> [])
   (known_hosts_setting mode known_hosts)"
  "list_all2 word_text (if mode = ModeNo then [''-o'', ''UserKnownHostsFile='' @ null_known_hosts_path]
     else case known_hosts of Some path \<Rightarrow> [''-o'', ''UserKnownHostsFile='' @ sh_quote (display path)] | None \<Rightarrow> [])
   (known_hosts_setting mode known_hosts)"
proof -
  have o: "word_text ''-o'' ''-o''" "word_text ''UserKnownHostsFile=/dev/null'' ''UserKnownHostsFile=/dev/null''"
    "word_text ''UserKnownHostsFile='' ''UserKnownHostsFile=''"
    by (rule word_text_literal; simp add: plain_char_def sh_special_def)+
  have "word_text (''UserKnownHostsFile='' @ sh_quote x) (''UserKnownHostsFile='' @ x)" for x
    by (rule word_text_append[OF o(3) word_text_quote])
  then show "list_all2 word_text (if mode = ModeNo then [''-o'', ''UserKnownHostsFile=/dev/null'']
     else case known_hosts of Some path \<Rightarrow> [''-o'', sh_quote (''UserKnownHostsFile='' @ display path)] | None \<Rightarrow> [])
   (known_hosts_setting mode known_hosts)"
   "list_all2 word_text (if mode = ModeNo then [''-o'', ''UserKnownHostsFile='' @ null_known_hosts_path]
     else case known_hosts of Some path \<Rightarrow> [''-o'', ''UserKnownHostsFile='' @ sh_quote (display path)] | None \<Rightarrow> [])
   (known_hosts_setting mode known_hosts)"
    using o word_text_quote[of "''UserKnownHostsFile='' @ y" for y]
    by (auto simp: known_hosts_setting_def null_known_hosts_path_def split: option.split)
qed

lemma ssh_option_words:
  "list_all2 word_text [''ssh'', ''-i'', ''-p'', ''-W'', ''-o''] [''ssh'', ''-i'', ''-p'', ''-W'', ''-o'']"
  "list_all2 word_text [''BatchMode=yes'', ''PasswordAuthentication=no'', ''KbdInteractiveAuthentication=no'',
      ''PreferredAuthentications=publickey'', ''IdentitiesOnly=yes'', ''LogLevel=ERROR'']
     [''BatchMode=yes'', ''PasswordAuthentication=no'', ''KbdInteractiveAuthentication=no'',
      ''PreferredAuthentications=publickey'', ''IdentitiesOnly=yes'', ''LogLevel=ERROR'']"
  "word_text (''StrictHostKeyChecking='' @ as_openssh_value mode) (''StrictHostKeyChecking='' @ as_openssh_value mode)"
proof -
  have l: "s \<noteq> [] \<and> list_all plain_char s \<Longrightarrow> word_text s s" for s by (rule word_text_literal)
  show "list_all2 word_text [''ssh'', ''-i'', ''-p'', ''-W'', ''-o''] [''ssh'', ''-i'', ''-p'', ''-W'', ''-o'']"
   "list_all2 word_text [''BatchMode=yes'', ''PasswordAuthentication=no'', ''KbdInteractiveAuthentication=no'',
      ''PreferredAuthentications=publickey'', ''IdentitiesOnly=yes'', ''LogLevel=ERROR'']
     [''BatchMode=yes'', ''PasswordAuthentication=no'', ''KbdInteractiveAuthentication=no'',
      ''PreferredAuthentications=publickey'', ''IdentitiesOnly=yes'', ''LogLevel=ERROR'']"
    by (simp_all only: list_all2_Cons list_all2_Nil simp_thms) (intro conjI l; simp add: plain_char_def sh_special_def)+
  show "word_text (''StrictHostKeyChecking='' @ as_openssh_value mode) (''StrictHostKeyChecking='' @ as_openssh_value mode)"
    by (rule word_text_append[OF l word_text_mode]) (simp add: plain_char_def sh_special_def)
qed

lemmas ssh_words = ssh_option_words(1,2)[simplified list_all2_Cons list_all2_Nil simp_thms]

lemma proxy_command_words:
  assumes "openssh_proxy_command host port jump mode known_hosts = Some line"
  shows "\<exists>key. jo_key_path jump = Some key \<and> sh_argv line = Some [''ssh'' # jump_args host port jump mode known_hosts key]"
proof -
  obtain key where key: "jo_key_path jump = Some key" using assms by (auto simp: openssh_proxy_command_def)
  let ?a = "[''ssh'', ''-i'', sh_quote (display key), ''-p'', show_nat (jo_port jump),
         ''-o'', ''BatchMode=yes'', ''-o'', ''PasswordAuthentication=no'', ''-o'', ''KbdInteractiveAuthentication=no'',
         ''-o'', ''PreferredAuthentications=publickey'', ''-o'', ''IdentitiesOnly=yes'',
         ''-o'', ''StrictHostKeyChecking='' @ as_openssh_value mode]"
  let ?b = "if mode = ModeNo then [''-o'', ''UserKnownHostsFile=/dev/null'']
     else case known_hosts of Some path \<Rightarrow> [''-o'', sh_quote (''UserKnownHostsFile='' @ display path)] | None \<Rightarrow> []"
  let ?c = "[''-W'', sh_quote (host @ '':'' @ show_nat port), sh_quote (jo_user jump @ ''@'' @ jo_host jump)]"
  have line: "line = join SPACE (?a @ ?b @ ?c)"
    using assms by (simp only: openssh_proxy_command_def key option.map option.inject)
  have "list_all2 word_text (?a @ ?b @ ?c) (''ssh'' # jump_args host port jump mode known_hosts key)"
    unfolding jump_args_def append_Cons[symmetric]
    by (intro list_all2_words_append known_hosts_words(1))
      (simp_all only: list_all2_Cons list_all2_Nil simp_thms ssh_words ssh_option_words(3) word_text_quote word_text_number)
  then have "sh_argv line = Some [''ssh'' # jump_args host port jump mode known_hosts key]"
    unfolding line by (rule sh_argv_words) simp
  with key show ?thesis by blast
qed

lemma rsync_ssh_words: "sh_argv (''ssh '' @ build_ssh_options ep) = Some [''ssh'' # rsync_ssh_args ep]"
proof -
  let ?m = "re_host_key_checking ep"
  let ?a = "[''-o'', ''BatchMode=yes'', ''-o'', ''IdentitiesOnly=yes'', ''-o'', ''StrictHostKeyChecking='' @ as_openssh_value ?m]"
  let ?b = "if ?m = ModeNo then [''-o'', ''UserKnownHostsFile='' @ null_known_hosts_path]
     else case re_known_hosts ep of Some path \<Rightarrow> [''-o'', ''UserKnownHostsFile='' @ sh_quote (display path)] | None \<Rightarrow> []"
  let ?c = "[''-o'', ''LogLevel=ERROR'']"
  let ?d = "if re_port ep \<noteq> 22 then [''-p'', show_nat (re_port ep)] else []"
  let ?e = "case re_key_path ep of Some key \<Rightarrow> [''-i'', sh_quote (display key)] | None \<Rightarrow> []"
  let ?f = "case re_jump ep of None \<Rightarrow> [] | Some jump \<Rightarrow>
     (case openssh_proxy_command (re_host ep) (re_port ep) jump ?m (re_known_hosts ep) of
        None \<Rightarrow> [] | Some proxy \<Rightarrow> [''-o'', sh_quote (''ProxyCommand='' @ proxy)])"
  have line: "''ssh '' @ build_ssh_options ep = join SPACE (''ssh'' # (?a @ ?b @ ?c @ ?d @ ?e @ ?f))"
    unfolding build_ssh_options_def by (simp add: SPACE_def)
  have d: "list_all2 word_text ?d (if re_port ep \<noteq> 22 then [''-p'', show_nat (re_port ep)] else [])"
    by (cases "re_port ep = 22") (simp_all only: list_all2_Cons list_all2_Nil simp_thms if_True if_False ssh_words word_text_number)
  have e: "list_all2 word_text ?e (case re_key_path ep of Some key \<Rightarrow> [''-i'', display key] | None \<Rightarrow> [])"
    by (cases "re_key_path ep") (simp_all only: option.case list_all2_Cons list_all2_Nil simp_thms ssh_words word_text_quote)
  have f: "list_all2 word_text ?f (proxy_setting (re_host ep) (re_port ep) (re_jump ep) ?m (re_known_hosts ep))"
  proof (cases "re_jump ep")
    case (Some j)
    then show ?thesis
      by (cases "openssh_proxy_command (re_host ep) (re_port ep) j ?m (re_known_hosts ep)")
        (simp_all only: proxy_setting_def option.case list_all2_Cons list_all2_Nil simp_thms ssh_words word_text_quote)
  qed (simp only: proxy_setting_def option.case list_all2_Nil)
  have "list_all2 word_text (?a @ ?b @ ?c @ ?d @ ?e @ ?f) (rsync_ssh_args ep)"
    unfolding rsync_ssh_args_def
    by (intro list_all2_words_append known_hosts_words(2) d e f)
      (simp_all only: list_all2_Cons list_all2_Nil simp_thms ssh_words ssh_option_words(3))
  then show ?thesis unfolding line by (intro sh_argv_words) (simp_all only: list_all2_Cons simp_thms ssh_words list.distinct)
qed

subsection \<open>The host key policy\<close>

text \<open>What the arguments of an OpenSSH program have to say for a mode, a file of known hosts, and a way to the target: the mode and
  the file and no other, no question to the user, and a proxy just for a jump host with a key, which is an \<open>ssh\<close> to the jump
  host that forwards to the target and keeps to the same policy.\<close>

definition keeps_policy :: "host_key_check_mode \<Rightarrow> string option \<Rightarrow> string list \<Rightarrow> bool" where
  "keeps_policy mode known_hosts args \<longleftrightarrow>
     settings ''StrictHostKeyChecking'' args = [''StrictHostKeyChecking='' @ as_openssh_value mode]
     \<and> settings ''UserKnownHostsFile'' args =
         (if mode = ModeNo then [''UserKnownHostsFile=/dev/null'']
          else case known_hosts of Some path \<Rightarrow> [''UserKnownHostsFile='' @ display path] | None \<Rightarrow> [])
     \<and> settings ''BatchMode'' args = [''BatchMode=yes'']"

definition goes_through :: "string \<Rightarrow> nat \<Rightarrow> transfer_jump_options option \<Rightarrow> host_key_check_mode \<Rightarrow> string option \<Rightarrow> string list \<Rightarrow> bool" where
  "goes_through host port jump mode known_hosts args \<longleftrightarrow>
     (case Option.bind jump (\<lambda>j. map_option (Pair j) (jo_key_path j)) of
        None \<Rightarrow> settings ''ProxyCommand'' args = []
      | Some (j, key) \<Rightarrow>
          (\<exists>line jargs. settings ''ProxyCommand'' args = [''ProxyCommand='' @ line] \<and> sh_argv line = Some [''ssh'' # jargs]
             \<and> keeps_policy mode known_hosts jargs \<and> settings ''ProxyCommand'' jargs = []
             \<and> (''-i'', display key) \<in> set (getopt jargs) \<and> (''-W'', host @ '':'' @ show_nat port) \<in> set (getopt jargs)
             \<and> last jargs = jo_user j @ ''@'' @ jo_host j))"

definition follows_policy :: "string \<Rightarrow> nat \<Rightarrow> transfer_jump_options option \<Rightarrow> host_key_check_mode \<Rightarrow> string option \<Rightarrow> string list \<Rightarrow> bool" where
  "follows_policy host port jump mode known_hosts args \<longleftrightarrow>
     keeps_policy mode known_hosts args \<and> goes_through host port jump mode known_hosts args"

text \<open>Options with their values, as pairs.\<close>

definition flat :: "(string \<times> string) list \<Rightarrow> string list" where
  "flat ps = concat (map (\<lambda>(a, v). [a, v]) ps)"

definition with_value :: "string \<Rightarrow> bool" where
  "with_value a \<longleftrightarrow> a \<in> {''-i'', ''-o'', ''-p'', ''-P'', ''-W'', ''-b''}"

lemma flat_simps [simp]: "flat [] = []" "flat ((a, v) # ps) = a # v # flat ps" "flat (ps @ qs) = flat ps @ flat qs"
  by (simp_all add: flat_def)

lemma getopt_flat: "list_all (with_value \<circ> fst) ps \<Longrightarrow> getopt (flat ps @ rest) = ps @ getopt rest"
proof (induction ps)
  case (Cons p ps)
  then show ?case by (cases p) (simp only: flat_simps append_Cons getopt.simps(2), simp add: with_value_def)
qed simp

lemma chosen_simps [simp]:
  "chosen name [] = []"
  "chosen name ((a, v) # ps) = (if a = ''-o'' \<and> starts_with v (name @ ''='') then [v] else []) @ chosen name ps"
  "chosen name (ps @ qs) = chosen name ps @ chosen name qs"
  by (simp_all add: chosen_def)

lemma settings_flat: "list_all (with_value \<circ> fst) ps \<Longrightarrow> settings name (flat ps @ rest) = chosen name ps @ settings name rest"
  by (simp add: settings_def getopt_flat)

text \<open>Arguments that add no setting.\<close>

definition operands :: "string list \<Rightarrow> bool" where
  "operands rest \<longleftrightarrow> (\<forall>v. (''-o'', v) \<notin> set (getopt rest))"

lemma settings_operands: "operands rest \<Longrightarrow> settings name rest = []"
  by (auto simp: settings_def chosen_def operands_def filter_empty_conv)

lemma operands_start:
  "\<not> starts_with a ''-'' \<Longrightarrow> operands (a # rest)" "operands rest \<Longrightarrow> operands (''-O'' # rest)" "operands rest \<Longrightarrow> operands (''-T'' # rest)"
  "operands rest \<Longrightarrow> operands (''-r'' # rest)" "operands rest \<Longrightarrow> operands (''-b'' # v # rest)"
proof -
  assume a: "\<not> starts_with a ''-''"
  have "take 2 a \<noteq> CHR ''-'' # x" for x using a by (cases a) (auto simp: starts_with_def)
  moreover have "a \<noteq> CHR ''-'' # x" for x using a by (auto simp: starts_with_def)
  ultimately show "operands (a # rest)" by (simp add: operands_def)
qed (simp_all add: operands_def)

lemma no_dash_user: "\<not> starts_with u ''-'' \<Longrightarrow> \<not> starts_with (u @ ''@'' @ x) ''-''"
  by (cases u) (auto simp: starts_with_def)

definition known_hosts_pairs :: "host_key_check_mode \<Rightarrow> string option \<Rightarrow> (string \<times> string) list" where
  "known_hosts_pairs mode known_hosts =
     (if mode = ModeNo then [(''-o'', ''UserKnownHostsFile=/dev/null'')]
      else case known_hosts of Some path \<Rightarrow> [(''-o'', ''UserKnownHostsFile='' @ display path)] | None \<Rightarrow> [])"

definition proxy_pairs :: "string \<Rightarrow> nat \<Rightarrow> transfer_jump_options option \<Rightarrow> host_key_check_mode \<Rightarrow> string option \<Rightarrow> (string \<times> string) list" where
  "proxy_pairs host port jump mode known_hosts =
     (case Option.bind jump (\<lambda>j. openssh_proxy_command host port j mode known_hosts) of
        None \<Rightarrow> [] | Some proxy \<Rightarrow> [(''-o'', ''ProxyCommand='' @ proxy)])"

lemma known_hosts_flat: "known_hosts_setting mode kh = flat (known_hosts_pairs mode kh)"
  by (simp add: known_hosts_setting_def known_hosts_pairs_def split: option.split)

lemma proxy_flat: "proxy_setting host port jump mode kh = flat (proxy_pairs host port jump mode kh)"
  by (simp add: proxy_setting_def proxy_pairs_def split: option.split bind_split)

lemma pairs_with_value:
  "list_all (with_value \<circ> fst) (known_hosts_pairs mode kh)" "list_all (with_value \<circ> fst) (proxy_pairs host port jump mode kh)"
  by (auto simp: known_hosts_pairs_def proxy_pairs_def with_value_def split: option.split)

lemma chosen_known_hosts:
  "chosen ''StrictHostKeyChecking'' (known_hosts_pairs mode kh) = []" "chosen ''BatchMode'' (known_hosts_pairs mode kh) = []"
  "chosen ''ProxyCommand'' (known_hosts_pairs mode kh) = []"
  "chosen ''UserKnownHostsFile'' (known_hosts_pairs mode kh) =
     (if mode = ModeNo then [''UserKnownHostsFile=/dev/null'']
      else case kh of Some path \<Rightarrow> [''UserKnownHostsFile='' @ display path] | None \<Rightarrow> [])"
  by (simp_all add: known_hosts_pairs_def starts_with_def split: option.split)

lemma chosen_proxy:
  "chosen ''StrictHostKeyChecking'' (proxy_pairs host port jump mode kh) = []" "chosen ''BatchMode'' (proxy_pairs host port jump mode kh) = []"
  "chosen ''UserKnownHostsFile'' (proxy_pairs host port jump mode kh) = []"
  "chosen ''ProxyCommand'' (proxy_pairs host port jump mode kh) = map snd (proxy_pairs host port jump mode kh)"
  by (simp_all add: proxy_pairs_def starts_with_def split: option.split)

lemmas chosen_parts = chosen_known_hosts chosen_proxy

lemma jump_args_policy:
  assumes "\<not> starts_with (jo_user jump) ''-''"
  shows "keeps_policy mode kh (jump_args host port jump mode kh key) \<and> settings ''ProxyCommand'' (jump_args host port jump mode kh key) = []
   \<and> (''-i'', display key) \<in> set (getopt (jump_args host port jump mode kh key))
   \<and> (''-W'', host @ '':'' @ show_nat port) \<in> set (getopt (jump_args host port jump mode kh key))
   \<and> last (jump_args host port jump mode kh key) = jo_user jump @ ''@'' @ jo_host jump"
proof -
  let ?ps = "[(''-i'', display key), (''-p'', show_nat (jo_port jump)), (''-o'', ''BatchMode=yes''), (''-o'', ''PasswordAuthentication=no''),
     (''-o'', ''KbdInteractiveAuthentication=no''), (''-o'', ''PreferredAuthentications=publickey''), (''-o'', ''IdentitiesOnly=yes''),
     (''-o'', ''StrictHostKeyChecking='' @ as_openssh_value mode)] @ known_hosts_pairs mode kh @ [(''-W'', host @ '':'' @ show_nat port)]"
  have args: "jump_args host port jump mode kh key = flat ?ps @ [jo_user jump @ ''@'' @ jo_host jump]"
    by (simp add: jump_args_def known_hosts_flat)
  have v: "list_all (with_value \<circ> fst) ?ps" by (simp add: pairs_with_value) (simp add: with_value_def)
  have "settings name [jo_user jump @ ''@'' @ jo_host jump] = []" for name
    by (rule settings_operands[OF operands_start(1)[OF no_dash_user[OF assms]]])
  then show ?thesis
    unfolding args keeps_policy_def settings_flat[OF v] getopt_flat[OF v]
    by (simp del: getopt.simps add: chosen_parts starts_with_def)
qed

text \<open>The user of the jump host is no option.\<close>

definition jump_user_ok :: "transfer_jump_options option \<Rightarrow> bool" where
  "jump_user_ok jump \<longleftrightarrow> (case jump of None \<Rightarrow> True | Some j \<Rightarrow> \<not> starts_with (jo_user j) ''-'')"

lemma goes_through_proxy:
  assumes "settings ''ProxyCommand'' args = map snd (proxy_pairs host port jump mode kh)" "jump_user_ok jump"
  shows "goes_through host port jump mode kh args"
proof (cases "Option.bind jump (\<lambda>j. map_option (Pair j) (jo_key_path j))")
  case None
  then have "proxy_pairs host port jump mode kh = []"
    by (auto simp: proxy_pairs_def openssh_proxy_command_def bind_eq_None_conv split: option.splits)
  then show ?thesis using assms(1) None by (simp add: goes_through_def)
next
  case (Some jk)
  then obtain j key where j: "jump = Some j" "jo_key_path j = Some key" "jk = (j, key)"
    by (auto simp: bind_eq_Some_conv)
  then obtain line where l: "openssh_proxy_command host port j mode kh = Some line" by (simp add: openssh_proxy_command_def)
  from proxy_command_words[OF l] j have w: "sh_argv line = Some [''ssh'' # jump_args host port j mode kh key]" by simp
  show ?thesis
    using assms w jump_args_policy[of j mode kh host port key]
    by (auto simp: goes_through_def Some j l proxy_pairs_def jump_user_ok_def)
qed

lemma common_ssh_options_flat:
  "common_ssh_options ep = flat ([(''-i'', display (oe_key_path ep)), (''-o'', ''BatchMode=yes''), (''-o'', ''PasswordAuthentication=no''),
      (''-o'', ''KbdInteractiveAuthentication=no''), (''-o'', ''PreferredAuthentications=publickey''), (''-o'', ''IdentitiesOnly=yes''),
      (''-o'', ''StrictHostKeyChecking='' @ as_openssh_value (oe_host_key_checking ep))]
     @ known_hosts_pairs (oe_host_key_checking ep) (oe_known_hosts ep) @ [(''-o'', ''LogLevel=ERROR'')]
     @ proxy_pairs (oe_host ep) (oe_port ep) (oe_jump ep) (oe_host_key_checking ep) (oe_known_hosts ep))"
  unfolding flat_simps(3) proxy_flat[symmetric] known_hosts_flat[symmetric]
  by (simp add: common_ssh_options_def known_hosts_setting_def proxy_setting_def null_known_hosts_path_def)

lemma openssh_args_policy:
  assumes "operands rest" "jump_user_ok (oe_jump ep)"
  shows "follows_policy (oe_host ep) (oe_port ep) (oe_jump ep) (oe_host_key_checking ep) (oe_known_hosts ep)
    ([''-P'', show_nat (oe_port ep)] @ common_ssh_options ep @ rest)"
proof -
  let ?ps = "(''-P'', show_nat (oe_port ep)) # ([(''-i'', display (oe_key_path ep)), (''-o'', ''BatchMode=yes''),
      (''-o'', ''PasswordAuthentication=no''), (''-o'', ''KbdInteractiveAuthentication=no''), (''-o'', ''PreferredAuthentications=publickey''),
      (''-o'', ''IdentitiesOnly=yes''), (''-o'', ''StrictHostKeyChecking='' @ as_openssh_value (oe_host_key_checking ep))]
     @ known_hosts_pairs (oe_host_key_checking ep) (oe_known_hosts ep) @ [(''-o'', ''LogLevel=ERROR'')]
     @ proxy_pairs (oe_host ep) (oe_port ep) (oe_jump ep) (oe_host_key_checking ep) (oe_known_hosts ep))"
  let ?args = "[''-P'', show_nat (oe_port ep)] @ common_ssh_options ep @ rest"
  have args: "?args = flat ?ps @ rest" by (simp add: common_ssh_options_flat)
  have v: "list_all (with_value \<circ> fst) ?ps" by (simp add: pairs_with_value) (simp add: with_value_def)
  have r: "settings name rest = []" for name using assms(1) by (rule settings_operands)
  have "keeps_policy (oe_host_key_checking ep) (oe_known_hosts ep) ?args"
    unfolding args keeps_policy_def settings_flat[OF v] by (simp add: chosen_parts r starts_with_def)
  moreover have "settings ''ProxyCommand'' ?args
      = map snd (proxy_pairs (oe_host ep) (oe_port ep) (oe_jump ep) (oe_host_key_checking ep) (oe_known_hosts ep))"
    unfolding args settings_flat[OF v] by (simp add: chosen_parts r starts_with_def)
  ultimately show ?thesis using assms(2) by (simp add: follows_policy_def goes_through_proxy)
qed

lemma rsync_args_policy:
  assumes "jump_user_ok (re_jump ep)"
  shows "follows_policy (re_host ep) (re_port ep) (re_jump ep) (re_host_key_checking ep) (re_known_hosts ep) (rsync_ssh_args ep)"
proof -
  let ?ps = "[(''-o'', ''BatchMode=yes''), (''-o'', ''IdentitiesOnly=yes''),
      (''-o'', ''StrictHostKeyChecking='' @ as_openssh_value (re_host_key_checking ep))]
     @ known_hosts_pairs (re_host_key_checking ep) (re_known_hosts ep) @ [(''-o'', ''LogLevel=ERROR'')]
     @ (if re_port ep \<noteq> 22 then [(''-p'', show_nat (re_port ep))] else [])
     @ (case re_key_path ep of Some key \<Rightarrow> [(''-i'', display key)] | None \<Rightarrow> [])
     @ proxy_pairs (re_host ep) (re_port ep) (re_jump ep) (re_host_key_checking ep) (re_known_hosts ep)"
  have args: "rsync_ssh_args ep = flat ?ps @ []"
    by (simp add: rsync_ssh_args_def known_hosts_flat proxy_flat split: option.split)
  have v: "list_all (with_value \<circ> fst) ?ps" by (simp add: pairs_with_value split: option.split) (simp add: with_value_def)
  have r: "settings name [] = []" for name by (simp add: settings_def)
  have "keeps_policy (re_host_key_checking ep) (re_known_hosts ep) (rsync_ssh_args ep)"
    unfolding args keeps_policy_def settings_flat[OF v] by (simp add: chosen_parts r starts_with_def split: option.split)
  moreover have "settings ''ProxyCommand'' (rsync_ssh_args ep)
      = map snd (proxy_pairs (re_host ep) (re_port ep) (re_jump ep) (re_host_key_checking ep) (re_known_hosts ep))"
    unfolding args settings_flat[OF v] by (simp add: chosen_parts r starts_with_def split: option.split)
  ultimately show ?thesis using assms by (simp add: follows_policy_def goes_through_proxy)
qed

subsection \<open>Batches\<close>

lemma sftp_words_escaped:
  "sftp_words True (Some w) (concat (map (\<lambda>c. if c = BSL then [BSL, BSL] else if c = DQ then [BSL, DQ] else [c]) s) @ DQ # rest)
     = sftp_words False (Some (w @ s)) rest"
  by (induction s arbitrary: w) auto

lemma sftp_words_quoted: "sftp_words False None (sftp_quote_token s @ rest) = sftp_words False (Some s) rest"
  using sftp_words_escaped[of "[]" s rest] by (simp add: sftp_quote_token_def)

lemma sftp_quote_token_set: "c \<in> set (sftp_quote_token s) \<Longrightarrow> c \<in> insert DQ (insert BSL (set s))"
  by (auto simp: sftp_quote_token_def split: if_splits)

lemma split_on_line: "c \<notin> set l \<Longrightarrow> split_on c (l @ [c]) = [l, []]"
  by (induction l) auto

lemma str_lines_one: "NL \<notin> set l \<Longrightarrow> str_lines (l @ [DQ] @ [NL]) = [l @ [DQ]]"
  using split_on_line[of NL "l @ [DQ]"] by (simp add: str_lines_def strip_cr_def strip_suffix_def ends_with_def)

section \<open>Properties\<close>


text \<open>An upload by a child, whichever program it is: the steps to take to start it, and the child.\<close>

datatype external = ViaOpenssh openssh_endpoint openssh_transport | ViaRsync rsync_endpoint rsync_options

definition external_run_transfer ::
  "transport_world \<Rightarrow> external \<Rightarrow> transport_call \<Rightarrow> rtree \<Rightarrow> rtree \<times> (transfer_staging \<times> transfer_counts, engine_error) result" where
  "external_run_transfer w x c t =
     (case x of ViaOpenssh ep transport \<Rightarrow> openssh_run_transfer w ep transport c t | ViaRsync ep options \<Rightarrow> rsync_run_transfer w ep options c t)"

definition upload_child :: "external \<Rightarrow> string \<Rightarrow> string \<Rightarrow> child" where
  "upload_child x local_path stage =
     (case x of
        ViaOpenssh ep transport \<Rightarrow> put_file_child ep transport local_path stage
      | ViaRsync ep options \<Rightarrow> rsync_child ep options (display local_path) (rsync_remote_spec ep stage))"

lemma run_child_Ok: "run_child transport missing ms out = Ok c \<Longrightarrow>
    out = Spawned (Exited (cap_status c) (cap_stdout c) (cap_stderr c))"
  by (auto simp: run_child_def wait_child_with_timeout_def split: child_outcome.splits stdin_end.splits child_end.splits)

lemma openssh_step_ok:
  "openssh_step run transport ms c t = (t1, r) \<Longrightarrow> t1 = fst (run c t) \<and> (is_ok r \<longrightarrow> (\<exists>out err. snd (run c t) = Spawned (Exited (Some 0) out err)))"
  by (cases r) (auto simp: openssh_step_def openssh_checked_def run_openssh_child_def succeeded_def dest!: run_child_Ok split: prod.splits if_splits)

lemma rsync_step_ok:
  "rsync_step run ms ep options src dst t = (t1, r) \<Longrightarrow>
   t1 = fst (run (rsync_child ep options src dst) t)
   \<and> (is_ok r \<longrightarrow> (\<exists>out err. snd (run (rsync_child ep options src dst) t) = Spawned (Exited (Some 0) out err)))"
  by (cases r) (auto simp: rsync_step_def run_rsync_tool_def run_rsync_child_def succeeded_def dest!: run_child_Ok split: prod.splits if_splits)


text \<open>A batch for \<open>sftp\<close> is one line that names the two paths, whatever they are, as long as they have no line break.\<close>

theorem sftp_batch_exact:
  assumes "NL \<notin> set a" "NL \<notin> set b"
  shows "str_lines (''put '' @ sftp_quote_token a @ '' '' @ sftp_quote_token b @ [NL]) = [''put '' @ sftp_quote_token a @ '' '' @ sftp_quote_token b]
    \<and> sftp_words False None (''put '' @ sftp_quote_token a @ '' '' @ sftp_quote_token b) = Some [''put'', a, b]"
proof -
  have "sftp_words False None (sftp_quote_token b) = Some [b]" using sftp_words_quoted[of b "[]"] by simp
  then have w: "sftp_words False None (''put '' @ sftp_quote_token a @ '' '' @ sftp_quote_token b) = Some [''put'', a, b]"
    by (simp add: sftp_words_quoted)
  define line where "line = ''put '' @ sftp_quote_token a @ '' '' @ sftp_quote_token b"
  obtain l where l: "line = l @ [DQ]" by (simp add: line_def sftp_quote_token_def)
  have "NL \<notin> set line" using assms by (auto simp: line_def dest!: sftp_quote_token_set)
  then have "str_lines (line @ [NL]) = [line]" using str_lines_one[of l] by (simp add: l)
  with w show ?thesis unfolding line_def[symmetric] by (simp add: line_def)
qed

text \<open>The local path may have one: it is accepted, and the batch falls into two lines, of which the first is not complete.\<close>

lemma sftp_batch_line_break:
  "is_ok (safe_join_local_root ''/r'' (''a'' @ [NL] @ ''b''))
   \<and> str_lines (''put '' @ sftp_quote_token (''/r/a'' @ [NL] @ ''b'') @ '' '' @ sftp_quote_token ''/t'' @ [NL])
       = [''put '' @ [DQ] @ ''/r/a'', ''b'' @ [DQ] @ '' '' @ [DQ] @ ''/t'' @ [DQ]]
   \<and> sftp_words False None (''put '' @ [DQ] @ ''/r/a'') = None"
  by code_simp

text \<open>Four of the documented options of \<open>rsync\<close> have no effect on its command line.\<close>

lemma rsync_options_ignored:
  "rsync_child ep (options\<lparr>ro_checksum := a, ro_inplace := b, ro_partial := d, ro_bwlimit := n\<rparr>) src dst = rsync_child ep options src dst"
  by (simp add: rsync_child_def)

section \<open>Witnesses\<close>

text \<open>A jump host, and a key path with a quote, a space and a dollar sign.\<close>

definition sample_jump :: transfer_jump_options where
  "sample_jump = \<lparr>jo_host = ''gate'', jo_port = 2222, jo_user = ''bob'', jo_key_path = Some (''/k '' @ [SQ] @ ''$x'')\<rparr>"

definition sample_options :: transfer_ssh_options where
  "sample_options = \<lparr>so_host = ''h'', so_port = 22, so_user = ''u'', so_key_path = Some ''/k'', so_host_key_checking = ModeYes,
     so_known_hosts = Some ''/kh'', so_jump = Some sample_jump\<rparr>"


definition plain_options :: transfer_ssh_options where
  "plain_options = sample_options\<lparr>so_jump := None, so_known_hosts := None\<rparr>"

definition sample_program :: tool where
  "sample_program c t =
     (t(place sample_host (drop (length ''u@h:'') (last (ch_args c))) \<mapsto> OFile ''new''), Spawned (Exited (Some 0) [] []))"

definition sample_world :: transport_world where
  "sample_world = \<lparr>tw_host = sample_host,
     tw_staged = \<lparr>sw_prepare = Completes, sw_upload = (\<lambda>_ t. (t, Ok ())), sw_finalize = Completes, sw_rm_arrives = True\<rparr>,
     tw_local = sample_local, tw_tool = sample_program, tw_probe = (\<lambda>_. Spawned (Exited (Some 0) [] [])),
     tw_remote_rsync = Ok (Some 0, ''/usr/bin/rsync''), tw_source = Ok (Some 3), tw_canonical = Ok ''/r/a'',
     tw_counted = Ok zero_counts, tw_validated = Ok (), tw_count_dir = (\<lambda>_ _. Ok zero_counts),
     tw_removal = \<lparr>rmv_ran = True, rmv_out = Ok (Some 0, [])\<rparr>, tw_local_removal = Ok ()\<rparr>"

definition sample_call :: transport_call where
  "sample_call = \<lparr>tc_operation = OpPut, tc_kind = KindFile, tc_local_path = ''/r/a'', tc_local_place = [''r'', ''a''],
     tc_remote_path = ''/srv/a'', tc_remote_home = ''/root'', tc_overwrite = True, tc_token = ''7'', tc_timeout_ms = 1000\<rparr>"

definition rsynced :: "rtree \<times> (transfer_staging \<times> transfer_counts, engine_error) result" where
  "rsynced = external_run_transfer sample_world (ViaRsync (rsync_endpoint_of plain_options) rsync_options_default) sample_call sample_tree"


end
