(* ===== verification/Environment.thy ===== *)
theory Environment
  imports Exec Markers HostKeys "HOL-Library.Char_ord" "HOL-Library.List_Lexorder"
begin

text \<open>
  The metadata probe of the startup: \<open>src/src/ssh/environment.rs\<close>. A script runs in an ordinary POSIX shell and
  prints records; \<open>parse_snapshot\<close> reads them as data. The theory has the script, the collection of its output with
  its limits, the parser of every field, and the two operations of the manager that use them. A value of type
  \<open>&str\<close> is the string of its UTF-8 bytes.
\<close>

section \<open>Definitions\<close>

subsection \<open>Limits and data\<close>

definition BOOTSTRAP_BUDGET :: nat where "BOOTSTRAP_BUDGET = 3000"
definition STDOUT_LIMIT :: nat where "STDOUT_LIMIT = 64 * 1024"
definition STDERR_LIMIT :: nat where "STDERR_LIMIT = 4 * 1024"
definition SCALAR_LIMIT :: nat where "SCALAR_LIMIT = 1024"
definition FILE_LIMIT :: nat where "FILE_LIMIT = 16 * 1024"
definition PATH_LIMIT :: nat where "PATH_LIMIT = 4096"
definition CPU_MODEL_LIMIT :: nat where "CPU_MODEL_LIMIT = 256"

record virtualization =
  vi_container :: "string option"
  vi_vm :: "string option"

record host_environment =
  he_hostname :: "string option"
  he_os :: "string option"
  he_distribution :: "string option"
  he_kernel_release :: "string option"
  he_machine_architecture :: "string option"
  he_process_architecture :: "string option"
  he_pointer_width :: "nat option"
  he_available_cpu_parallelism :: "nat option"
  he_effective_uid :: "nat option"
  he_effective_gid :: "nat option"
  he_running_as_root :: "bool option"
  he_shell_executable :: "string option"
  he_cpu_models :: "string list option"
  he_virtualization :: virtualization

definition host_environment_default :: host_environment where
  "host_environment_default =
     \<lparr>he_hostname = None, he_os = None, he_distribution = None, he_kernel_release = None,
      he_machine_architecture = None, he_process_architecture = None, he_pointer_width = None,
      he_available_cpu_parallelism = None, he_effective_uid = None, he_effective_gid = None,
      he_running_as_root = None, he_shell_executable = None, he_cpu_models = None,
      he_virtualization = \<lparr>vi_container = None, vi_vm = None\<rparr>\<rparr>"

subsection \<open>The script\<close>

definition PROBE_LINES :: "string list" where
  "PROBE_LINES =
    [''LC_ALL=C; export LC_ALL'',
     ''unset OMP_NUM_THREADS OMP_THREAD_LIMIT'',
     ''set -f'',
     ''record() {'',
     ''    key=$1; shift'',
     ''    printf '' @ [SQ] @ ''%s'' @ [BSL] @ ''000'' @ [SQ] @ '' '' @ [DQ] @ ''$key'' @ [DQ],
     ''    '' @ [DQ] @ ''$@'' @ [DQ] @ '' 2>/dev/null'',
     ''    rc=$?'',
     ''    printf '' @ [SQ] @ [BSL] @ ''000%s'' @ [BSL] @ ''000'' @ [SQ] @ '' '' @ [DQ] @ ''$rc'' @ [DQ],
     ''}'',
     ''release_file() {'',
     ''    if [ -e /etc/os-release ] || [ -L /etc/os-release ]; then'',
     ''        head -c 16385 /etc/os-release'',
     ''    else'',
     ''        head -c 16385 /usr/lib/os-release'',
     ''    fi'',
     ''}'',
     ''cpu_info() {'',
     ''    model1=; model2=; model3=; model4=; hypervisor='',
     ''    lines=0; bytes=0'',
     ''    # read consumes a whole line; these are post-read processing limits.'',
     ''    { while IFS= read -r line || [ -n '' @ [DQ] @ ''$line'' @ [DQ] @ '' ]; do'',
     ''        lines=$((lines + 1)); bytes=$((bytes + ${#line} + 1))'',
     ''        [ '' @ [DQ] @ ''$lines'' @ [DQ] @ '' -le 128 ] && [ '' @ [DQ] @ ''$bytes'' @ [DQ] @ '' -le 65536 ] || break'',
     ''        case '' @ [DQ] @ ''$line'' @ [DQ] @ '' in *:*) ;; *) continue;; esac'',
     ''        cpu_key=${line%%:*}; value=${line#*:}'',
     ''        cpu_key=${cpu_key#'' @ [DQ] @ ''${cpu_key%%[![:space:]'' @ '']*}'' @ [DQ] @ ''}'',
     ''        cpu_key=${cpu_key%'' @ [DQ] @ ''${cpu_key##*[![:space:]'' @ '']}'' @ [DQ] @ ''}'',
     ''        value=${value#'' @ [DQ] @ ''${value%%[![:space:]'' @ '']*}'' @ [DQ] @ ''}'',
     ''        value=${value%'' @ [DQ] @ ''${value##*[![:space:]'' @ '']}'' @ [DQ] @ ''}'',
     ''        case '' @ [DQ] @ ''$cpu_key'' @ [DQ] @ '' in'',
     ''            '' @ [SQ] @ ''model name'' @ [SQ] @ '')'',
     ''                [ -n '' @ [DQ] @ ''$value'' @ [DQ] @ '' ] && [ '' @ [DQ] @ ''${#value}'' @ [DQ] @ '' -le 256 ] || continue'',
     ''                case '' @ [DQ] @ ''$value'' @ [DQ] @ '' in *['' @ ''[:cntrl:]'' @ '']*) continue;; esac'',
     ''                [ '' @ [DQ] @ ''$value'' @ [DQ] @ '' != '' @ [DQ] @ ''$model1'' @ [DQ] @ '' ] && [ '' @ [DQ] @ ''$value'' @ [DQ] @ '' != '' @ [DQ] @ ''$model2'' @ [DQ] @ '' ] &&'',
     ''                    [ '' @ [DQ] @ ''$value'' @ [DQ] @ '' != '' @ [DQ] @ ''$model3'' @ [DQ] @ '' ] && [ '' @ [DQ] @ ''$value'' @ [DQ] @ '' != '' @ [DQ] @ ''$model4'' @ [DQ] @ '' ] || continue'',
     ''                if [ -z '' @ [DQ] @ ''$model1'' @ [DQ] @ '' ]; then model1=$value'',
     ''                elif [ -z '' @ [DQ] @ ''$model2'' @ [DQ] @ '' ]; then model2=$value'',
     ''                elif [ -z '' @ [DQ] @ ''$model3'' @ [DQ] @ '' ]; then model3=$value'',
     ''                elif [ -z '' @ [DQ] @ ''$model4'' @ [DQ] @ '' ]; then model4=$value'',
     ''                fi;;'',
     ''            flags)'',
     ''                for flag in $value; do'',
     ''                    [ '' @ [DQ] @ ''$flag'' @ [DQ] @ '' != hypervisor ] || hypervisor=1'',
     ''                done;;'',
     ''        esac'',
     ''    done; } 2>/dev/null < /proc/cpuinfo'',
     ''}'',
     ''scalar_file() {'',
     ''    # These proc/sys/runtime scalars have one line; reject extra lines or overflow.'',
     ''    value=; extra='',
     ''    {'',
     ''        IFS= read -r value || [ -n '' @ [DQ] @ ''$value'' @ [DQ] @ '' ] || return 1'',
     ''        [ '' @ [DQ] @ ''${#value}'' @ [DQ] @ '' -le 1024 ] || return 1'',
     ''        if IFS= read -r extra || [ -n '' @ [DQ] @ ''$extra'' @ [DQ] @ '' ]; then return 1; fi'',
     ''        printf '' @ [SQ] @ ''%s'' @ [SQ] @ '' '' @ [DQ] @ ''$value'' @ [DQ],
     ''    } < '' @ [DQ] @ ''$1'' @ [DQ],
     ''}'',
     ''container_marker() {'',
     ''    if [ -e /run/.containerenv ]; then printf podman'',
     ''    elif [ -e /.dockerenv ]; then printf docker'',
     ''    fi'',
     ''}'',
     ''printf '' @ [SQ] @ ''SE1'' @ [BSL] @ ''000'' @ [SQ],
     ''record hostname uname -n'',
     ''record hostname_proc head -c 1025 /proc/sys/kernel/hostname'',
     ''record os uname -s'',
     ''record os_proc head -c 1025 /proc/sys/kernel/ostype'',
     ''record distribution release_file'',
     ''record kernel uname -r'',
     ''record kernel_proc head -c 1025 /proc/sys/kernel/osrelease'',
     ''record machine uname -m'',
     ''record uid id -u'',
     ''record gid id -g'',
     ''record status head -c 16385 '' @ [DQ] @ ''/proc/$$/status'' @ [DQ],
     ''record shell readlink '' @ [DQ] @ ''/proc/$$/exe'' @ [DQ],
     ''record cpu nproc'',
     ''cpu_info'',
     ''record cpu_model1 printf '' @ [SQ] @ ''%s'' @ [SQ] @ '' '' @ [DQ] @ ''$model1'' @ [DQ],
     ''record cpu_model2 printf '' @ [SQ] @ ''%s'' @ [SQ] @ '' '' @ [DQ] @ ''$model2'' @ [DQ],
     ''record cpu_model3 printf '' @ [SQ] @ ''%s'' @ [SQ] @ '' '' @ [DQ] @ ''$model3'' @ [DQ],
     ''record cpu_model4 printf '' @ [SQ] @ ''%s'' @ [SQ] @ '' '' @ [DQ] @ ''$model4'' @ [DQ],
     ''record cpu_hypervisor printf '' @ [SQ] @ ''%s'' @ [SQ] @ '' '' @ [DQ] @ ''$hypervisor'' @ [DQ],
     ''record container_decl scalar_file /run/systemd/container'',
     ''record container_marker container_marker'',
     ''record hypervisor_type scalar_file /sys/hypervisor/type'',
     ''record dmi_product scalar_file /sys/class/dmi/id/product_name'',
     ''record dmi_vendor scalar_file /sys/class/dmi/id/sys_vendor'',
     ''record elf dd if='' @ [DQ] @ ''/proc/$$/exe'' @ [DQ] @ '' bs=64 count=1'',
     ''printf '' @ [SQ] @ ''done'' @ [BSL] @ ''000'' @ [BSL] @ ''0000'' @ [BSL] @ ''000'' @ [SQ]]"

definition PROBE :: string where
  "PROBE = NL # unlines PROBE_LINES"

subsection \<open>Fields\<close>

definition scalar :: "string \<Rightarrow> nat \<Rightarrow> string option" where
  "scalar payload limit =
     (if length payload > limit then None
      else case from_utf8 payload of
        None \<Rightarrow> None
      | Some t \<Rightarrow> let value = trim t in if value \<noteq> [] \<and> \<not> has_control value then Some value else None)"

definition decimal :: "string \<Rightarrow> nat option" where
  "decimal payload =
     (if length payload > SCALAR_LIMIT then None
      else case from_utf8 payload of
        None \<Rightarrow> None
      | Some t \<Rightarrow>
          let value = trim t in
          if value \<noteq> [] \<and> list_all is_ascii_digit value then parse_unsigned 10 U64 value else None)"

text \<open>\<open>u32::try_from\<close> of a 64-bit value.\<close>

definition u32_try_from :: "nat \<Rightarrow> nat option" where
  "u32_try_from n = (if n < U32 then Some n else None)"

definition is_ascii_whitespace :: "char \<Rightarrow> bool" where
  "is_ascii_whitespace c \<longleftrightarrow> code c \<in> set [9, 10, 12, 13, 32]"

text \<open>\<open>str::split_ascii_whitespace\<close>: the maximal runs of other bytes.\<close>

fun split_ws :: "string \<Rightarrow> string \<Rightarrow> string list" where
  "split_ws word [] = (if word = [] then [] else [rev word])"
| "split_ws word (c # cs) =
     (if is_ascii_whitespace c then (if word = [] then split_ws [] cs else rev word # split_ws [] cs)
      else split_ws (c # word) cs)"

definition split_ascii_whitespace :: "string \<Rightarrow> string list" where
  "split_ascii_whitespace s = split_ws [] s"

fun find_map :: "('a \<Rightarrow> 'b option) \<Rightarrow> 'a list \<Rightarrow> 'b option" where
  "find_map f [] = None"
| "find_map f (x # xs) = (case f x of Some y \<Rightarrow> Some y | None \<Rightarrow> find_map f xs)"

definition effective_id :: "string \<Rightarrow> string \<Rightarrow> nat option" where
  "effective_id payload label =
     (case from_utf8 payload of
        None \<Rightarrow> None
      | Some t \<Rightarrow>
          (case find_map (\<lambda>line. strip_prefix line label) (str_lines t) of
             None \<Rightarrow> None
           | Some line \<Rightarrow>
               (case those (map (\<lambda>value. Option.bind (decimal value) u32_try_from) (split_ascii_whitespace line)) of
                  None \<Rightarrow> None
                | Some ids \<Rightarrow> if length ids = 4 then Some (ids ! 1) else None)))"

text \<open>The value of an assignment of \<open>os-release\<close>. The loop runs over the scalar values of the body.\<close>

definition comment_or_end :: "string \<Rightarrow> bool" where
  "comment_or_end s \<longleftrightarrow> (let rest = trim_start s in rest = [] \<or> starts_with rest ''#'')"

definition plain_ch :: "string \<Rightarrow> bool" where
  "plain_ch ch \<longleftrightarrow> (case ch of [c] \<Rightarrow> is_ascii_alphanumeric c \<or> c \<in> set ''-_.:/+@'' | _ \<Rightarrow> False)"

definition ascii_space_ch :: "string \<Rightarrow> bool" where
  "ascii_space_ch ch \<longleftrightarrow> (case ch of [c] \<Rightarrow> is_ascii_whitespace c | _ \<Rightarrow> False)"

fun release_loop :: "char option \<Rightarrow> string list \<Rightarrow> string \<Rightarrow> string option" where
  "release_loop quote [] result = (if quote = None then Some result else None)"
| "release_loop quote (ch # chs) result =
     (if (case quote of Some q \<Rightarrow> ch = [q] | None \<Rightarrow> False) then
        (if comment_or_end (concat chs) then Some result else None)
      else if ch = [BSL] \<and> quote \<noteq> Some SQ then
        (case chs of
           [] \<Rightarrow> None
         | next_ch # rest \<Rightarrow>
             release_loop quote rest
               (result
                @ (if quote = Some DQ \<and> next_ch \<notin> set [''$'', [CHR 0x60], [DQ], [BSL]] then [BSL] else [])
                @ next_ch))
      else if quote \<noteq> None \<or> plain_ch ch then
        (if quote = Some DQ \<and> (ch = ''$'' \<or> ch = [CHR 0x60]) then None
         else release_loop quote chs (result @ ch))
      else if ascii_space_ch ch then
        (if quote = None \<and> comment_or_end (concat (ch # chs)) then Some result else None)
      else None)"

definition release_value :: "string \<Rightarrow> string option" where
  "release_value value =
     (let v = trim value;
          quote = (case str_chars v of [c] # _ \<Rightarrow> if c = SQ \<or> c = DQ then Some c else None | _ \<Rightarrow> None);
          body = (if quote \<noteq> None then tl v else v) in
      release_loop quote (str_chars body) [])"

definition RELEASE_KEYS :: "string list" where
  "RELEASE_KEYS = [''PRETTY_NAME'', ''NAME'', ''VERSION'', ''VERSION_ID'', ''ID'']"

definition not_empty :: "string option \<Rightarrow> string option" where
  "not_empty v = (case v of Some [] \<Rightarrow> None | _ \<Rightarrow> v)"

definition release_line :: "string \<Rightarrow> (string \<rightharpoonup> string option) \<Rightarrow> (string \<rightharpoonup> string option)" where
  "release_line line fs =
     (case split_once (CHR ''='') (trim line) of
        None \<Rightarrow> fs
      | Some (key, value) \<Rightarrow>
          if key \<in> set RELEASE_KEYS then fs(key \<mapsto> not_empty (release_value value)) else fs)"

definition release_fields :: "string \<Rightarrow> (string \<rightharpoonup> string option)" where
  "release_fields t = fold release_line (str_lines t) Map.empty"

definition release_field :: "(string \<rightharpoonup> string option) \<Rightarrow> string \<Rightarrow> string option" where
  "release_field fs key = Option.bind (fs key) (\<lambda>v. v)"

definition or_else :: "'a option \<Rightarrow> 'a option \<Rightarrow> 'a option" where
  "or_else a b = (case a of Some x \<Rightarrow> Some x | None \<Rightarrow> b)"

definition distribution :: "string \<Rightarrow> string option" where
  "distribution payload =
     (case from_utf8 payload of
        None \<Rightarrow> None
      | Some t \<Rightarrow>
          let field = release_field (release_fields t) in
          (case (case field ''PRETTY_NAME'' of
                   Some pretty \<Rightarrow> Some pretty
                 | None \<Rightarrow>
                     (case field ''NAME'' of
                        Some name \<Rightarrow>
                          (case or_else (field ''VERSION'') (field ''VERSION_ID'') of
                             Some version \<Rightarrow> Some (name @ '' '' @ version)
                           | None \<Rightarrow> Some name)
                      | None \<Rightarrow> field ''ID'')) of
             None \<Rightarrow> None
           | Some result \<Rightarrow> scalar result SCALAR_LIMIT))"

definition cpu_model :: "string \<Rightarrow> string option" where
  "cpu_model payload =
     (case from_utf8 payload of
        None \<Rightarrow> None
      | Some t \<Rightarrow>
          let value = trim t in
          if value \<noteq> [] \<and> length value \<le> CPU_MODEL_LIMIT \<and> \<not> has_control value then Some value else None)"

definition container_kind :: "string option \<Rightarrow> string option \<Rightarrow> string option" where
  "container_kind declaration marker =
     (let declared = (case declaration of
            Some v \<Rightarrow>
              if length v \<le> 64 \<and> v \<noteq> []
                 \<and> list_all (\<lambda>b. is_ascii_lowercase b \<or> is_ascii_digit b \<or> b \<in> set ''-_'') v
              then Some v else None
          | None \<Rightarrow> None);
          known_marker = (case marker of
            Some v \<Rightarrow> if v = ''podman'' \<or> v = ''docker'' then Some v else None
          | None \<Rightarrow> None) in
      case declared of
        Some d \<Rightarrow>
          if d \<in> set [''docker'', ''podman'', ''lxc'', ''systemd-nspawn'', ''openvz''] then Some d
          else if d = ''lxc-libvirt'' then Some ''lxc''
          else if d = ''oci'' then or_else known_marker (Some ''unknown'')
          else Some ''unknown''
      | None \<Rightarrow> known_marker)"

definition dmi_kind :: "string \<Rightarrow> string option" where
  "dmi_kind value =
     (if value = ''KVM'' then Some ''kvm''
      else if value = ''QEMU'' then Some ''qemu''
      else if value \<in> set [''VMware'', ''VMware, Inc.'', ''VMware Virtual Platform''] then Some ''vmware''
      else if value \<in> set [''VirtualBox'', ''innotek GmbH''] then Some ''virtualbox''
      else if value \<in> set [''Xen'', ''HVM domU''] then Some ''xen''
      else None)"

definition vm_kind :: "string option \<Rightarrow> string option \<Rightarrow> string option \<Rightarrow> bool \<Rightarrow> string option" where
  "vm_kind hypervisor_type product vendor cpu_hypervisor =
     (if hypervisor_type = Some ''xen'' then Some ''xen''
      else
        let product_kind =
              (if product = Some ''Virtual Machine'' \<and> vendor = Some ''Microsoft Corporation'' then Some ''hyperv''
               else Option.bind product dmi_kind);
            vendor_kind = Option.bind vendor dmi_kind in
        if (product_kind = Some ''kvm'' \<and> vendor_kind = Some ''qemu'')
           \<or> (product_kind = Some ''qemu'' \<and> vendor_kind = Some ''kvm'') then Some ''kvm''
        else case (product_kind, vendor_kind) of
            (Some p, Some v) \<Rightarrow> if p \<noteq> v then Some ''unknown'' else Some p
          | (Some p, None) \<Rightarrow> Some p
          | (None, Some v) \<Rightarrow> Some v
          | (None, None) \<Rightarrow>
              if cpu_hypervisor \<or> hypervisor_type \<noteq> None then Some ''unknown'' else None)"

text \<open>The 64 bytes at the start of the shell's executable. Every index is below 64.\<close>

definition header_u16 :: "string \<Rightarrow> nat \<Rightarrow> nat \<Rightarrow> nat option" where
  "header_u16 header endian offset =
     (if endian = 1 then Some (code (header ! offset) + 256 * code (header ! (offset + 1)))
      else if endian = 2 then Some (256 * code (header ! offset) + code (header ! (offset + 1)))
      else None)"

definition header_u32 :: "string \<Rightarrow> nat \<Rightarrow> nat \<Rightarrow> nat option" where
  "header_u32 header endian offset =
     (if endian = 1 then
        Some (foldr (\<lambda>b n. code b + 256 * n) (take 4 (drop offset header)) 0)
      else if endian = 2 then
        Some (foldl (\<lambda>n b. 256 * n + code b) 0 (take 4 (drop offset header)))
      else None)"

definition elf_machine :: "nat \<Rightarrow> nat \<Rightarrow> nat \<Rightarrow> (string \<times> nat) option" where
  "elf_machine machine cls endian =
     (if machine = 3 \<and> cls = 1 \<and> endian = 1 then Some (''x86'', 32)
      else if machine = 62 \<and> cls = 1 \<and> endian = 1 then Some (''x86_64'', 32)
      else if machine = 62 \<and> cls = 2 \<and> endian = 1 then Some (''x86_64'', 64)
      else if machine = 40 \<and> cls = 1 \<and> endian \<in> {1, 2} then Some (''arm'', 32)
      else if machine = 183 \<and> cls = 2 \<and> endian \<in> {1, 2} then Some (''aarch64'', 64)
      else if machine = 20 \<and> cls = 1 \<and> endian \<in> {1, 2} then Some (''powerpc'', 32)
      else if machine = 21 \<and> cls = 2 \<and> endian \<in> {1, 2} then Some (''powerpc64'', 64)
      else if machine = 22 \<and> cls = 1 \<and> endian = 2 then Some (''s390'', 32)
      else if machine = 22 \<and> cls = 2 \<and> endian = 2 then Some (''s390x'', 64)
      else if machine = 243 \<and> cls = 1 \<and> endian \<in> {1, 2} then Some (''riscv32'', 32)
      else if machine = 243 \<and> cls = 2 \<and> endian \<in> {1, 2} then Some (''riscv64'', 64)
      else if machine = 258 \<and> cls = 2 \<and> endian = 1 then Some (''loongarch64'', 64)
      else None)"

definition elf_abi :: "string \<Rightarrow> (string \<times> nat) option" where
  "elf_abi header =
     (if length header \<noteq> 64 \<or> take 4 header \<noteq> CHR 0x7F # ''ELF'' \<or> code (header ! 6) \<noteq> 1
         \<or> code (header ! 7) \<notin> {0, 3} then None
      else
        let cls = code (header ! 4); endian = code (header ! 5) in
        case header_u32 header endian 20 of
          None \<Rightarrow> None
        | Some version \<Rightarrow>
            (case header_u16 header endian 16 of
               None \<Rightarrow> None
             | Some kind \<Rightarrow>
                 if version \<noteq> 1 \<or> kind \<notin> {2, 3} then None
                 else Option.bind (header_u16 header endian 18) (\<lambda>machine. elf_machine machine cls endian)))"

subsection \<open>Records\<close>

definition nul_value :: "string \<Rightarrow> (string \<times> string) option" where
  "nul_value input = split_once NUL input"

definition PROBE_IDS :: "string list" where
  "PROBE_IDS =
     [''hostname'', ''hostname_proc'', ''os'', ''os_proc'', ''distribution'', ''kernel'', ''kernel_proc'', ''machine'',
      ''uid'', ''gid'', ''status'', ''shell'', ''cpu'', ''cpu_model1'', ''cpu_model2'', ''cpu_model3'', ''cpu_model4'',
      ''cpu_hypervisor'', ''container_decl'', ''container_marker'', ''hypervisor_type'', ''dmi_product'', ''dmi_vendor'',
      ''elf'']"

text \<open>One record, up to the bytes after it: the payload and the status, or nothing where the loop breaks.\<close>

definition take_payload :: "string \<Rightarrow> string \<Rightarrow> (string \<times> string) option" where
  "take_payload rid input =
     (if rid = ''elf'' then
        (if length input < 65 \<or> input ! 64 \<noteq> NUL then None else Some (take 64 input, drop 65 input))
      else nul_value input)"

definition read_record :: "string \<Rightarrow> string \<Rightarrow> ((string \<times> string) \<times> string) option" where
  "read_record rid input =
     (case nul_value input of
        None \<Rightarrow> None
      | Some (key, input1) \<Rightarrow>
          if key \<noteq> rid then None
          else case take_payload rid input1 of
            None \<Rightarrow> None
          | Some (payload, input2) \<Rightarrow>
              (case nul_value input2 of
                 None \<Rightarrow> None
               | Some (rc, input3) \<Rightarrow> Some ((payload, rc), input3)))"

text \<open>The variables of \<open>parse_snapshot\<close>.\<close>

record probe_fields =
  pf_snapshot :: host_environment
  pf_models :: "string list"
  pf_cpu_hypervisor :: bool
  pf_container_decl :: "string option"
  pf_container_marker :: "string option"
  pf_hypervisor_type :: "string option"
  pf_dmi_product :: "string option"
  pf_dmi_vendor :: "string option"

definition probe_fields_start :: probe_fields where
  "probe_fields_start =
     \<lparr>pf_snapshot = host_environment_default, pf_models = [], pf_cpu_hypervisor = False, pf_container_decl = None,
      pf_container_marker = None, pf_hypervisor_type = None, pf_dmi_product = None, pf_dmi_vendor = None\<rparr>"

definition set_snapshot :: "(host_environment \<Rightarrow> host_environment) \<Rightarrow> probe_fields \<Rightarrow> probe_fields" where
  "set_snapshot f p = p\<lparr>pf_snapshot := f (pf_snapshot p)\<rparr>"

text \<open>The arms of the match, in their order; an arm whose guard fails falls through to the ones below it.\<close>

definition apply_record :: "string \<Rightarrow> string \<Rightarrow> probe_fields \<Rightarrow> probe_fields" where
  "apply_record rid payload p =
     (let s = pf_snapshot p in
      if rid \<in> {''hostname'', ''hostname_proc''} \<and> he_hostname s = None then
        set_snapshot (he_hostname_update (\<lambda>_. scalar payload SCALAR_LIMIT)) p
      else if rid \<in> {''os'', ''os_proc''} \<and> he_os s = None then
        set_snapshot (he_os_update (\<lambda>_. scalar payload SCALAR_LIMIT)) p
      else if rid \<in> {''kernel'', ''kernel_proc''} \<and> he_kernel_release s = None then
        set_snapshot (he_kernel_release_update (\<lambda>_. scalar payload SCALAR_LIMIT)) p
      else if rid = ''distribution'' \<and> length payload \<le> FILE_LIMIT then
        set_snapshot (he_distribution_update (\<lambda>_. distribution payload)) p
      else if rid = ''machine'' then
        set_snapshot (he_machine_architecture_update (\<lambda>_. scalar payload SCALAR_LIMIT)) p
      else if rid = ''uid'' then
        set_snapshot (he_effective_uid_update (\<lambda>_. Option.bind (decimal payload) u32_try_from)) p
      else if rid = ''gid'' then
        set_snapshot (he_effective_gid_update (\<lambda>_. Option.bind (decimal payload) u32_try_from)) p
      else if rid = ''status'' \<and> length payload \<le> FILE_LIMIT then
        set_snapshot (\<lambda>s. s\<lparr>he_effective_uid := or_else (he_effective_uid s) (effective_id payload ''Uid:''),
                            he_effective_gid := or_else (he_effective_gid s) (effective_id payload ''Gid:'')\<rparr>) p
      else if rid = ''shell'' then
        set_snapshot (he_shell_executable_update (\<lambda>_.
          Option.bind (scalar payload PATH_LIMIT) (\<lambda>path. if starts_with path ''/'' then Some path else None))) p
      else if rid = ''cpu'' then
        set_snapshot (he_available_cpu_parallelism_update (\<lambda>_.
          Option.bind (decimal payload) (\<lambda>count. if count > 0 then Some count else None))) p
      else if rid \<in> {''cpu_model1'', ''cpu_model2'', ''cpu_model3'', ''cpu_model4''} then
        (case cpu_model payload of Some model \<Rightarrow> p\<lparr>pf_models := pf_models p @ [model]\<rparr> | None \<Rightarrow> p)
      else if rid = ''cpu_hypervisor'' then p\<lparr>pf_cpu_hypervisor := (payload = ''1'')\<rparr>
      else if rid = ''container_decl'' then p\<lparr>pf_container_decl := scalar payload SCALAR_LIMIT\<rparr>
      else if rid = ''container_marker'' then p\<lparr>pf_container_marker := scalar payload SCALAR_LIMIT\<rparr>
      else if rid = ''hypervisor_type'' then p\<lparr>pf_hypervisor_type := scalar payload SCALAR_LIMIT\<rparr>
      else if rid = ''dmi_product'' then p\<lparr>pf_dmi_product := scalar payload SCALAR_LIMIT\<rparr>
      else if rid = ''dmi_vendor'' then p\<lparr>pf_dmi_vendor := scalar payload SCALAR_LIMIT\<rparr>
      else if rid = ''elf'' then
        (case elf_abi payload of
           Some (architecture, width) \<Rightarrow>
             set_snapshot (\<lambda>s. s\<lparr>he_process_architecture := Some architecture, he_pointer_width := Some width\<rparr>) p
         | None \<Rightarrow> p)
      else p)"

fun parse_records :: "string list \<Rightarrow> string \<Rightarrow> probe_fields \<Rightarrow> probe_fields" where
  "parse_records [] input p = p"
| "parse_records (rid # rids) input p =
     (case read_record rid input of
        None \<Rightarrow> p
      | Some ((payload, rc), rest) \<Rightarrow>
          parse_records rids rest (if rc \<noteq> ''0'' then p else apply_record rid payload p))"

definition finish_snapshot :: "probe_fields \<Rightarrow> host_environment" where
  "finish_snapshot p =
     (let s = pf_snapshot p; models = remdups_adj (sort (pf_models p)) in
      s\<lparr>he_running_as_root := map_option (\<lambda>uid. uid = 0) (he_effective_uid s),
        he_cpu_models := (if models \<noteq> [] then Some models else None),
        he_virtualization :=
          \<lparr>vi_container = container_kind (pf_container_decl p) (pf_container_marker p),
           vi_vm = vm_kind (pf_hypervisor_type p) (pf_dmi_product p) (pf_dmi_vendor p) (pf_cpu_hypervisor p)\<rparr>\<rparr>)"

definition parse_snapshot :: "string \<Rightarrow> host_environment" where
  "parse_snapshot raw =
     (case strip_prefix raw (''SE1'' @ [NUL]) of
        None \<Rightarrow> host_environment_default
      | Some input \<Rightarrow> finish_snapshot (parse_records PROBE_IDS input probe_fields_start))"

subsection \<open>The channel\<close>

text \<open>What the channel of a probe does before the deadline of the reader: whether the requests can be sent (None when
  the deadline passes meanwhile), the messages that arrive, and whether the channel ends after them.\<close>

record probe_channel =
  pc_send :: "(unit, string) result option"
  pc_messages :: "channel_msg list"
  pc_end :: channel_end

fun collect_output :: "channel_msg list \<Rightarrow> string \<Rightarrow> nat \<Rightarrow> string" where
  "collect_output [] stdout stderr_len = stdout"
| "collect_output (msg # msgs) stdout stderr_len =
     (case msg of
        Data d \<Rightarrow>
          (case append_bounded stdout d STDOUT_LIMIT of
             (stdout', discarded) \<Rightarrow> if discarded then stdout' else collect_output msgs stdout' stderr_len)
      | ExtendedData _ d \<Rightarrow>
          (let n = sat_add stderr_len (length d) in
           if n > STDERR_LIMIT then stdout else collect_output msgs stdout n)
      | Failure \<Rightarrow> stdout
      | Close \<Rightarrow> stdout
      | _ \<Rightarrow> collect_output msgs stdout stderr_len)"

definition collect :: "probe_channel \<Rightarrow> (host_environment, string) result" where
  "collect ch =
     (case pc_send ch of
        Some (Err m) \<Rightarrow> Err m
      | None \<Rightarrow> Ok (parse_snapshot [])
      | Some (Ok _) \<Rightarrow> Ok (parse_snapshot (collect_output (pc_messages ch) [] 0)))"

definition PAYLOAD :: string where
  "PAYLOAD = ''SeSSHion'' @ [NUL, CHR 0xFF, CHR 0x80, CR, NL]"

fun echo_loop :: "channel_msg list \<Rightarrow> channel_end \<Rightarrow> string \<Rightarrow> nat \<Rightarrow> nat option \<Rightarrow> bool" where
  "echo_loop [] e stdout stderr_len rc = (e = ChannelEnded \<and> stdout = PAYLOAD \<and> rc = Some 0)"
| "echo_loop (msg # msgs) e stdout stderr_len rc =
     (case msg of
        Data d \<Rightarrow>
          (case append_bounded stdout d (length PAYLOAD) of
             (stdout', discarded) \<Rightarrow> if discarded then False else echo_loop msgs e stdout' stderr_len rc)
      | ExtendedData _ d \<Rightarrow>
          (let n = sat_add stderr_len (length d) in
           if n > STDERR_LIMIT then False else echo_loop msgs e stdout n rc)
      | ExitStatus n \<Rightarrow> echo_loop msgs e stdout stderr_len (Some n)
      | Failure \<Rightarrow> False
      | ExitSignal _ \<Rightarrow> False
      | Close \<Rightarrow> stdout = PAYLOAD \<and> rc = Some 0
      | _ \<Rightarrow> echo_loop msgs e stdout stderr_len rc)"

definition collect_binary_echo :: "probe_channel \<Rightarrow> (bool, string) result" where
  "collect_binary_echo ch =
     (case pc_send ch of
        Some (Err m) \<Rightarrow> Err m
      | None \<Rightarrow> Ok False
      | Some (Ok _) \<Rightarrow> Ok (echo_loop (pc_messages ch) (pc_end ch) [] 0 None))"

subsection \<open>The operations of the manager\<close>

text \<open>What a probe meets: the network, the semaphore, the channel, what other tasks do to the manager before the last
  check, whether the token is cancelled by then, and which arm of the select is ready first.\<close>

datatype probe_stop = ProbeFinishes | ProbeCancelled | ProbeShutdown | ProbeDeadline

record probe_world =
  pe_now :: nat
  pe_ping :: bool
  pe_dials :: "dial list"
  pe_slot :: "(unit, string) result"
  pe_opening :: open_outcome
  pe_channel :: probe_channel
  pe_meanwhile :: "connection \<Rightarrow> connection"
  pe_token :: bool
  pe_stop :: probe_stop

datatype probe_error =
    ProbeConn conn_error
  | ProbeSlot string
  | ProbeExec string
  | ProbeWasCancelled
  | ProbeRouteChanged
  | ProbeShuttingDown
  | ProbeTimeout nat

text \<open>The check at the end of both probes looks at the target's transport only.\<close>

definition route_current :: "nat \<Rightarrow> connection \<Rightarrow> bool" where
  "route_current generation c \<longleftrightarrow>
     (case cn_session c of
        Some r \<Rightarrow> ar_generation r = generation \<and> \<not> ar_target_closed r \<and> \<not> cn_shutting_down c
      | None \<Rightarrow> False)"

text \<open>The common start: a transport without elevation, a slot, a channel. What was requested of the target is part of
  the result: one command, on the channel just opened.\<close>

definition with_probe_channel ::
  "ssh_config \<Rightarrow> probe_world \<Rightarrow> connection \<Rightarrow>
   (nat \<Rightarrow> connection \<Rightarrow> remote_request list \<times> ('a, probe_error) result) \<Rightarrow>
   connection \<times> remote_request list \<times> ('a, probe_error) result" where
  "with_probe_channel cfg w c body =
     (case ensure_connected_transport_only cfg (pe_now w) (pe_ping w) (pe_dials w) c of
        (c1, Err e) \<Rightarrow> (c1, [], Err (ProbeConn e))
      | (c1, Ok _) \<Rightarrow>
          (case pe_slot w of
             Err m \<Rightarrow> (c1, [], Err (ProbeSlot m))
           | Ok _ \<Rightarrow>
               (case open_channel_attempt_detailed (pe_opening w) c1 of
                  Err (_, e) \<Rightarrow> (c1, [], Err (ProbeConn e))
                | Ok generation \<Rightarrow>
                    (let c2 = pe_meanwhile w c1 in case body generation c2 of (log, r) \<Rightarrow> (c2, log, r)))))"

text \<open>The select of both probes. An interrupted operation leaves the connection where it was when it was dropped:
  \<open>pe_meanwhile\<close> then stands for what it and the other tasks had done, and \<open>pc_send\<close> tells whether it had sent its
  command.\<close>

definition probe_select ::
  "probe_world \<Rightarrow> connection \<Rightarrow> connection \<times> remote_request list \<times> ('a, probe_error) result \<Rightarrow>
   connection \<times> remote_request list \<times> ('a, probe_error) result" where
  "probe_select w c finished =
     (case pe_stop w of
        ProbeFinishes \<Rightarrow> finished
      | ProbeCancelled \<Rightarrow> (pe_meanwhile w c, fst (snd finished), Err ProbeWasCancelled)
      | ProbeShutdown \<Rightarrow> (pe_meanwhile w c, fst (snd finished), Err ProbeShuttingDown)
      | ProbeDeadline \<Rightarrow> (pe_meanwhile w c, fst (snd finished), Err (ProbeTimeout BOOTSTRAP_BUDGET)))"

definition sent_request :: "probe_channel \<Rightarrow> nat \<Rightarrow> string \<Rightarrow> remote_request list" where
  "sent_request ch generation cmd =
     (case pc_send ch of Some (Ok _) \<Rightarrow> [ExecRequest generation (wrap_in_posix_shell cmd False)] | _ \<Rightarrow> [])"

definition collect_startup_environment ::
  "ssh_config \<Rightarrow> probe_world \<Rightarrow> connection \<Rightarrow> connection \<times> remote_request list \<times> (host_environment, probe_error) result" where
  "collect_startup_environment cfg w c =
     probe_select w c
       (with_probe_channel cfg w c (\<lambda>generation c2.
          (sent_request (pe_channel w) generation PROBE,
           case collect (pe_channel w) of
             Err m \<Rightarrow> Err (ProbeExec m)
           | Ok snapshot \<Rightarrow>
               if pe_token w then Err ProbeWasCancelled
               else if \<not> route_current generation c2 then Err ProbeRouteChanged
               else Ok snapshot)))"

definition probe_startup_exec_raw ::
  "ssh_config \<Rightarrow> probe_world \<Rightarrow> connection \<Rightarrow> connection \<times> remote_request list \<times> (bool, probe_error) result" where
  "probe_startup_exec_raw cfg w c =
     probe_select w c
       (with_probe_channel cfg w c (\<lambda>generation c2.
          (sent_request (pe_channel w) generation ''exec cat'',
           case collect_binary_echo (pe_channel w) of
             Err m \<Rightarrow> Err (ProbeExec m)
           | Ok passed \<Rightarrow> Ok (passed \<and> \<not> pe_token w \<and> route_current generation c2))))"

section \<open>A reference\<close>

text \<open>The records that a stream holds with status 0, and a field as a function of the record that carries it.\<close>

fun records :: "string list \<Rightarrow> string \<Rightarrow> (string \<times> string) list" where
  "records [] input = []"
| "records (rid # rids) input =
     (case read_record rid input of
        None \<Rightarrow> []
      | Some ((payload, rc), rest) \<Rightarrow>
          if rc \<noteq> ''0'' then records rids rest else (rid, payload) # records rids rest)"

definition got :: "(string \<rightharpoonup> string) \<Rightarrow> string \<Rightarrow> (string \<Rightarrow> 'a option) \<Rightarrow> 'a option" where
  "got m rid f = Option.bind (m rid) f"

definition short :: "nat \<Rightarrow> (string \<Rightarrow> 'a option) \<Rightarrow> string \<Rightarrow> 'a option" where
  "short limit f payload = (if length payload \<le> limit then f payload else None)"

definition word :: "string \<Rightarrow> string option" where
  "word payload = scalar payload SCALAR_LIMIT"

definition id_number :: "string \<Rightarrow> nat option" where
  "id_number payload = Option.bind (decimal payload) u32_try_from"

definition absolute_path :: "string \<Rightarrow> string option" where
  "absolute_path payload =
     Option.bind (scalar payload PATH_LIMIT) (\<lambda>path. if starts_with path ''/'' then Some path else None)"

definition positive :: "string \<Rightarrow> nat option" where
  "positive payload = Option.bind (decimal payload) (\<lambda>count. if count > 0 then Some count else None)"

definition model_ids :: "string list" where
  "model_ids = [''cpu_model1'', ''cpu_model2'', ''cpu_model3'', ''cpu_model4'']"

definition snapshot_of :: "(string \<rightharpoonup> string) \<Rightarrow> host_environment" where
  "snapshot_of m =
     (let uid = or_else (got m ''uid'' id_number) (got m ''status'' (short FILE_LIMIT (\<lambda>p. effective_id p ''Uid:'')));
          models = sorted_list_of_set {x. \<exists>rid\<in>set model_ids. got m rid cpu_model = Some x} in
      \<lparr>he_hostname = or_else (got m ''hostname'' word) (got m ''hostname_proc'' word),
       he_os = or_else (got m ''os'' word) (got m ''os_proc'' word),
       he_distribution = got m ''distribution'' (short FILE_LIMIT distribution),
       he_kernel_release = or_else (got m ''kernel'' word) (got m ''kernel_proc'' word),
       he_machine_architecture = got m ''machine'' word,
       he_process_architecture = map_option fst (got m ''elf'' elf_abi),
       he_pointer_width = map_option snd (got m ''elf'' elf_abi),
       he_available_cpu_parallelism = got m ''cpu'' positive,
       he_effective_uid = uid,
       he_effective_gid =
         or_else (got m ''gid'' id_number) (got m ''status'' (short FILE_LIMIT (\<lambda>p. effective_id p ''Gid:''))),
       he_running_as_root = map_option (\<lambda>u. u = 0) uid,
       he_shell_executable = got m ''shell'' absolute_path,
       he_cpu_models = (if models \<noteq> [] then Some models else None),
       he_virtualization =
         \<lparr>vi_container = container_kind (got m ''container_decl'' word) (got m ''container_marker'' word),
          vi_vm = vm_kind (got m ''hypervisor_type'' word) (got m ''dmi_product'' word) (got m ''dmi_vendor'' word)
                    (m ''cpu_hypervisor'' = Some ''1'')\<rparr>\<rparr>)"

text \<open>A text that can be shown: not empty, within its limit, decodable, without control characters and surrounding blanks.\<close>

definition clean :: "nat \<Rightarrow> string \<Rightarrow> bool" where
  "clean limit s \<longleftrightarrow> s \<noteq> [] \<and> length s \<le> limit \<and> utf8_valid s \<and> \<not> has_control s \<and> trim s = s"

definition ARCHITECTURES :: "string list" where
  "ARCHITECTURES = [''x86'', ''x86_64'', ''arm'', ''aarch64'', ''powerpc'', ''powerpc64'', ''s390'', ''s390x'', ''riscv32'',
     ''riscv64'', ''loongarch64'']"

definition CONTAINERS :: "string list" where
  "CONTAINERS = [''docker'', ''podman'', ''lxc'', ''systemd-nspawn'', ''openvz'', ''unknown'']"

definition HYPERVISORS :: "string list" where
  "HYPERVISORS = [''xen'', ''hyperv'', ''kvm'', ''qemu'', ''vmware'', ''virtualbox'', ''unknown'']"

definition models_ok :: "string list \<Rightarrow> bool" where
  "models_ok xs \<longleftrightarrow> xs \<noteq> [] \<and> length xs \<le> 4 \<and> sorted xs \<and> distinct xs \<and> list_all (clean CPU_MODEL_LIMIT) xs"

definition environment_ok :: "host_environment \<Rightarrow> bool" where
  "environment_ok e \<longleftrightarrow>
     list_all (pred_option (clean SCALAR_LIMIT))
       [he_hostname e, he_os e, he_distribution e, he_kernel_release e, he_machine_architecture e]
     \<and> pred_option (\<lambda>p. clean PATH_LIMIT p \<and> starts_with p ''/'') (he_shell_executable e)
     \<and> (case (he_process_architecture e, he_pointer_width e) of
          (None, None) \<Rightarrow> True
        | (Some a, Some n) \<Rightarrow> a \<in> set ARCHITECTURES \<and> n \<in> {32, 64}
        | _ \<Rightarrow> False)
     \<and> pred_option (\<lambda>n. 0 < n \<and> n < U64) (he_available_cpu_parallelism e)
     \<and> pred_option (\<lambda>n. n < U32) (he_effective_uid e)
     \<and> pred_option (\<lambda>n. n < U32) (he_effective_gid e)
     \<and> he_running_as_root e = map_option (\<lambda>uid. uid = 0) (he_effective_uid e)
     \<and> pred_option models_ok (he_cpu_models e)
     \<and> pred_option (\<lambda>k. k \<in> set CONTAINERS) (vi_container (he_virtualization e))
     \<and> pred_option (\<lambda>k. k \<in> set HYPERVISORS) (vi_vm (he_virtualization e))"

section \<open>Lemmas\<close>

definition over :: "(string \<rightharpoonup> string) \<Rightarrow> string \<Rightarrow> (string \<Rightarrow> 'a) \<Rightarrow> 'a \<Rightarrow> 'a" where
  "over m rid f old = (case m rid of None \<Rightarrow> old | Some x \<Rightarrow> f x)"

lemma or_else_simps [simp]:
  "or_else None b = b" "or_else (Some x) b = Some x" "or_else a None = a"
  by (simp_all add: or_else_def split: option.split)

lemma or_else_eq_Some: "or_else a b = Some x \<longleftrightarrow> a = Some x \<or> a = None \<and> b = Some x"
  by (cases a) simp_all

definition lookup_step :: "(string \<rightharpoonup> string) \<Rightarrow> string \<Rightarrow> probe_fields \<Rightarrow> probe_fields" where
  "lookup_step m rid p = (case m rid of None \<Rightarrow> p | Some x \<Rightarrow> apply_record rid x p)"

lemma lookup_step_simps: "m rid = None \<Longrightarrow> lookup_step m rid p = p" "lookup_step (m(rid \<mapsto> x)) rid p = apply_record rid x p"
  by (simp_all add: lookup_step_def)

lemma records_ids: "fst ` set (records rids input) \<subseteq> set rids"
proof (induction rids arbitrary: input)
  case (Cons rid rids)
  then show ?case by (auto split: option.splits prod.splits if_splits simp: subset_iff)
qed simp

lemma parse_records_fold:
  "distinct rids \<Longrightarrow> parse_records rids input p = fold (lookup_step (map_of (records rids input))) rids p"
proof (induction rids arbitrary: input p)
  case (Cons rid rids)
  show ?case
  proof (cases "read_record rid input")
    case None
    have "fold (lookup_step Map.empty) xs p = p" for xs p by (induction xs arbitrary: p) (simp_all add: lookup_step_def)
    with None this[of "rid # rids" p] show ?thesis by (simp del: fold_simps)
  next
    case (Some a)
    then obtain payload rc rest where a: "read_record rid input = Some ((payload, rc), rest)" by (metis surj_pair)
    let ?m = "map_of (records rids rest)"
    have none: "?m rid = None" using Cons.prems records_ids[of rids rest] by (auto simp: map_of_eq_None_iff)
    have "fold (lookup_step (?m(rid \<mapsto> payload))) rids q = fold (lookup_step ?m) rids q" for q
      using Cons.prems by (intro fold_cong) (auto simp: lookup_step_def)
    with none a Cons show ?thesis by (simp add: lookup_step_simps)
  qed
qed simp

lemma lookup_steps:
  "lookup_step m ''hostname'' p = set_snapshot (he_hostname_update (\<lambda>h. or_else h (got m ''hostname'' word))) p"
  "lookup_step m ''hostname_proc'' p = set_snapshot (he_hostname_update (\<lambda>h. or_else h (got m ''hostname_proc'' word))) p"
  "lookup_step m ''os'' p = set_snapshot (he_os_update (\<lambda>h. or_else h (got m ''os'' word))) p"
  "lookup_step m ''os_proc'' p = set_snapshot (he_os_update (\<lambda>h. or_else h (got m ''os_proc'' word))) p"
  "lookup_step m ''kernel'' p = set_snapshot (he_kernel_release_update (\<lambda>h. or_else h (got m ''kernel'' word))) p"
  "lookup_step m ''kernel_proc'' p = set_snapshot (he_kernel_release_update (\<lambda>h. or_else h (got m ''kernel_proc'' word))) p"
  "lookup_step m ''distribution'' p = set_snapshot (he_distribution_update (\<lambda>d. over m ''distribution'' (\<lambda>x. if length x \<le> FILE_LIMIT then distribution x else d) d)) p"
  "lookup_step m ''machine'' p = set_snapshot (he_machine_architecture_update (over m ''machine'' word)) p"
  "lookup_step m ''uid'' p = set_snapshot (he_effective_uid_update (over m ''uid'' id_number)) p"
  "lookup_step m ''gid'' p = set_snapshot (he_effective_gid_update (over m ''gid'' id_number)) p"
  "lookup_step m ''shell'' p = set_snapshot (he_shell_executable_update (over m ''shell'' absolute_path)) p"
  "lookup_step m ''cpu'' p = set_snapshot (he_available_cpu_parallelism_update (over m ''cpu'' positive)) p"
  "lookup_step m ''status'' p = set_snapshot (\<lambda>s. s\<lparr>
       he_effective_uid := or_else (he_effective_uid s) (got m ''status'' (short FILE_LIMIT (\<lambda>x. effective_id x ''Uid:''))),
       he_effective_gid := or_else (he_effective_gid s) (got m ''status'' (short FILE_LIMIT (\<lambda>x. effective_id x ''Gid:'')))\<rparr>) p"
  "lookup_step m ''cpu_model1'' p = p\<lparr>pf_models := pf_models p @ (case got m ''cpu_model1'' cpu_model of Some x \<Rightarrow> [x] | None \<Rightarrow> [])\<rparr>"
  "lookup_step m ''cpu_model2'' p = p\<lparr>pf_models := pf_models p @ (case got m ''cpu_model2'' cpu_model of Some x \<Rightarrow> [x] | None \<Rightarrow> [])\<rparr>"
  "lookup_step m ''cpu_model3'' p = p\<lparr>pf_models := pf_models p @ (case got m ''cpu_model3'' cpu_model of Some x \<Rightarrow> [x] | None \<Rightarrow> [])\<rparr>"
  "lookup_step m ''cpu_model4'' p = p\<lparr>pf_models := pf_models p @ (case got m ''cpu_model4'' cpu_model of Some x \<Rightarrow> [x] | None \<Rightarrow> [])\<rparr>"
  "lookup_step m ''cpu_hypervisor'' p = pf_cpu_hypervisor_update (over m ''cpu_hypervisor'' (\<lambda>x. x = ''1'')) p"
  "lookup_step m ''container_decl'' p = pf_container_decl_update (over m ''container_decl'' word) p"
  "lookup_step m ''container_marker'' p = pf_container_marker_update (over m ''container_marker'' word) p"
  "lookup_step m ''hypervisor_type'' p = pf_hypervisor_type_update (over m ''hypervisor_type'' word) p"
  "lookup_step m ''dmi_product'' p = pf_dmi_product_update (over m ''dmi_product'' word) p"
  "lookup_step m ''dmi_vendor'' p = pf_dmi_vendor_update (over m ''dmi_vendor'' word) p"
  "lookup_step m ''elf'' p = set_snapshot (\<lambda>s. s\<lparr>
       he_process_architecture := or_else (map_option fst (got m ''elf'' elf_abi)) (he_process_architecture s),
       he_pointer_width := or_else (map_option snd (got m ''elf'' elf_abi)) (he_pointer_width s)\<rparr>) p"
  by (simp_all add: lookup_step_def apply_record_def set_snapshot_def got_def over_def word_def id_number_def short_def
        absolute_path_def positive_def Let_def or_else_def split: option.split)

lemma distinct_remdups_adj: "sorted xs \<Longrightarrow> distinct (remdups_adj xs)"
proof (induction xs rule: remdups_adj.induct)
  case (3 x y xs)
  then have "x \<noteq> y \<Longrightarrow> x \<notin> set (y # xs)" by force
  with 3 show ?case by auto
qed simp_all

lemma remdups_adj_sort: "remdups_adj (sort xs) = sorted_list_of_set (set xs)"
  by (rule sorted_distinct_set_unique) (simp_all add: distinct_remdups_adj)

lemma set_case_option: "set (case a of Some x \<Rightarrow> [x] | None \<Rightarrow> []) = {x. a = Some x}"
  by (cases a) auto

lemma over_None [simp]: "over m rid f None = got m rid f"
  by (simp add: over_def got_def split: option.split)

lemma got_short: "got m rid (\<lambda>x. if length x \<le> limit then f x else None) = got m rid (short limit f)"
  by (simp add: got_def short_def split: option.split bind_splits)

lemma over_False: "over m rid (\<lambda>x. x = a) False \<longleftrightarrow> m rid = Some a"
  by (simp add: over_def split: option.split)

lemma fold_fields:
  "fold (lookup_step m) PROBE_IDS probe_fields_start =
     \<lparr>pf_snapshot = (snapshot_of m)\<lparr>he_running_as_root := None, he_cpu_models := None,
        he_virtualization := \<lparr>vi_container = None, vi_vm = None\<rparr>\<rparr>,
      pf_models = concat (map (\<lambda>rid. case got m rid cpu_model of Some x \<Rightarrow> [x] | None \<Rightarrow> []) model_ids),
      pf_cpu_hypervisor = (m ''cpu_hypervisor'' = Some ''1''), pf_container_decl = got m ''container_decl'' word,
      pf_container_marker = got m ''container_marker'' word, pf_hypervisor_type = got m ''hypervisor_type'' word,
      pf_dmi_product = got m ''dmi_product'' word, pf_dmi_vendor = got m ''dmi_vendor'' word\<rparr>"
  unfolding PROBE_IDS_def fold_simps(2) fold_simps(1) lookup_steps probe_fields_start_def host_environment_default_def
  by (simp add: set_snapshot_def snapshot_of_def Let_def got_short over_False model_ids_def)

text \<open>Reading the probe is the same as looking its records up, whatever bytes arrive: a record counts if it and all the
  records before it in the fixed order are complete and its status is 0.\<close>

lemma parse_snapshot_reference:
  "parse_snapshot raw =
     snapshot_of (case strip_prefix raw (''SE1'' @ [NUL]) of
                    None \<Rightarrow> Map.empty
                  | Some input \<Rightarrow> map_of (records PROBE_IDS input))"
proof (cases "strip_prefix raw (''SE1'' @ [NUL])")
  case None
  then show ?thesis
    by (simp add: parse_snapshot_def host_environment_default_def snapshot_of_def got_def container_kind_def vm_kind_def)
next
  case (Some input)
  have d: "distinct PROBE_IDS" by (simp add: PROBE_IDS_def)
  let ?m = "map_of (records PROBE_IDS input)"
  have "set (concat (map (\<lambda>rid. case got ?m rid cpu_model of Some x \<Rightarrow> [x] | None \<Rightarrow> []) model_ids))
      = {x. \<exists>rid\<in>set model_ids. got ?m rid cpu_model = Some x}"
    by (auto simp: set_case_option)
  then have "finish_snapshot (fold (lookup_step ?m) PROBE_IDS probe_fields_start) = snapshot_of ?m"
    unfolding fold_fields finish_snapshot_def by (simp only: remdups_adj_sort) (simp add: snapshot_of_def Let_def)
  then show ?thesis unfolding parse_snapshot_def Some by (simp add: parse_records_fold[OF d])
qed

subsection \<open>Every field is well formed\<close>

lemma length_dropWhile_concat: "length (concat (dropWhile P xs)) \<le> length (concat xs)"
  by (induction xs) auto

lemma length_concat_rev: "length (concat (rev xs)) = length (concat xs)"
  by (induction xs) simp_all

lemma length_trim: "length (trim s) \<le> length s"
proof -
  have "length (trim s) \<le> length (concat (rev (dropWhile ch_is_whitespace (str_chars s))))"
    unfolding trim_def by (subst length_concat_rev) (rule length_dropWhile_concat)
  also have "\<dots> \<le> length (concat (str_chars s))" by (subst length_concat_rev) (rule length_dropWhile_concat)
  finally show ?thesis by (simp only: concat_str_chars)
qed

lemma scalar_clean: "scalar payload limit = Some s \<Longrightarrow> clean limit s"
  using length_trim[of payload]
  by (auto simp: scalar_def clean_def from_utf8_def Let_def trim_idem trim_valid split: if_splits)

lemma cpu_model_clean: "cpu_model payload = Some s \<Longrightarrow> clean CPU_MODEL_LIMIT s"
  by (auto simp: cpu_model_def clean_def from_utf8_def Let_def trim_idem trim_valid split: if_splits)

lemma decimal_bound: "decimal payload = Some n \<Longrightarrow> n < U64"
  by (auto simp: decimal_def from_utf8_def Let_def parse_unsigned_def parse_digits_def split: if_splits list.splits option.splits)

lemma id_number_bound: "id_number payload = Some n \<Longrightarrow> n < U32"
  by (auto simp: id_number_def u32_try_from_def split: if_splits bind_splits)

lemma those_member: "those xs = Some ys \<Longrightarrow> y \<in> set ys \<Longrightarrow> Some y \<in> set xs"
  by (induction xs arbitrary: ys) (auto split: option.splits)

lemma effective_id_bound: "effective_id payload label = Some n \<Longrightarrow> n < U32"
  by (auto simp: effective_id_def u32_try_from_def split: option.splits if_splits bind_splits
      dest!: those_member[where y = n])

lemma distribution_clean: "distribution payload = Some s \<Longrightarrow> clean SCALAR_LIMIT s"
  by (auto simp: distribution_def Let_def intro: scalar_clean split: option.splits)

lemma elf_abi_known: "elf_abi header = Some (a, n) \<Longrightarrow> a \<in> set ARCHITECTURES \<and> n \<in> {32, 64}"
  by (auto simp: elf_abi_def elf_machine_def ARCHITECTURES_def Let_def split: option.splits if_splits bind_splits)

lemma container_kind_known: "container_kind d m = Some k \<Longrightarrow> k \<in> set CONTAINERS"
  by (auto simp: container_kind_def CONTAINERS_def Let_def or_else_def split: option.splits if_splits)

lemma dmi_kind_known: "dmi_kind v = Some k \<Longrightarrow> k \<in> set HYPERVISORS"
  by (auto simp: dmi_kind_def HYPERVISORS_def split: if_splits)

lemma vm_kind_known:
  assumes "vm_kind t p v h = Some k" shows "k \<in> set HYPERVISORS"
proof -
  have lits: "''xen'' \<in> set HYPERVISORS" "''kvm'' \<in> set HYPERVISORS" "''unknown'' \<in> set HYPERVISORS" "''hyperv'' \<in> set HYPERVISORS"
    by (simp_all add: HYPERVISORS_def)
  define pk where "pk = (if p = Some ''Virtual Machine'' \<and> v = Some ''Microsoft Corporation'' then Some ''hyperv''
               else Option.bind p dmi_kind)"
  define vk where "vk = Option.bind v dmi_kind"
  have pk: "x \<in> set HYPERVISORS" if "pk = Some x" for x
    using that lits by (auto simp: pk_def dest: dmi_kind_known split: if_splits bind_splits)
  have vk: "x \<in> set HYPERVISORS" if "vk = Some x" for x
    using that by (auto simp: vk_def dest: dmi_kind_known split: bind_splits)
  show ?thesis
    using assms lits pk vk unfolding vm_kind_def pk_def[symmetric] vk_def[symmetric] Let_def
    by (cases pk; cases vk) (force split: if_splits)+
qed

lemma pred_option_or_else: "pred_option P a \<Longrightarrow> pred_option P b \<Longrightarrow> pred_option P (or_else a b)"
  by (cases a) simp_all

lemma pred_option_got: "(\<And>x y. f x = Some y \<Longrightarrow> P y) \<Longrightarrow> pred_option P (got m rid f)"
  by (auto simp: got_def option.pred_set split: bind_splits)

lemma models_sound:
  assumes "xs = sorted_list_of_set {x. \<exists>rid\<in>set model_ids. got m rid cpu_model = Some x}" "xs \<noteq> []"
  shows "models_ok xs"
proof -
  let ?A = "{x. \<exists>rid\<in>set model_ids. got m rid cpu_model = Some x}"
  have sub: "?A \<subseteq> (\<lambda>rid. the (got m rid cpu_model)) ` set model_ids" by force
  then have fin: "finite ?A" by (rule finite_subset) simp
  have "card ?A \<le> card ((\<lambda>rid. the (got m rid cpu_model)) ` set model_ids)" by (rule card_mono[OF _ sub]) simp
  also have "\<dots> \<le> card (set model_ids)" by (rule card_image_le) simp
  also have "\<dots> \<le> 4" by (simp add: model_ids_def card_insert_if)
  finally have "card ?A \<le> 4" .
  moreover have "clean CPU_MODEL_LIMIT x" if "x \<in> ?A" for x
    using that by (auto simp: got_def intro: cpu_model_clean split: bind_splits)
  ultimately show ?thesis using assms fin by (auto simp: models_ok_def list_all_iff)
qed

text \<open>C16: Whatever bytes the target sends, the snapshot is well formed. Every text is not empty, decodable, within the limit
  of its field and free of control characters and of surrounding blanks, so that it can be put into the instructions
  of the server as one line; the shell is an absolute path; architecture and pointer width come together, from the
  fixed list; user and group ids fit 32 bits, the number of processors is positive and fits 64; \<open>running_as_root\<close> is
  known exactly when the user id is and says whether it is 0; there are at most four processor models, sorted and
  without repetition; container and virtual machine are labels of the fixed lists.\<close>

theorem snapshot_well_formed: "environment_ok (parse_snapshot raw)"
proof -
  have "environment_ok (snapshot_of m)" for m
  proof -
    let ?e = "snapshot_of m"
    have w: "pred_option (clean SCALAR_LIMIT) (got m rid word)" for rid
      by (rule pred_option_got) (simp add: word_def scalar_clean)
    have texts: "list_all (pred_option (clean SCALAR_LIMIT))
       [he_hostname ?e, he_os ?e, he_distribution ?e, he_kernel_release ?e, he_machine_architecture ?e]"
      by (simp add: snapshot_of_def Let_def pred_option_or_else w)
         (rule pred_option_got, auto simp: short_def intro: distribution_clean split: if_splits)
    have shell: "pred_option (\<lambda>p. clean PATH_LIMIT p \<and> starts_with p ''/'') (he_shell_executable ?e)"
      by (simp add: snapshot_of_def Let_def)
         (rule pred_option_got, auto simp: absolute_path_def intro: scalar_clean split: if_splits bind_splits)
    have elf: "case (he_process_architecture ?e, he_pointer_width ?e) of
          (None, None) \<Rightarrow> True | (Some a, Some n) \<Rightarrow> a \<in> set ARCHITECTURES \<and> n \<in> {32, 64} | _ \<Rightarrow> False"
      by (cases "got m ''elf'' elf_abi") (auto simp: snapshot_of_def Let_def got_def split: bind_splits dest: elf_abi_known)
    have cpu: "pred_option (\<lambda>n. 0 < n \<and> n < U64) (he_available_cpu_parallelism ?e)"
      by (simp add: snapshot_of_def Let_def)
         (rule pred_option_got, auto simp: positive_def dest: decimal_bound split: if_splits bind_splits)
    have st: "pred_option (\<lambda>n. n < U32) (got m ''status'' (short FILE_LIMIT (\<lambda>p. effective_id p l)))" for l
      by (rule pred_option_got) (auto simp: short_def dest: effective_id_bound split: if_splits)
    have num: "pred_option (\<lambda>n. n < U32) (got m rid id_number)" for rid
      by (rule pred_option_got) (rule id_number_bound)
    have ids: "pred_option (\<lambda>n. n < U32) (he_effective_uid ?e)" "pred_option (\<lambda>n. n < U32) (he_effective_gid ?e)"
      by (simp_all only: snapshot_of_def Let_def host_environment.simps pred_option_or_else st num)
    have virt: "pred_option (\<lambda>k. k \<in> set CONTAINERS) (vi_container (he_virtualization ?e))"
      "pred_option (\<lambda>k. k \<in> set HYPERVISORS) (vi_vm (he_virtualization ?e))"
      by (auto simp: snapshot_of_def Let_def option.pred_set dest: container_kind_known vm_kind_known)
    have "he_running_as_root ?e = map_option (\<lambda>uid. uid = 0) (he_effective_uid ?e)"
      by (simp add: snapshot_of_def Let_def)
    moreover have "pred_option models_ok (he_cpu_models ?e)"
      using models_sound by (simp add: snapshot_of_def Let_def)
    ultimately show ?thesis unfolding environment_ok_def using texts shell elf cpu ids virt by blast
  qed
  then show ?thesis by (simp only: parse_snapshot_reference)
qed

subsection \<open>Truncated output\<close>

lemma split_once_extend: "split_once c a = Some (k, r) \<Longrightarrow> split_once c (a @ b) = Some (k, r @ b)"
  by (auto simp: split_once_def dropWhile_append takeWhile_append split: if_splits)

lemma read_record_append:
  assumes "read_record rid a = Some (x, r)" shows "read_record rid (a @ b) = Some (x, r @ b)"
proof -
  from assms obtain i1 payload i2 rc where
    1: "nul_value a = Some (rid, i1)" and 2: "take_payload rid i1 = Some (payload, i2)" and
    3: "nul_value i2 = Some (rc, r)" and x: "x = (payload, rc)"
    by (auto simp: read_record_def split: option.splits prod.splits if_splits)
  have "take_payload rid (i1 @ b) = Some (payload, i2 @ b)"
    using 2 by (auto simp: take_payload_def nul_value_def split_once_extend nth_append split: if_splits)
  with 1 3 x show ?thesis by (simp add: read_record_def nul_value_def split_once_extend)
qed

lemma records_append:
  "distinct rids \<Longrightarrow>
   \<exists>k. records rids a = filter (\<lambda>(i, _). i \<in> set (take k rids)) (records rids (a @ b))"
proof (induction rids arbitrary: a)
  case (Cons rid rids)
  show ?case
  proof (cases "read_record rid a")
    case None
    then show ?thesis by (intro exI[of _ 0]) simp
  next
    case (Some q)
    then obtain payload rc r where q: "read_record rid a = Some ((payload, rc), r)" by (metis surj_pair)
    obtain k where k: "records rids r = filter (\<lambda>(i, _). i \<in> set (take k rids)) (records rids (r @ b))"
      using Cons.IH[of r] Cons.prems by auto
    have "filter (\<lambda>(i, _). i = rid \<or> i \<in> set (take k rids)) (records rids (r @ b)) = records rids r"
      unfolding k using records_ids[of rids "r @ b"] Cons.prems by (intro filter_cong) (auto simp: image_subset_iff)
    with q read_record_append[OF q, of b] show ?thesis by (intro exI[of _ "Suc k"]) (simp cong: if_cong)
  qed
qed simp

lemma map_of_filter_key: "map_of (filter (\<lambda>(i, _). i \<in> K) xs) = map_of xs |` K"
  by (rule ext) (induction xs, auto simp: restrict_map_def)

definition known_of :: "'a option \<Rightarrow> 'a option \<Rightarrow> bool" where
  "known_of a b \<longleftrightarrow> a = None \<or> a = b"

lemma probe_order:
  "''hostname_proc'' \<in> set (take k PROBE_IDS) \<Longrightarrow> ''hostname'' \<in> set (take k PROBE_IDS)"
  "''os_proc'' \<in> set (take k PROBE_IDS) \<Longrightarrow> ''os'' \<in> set (take k PROBE_IDS)"
  "''kernel_proc'' \<in> set (take k PROBE_IDS) \<Longrightarrow> ''kernel'' \<in> set (take k PROBE_IDS)"
  "''status'' \<in> set (take k PROBE_IDS) \<Longrightarrow> ''uid'' \<in> set (take k PROBE_IDS)"
  "''status'' \<in> set (take k PROBE_IDS) \<Longrightarrow> ''gid'' \<in> set (take k PROBE_IDS)"
  by (auto simp: PROBE_IDS_def take_Cons split: nat.splits)

lemma got_restrict: "got (m |` K) rid f = (if rid \<in> K then got m rid f else None)"
  by (simp add: got_def restrict_map_def)

lemma known_or_else:
  "(b \<in> K \<Longrightarrow> a \<in> K) \<Longrightarrow>
   known_of (or_else (got (m |` K) a f) (got (m |` K) b g)) (or_else (got m a f) (got m b g))"
  by (cases "got m a f") (auto simp: got_restrict known_of_def)

lemma known_got: "known_of (got (m |` K) a f) (got m a f)" "known_of (map_option h (got (m |` K) a f)) (map_option h (got m a f))"
  by (auto simp: got_restrict known_of_def)

lemma known_map: "known_of a b \<Longrightarrow> known_of (map_option h a) (map_option h b)"
  by (auto simp: known_of_def)

text \<open>The fields that the cut may only forget.\<close>

definition only_forgets :: "host_environment \<Rightarrow> host_environment \<Rightarrow> bool" where
  "only_forgets e e' \<longleftrightarrow>
     known_of (he_hostname e) (he_hostname e') \<and> known_of (he_os e) (he_os e')
     \<and> known_of (he_distribution e) (he_distribution e') \<and> known_of (he_kernel_release e) (he_kernel_release e')
     \<and> known_of (he_machine_architecture e) (he_machine_architecture e')
     \<and> known_of (he_process_architecture e) (he_process_architecture e')
     \<and> known_of (he_pointer_width e) (he_pointer_width e')
     \<and> known_of (he_available_cpu_parallelism e) (he_available_cpu_parallelism e')
     \<and> known_of (he_effective_uid e) (he_effective_uid e') \<and> known_of (he_effective_gid e) (he_effective_gid e')
     \<and> known_of (he_running_as_root e) (he_running_as_root e')
     \<and> known_of (he_shell_executable e) (he_shell_executable e')
     \<and> (case he_cpu_models e of None \<Rightarrow> {} | Some xs \<Rightarrow> set xs) \<subseteq> (case he_cpu_models e' of None \<Rightarrow> {} | Some xs \<Rightarrow> set xs)"

lemma models_set:
  "(case he_cpu_models (snapshot_of m) of None \<Rightarrow> {} | Some xs \<Rightarrow> set xs) = {x. \<exists>rid\<in>set model_ids. got m rid cpu_model = Some x}"
proof -
  let ?A = "{x. \<exists>rid\<in>set model_ids. got m rid cpu_model = Some x}"
  have "?A \<subseteq> (\<lambda>rid. the (got m rid cpu_model)) ` set model_ids" by force
  then have "finite ?A" by (rule finite_subset) simp
  moreover have "he_cpu_models (snapshot_of m) =
      (if sorted_list_of_set ?A \<noteq> [] then Some (sorted_list_of_set ?A) else None)"
    by (simp add: snapshot_of_def Let_def)
  ultimately show ?thesis by (cases "sorted_list_of_set ?A = []") auto
qed

lemma snapshot_of_restrict:
  assumes K: "K = set (take k PROBE_IDS)" shows "only_forgets (snapshot_of (m |` K)) (snapshot_of m)"
proof -
  note order = probe_order[of k, folded K]
  have "known_of (he_effective_uid (snapshot_of (m |` K))) (he_effective_uid (snapshot_of m))"
    by (simp add: snapshot_of_def Let_def known_or_else[OF order(4)])
  moreover from this have "known_of (he_running_as_root (snapshot_of (m |` K))) (he_running_as_root (snapshot_of m))"
    by (simp add: snapshot_of_def Let_def known_map)
  moreover have "{x. \<exists>rid\<in>set model_ids. got (m |` K) rid cpu_model = Some x} \<subseteq> {x. \<exists>rid\<in>set model_ids. got m rid cpu_model = Some x}"
    by (auto simp: got_restrict split: if_splits)
  ultimately show ?thesis unfolding only_forgets_def models_set
    by (simp add: snapshot_of_def Let_def known_or_else[OF order(1)] known_or_else[OF order(2)] known_or_else[OF order(3)]
        known_or_else[OF order(5)] known_got)
qed

text \<open>A truncated probe is never wrong. When the output stops anywhere (the limit of 64 KiB, the deadline, a closed
  channel), each of these fields of the snapshot is either unknown or has the value that the whole output would have
  given, and no processor model appears that the whole output does not list. The two labels of \<open>virtualization\<close> are
  not among them: they summarise several records.\<close>

theorem truncation_only_forgets: "only_forgets (parse_snapshot raw) (parse_snapshot (raw @ later))"
proof (cases "strip_prefix raw (''SE1'' @ [NUL])")
  case None
  have "only_forgets (snapshot_of Map.empty) e" for e
    by (simp add: only_forgets_def models_set) (simp add: snapshot_of_def Let_def got_def known_of_def)
  with None show ?thesis by (simp add: parse_snapshot_reference del: append.simps)
next
  case (Some input)
  then have "raw = (''SE1'' @ [NUL]) @ input" by (simp add: strip_prefix_Some)
  then have s2: "strip_prefix (raw @ later) (''SE1'' @ [NUL]) = Some (input @ later)"
    by (simp add: strip_prefix_Some)
  have "distinct PROBE_IDS" by (simp add: PROBE_IDS_def)
  from records_append[OF this, of input later] obtain k where
    "records PROBE_IDS input = filter (\<lambda>(i, _). i \<in> set (take k PROBE_IDS)) (records PROBE_IDS (input @ later))" by blast
  then have "map_of (records PROBE_IDS input) = map_of (records PROBE_IDS (input @ later)) |` set (take k PROBE_IDS)"
    by (simp only: map_of_filter_key)
  then show ?thesis unfolding parse_snapshot_reference Some s2 by (simp add: snapshot_of_restrict)
qed

subsection \<open>What the script prints\<close>

text \<open>A record as the shell function \<open>record\<close> prints it, and when its framing is unambiguous: no NUL, or the 64 bytes of
  the executable.\<close>

definition frame :: "string \<times> string \<times> string \<Rightarrow> string" where
  "frame = (\<lambda>(rid, payload, rc). rid @ [NUL] @ payload @ [NUL] @ rc @ [NUL])"

definition framable :: "string \<times> string \<times> string \<Rightarrow> bool" where
  "framable = (\<lambda>(rid, payload, rc).
     NUL \<notin> set rid \<and> NUL \<notin> set rc \<and> (if rid = ''elf'' then length payload = 64 else NUL \<notin> set payload))"

definition succeeded_records :: "(string \<times> string \<times> string) list \<Rightarrow> (string \<times> string) list" where
  "succeeded_records recs = map (\<lambda>(rid, payload, rc). (rid, payload)) (filter (\<lambda>(rid, payload, rc). rc = ''0'') recs)"

lemma split_once_here: "c \<notin> set a \<Longrightarrow> split_once c (a @ c # b) = Some (a, b)"
  by (auto simp: split_once_def takeWhile_append dropWhile_append)

lemma read_record_frame:
  assumes "framable (rid, payload, rc)"
  shows "read_record rid (frame (rid, payload, rc) @ rest) = Some ((payload, rc), rest)"
proof -
  have "take_payload rid (payload @ NUL # rc @ NUL # rest) = Some (payload, rc @ NUL # rest)"
    using assms by (auto simp: framable_def take_payload_def nul_value_def split_once_here nth_append split: if_splits)
  with assms show ?thesis by (simp add: read_record_def frame_def framable_def nul_value_def split_once_here)
qed

lemma records_frames:
  "map fst recs = rids \<Longrightarrow> list_all framable recs \<Longrightarrow>
   records rids (concat (map frame recs) @ rest) = succeeded_records recs"
  by (induction recs arbitrary: rids) (auto simp: read_record_frame succeeded_records_def)

text \<open>C36: The framing loses nothing. When the script prints its 24 records, each with any payload that holds no NUL (the
  last one with any 64 bytes) and any status, the parser finds exactly the payloads of the records that succeeded, and
  the snapshot is computed from them; what follows the records is not looked at.\<close>

theorem framed_records_read:
  assumes "map fst recs = PROBE_IDS" "list_all framable recs"
  shows "parse_snapshot (''SE1'' @ [NUL] @ concat (map frame recs) @ rest) = snapshot_of (map_of (succeeded_records recs))"
proof -
  have "strip_prefix (''SE1'' @ [NUL] @ concat (map frame recs) @ rest) (''SE1'' @ [NUL]) = Some (concat (map frame recs) @ rest)"
    by (simp add: strip_prefix_Some)
  then show ?thesis by (simp only: parse_snapshot_reference option.case records_frames[OF assms])
qed

definition sample_records :: "(string \<times> string \<times> string) list" where
  "sample_records = map (\<lambda>rid.
     if rid = ''elf'' then (rid, replicate 64 NUL, ''0'')
     else if rid = ''hostname'' then (rid, ''web'' @ [NL], ''0'')
     else (rid, ''7'', ''1'')) PROBE_IDS"

lemma sample_records_ok: "map fst sample_records = PROBE_IDS" "list_all framable sample_records"
  by (simp_all add: sample_records_def PROBE_IDS_def framable_def)

lemma sample_succeeded: "map_of (succeeded_records sample_records) ''hostname'' = Some (''web'' @ [NL])"
  by (simp add: sample_records_def PROBE_IDS_def succeeded_records_def)

theorem framed_records_read_witness:
  "he_hostname (parse_snapshot (''SE1'' @ [NUL] @ concat (map frame sample_records) @ ''done'')) = Some ''web''"
proof -
  have "word (''web'' @ [NL]) = Some ''web''" by code_simp
  then show ?thesis unfolding framed_records_read[OF sample_records_ok]
    by (simp add: snapshot_of_def Let_def got_def sample_succeeded del: append.simps append_Cons)
qed

text \<open>The script prints the records in the order in which the parser expects them.\<close>

definition script_ids :: "string \<Rightarrow> string list" where
  "script_ids script =
     map (\<lambda>l. takeWhile (\<lambda>c. c \<noteq> CHR '' '') (drop 7 l)) (filter (\<lambda>l. starts_with l ''record '') (split_on NL script))"

lemma probe_lines_plain: "\<forall>l\<in>set PROBE_LINES. NL \<notin> set l"
  unfolding PROBE_LINES_def by simp

theorem script_matches_parser: "script_ids PROBE = PROBE_IDS"
proof -
  have "split_on NL PROBE = [] # PROBE_LINES @ [[]]"
    using split_on_unlines[OF probe_lines_plain, of "[]"] by (simp add: PROBE_def)
  then show ?thesis by (simp add: script_ids_def PROBE_LINES_def PROBE_IDS_def starts_with_def)
qed

subsection \<open>Assignments of \<open>os-release\<close>\<close>

text \<open>A value between double quotes, with a backslash before each character that the shell treats there.\<close>

definition release_special :: "string \<Rightarrow> bool" where
  "release_special ch \<longleftrightarrow> ch \<in> set [''$'', [CHR 0x60], [DQ], [BSL]]"

definition release_escape :: "string \<Rightarrow> string" where
  "release_escape s = concat (map (\<lambda>ch. if release_special ch then BSL # ch else ch) (str_chars s))"

definition release_quoted :: "string \<Rightarrow> string" where
  "release_quoted s = DQ # release_escape s @ [DQ]"

lemma code_DQ: "code DQ = 34" "code BSL = 92" "code NL = 10" "code CR = 13"
  by (simp_all add: code_def)

lemma str_chars_snoc_ascii: "code c < 128 \<Longrightarrow> str_chars (a @ [c]) = str_chars a @ [[c]]"
  by (simp add: str_chars_def utf8_chunks_before_ascii)

lemma trim_between:
  assumes "code a < 128" "code b < 128" "\<not> ch_is_whitespace [a]" "\<not> ch_is_whitespace [b]"
  shows "trim (a # body @ [b]) = a # body @ [b]"
  using assms by (simp add: trim_def str_chars_ascii str_chars_snoc_ascii concat_str_chars)

lemma release_scalars:
  assumes "list_all is_scalar chs"
  shows "str_chars (concat (map (\<lambda>ch. if release_special ch then BSL # ch else ch) chs)) =
     concat (map (\<lambda>ch. if release_special ch then [[BSL], ch] else [ch]) chs)"
proof -
  let ?l = "concat (map (\<lambda>ch. if release_special ch then [[BSL], ch] else [ch]) chs)"
  have b: "is_scalar [BSL]" by code_simp
  have "list_all is_scalar ?l" using assms by (induction chs) (simp_all add: b)
  moreover have "concat ?l = concat (map (\<lambda>ch. if release_special ch then BSL # ch else ch) chs)"
    by (induction chs) simp_all
  ultimately show ?thesis using str_chars_concat_scalars[of ?l] by simp
qed

lemma release_loop_quoted:
  "release_loop (Some DQ) (concat (map (\<lambda>ch. if release_special ch then [[BSL], ch] else [ch]) chs) @ [[DQ]]) r
     = Some (r @ concat chs)"
proof (induction chs arbitrary: r)
  case Nil
  show ?case by (simp add: comment_or_end_def trim_start_def str_chars_def)
next
  case (Cons ch chs)
  then show ?case by (auto simp: release_special_def)
qed

lemma release_value_quoted:
  assumes "utf8_valid s" shows "release_value (release_quoted s) = Some s"
proof -
  have w: "\<not> ch_is_whitespace [DQ]" by (simp add: ch_is_whitespace_def in_range_def code_def)
  have t: "trim (release_quoted s) = release_quoted s"
    unfolding release_quoted_def by (rule trim_between) (simp_all add: code_DQ w)
  have "str_chars (release_escape s @ [DQ]) =
      concat (map (\<lambda>ch. if release_special ch then [[BSL], ch] else [ch]) (str_chars s)) @ [[DQ]]"
    using release_scalars[OF utf8_valid_scalars[OF assms]] by (simp add: str_chars_snoc_ascii code_DQ release_escape_def)
  with t show ?thesis
    by (simp add: release_value_def Let_def release_quoted_def str_chars_ascii code_DQ release_loop_quoted concat_str_chars)
qed

lemma release_escape_set: "set (release_escape s) \<subseteq> insert BSL (set s)"
proof -
  have "set (concat (map (\<lambda>ch. if release_special ch then BSL # ch else ch) chs)) \<subseteq> insert BSL (set (concat chs))" for chs
    by (induction chs) auto
  from this[of "str_chars s"] show ?thesis by (simp only: release_escape_def concat_str_chars)
qed

lemma release_escape_valid: "utf8_valid s \<Longrightarrow> utf8_valid (release_escape s)"
proof -
  assume v: "utf8_valid s"
  have b: "is_scalar [BSL]" by code_simp
  let ?l = "\<lambda>chs. concat (map (\<lambda>ch. if release_special ch then [[BSL], ch] else [ch]) chs)"
  have "list_all is_scalar chs \<Longrightarrow> list_all is_scalar (?l chs)" for chs by (induction chs) (simp_all add: b)
  with utf8_valid_scalars[OF v] have "utf8_valid (concat (?l (str_chars s)))" by (blast intro: utf8_valid_concat_scalars)
  moreover have "concat (?l chs) = concat (map (\<lambda>ch. if release_special ch then BSL # ch else ch) chs)" for chs
    by (induction chs) simp_all
  ultimately show ?thesis by (simp only: release_escape_def)
qed

lemma clean_no_newline: "clean limit s \<Longrightarrow> NL \<notin> set s"
  by (auto simp: clean_def has_control_def list_ex_iff ch_is_control_def code_DQ dest!: str_chars_byte)

lemma scalar_id: "clean limit s \<Longrightarrow> scalar s limit = Some s"
  by (simp add: clean_def scalar_def from_utf8_def Let_def)

text \<open>A distribution name survives \<open>os-release\<close>. For every clean name within 1024 bytes, whatever quotes, backslashes,
  dollar signs and backquotes it holds, reading the line \<open>PRETTY_NAME=\<close> with the name between double quotes and those
  four characters escaped gives the name back; nothing of it is expanded.\<close>

theorem distribution_roundtrip:
  assumes "clean SCALAR_LIMIT s"
  shows "distribution (''PRETTY_NAME='' @ release_quoted s @ [NL]) = Some s"
proof -
  let ?line = "''PRETTY_NAME='' @ release_quoted s"
  have v: "utf8_valid s" using assms by (simp add: clean_def)
  have lit: "utf8_valid ''PRETTY_NAME=''" "utf8_valid [DQ]" "utf8_valid [DQ, NL]" by code_simp+
  have "utf8_valid (''PRETTY_NAME='' @ [DQ] @ release_escape s @ [DQ, NL])"
    by (intro utf8_valid_append lit release_escape_valid v)
  then have valid: "from_utf8 (''PRETTY_NAME='' @ release_quoted s @ [NL]) = Some (?line @ [NL])"
    by (simp add: from_utf8_def release_quoted_def)
  have nl: "NL \<notin> set ?line"
    using release_escape_set[of s] clean_no_newline[OF assms] by (auto simp: release_quoted_def)
  have lines: "str_lines (?line @ [NL]) = [?line]"
    using str_lines_unlines[of "[?line]"] nl by (simp add: unlines_def release_quoted_def)
  have w: "\<not> ch_is_whitespace [DQ]" "\<not> ch_is_whitespace ''P''" by (simp_all add: ch_is_whitespace_def in_range_def code_def)
  have t: "trim ?line = ?line"
    using trim_between[of "CHR ''P''" DQ "''RETTY_NAME='' @ DQ # release_escape s"] w
    by (simp add: release_quoted_def code_DQ) (simp add: code_def)
  have "split_once (CHR ''='') (''PRETTY_NAME'' @ CHR ''='' # release_quoted s) = Some (''PRETTY_NAME'', release_quoted s)"
    by (rule split_once_here) simp
  moreover have "s \<noteq> []" using assms by (simp add: clean_def)
  ultimately have "release_line ?line Map.empty = [''PRETTY_NAME'' \<mapsto> Some s]"
    using release_value_quoted[OF v] t by (cases s) (simp_all add: release_line_def RELEASE_KEYS_def not_empty_def)
  then have "release_fields (?line @ [NL]) = [''PRETTY_NAME'' \<mapsto> Some s]"
    unfolding release_fields_def lines by simp
  then have "release_field (release_fields (?line @ [NL])) ''PRETTY_NAME'' = Some s" by (simp add: release_field_def)
  with scalar_id[OF assms] show ?thesis unfolding distribution_def valid by (simp add: Let_def)
qed

theorem distribution_roundtrip_witness:
  "distribution (''PRETTY_NAME='' @ release_quoted ''A $B 12'' @ [NL]) = Some ''A $B 12''"
proof -
  have v: "utf8_valid ''A $B 12''" "str_chars ''A $B 12'' = map (\<lambda>c. [c]) ''A $B 12''"
    by (rule utf8_valid_ascii, simp add: code_def) (rule str_chars_all_ascii, simp add: code_def)
  have "clean SCALAR_LIMIT ''A $B 12''" unfolding clean_def trim_def has_control_def v(2)
    by (simp add: v(1) SCALAR_LIMIT_def ch_is_control_def ch_is_whitespace_def code_def in_range_def)
  then show ?thesis by (rule distribution_roundtrip)
qed

subsection \<open>The probes of the startup\<close>

definition probe_stdout :: "channel_msg list \<Rightarrow> string" where
  "probe_stdout msgs = concat (map (\<lambda>m. case m of Data d \<Rightarrow> d | _ \<Rightarrow> []) msgs)"

definition probe_stderr :: "channel_msg list \<Rightarrow> string" where
  "probe_stderr msgs = concat (map (\<lambda>m. case m of ExtendedData _ d \<Rightarrow> d | _ \<Rightarrow> []) msgs)"

definition until_close :: "channel_msg list \<Rightarrow> channel_msg list" where
  "until_close msgs = takeWhile (\<lambda>m. m \<noteq> Close) msgs"

lemma probe_parts [simp]:
  "probe_stdout [] = []" "probe_stderr [] = []" "until_close [] = []"
  "probe_stdout (m # ms) = (case m of Data d \<Rightarrow> d | _ \<Rightarrow> []) @ probe_stdout ms"
  "probe_stderr (m # ms) = (case m of ExtendedData _ d \<Rightarrow> d | _ \<Rightarrow> []) @ probe_stderr ms"
  "until_close (m # ms) = (if m = Close then [] else m # until_close ms)"
  by (simp_all add: probe_stdout_def probe_stderr_def until_close_def)

lemma append_bounded_cases:
  "length out \<le> limit \<Longrightarrow>
   append_bounded out d limit =
     (if length out + length d \<le> limit then (out @ d, False) else (out @ take (limit - length out) d, True))"
  by (auto simp: append_bounded_def Let_def min_def)

lemma collect_output_prefix:
  "length out \<le> STDOUT_LIMIT \<Longrightarrow>
   \<exists>rest. out @ probe_stdout msgs = collect_output msgs out n @ rest \<and> length (collect_output msgs out n) \<le> STDOUT_LIMIT"
proof (induction msgs arbitrary: out n)
  case (Cons m msgs)
  show ?case
  proof (cases m)
    case (Data d)
    show ?thesis
    proof (cases "length out + length d \<le> STDOUT_LIMIT")
      case True
      with Cons Data show ?thesis using Cons.IH[of "out @ d" n] by (simp add: append_bounded_cases)
    next
      case False
      have "out @ d @ probe_stdout msgs =
          (out @ take (STDOUT_LIMIT - length out) d) @ drop (STDOUT_LIMIT - length out) d @ probe_stdout msgs" by simp
      then show ?thesis
        by (intro exI[of _ "drop (STDOUT_LIMIT - length out) d @ probe_stdout msgs"])
           (use False Cons.prems Data in \<open>simp add: append_bounded_cases\<close>)
    qed
  qed (use Cons in \<open>auto simp: Let_def\<close>)
qed simp

lemma sat_add_le: "k \<le> STDERR_LIMIT \<Longrightarrow> (sat_add a b \<le> k) \<longleftrightarrow> a + b \<le> k"
  by (simp add: sat_add_def STDERR_LIMIT_def min_def)

definition echoed :: "channel_msg list \<Rightarrow> channel_end \<Rightarrow> string \<Rightarrow> nat \<Rightarrow> nat option \<Rightarrow> bool" where
  "echoed msgs e out n rc \<longleftrightarrow>
     (Close \<in> set msgs \<or> e = ChannelEnded)
     \<and> out @ probe_stdout (until_close msgs) = PAYLOAD
     \<and> n + length (probe_stderr (until_close msgs)) \<le> STDERR_LIMIT
     \<and> last_exit rc (until_close msgs) = Some 0
     \<and> (\<forall>m\<in>set (until_close msgs). m \<noteq> Failure \<and> (\<forall>s. m \<noteq> ExitSignal s))"

lemma echo_loop_echoed:
  "length out \<le> length PAYLOAD \<Longrightarrow> n \<le> STDERR_LIMIT \<Longrightarrow> echo_loop msgs e out n rc \<longleftrightarrow> echoed msgs e out n rc"
proof (induction msgs arbitrary: out n rc)
  case (Cons m msgs)
  show ?case
  proof (cases m)
    case (Data d)
    show ?thesis
    proof (cases "length out + length d \<le> length PAYLOAD")
      case True
      with Data Cons.prems Cons.IH[of "out @ d" n rc] show ?thesis by (simp add: append_bounded_cases echoed_def)
    next
      case False
      then have "out @ d @ xs \<noteq> PAYLOAD" for xs by (metis add_leD1 length_append add.assoc le_refl)
      with False Data Cons.prems show ?thesis by (simp add: append_bounded_cases echoed_def)
    qed
  next
    case (ExtendedData ext d)
    show ?thesis
    proof (cases "n + length d \<le> STDERR_LIMIT")
      case True
      then have "sat_add n (length d) = n + length d" by (simp add: sat_add_def STDERR_LIMIT_def)
      with True ExtendedData Cons.prems Cons.IH[of out "n + length d" rc] show ?thesis
        by (simp add: Let_def echoed_def add.assoc)
    next
      case False
      then have "\<not> sat_add n (length d) \<le> STDERR_LIMIT" by (simp add: sat_add_le)
      with False ExtendedData show ?thesis by (simp add: Let_def echoed_def)
    qed
  qed (use Cons in \<open>auto simp: echoed_def\<close>)
qed (auto simp: echoed_def)

lemma with_probe_channel_Ok:
  assumes "with_probe_channel cfg w c body = (c', reqs, Ok r)"
  shows "\<exists>c1 g. ensure_connected_transport_only cfg (pe_now w) (pe_ping w) (pe_dials w) c = (c1, Ok ())
     \<and> session_generation c1 = Some g \<and> c' = pe_meanwhile w c1 \<and> body g c' = (reqs, Ok r)"
  using assms
  by (auto simp: with_probe_channel_def open_channel_attempt_detailed_def session_generation_def Let_def
      split: prod.splits result.splits option.splits open_outcome.splits if_splits)

lemma probe_select_Ok: "probe_select w c x = (c', reqs, Ok r) \<Longrightarrow> pe_stop w = ProbeFinishes \<and> x = (c', reqs, Ok r)"
  by (simp add: probe_select_def split: probe_stop.splits)

lemma sent_request_subset: "set (sent_request ch g cmd) \<subseteq> {ExecRequest g (wrap_in_posix_shell cmd False)}"
  by (auto simp: sent_request_def split: option.splits result.splits)

lemma probe_requests:
  "set (fst (snd (with_probe_channel scfg w c (\<lambda>g c2. (sent_request ch g cmd, k g c2)))))
     \<subseteq> {q. \<exists>g. q = ExecRequest g (wrap_in_posix_shell cmd False)}"
  using sent_request_subset[of ch _ cmd]
  by (fastforce simp: with_probe_channel_def Let_def split: prod.splits result.splits)

lemma probe_select_requests: "fst (snd (probe_select w c x)) = fst (snd x)"
  by (simp add: probe_select_def split: probe_stop.split)

text \<open>What the client of a probe relies on: which command it sends, and that an answer it accepts is about the current
  route.\<close>

locale startup_probe =
  fixes probe :: "ssh_config \<Rightarrow> probe_world \<Rightarrow> connection \<Rightarrow> connection \<times> remote_request list \<times> ('a, probe_error) result"
    and script :: string
    and accepted :: "'a \<Rightarrow> bool"
  assumes requests: "set (fst (snd (probe cfg w c))) \<subseteq> {q. \<exists>g. q = ExecRequest g (wrap_in_posix_shell script False)}"
    and current: "probe cfg w c = (c', reqs, Ok r) \<Longrightarrow> accepted r \<Longrightarrow> \<exists>g. route_current g c' \<and> \<not> pe_token w"
    and unstopped: "probe cfg w c = (c', reqs, Ok r) \<Longrightarrow> pe_stop w = ProbeFinishes"
begin

lemma plain_words:
  "ExecRequest g line \<in> set (fst (snd (probe cfg w c))) \<Longrightarrow> sh_argv line = Some [[''sh'', ''-c'', script]]"
  using requests[of cfg w c] by (auto simp: sh_argv_posix_shell)

lemma accepted_open:
  "probe cfg w c = (c', reqs, Ok r) \<Longrightarrow> accepted r \<Longrightarrow> cn_session c' \<noteq> None \<and> \<not> cn_shutting_down c'"
  using current[of cfg w c c' reqs r] by (auto simp: route_current_def split: option.splits)

end

lemma collect_startup_environment_Ok:
  assumes "collect_startup_environment cfg w c = (c', reqs, Ok e)"
  shows "pe_stop w = ProbeFinishes \<and> (\<exists>c1 g.
     ensure_connected_transport_only cfg (pe_now w) (pe_ping w) (pe_dials w) c = (c1, Ok ())
     \<and> session_generation c1 = Some g \<and> c' = pe_meanwhile w c1 \<and> reqs = sent_request (pe_channel w) g PROBE
     \<and> collect (pe_channel w) = Ok e \<and> \<not> pe_token w \<and> route_current g c')"
proof -
  let ?ch = "pe_channel w"
  note f = probe_select_Ok[OF assms[unfolded collect_startup_environment_def]]
  from with_probe_channel_Ok[OF f[THEN conjunct2]] obtain c1 g where
    c1: "ensure_connected_transport_only cfg (pe_now w) (pe_ping w) (pe_dials w) c = (c1, Ok ())"
      "session_generation c1 = Some g" "c' = pe_meanwhile w c1"
    and body: "(sent_request ?ch g PROBE,
        case collect ?ch of Err m \<Rightarrow> Err (ProbeExec m)
        | Ok snapshot \<Rightarrow> if pe_token w then Err ProbeWasCancelled else if \<not> route_current g c' then Err ProbeRouteChanged
                         else Ok snapshot) = (reqs, Ok e)"
    by blast
  from body have "reqs = sent_request ?ch g PROBE" "collect ?ch = Ok e" "\<not> pe_token w" "route_current g c'"
    by (cases "collect ?ch"; simp split: if_splits)+
  with c1 f show ?thesis by blast
qed

lemma probe_startup_exec_raw_Ok:
  assumes "probe_startup_exec_raw cfg w c = (c', reqs, Ok passed)"
  shows "pe_stop w = ProbeFinishes \<and> (\<exists>g. \<exists>echo. collect_binary_echo (pe_channel w) = Ok echo
     \<and> passed = (echo \<and> \<not> pe_token w \<and> route_current g c'))"
proof -
  note f = probe_select_Ok[OF assms[unfolded probe_startup_exec_raw_def]]
  from with_probe_channel_Ok[OF f[THEN conjunct2]] obtain g where
    b: "(case collect_binary_echo (pe_channel w) of
           Err m \<Rightarrow> Err (ProbeExec m)
         | Ok echo \<Rightarrow> Ok (echo \<and> \<not> pe_token w \<and> route_current g c')) = (Ok passed :: (bool, probe_error) result)"
    by auto
  then show ?thesis using f by (cases "collect_binary_echo (pe_channel w)") auto
qed

lemma raw_probe_echoed:
  assumes "probe_startup_exec_raw cfg w c = (c', reqs, Ok True)"
  shows "echoed (pc_messages (pe_channel w)) (pc_end (pe_channel w)) [] 0 None"
  using probe_startup_exec_raw_Ok[OF assms]
  by (auto simp: collect_binary_echo_def echo_loop_echoed split: option.splits result.splits)

interpretation env_probe: startup_probe collect_startup_environment PROBE "\<lambda>_. True"
proof
  show "set (fst (snd (collect_startup_environment cfg w c))) \<subseteq> {q. \<exists>g. q = ExecRequest g (wrap_in_posix_shell PROBE False)}"
    for cfg w c unfolding collect_startup_environment_def probe_select_requests by (rule probe_requests)
qed (auto dest: collect_startup_environment_Ok)

interpretation raw_probe: startup_probe probe_startup_exec_raw "''exec cat''" "\<lambda>passed. passed"
proof
  show "set (fst (snd (probe_startup_exec_raw cfg w c))) \<subseteq> {q. \<exists>g. q = ExecRequest g (wrap_in_posix_shell ''exec cat'' False)}"
    for cfg w c unfolding probe_startup_exec_raw_def probe_select_requests by (rule probe_requests)
qed (auto dest: probe_startup_exec_raw_Ok)


text \<open>The raw preflight accepts exactly an 8-bit clean channel. When \<open>probe_startup_exec_raw\<close> answers yes, the bytes
  that came back before the channel closed are the 13 bytes of the payload (a NUL, two bytes that are not UTF-8, a
  carriage return and a newline among them), the exit status was 0, no failure or signal was reported, the error output
  stayed within its limit, and the route is still the current one. Conversely, a finished probe that met all this
  answers yes.\<close>

theorem raw_preflight_exact:
  assumes "pe_stop w = ProbeFinishes" "pc_send (pe_channel w) = Some (Ok ())"
    "ensure_connected_transport_only cfg (pe_now w) (pe_ping w) (pe_dials w) c = (c1, Ok ())"
    "pe_slot w = Ok ()" "open_channel_attempt_detailed (pe_opening w) c1 = Ok g"
  shows "probe_startup_exec_raw cfg w c =
     (pe_meanwhile w c1, [ExecRequest g (wrap_in_posix_shell ''exec cat'' False)],
      Ok (echoed (pc_messages (pe_channel w)) (pc_end (pe_channel w)) [] 0 None \<and> \<not> pe_token w
          \<and> route_current g (pe_meanwhile w c1)))"
  using assms
  by (simp add: probe_startup_exec_raw_def probe_select_def with_probe_channel_def collect_binary_echo_def sent_request_def
      echo_loop_echoed Let_def)

definition probe_sample :: "channel_msg list \<Rightarrow> probe_world" where
  "probe_sample msgs =
     \<lparr>pe_now = 0, pe_ping = True, pe_dials = [], pe_slot = Ok (), pe_opening = Opened,
      pe_channel = \<lparr>pc_send = Some (Ok ()), pc_messages = msgs, pc_end = ChannelEnded\<rparr>,
      pe_meanwhile = (\<lambda>c. c), pe_token = False, pe_stop = ProbeFinishes\<rparr>"

definition sample_connection :: connection where
  "sample_connection = connection_new\<lparr>cn_session := Some \<lparr>ar_generation = 7, ar_platform = Routeros,
     ar_target_closed = False, ar_jump_closed = None, ar_auto_elevation_attempted = False\<rparr>\<rparr>"

definition sample_cfg :: ssh_config where
  "sample_cfg = \<lparr>sc_su_password = None, sc_sudo_password = None, sc_health_probe_timeout_ms = 1000, sc_reconnect_retries = 1,
     sc_reconnect_backoff_ms = 100\<rparr>"

lemma sample_connected:
  "ensure_connected_transport_only sample_cfg 0 True [] sample_connection = (sample_connection, Ok ())"
proof -
  have "ensure_turn sample_cfg 0 True sample_connection = (sample_connection, Usable)"
    by (simp add: ensure_turn_def sample_connection_def connection_new_def is_closed_def)
  moreover have "\<not> cn_shutting_down sample_connection" by (simp add: sample_connection_def connection_new_def)
  ultimately show ?thesis
    unfolding ensure_connected_transport_only_def by (subst ensure_transport_inner.simps) simp
qed

lemma sample_opened: "open_channel_attempt_detailed Opened sample_connection = Ok 7"
  by (simp add: open_channel_attempt_detailed_def sample_connection_def connection_new_def is_closed_def)

lemma sample_route: "route_current 7 sample_connection"
  by (simp add: route_current_def sample_connection_def connection_new_def)

lemmas probe_sample_simps = probe_sample_def sample_connected sample_opened sample_route


theorem raw_preflight_exact_witness:
  "snd (snd (probe_startup_exec_raw sample_cfg (probe_sample [Data PAYLOAD, ExitStatus 0, Close]) sample_connection)) = Ok True"
proof -
  have "echoed [Data PAYLOAD, ExitStatus 0, Close] ChannelEnded [] 0 None" by (simp add: echoed_def)
  then show ?thesis
    using raw_preflight_exact[of "probe_sample [Data PAYLOAD, ExitStatus 0, Close]" sample_cfg sample_connection
        sample_connection 7]
    by (simp add: probe_sample_simps)
qed

end
