(* ===== verification/Startup.thy ===== *)
theory Startup
  imports Environment Transports Server Config
begin

text \<open>
  What the server finds out before it serves: \<open>src/src/transfer/startup.rs\<close> with the probe of the local \<open>sftp\<close>
  program and its process group, and \<open>with_startup_environment\<close> and \<open>build_instructions\<close> of \<open>src/src/server.rs\<close>. The
  probes share a deadline and are advice only.
\<close>

section \<open>Definitions\<close>

subsection \<open>Advice on transports\<close>

datatype startup_probe_status = StartupOk | StartupBlocked | StartupUnknown

record startup_transfer_preflight =
  tp_rsync :: startup_probe_status
  tp_sftp :: startup_probe_status
  tp_scp :: startup_probe_status
  tp_exec_raw :: startup_probe_status

definition startup_transfer_preflight_default :: startup_transfer_preflight where
  "startup_transfer_preflight_default =
     \<lparr>tp_rsync = StartupUnknown, tp_sftp = StartupUnknown, tp_scp = StartupUnknown, tp_exec_raw = StartupUnknown\<rparr>"

text \<open>The platform is a Unix, as everywhere in the development, so \<open>cfg!(unix)\<close> holds.\<close>

definition for_options :: "transfer_ssh_options \<Rightarrow> startup_transfer_preflight" where
  "for_options opts =
     (let blocked = (so_key_path opts = None
                     \<or> (case so_jump opts of Some jump \<Rightarrow> jo_key_path jump = None | None \<Rightarrow> False));
          external = (if blocked then StartupBlocked else StartupUnknown) in
      \<lparr>tp_rsync = external, tp_sftp = external, tp_scp = external, tp_exec_raw = StartupUnknown\<rparr>)"

definition preferred_transport :: "startup_transfer_preflight \<Rightarrow> string option" where
  "preferred_transport p =
     (if tp_sftp p = StartupOk then Some ''sftp''
      else if tp_exec_raw p = StartupOk then Some ''exec-raw''
      else None)"

definition preflight_list :: "startup_transfer_preflight \<Rightarrow> (string \<times> startup_probe_status) list" where
  "preflight_list p = [(''rsync'', tp_rsync p), (''sftp'', tp_sftp p), (''scp'', tp_scp p), (''exec-raw'', tp_exec_raw p)]"

definition hint :: "startup_transfer_preflight \<Rightarrow> string" where
  "hint p =
     (let transports = preflight_list p in
      if list_all (\<lambda>(_, st). st = StartupUnknown) transports then
        ''Transfer: startup preflight unknown; choose transport explicitly.''
      else
        let advice = (case preferred_transport p of
                        Some transport \<Rightarrow> ''prefer '' @ transport
                      | None \<Rightarrow> ''choose transport explicitly'');
            lists = concat (map (\<lambda>(label, st).
                      let names = map fst (filter (\<lambda>(_, value). value = st) transports) in
                      if names = [] then [] else [label @ ''='' @ join '','' names])
                    [(''ok'', StartupOk), (''blocked'', StartupBlocked), (''unknown'', StartupUnknown)]) in
        ''Transfer: '' @ advice @ ''; startup preflight (may be stale): '' @ join ''; '' lists @ ''.'')"

subsection \<open>The child of the SFTP probe\<close>

definition sftp_command :: "openssh_endpoint \<Rightarrow> child" where
  "sftp_command ep =
     \<lparr>ch_program = ''sftp'',
      ch_args = [''-P'', show_nat (oe_port ep)] @ common_ssh_options ep @ [''-b'', ''-''] @ [oe_user ep @ ''@'' @ oe_host ep],
      ch_stdin = Some (''quit'' @ [NL])\<rparr>"

text \<open>What is done to a child: the group that it leads is signalled, the leader alone is, or the leader is reaped, after
  which the system may give its number to another process.\<close>

datatype child_act = KillGroup nat | StartKill | Reap

record probe_child =
  bc_group :: nat
  bc_kill_group_on_drop :: bool

text \<open>\<open>ProbeChild::spawn\<close>: the id of the child as the runtime reports it, or the error of the spawn. A child without a
  usable id is dropped, and killed by that.\<close>

definition probe_spawn :: "(nat option, io_error) result \<Rightarrow> child_act list \<times> (probe_child, io_error) result" where
  "probe_spawn outcome =
     (case outcome of
        Err e \<Rightarrow> ([], Err e)
      | Ok pid_opt \<Rightarrow>
          (case Option.bind pid_opt (\<lambda>n. if n < 2 ^ 31 \<and> n \<noteq> 0 then Some n else None) of
             None \<Rightarrow> ([StartKill], Err OtherIoE)
           | Some n \<Rightarrow> ([], Ok \<lparr>bc_group = n, bc_kill_group_on_drop = True\<rparr>)))"

definition probe_kill :: "probe_child \<Rightarrow> child_act list \<times> probe_child" where
  "probe_kill b =
     ((if bc_kill_group_on_drop b then [KillGroup (bc_group b)] else []) @ [StartKill],
      b\<lparr>bc_kill_group_on_drop := False\<rparr>)"

definition probe_drop :: "probe_child \<Rightarrow> child_act list" where
  "probe_drop b = fst (probe_kill b)"

text \<open>The reads of a pipe, an empty one at its end; at most 4096 bytes are kept. None while the pipe stays open.\<close>

fun drain_output :: "(string, io_error) result list \<Rightarrow> string \<Rightarrow> string \<times> (unit, io_error) result option" where
  "drain_output [] captured = (captured, None)"
| "drain_output (Err e # reads) captured = (captured, Some (Err e))"
| "drain_output (Ok buffer # reads) captured =
     (if buffer = [] then (captured, Some (Ok ()))
      else drain_output reads (captured @ take (min (length buffer) (4096 - length captured)) buffer))"

datatype waitid_answer = ChildExited | StillRunning | Interrupted | WaitIdError io_error

fun wait_unreaped :: "waitid_answer list \<Rightarrow> (unit, io_error) result option" where
  "wait_unreaped [] = None"
| "wait_unreaped (ChildExited # as) = Some (Ok ())"
| "wait_unreaped (StillRunning # as) = wait_unreaped as"
| "wait_unreaped (Interrupted # as) = wait_unreaped as"
| "wait_unreaped (WaitIdError e # as) = Some (Err e)"

text \<open>What the probe meets: the write of the command, the answers of \<open>waitid\<close>, the two pipes, which arm of the select is
  first, whether and where the future is dropped, and how the reaping ends (None: the deadline passes first).\<close>

datatype work_stop = WorkFirst | WorkCancelled | WorkDeadline
datatype drop_point = DroppedInWork | DroppedInReap

record child_world =
  cw_stdin :: "(unit, io_error) result option"
  cw_waitid :: "waitid_answer list"
  cw_stdout :: "(string, io_error) result list"
  cw_stderr :: "(string, io_error) result list"
  cw_stop :: work_stop
  cw_drop :: "drop_point option"
  cw_reap :: "(int option, io_error) result option"

text \<open>\<open>try_join\<close> of the four parts: the first error ends it, and it is done when all are. Which of several errors comes
  first is not told apart: no caller looks at it. A work that never ends is ended by the deadline.\<close>

definition join_all :: "(unit, io_error) result option list \<Rightarrow> (unit, io_error) result option" where
  "join_all rs =
     (case find (\<lambda>r. case r of Some (Err _) \<Rightarrow> True | _ \<Rightarrow> False) rs of
        Some r \<Rightarrow> r
      | None \<Rightarrow> if list_all (\<lambda>r. r = Some (Ok ())) rs then Some (Ok ()) else None)"

definition probe_work :: "child_world \<Rightarrow> (unit, io_error) result" where
  "probe_work w =
     (case cw_stop w of
        WorkCancelled \<Rightarrow> Err OtherIoE
      | WorkDeadline \<Rightarrow> Err OtherIoE
      | WorkFirst \<Rightarrow>
          (case join_all [cw_stdin w, wait_unreaped (cw_waitid w), snd (drain_output (cw_stdout w) []),
                          snd (drain_output (cw_stderr w) [])] of
             Some r \<Rightarrow> r
           | None \<Rightarrow> Err OtherIoE))"

text \<open>The acts in their order, and the exit status unless the future was dropped. The child is dropped at the end of the
  function, or with the future.\<close>

definition run_probe_child :: "child_world \<Rightarrow> probe_child \<Rightarrow> child_act list \<times> (int option, io_error) result option" where
  "run_probe_child w b =
     (if cw_drop w = Some DroppedInWork then (probe_drop b, None)
      else case probe_kill b of
        (acts, b1) \<Rightarrow>
          if cw_drop w = Some DroppedInReap then (acts @ probe_drop b1, None)
          else
            let reaped = (case cw_reap w of Some r \<Rightarrow> r | None \<Rightarrow> Err OtherIoE) in
            (acts @ (case cw_reap w of Some (Ok _) \<Rightarrow> [Reap] | _ \<Rightarrow> []) @ probe_drop b1,
             Some (and_then (probe_work w) (\<lambda>_. reaped))))"

record sftp_world =
  sf_cancelled :: bool
  sf_late :: bool
  sf_spawn :: "(nat option, io_error) result"
  sf_child :: child_world

text \<open>The children that were started, what was done to them, and the verdict; None when the future was dropped.\<close>

definition run_command ::
  "sftp_world \<Rightarrow> child \<Rightarrow> child list \<times> child_act list \<times> startup_probe_status option" where
  "run_command w cmd =
     (if sf_cancelled w \<or> sf_late w then ([], [], Some StartupUnknown)
      else case probe_spawn (sf_spawn w) of
        (acts, Err e) \<Rightarrow>
          (if is_ok (sf_spawn w) then [cmd] else [], acts, Some (if e = NotFoundE then StartupBlocked else StartupUnknown))
      | (acts, Ok b) \<Rightarrow>
          (case run_probe_child (sf_child w) b of
             (acts1, r) \<Rightarrow>
               ([cmd], acts @ acts1,
                map_option (\<lambda>st. if st = Ok (Some 0) then StartupOk else StartupUnknown) r)))"

definition probe_sftp ::
  "sftp_world \<Rightarrow> transfer_ssh_options \<Rightarrow> child list \<times> child_act list \<times> startup_probe_status option" where
  "probe_sftp w opts =
     (if tp_sftp (for_options opts) = StartupBlocked then ([], [], Some StartupBlocked)
      else if sf_cancelled w \<or> sf_late w then ([], [], Some StartupUnknown)
      else case so_key_path opts of
        None \<Rightarrow> ([], [], Some StartupBlocked)
      | Some key \<Rightarrow> run_command w (sftp_command (openssh_endpoint_of opts key)))"

subsection \<open>The instructions of the server\<close>

definition CARGO_PKG_VERSION :: string where
  "CARGO_PKG_VERSION = ''5.3.0''"

text \<open>\<open>to_json\<close> is the serializer that is derived for the snapshot.\<close>

definition build_instructions ::
  "(host_environment \<Rightarrow> string) \<Rightarrow> config \<Rightarrow> remote_platform option \<Rightarrow> host_environment \<Rightarrow> startup_transfer_preflight \<Rightarrow> string" where
  "build_instructions to_json cfg platform environment pre =
    (case platform of
       None \<Rightarrow>
      ''SeSSHion v''
      @ CARGO_PKG_VERSION
      @ '' - SSH MCP server for ''
      @ cf_user cfg
      @ ''@''
      @ cf_host cfg
      @ '':''
      @ show_nat (cf_port cfg)
      @ [NL]
      @ ''Remote command platform is not determined yet; it is detected automatically from the authenticated SSH connection before tools are published. If a call fails, briefly explain it; do not leave the tool result as the only notice. Never automatically retry uncertain execution.''
     | Some Routeros \<Rightarrow>
      ''SeSSHion v''
      @ CARGO_PKG_VERSION
      @ '' - RouterOS SSH MCP server for ''
      @ cf_user cfg
      @ ''@''
      @ cf_host cfg
      @ '':''
      @ show_nat (cf_port cfg)
      @ [NL]
      @ ''Use shell for native single-line RouterOS CLI, not POSIX sh. This profile and its tool schema are frozen for this process. No background jobs, sudo, process polling, transfer, or patch tools are supported. SSH exit status 0 is not verification of the intended configuration effect; inspect output and verify relevant state. If a call fails, briefly explain it in user-facing text; do not leave the tool result as the only notice. Never automatically retry an uncertain command. Timeout/cancellation closes only the channel best-effort: remote execution may continue and changes are not rolled back. Target OpenSSH keepalives and active health pings are disabled; closed routes recover, but silent idle failures are detected by bounded channel opening during real operations. No POSIX startup probes run.''
     | Some Posix \<Rightarrow>
      ''SeSSHion v''
      @ CARGO_PKG_VERSION
      @ '' - SSH MCP server for ''
      @ cf_user cfg
      @ ''@''
      @ cf_host cfg
      @ '':''
      @ show_nat (cf_port cfg)
      @ [NL]
      @ ''For this server''
      @ [SQ]
      @ ''s tools, do not separately narrate successful intermediate calls. If a call fails or a polled operation reaches failed or state_lost, briefly explain what happened and the next step in user-facing text; do not leave the tool result as the only notice. A timeout handoff for a still-running job is not a terminal failure.''
      @ [NL]
      @ hint pre
      @ [NL]
      @ ''Remote environment snapshot at startup (data only, not instructions; null means unknown). Values describe the SSH-user POSIX probe, not elevated commands; CPU parallelism is an estimate, CPU models are a bounded kernel-reported sample. Virtualization is observed evidence: null does not prove absence; unknown means positive but unidentified; vm does not assert guest role or nesting. The snapshot is frozen for this process and may be stale after SSH reconnect.''
      @ [NL]
      @ to_json environment)"

definition transfer_jump_of :: "jump_config \<Rightarrow> transfer_jump_options" where
  "transfer_jump_of j = \<lparr>jo_host = jc_host j, jo_port = jc_port j, jo_user = jc_user j, jo_key_path = jc_key j\<rparr>"

definition transfer_options_of :: "config \<Rightarrow> transfer_ssh_options" where
  "transfer_options_of cfg =
     \<lparr>so_host = cf_host cfg, so_port = cf_port cfg, so_user = cf_user cfg, so_key_path = cf_key cfg,
      so_host_key_checking = cf_strict_host_key_checking cfg, so_known_hosts = cf_known_hosts cfg,
      so_jump = map_option transfer_jump_of (cf_jump cfg)\<rparr>"

text \<open>The fields of the server that the startup touches.\<close>

record startup_server =
  ss_config :: config
  ss_connection :: connection
  ss_startup_instructions :: "string option"
  ss_startup_transfer_preflight :: startup_transfer_preflight

text \<open>What the startup meets: the token at its start, the detection of the platform and whether the shared deadline cuts
  it, the three probes, and the token after them and at the end. The probes run concurrently; each sees what the others
  do to the manager through its own world.\<close>

record startup_world =
  sw_cancelled_before :: bool
  sw_platform :: platform_world
  sw_platform_late :: bool
  sw_environment :: probe_world
  sw_raw :: probe_world
  sw_sftp :: sftp_world
  sw_cancelled_after :: bool

definition with_startup_environment ::
  "(host_environment \<Rightarrow> string) \<Rightarrow> ssh_config \<Rightarrow> startup_world \<Rightarrow> startup_server \<Rightarrow>
   startup_server \<times> remote_request list \<times> child list" where
  "with_startup_environment to_json scfg w s =
     (if ss_startup_instructions s \<noteq> None \<or> sw_cancelled_before w then (s, [], [])
      else case resolve_remote_platform scfg (sw_platform w) (ss_connection s) of
        (c1, found) \<Rightarrow>
          (let s1 = s\<lparr>ss_connection := c1\<rparr> in
           if sw_platform_late w then (s1, [], [])
           else case found of
             Err _ \<Rightarrow> (s1, [], [])
           | Ok Routeros \<Rightarrow>
               (s1\<lparr>ss_startup_instructions := Some (build_instructions to_json (ss_config s) (Some Routeros)
                     host_environment_default (ss_startup_transfer_preflight s))\<rparr>, [], [])
           | Ok Posix \<Rightarrow>
               (case collect_startup_environment scfg (sw_environment w) c1 of (c2, reqs, environment) \<Rightarrow>
               (case probe_startup_exec_raw scfg (sw_raw w) c2 of (c3, reqs', raw) \<Rightarrow>
               (case probe_sftp (sw_sftp w) (transfer_options_of (ss_config s)) of (children, _, sftp) \<Rightarrow>
                 let s3 = s\<lparr>ss_connection := c3\<rparr> in
                 if sw_cancelled_after w then (s3, reqs @ reqs', children)
                 else
                   let pre = for_options (transfer_options_of (ss_config s));
                       pre1 = pre\<lparr>tp_sftp := (case sftp of Some st \<Rightarrow> st | None \<Rightarrow> StartupUnknown)\<rparr>;
                       pre2 = (if raw = Ok True then pre1\<lparr>tp_exec_raw := StartupOk\<rparr> else pre1);
                       snapshot = (case environment of Ok e \<Rightarrow> e | Err _ \<Rightarrow> host_environment_default) in
                   (s3\<lparr>ss_startup_instructions := Some (build_instructions to_json (ss_config s) (Some Posix) snapshot pre2),
                       ss_startup_transfer_preflight := pre2\<rparr>, reqs @ reqs', children))))))"

text \<open>The instructions that \<open>get_info\<close> reports.\<close>

definition server_instructions :: "(host_environment \<Rightarrow> string) \<Rightarrow> startup_server \<Rightarrow> string" where
  "server_instructions to_json s =
     (case ss_startup_instructions s of
        Some t \<Rightarrow> t
      | None \<Rightarrow> build_instructions to_json (ss_config s) (cn_remote_platform (ss_connection s)) host_environment_default
                  (ss_startup_transfer_preflight s))"

section \<open>Lemmas\<close>

lemma sftp_command_batch: "sftp_command ep = sftp_child ep (''quit'' @ [NL])"
  by (simp add: sftp_command_def sftp_child_def)

text \<open>The group is signalled first, and only once.\<close>

lemma run_probe_child_acts:
  assumes "bc_kill_group_on_drop b"
  shows "\<exists>rest. fst (run_probe_child w b) = KillGroup (bc_group b) # rest \<and> (\<forall>h. KillGroup h \<notin> set rest)"
  using assms by (auto simp: run_probe_child_def probe_drop_def probe_kill_def Let_def split: option.splits result.splits)

lemma run_probe_child_Ok:
  "snd (run_probe_child w b) = Some (Ok st) \<Longrightarrow> cw_reap w = Some (Ok st) \<and> probe_work w = Ok () \<and> cw_drop w = None"
  by (cases "cw_drop w"; cases "probe_work w"; cases "cw_reap w")
     (auto simp: run_probe_child_def Let_def split: if_splits prod.splits, (metis drop_point.exhaust)+)

lemma probe_spawn_cases:
  "probe_spawn outcome =
     (case outcome of
        Err e \<Rightarrow> ([], Err e)
      | Ok (Some g) \<Rightarrow>
          if 0 < g \<and> g < 2 ^ 31 then ([], Ok \<lparr>bc_group = g, bc_kill_group_on_drop = True\<rparr>) else ([StartKill], Err OtherIoE)
      | Ok None \<Rightarrow> ([StartKill], Err OtherIoE))"
  by (auto simp: probe_spawn_def split: result.split option.split bind_splits)

lemma probe_spawn_exhaust:
  obtains (failed) e where "outcome = Err e"
  | (no_number) "is_ok outcome" "probe_spawn outcome = ([StartKill], Err OtherIoE)"
  | (running) g where "outcome = Ok (Some g)" "0 < g" "g < 2 ^ 31"
proof (cases outcome)
  case (Ok x)
  show ?thesis
  proof (cases "\<exists>g. x = Some g \<and> 0 < g \<and> g < 2 ^ 31")
    case False
    then have "probe_spawn outcome = ([StartKill], Err OtherIoE)" using Ok by (auto simp: probe_spawn_cases split: option.split)
    with Ok no_number show ?thesis by simp
  qed (use Ok running in blast)
qed (rule failed)

definition reclaimed :: "sftp_world \<Rightarrow> child_act list \<Rightarrow> bool" where
  "reclaimed w acts \<longleftrightarrow>
     acts = [StartKill]
     \<or> (\<exists>g rest. sf_spawn w = Ok (Some g) \<and> 0 < g \<and> g < 2 ^ 31 \<and> acts = KillGroup g # rest \<and> (\<forall>h. KillGroup h \<notin> set rest))"

lemma run_command_child:
  assumes "run_command w cmd = (children, acts, r)"
  shows "(children = [] \<and> acts = [] \<or> children = [cmd] \<and> reclaimed w acts)
     \<and> (r = Some StartupOk \<longrightarrow> children = [cmd] \<and> cw_reap (sf_child w) = Some (Ok (Some 0)) \<and> probe_work (sf_child w) = Ok ())"
proof -
  consider (unstarted) "sf_cancelled w \<or> sf_late w" | (started) "\<not> (sf_cancelled w \<or> sf_late w)" by blast
  then show ?thesis
  proof cases
    case started
    show ?thesis
    proof (cases "sf_spawn w" rule: probe_spawn_exhaust)
      case (running g)
      let ?b = "\<lparr>bc_group = g, bc_kill_group_on_drop = True\<rparr>"
      obtain rest where a: "fst (run_probe_child (sf_child w) ?b) = KillGroup g # rest" "\<forall>h. KillGroup h \<notin> set rest"
        using run_probe_child_acts[of ?b "sf_child w"] by auto
      have c: "children = [cmd]" "acts = fst (run_probe_child (sf_child w) ?b)"
        "r = map_option (\<lambda>st. if st = Ok (Some 0) then StartupOk else StartupUnknown) (snd (run_probe_child (sf_child w) ?b))"
        using assms started running by (auto simp: run_command_def probe_spawn_cases split: prod.splits)
      then have "reclaimed w acts" using a running by (auto simp: reclaimed_def)
      moreover have "snd (run_probe_child (sf_child w) ?b) = Some (Ok (Some 0))" if "r = Some StartupOk"
        using that c(3) by (auto split: if_splits)
      ultimately show ?thesis using c(1) run_probe_child_Ok by blast
    qed (use assms started in \<open>auto simp: run_command_def probe_spawn_cases reclaimed_def split: if_splits\<close>)
  qed (use assms in \<open>auto simp: run_command_def\<close>)
qed

lemma probe_sftp_child:
  assumes "probe_sftp w opts = (children, acts, r)"
  shows "(children = [] \<and> acts = []
      \<or> (\<exists>key. so_key_path opts = Some key \<and> children = [sftp_child (openssh_endpoint_of opts key) (''quit'' @ [NL])]
           \<and> reclaimed w acts))
     \<and> (r = Some StartupOk \<longrightarrow>
          children \<noteq> [] \<and> cw_reap (sf_child w) = Some (Ok (Some 0)) \<and> probe_work (sf_child w) = Ok ())"
proof (cases "tp_sftp (for_options opts) = StartupBlocked \<or> sf_cancelled w \<or> sf_late w")
  case False
  then obtain key where k: "so_key_path opts = Some key"
    by (auto simp: for_options_def Let_def split: if_splits)
  with False assms have "run_command w (sftp_command (openssh_endpoint_of opts key)) = (children, acts, r)"
    by (simp add: probe_sftp_def)
  from run_command_child[OF this] k show ?thesis unfolding sftp_command_batch by auto
qed (use assms in \<open>auto simp: probe_sftp_def split: if_splits\<close>)

text \<open>C30: The startup probe reclaims what it starts, and never signals a stranger. Whatever happens (cancellation, the
  deadline, a failed read, the future dropped at any point), at most one child is started, an \<open>sftp\<close> batch that says only
  \<open>quit\<close>; its process group is signalled, exactly once and before anything else is done to the child, so before it is
  reaped and its number can be given to another process. Only a child whose number the runtime does not report is
  killed alone. The verdict is Ok only if the child was reaped with status 0 after every part of the probe had finished.\<close>

theorem sftp_probe_reclaims_child:
  assumes "probe_sftp w opts = (children, acts, r)"
  shows "(children = [] \<and> acts = []
      \<or> (\<exists>key. so_key_path opts = Some key \<and> children = [sftp_child (openssh_endpoint_of opts key) (''quit'' @ [NL])]
           \<and> (acts = [StartKill]
              \<or> (\<exists>g rest. sf_spawn w = Ok (Some g) \<and> acts = KillGroup g # rest \<and> (\<forall>h. KillGroup h \<notin> set rest)))))
     \<and> (r = Some StartupOk \<longrightarrow> cw_reap (sf_child w) = Some (Ok (Some 0)) \<and> probe_work (sf_child w) = Ok ())"
  using probe_sftp_child[OF assms] unfolding reclaimed_def by blast

definition sample_sftp :: sftp_world where
  "sample_sftp = \<lparr>sf_cancelled = False, sf_late = False, sf_spawn = Ok (Some 42),
     sf_child = \<lparr>cw_stdin = Some (Ok ()), cw_waitid = [StillRunning, ChildExited], cw_stdout = [Ok []], cw_stderr = [Ok ''x'', Ok []],
       cw_stop = WorkFirst, cw_drop = None, cw_reap = Some (Ok (Some 0))\<rparr>\<rparr>"

definition sample_transfer :: transfer_ssh_options where
  "sample_transfer = \<lparr>so_host = ''h'', so_port = 22, so_user = ''u'', so_key_path = Some ''/k'', so_host_key_checking = ModeYes,
     so_known_hosts = None, so_jump = None\<rparr>"

lemma sample_probe:
  "probe_sftp sample_sftp sample_transfer =
     ([sftp_child (openssh_endpoint_of sample_transfer ''/k'') (''quit'' @ [NL])], [KillGroup 42, StartKill, Reap, StartKill],
      Some StartupOk)"
  by (simp add: probe_sftp_def for_options_def run_command_def probe_spawn_cases run_probe_child_def probe_kill_def probe_drop_def
      probe_work_def join_all_def sample_sftp_def sample_transfer_def sftp_command_batch)

theorem sftp_probe_reclaims_child_witness:
  "probe_sftp sample_sftp sample_transfer =
     ([sftp_child (openssh_endpoint_of sample_transfer ''/k'') (''quit'' @ [NL])], [KillGroup 42, StartKill, Reap, StartKill],
      Some StartupOk)
   \<and> probe_work (sf_child sample_sftp) = Ok ()"
  using sftp_probe_reclaims_child[OF sample_probe] sample_probe by simp

text \<open>The advice and the engine agree on what is blocked. For every set of options, the startup marks an external
  transport as blocked exactly when the engine refuses every transfer over it for lack of a key, of the target or of the
  jump host, before it looks at anything else.\<close>

theorem startup_gates_mirror:
  "(tp_sftp (for_options opts) = StartupBlocked
      \<longleftrightarrow> \<not> is_ok (openssh_preflight Sftp (so_key_path opts) (map_option jo_key_path (so_jump opts))))
   \<and> (tp_scp (for_options opts) = StartupBlocked
      \<longleftrightarrow> \<not> is_ok (openssh_preflight Scp (so_key_path opts) (map_option jo_key_path (so_jump opts))))
   \<and> (tp_rsync (for_options opts) = StartupBlocked
      \<longleftrightarrow> \<not> is_ok (openssh_preflight Rsync (so_key_path opts) (map_option jo_key_path (so_jump opts))))
   \<and> tp_exec_raw (for_options opts) = StartupUnknown"
  by (simp add: for_options_def Let_def openssh_preflight_def split: option.split)

lemma raw_probe_yes:
  assumes "probe_startup_exec_raw scfg w c = (c', reqs, Ok True)"
  shows "echoed (pc_messages (pe_channel w)) (pc_end (pe_channel w)) [] 0 None \<and> (\<exists>g. route_current g c')"
  using raw_probe_echoed[OF assms] raw_probe.current[OF assms] by blast

text \<open>The two shapes of the startup that publish instructions, and what the others leave.\<close>

lemma startup_posix:
  assumes "with_startup_environment to_json scfg w s = (s', reqs, children)" "ss_startup_instructions s = None"
    "\<not> sw_cancelled_before w" "resolve_remote_platform scfg (sw_platform w) (ss_connection s) = (c1, Ok Posix)"
    "\<not> sw_platform_late w"
  shows "\<exists>c2 reqs1 e reqs2 raw acts sftp.
     collect_startup_environment scfg (sw_environment w) c1 = (c2, reqs1, e)
     \<and> probe_startup_exec_raw scfg (sw_raw w) c2 = (ss_connection s', reqs2, raw)
     \<and> probe_sftp (sw_sftp w) (transfer_options_of (ss_config s)) = (children, acts, sftp)
     \<and> reqs = reqs1 @ reqs2
     \<and> (ss_startup_transfer_preflight s' = ss_startup_transfer_preflight s
        \<or> (tp_sftp (ss_startup_transfer_preflight s') = StartupOk \<longrightarrow> sftp = Some StartupOk)
          \<and> (tp_exec_raw (ss_startup_transfer_preflight s') = StartupOk \<longrightarrow> raw = Ok True))"
proof -
  obtain c2 reqs1 e where 1: "collect_startup_environment scfg (sw_environment w) c1 = (c2, reqs1, e)" by (metis surj_pair)
  obtain c3 reqs2 raw where 2: "probe_startup_exec_raw scfg (sw_raw w) c2 = (c3, reqs2, raw)" by (metis surj_pair)
  obtain ch acts sftp where 3: "probe_sftp (sw_sftp w) (transfer_options_of (ss_config s)) = (ch, acts, sftp)" by (metis surj_pair)
  have x: "tp_exec_raw (for_options opts) \<noteq> StartupOk" for opts by (simp add: for_options_def Let_def)
  show ?thesis using assms 1 2 3 x
    by (auto simp: with_startup_environment_def Let_def split: if_splits option.splits)
qed

lemma startup_other:
  assumes "with_startup_environment to_json scfg w s = (s', reqs, children)"
    "\<nexists>c1. ss_startup_instructions s = None \<and> \<not> sw_cancelled_before w \<and> \<not> sw_platform_late w
       \<and> resolve_remote_platform scfg (sw_platform w) (ss_connection s) = (c1, Ok Posix)"
  shows "reqs = [] \<and> children = [] \<and> ss_startup_transfer_preflight s' = ss_startup_transfer_preflight s"
  using assms
  by (auto simp: with_startup_environment_def Let_def split: if_splits prod.splits result.splits remote_platform.splits)

text \<open>C31: The advice of the startup rests on evidence. Nothing is ever asked of the target but the probe script and
  \<open>exec cat\<close>, each in a plain \<open>sh -c\<close>, and nothing at all is asked of, or started for, a target already known to run
  RouterOS. When the startup ends with \<open>sftp\<close> as the preferred transport, the \<open>sftp\<close> program was run with the options of
  the transfers and ended with status 0; when it prefers \<open>exec-raw\<close>, the 13 bytes of the payload came back unchanged
  over a route that is still the current one.\<close>

theorem startup_advice_sound:
  assumes run: "with_startup_environment to_json scfg w s = (s', reqs, children)"
    and start: "preferred_transport (ss_startup_transfer_preflight s) = None"
  shows "set reqs \<subseteq> {q. \<exists>g. q = ExecRequest g (wrap_in_posix_shell PROBE False)
                        \<or> q = ExecRequest g (wrap_in_posix_shell ''exec cat'' False)}
     \<and> (cn_remote_platform (ss_connection s) = Some Routeros \<longrightarrow> reqs = [] \<and> children = [])
     \<and> (preferred_transport (ss_startup_transfer_preflight s') = Some ''sftp'' \<longrightarrow>
          (\<exists>key. children = [sftp_child (openssh_endpoint_of (transfer_options_of (ss_config s)) key) (''quit'' @ [NL])])
          \<and> cw_reap (sf_child (sw_sftp w)) = Some (Ok (Some 0)))
     \<and> (preferred_transport (ss_startup_transfer_preflight s') = Some ''exec-raw'' \<longrightarrow>
          echoed (pc_messages (pe_channel (sw_raw w))) (pc_end (pe_channel (sw_raw w))) [] 0 None
          \<and> (\<exists>g. route_current g (ss_connection s')))"
proof (cases "\<exists>c1. ss_startup_instructions s = None \<and> \<not> sw_cancelled_before w \<and> \<not> sw_platform_late w
       \<and> resolve_remote_platform scfg (sw_platform w) (ss_connection s) = (c1, Ok Posix)")
  case False
  from startup_other[OF run False] start show ?thesis by simp
next
  case True
  then obtain c1 where t: "ss_startup_instructions s = None" "\<not> sw_cancelled_before w" "\<not> sw_platform_late w"
    "resolve_remote_platform scfg (sw_platform w) (ss_connection s) = (c1, Ok Posix)" by blast
  from startup_posix[OF run t(1,2,4,3)] obtain c2 reqs1 e reqs2 raw acts sftp where
    r: "collect_startup_environment scfg (sw_environment w) c1 = (c2, reqs1, e)"
      "probe_startup_exec_raw scfg (sw_raw w) c2 = (ss_connection s', reqs2, raw)"
      "probe_sftp (sw_sftp w) (transfer_options_of (ss_config s)) = (children, acts, sftp)" "reqs = reqs1 @ reqs2"
    and p: "ss_startup_transfer_preflight s' = ss_startup_transfer_preflight s
        \<or> (tp_sftp (ss_startup_transfer_preflight s') = StartupOk \<longrightarrow> sftp = Some StartupOk)
          \<and> (tp_exec_raw (ss_startup_transfer_preflight s') = StartupOk \<longrightarrow> raw = Ok True)" by blast
  have reqs: "set reqs \<subseteq> {q. \<exists>g. q = ExecRequest g (wrap_in_posix_shell PROBE False)
                        \<or> q = ExecRequest g (wrap_in_posix_shell ''exec cat'' False)}"
    using env_probe.requests[of scfg "sw_environment w" c1] raw_probe.requests[of scfg "sw_raw w" c2]
    unfolding r(1,2,4) by auto
  have ros: "cn_remote_platform (ss_connection s) \<noteq> Some Routeros"
    using t(4) by (auto simp: resolve_remote_platform_def)
  have "sftp = Some StartupOk" if "preferred_transport (ss_startup_transfer_preflight s') = Some ''sftp''"
    using that p start by (auto simp: preferred_transport_def split: if_splits)
  moreover have "raw = Ok True" if "preferred_transport (ss_startup_transfer_preflight s') = Some ''exec-raw''"
    using that p start by (auto simp: preferred_transport_def split: if_splits)
  ultimately show ?thesis using reqs ros probe_sftp_child[OF r(3)] raw_probe_yes r(2) by blast
qed

definition sample_config :: config where
  "sample_config = \<lparr>cf_host = ''h'', cf_port = 22, cf_user = ''u'', cf_password = None, cf_key = Some ''/k'', cf_jump = None,
     cf_su_password = None, cf_sudo_password = None, cf_timeout_ms = 1000, cf_max_chars = None, cf_max_output_tokens = None,
     cf_disable_sudo = False, cf_keepalive_interval = 0, cf_keepalive_max = 0, cf_reconnect_retries = 0,
     cf_reconnect_backoff_ms = 0, cf_health_probe_timeout_ms = 1000, cf_strict_host_key_checking = ModeYes, cf_known_hosts = None\<rparr>"

definition sample_server :: startup_server where
  "sample_server = \<lparr>ss_config = sample_config, ss_connection = sample_connection\<lparr>cn_remote_platform := Some Posix\<rparr>,
     ss_startup_instructions = None, ss_startup_transfer_preflight = startup_transfer_preflight_default\<rparr>"

definition sample_startup :: startup_world where
  "sample_startup = \<lparr>sw_cancelled_before = False,
     sw_platform = \<lparr>pw_cancelled = False, pw_now = 0, pw_ping = True, pw_dials = [], pw_end = AttemptEnds\<rparr>,
     sw_platform_late = False, sw_environment = probe_sample [Close], sw_raw = probe_sample [Data PAYLOAD, ExitStatus 0, Close],
     sw_sftp = sample_sftp, sw_cancelled_after = False\<rparr>"

definition sample_started :: "startup_server \<times> remote_request list \<times> child list" where
  "sample_started = with_startup_environment (\<lambda>_. []) sample_cfg sample_startup sample_server"

lemma sample_started_preferred:
  "preferred_transport (ss_startup_transfer_preflight (fst sample_started)) = Some ''sftp''"
proof -
  have "transfer_options_of sample_config = sample_transfer"
    by (simp add: transfer_options_of_def sample_config_def sample_transfer_def)
  then show ?thesis
    by (simp add: sample_started_def with_startup_environment_def sample_server_def sample_startup_def resolve_remote_platform_def
        sample_probe preferred_transport_def Let_def split: prod.split)
qed

theorem startup_advice_sound_witness:
  "preferred_transport (ss_startup_transfer_preflight (fst sample_started)) = Some ''sftp''
   \<and> length (snd (snd sample_started)) = 1"
proof -
  have "preferred_transport (ss_startup_transfer_preflight sample_server) = None"
    by (simp add: sample_server_def startup_transfer_preflight_default_def preferred_transport_def)
  from startup_advice_sound[of "\<lambda>_. []" sample_cfg sample_startup sample_server "fst sample_started"
      "fst (snd sample_started)" "snd (snd sample_started)", OF _ this]
  show ?thesis using sample_started_preferred by (auto simp: sample_started_def)
qed

end
