(* ===== verification/Lifecycle.thy ===== *)
theory Lifecycle
  imports Connection
begin

text \<open>
  The life of the process: \<open>run\<close> of \<open>src/src/main.rs\<close> with \<open>SshMcpServer::shutdown\<close> and the list of transfer tasks of
  \<open>src/src/server.rs\<close>. The main task, the signal task, the recovery task and every other task that uses the connection
  manager interleave; the manager is the system of critical sections of \<open>Connection\<close>.
\<close>

section \<open>Definitions\<close>

text \<open>Where the main task is: waiting for the first transport, preparing the instructions, serving, waiting for the
  recovery task after the service has ended, waiting for the transfer tasks, closing the connection, done.\<close>

datatype main_phase = AwaitReadiness | Probing | Serving | Draining | AwaitTasks | ClosingConnection | Stopped

datatype recovery = NotSpawned | Sleeping | Recovering | RecoveryEnded

text \<open>A transfer task in a list is True when it has finished. \<open>pr_taken\<close> is the list that \<open>shutdown\<close> has taken and still
  waits for.\<close>

record process =
  pr_phase :: main_phase
  pr_lifecycle :: bool
  pr_recovery :: recovery
  pr_tasks :: "bool list"
  pr_taken :: "bool list"
  pr_transfer_shutdown :: bool
  pr_system :: conn_system
  pr_result :: "(unit, string) result option"

definition process_new :: "conn_system \<Rightarrow> process" where
  "process_new sys = \<lparr>pr_phase = AwaitReadiness, pr_lifecycle = False, pr_recovery = NotSpawned, pr_tasks = [], pr_taken = [],
     pr_transfer_shutdown = False, pr_system = sys, pr_result = None\<rparr>"

definition process_start :: "process \<Rightarrow> bool" where
  "process_start p \<longleftrightarrow> (\<exists>sys. conn_start sys \<and> p = process_new sys)"

text \<open>The end of the service block: its result is kept and the lifecycle is cancelled.\<close>

definition service_ends :: "(unit, string) result \<Rightarrow> process \<Rightarrow> process" where
  "service_ends r p = p\<lparr>pr_phase := Draining, pr_lifecycle := True, pr_result := Some r\<rparr>"

text \<open>\<open>execute_background_transfer\<close> drops the finished tasks from the list and adds a new one.\<close>

definition spawn_transfer :: "process \<Rightarrow> process" where
  "spawn_transfer p = p\<lparr>pr_tasks := filter (\<lambda>finished. \<not> finished) (pr_tasks p) @ [False]\<rparr>"

text \<open>\<open>shutdown\<close>: the token of the transfers is cancelled and the list taken; each task is waited for, or aborted at the
  deadline; then the connection is closed, in the two sections of \<open>close\<close>.\<close>

inductive shutdown_step :: "process \<Rightarrow> process \<Rightarrow> bool" where
  shutdown_begins: "pr_phase p = Draining \<Longrightarrow> pr_recovery p = NotSpawned \<or> pr_recovery p = RecoveryEnded \<Longrightarrow>
    shutdown_step p (p\<lparr>pr_phase := AwaitTasks, pr_transfer_shutdown := True, pr_taken := pr_tasks p, pr_tasks := []\<rparr>)"
| task_over: "pr_phase p = AwaitTasks \<Longrightarrow> pr_taken p = True # rest \<Longrightarrow> shutdown_step p (p\<lparr>pr_taken := rest\<rparr>)"
| task_aborted: "pr_phase p = AwaitTasks \<Longrightarrow> pr_taken p = finished # rest \<Longrightarrow> shutdown_step p (p\<lparr>pr_taken := rest\<rparr>)"
| close_starts: "pr_phase p = AwaitTasks \<Longrightarrow> pr_taken p = [] \<Longrightarrow> sys = pr_system p \<Longrightarrow>
    shutdown_step p (p\<lparr>pr_phase := ClosingConnection, pr_system := sys\<lparr>cs_conn := (cs_conn sys)\<lparr>cn_shutting_down := True\<rparr>\<rparr>\<rparr>)"
| close_completes: "pr_phase p = ClosingConnection \<Longrightarrow> sys = pr_system p \<Longrightarrow>
    shutdown_step p (p\<lparr>pr_phase := Stopped, pr_system := sys\<lparr>cs_conn := close_connection (cs_conn sys), cs_closed := True\<rparr>\<rparr>)"

text \<open>The recovery task: both of its selects look at the lifecycle first.\<close>

inductive recovery_step :: "process \<Rightarrow> process \<Rightarrow> bool" where
  recovery_stops: "pr_recovery p = Sleeping \<or> pr_recovery p = Recovering \<Longrightarrow> pr_lifecycle p \<Longrightarrow>
    recovery_step p (p\<lparr>pr_recovery := RecoveryEnded\<rparr>)"
| recovery_wakes: "pr_recovery p = Sleeping \<Longrightarrow> \<not> pr_lifecycle p \<Longrightarrow> recovery_step p (p\<lparr>pr_recovery := Recovering\<rparr>)"
| recovery_sleeps: "pr_recovery p = Recovering \<Longrightarrow> \<not> pr_lifecycle p \<Longrightarrow> recovery_step p (p\<lparr>pr_recovery := Sleeping\<rparr>)"

text \<open>All of it. The first transport is there when \<open>ensure_connected_transport_only\<close> returns. A task that uses the manager
  takes any of its sections but those of \<open>close\<close>, which \<open>shutdown\<close> alone calls.\<close>

inductive process_step :: "ssh_config \<Rightarrow> process \<Rightarrow> process \<Rightarrow> bool" for cfg where
  readiness_cancelled: "pr_phase p = AwaitReadiness \<Longrightarrow> pr_lifecycle p \<Longrightarrow> process_step cfg p (service_ends (Ok ()) p)"
| readiness_failed: "pr_phase p = AwaitReadiness \<Longrightarrow> \<not> pr_lifecycle p \<Longrightarrow> process_step cfg p (service_ends (Err e) p)"
| ready: "pr_phase p = AwaitReadiness \<Longrightarrow> \<not> pr_lifecycle p \<Longrightarrow> is_connected (cs_conn (pr_system p)) \<Longrightarrow>
    process_step cfg p (p\<lparr>pr_phase := Probing\<rparr>)"
| probed_cancelled: "pr_phase p = Probing \<Longrightarrow> pr_lifecycle p \<Longrightarrow> process_step cfg p (service_ends (Ok ()) p)"
| serves: "pr_phase p = Probing \<Longrightarrow> \<not> pr_lifecycle p \<Longrightarrow>
    process_step cfg p (p\<lparr>pr_phase := Serving, pr_recovery := Sleeping\<rparr>)"
| service_over: "pr_phase p = Serving \<Longrightarrow> process_step cfg p (service_ends (Ok ()) p)"
| service_failed: "pr_phase p = Serving \<Longrightarrow> \<not> pr_lifecycle p \<Longrightarrow> process_step cfg p (service_ends (Err e) p)"
| signalled: "process_step cfg p (p\<lparr>pr_lifecycle := True\<rparr>)"
| recovers: "recovery_step p p' \<Longrightarrow> process_step cfg p p'"
| transfer_spawned: "pr_phase p \<noteq> AwaitReadiness \<Longrightarrow> pr_phase p \<noteq> Probing \<Longrightarrow> process_step cfg p (spawn_transfer p)"
| transfer_finished: "process_step cfg p (p\<lparr>pr_tasks := (pr_tasks p)[i := True]\<rparr>)"
| taken_finished: "process_step cfg p (p\<lparr>pr_taken := (pr_taken p)[i := True]\<rparr>)"
| shuts_down: "shutdown_step p p' \<Longrightarrow> process_step cfg p p'"
| manager_used: "conn_step cfg (pr_system p) sys \<Longrightarrow> cs_closed sys = cs_closed (pr_system p) \<Longrightarrow>
    cn_shutting_down (cs_conn sys) = cn_shutting_down (cs_conn (pr_system p)) \<Longrightarrow>
    process_step cfg p (p\<lparr>pr_system := sys\<rparr>)"

inductive_cases shutdown_stepE: "shutdown_step p p'"
inductive_cases recovery_stepE: "recovery_step p p'"

section \<open>Lemmas\<close>

definition late :: "main_phase \<Rightarrow> bool" where
  "late ph \<longleftrightarrow> ph = AwaitTasks \<or> ph = ClosingConnection \<or> ph = Stopped"

definition process_ok :: "process \<Rightarrow> bool" where
  "process_ok p \<longleftrightarrow>
     conn_system_ok (pr_system p)
     \<and> (pr_result p \<noteq> None \<longleftrightarrow> pr_phase p = Draining \<or> late (pr_phase p))
     \<and> (pr_phase p = Draining \<or> late (pr_phase p) \<longrightarrow> pr_lifecycle p)
     \<and> (pr_phase p = AwaitReadiness \<or> pr_phase p = Probing \<longrightarrow> pr_recovery p = NotSpawned)
     \<and> (late (pr_phase p) \<longrightarrow> pr_transfer_shutdown p \<and> (pr_recovery p = NotSpawned \<or> pr_recovery p = RecoveryEnded))
     \<and> (pr_phase p = ClosingConnection \<or> pr_phase p = Stopped \<longrightarrow> pr_taken p = [])
     \<and> (cn_shutting_down (cs_conn (pr_system p)) \<longleftrightarrow> pr_phase p = ClosingConnection \<or> pr_phase p = Stopped)
     \<and> (cs_closed (pr_system p) \<longleftrightarrow> pr_phase p = Stopped)"

lemma shutdown_keeps:
  fixes cfg :: ssh_config
  assumes "process_ok p" "shutdown_step p p'" shows "process_ok p'"
  using assms(2)
proof cases
  case (close_starts sys)
  have "conn_system_ok sys" using assms(1) close_starts by (simp add: process_ok_def)
  from conn_step_preserves[OF this close_begins[of cfg sys]]
  have k: "conn_system_ok (sys\<lparr>cs_conn := (cs_conn sys)\<lparr>cn_shutting_down := True\<rparr>\<rparr>)" .
  have m: "process_ok (p\<lparr>pr_phase := ClosingConnection, pr_system := s'\<rparr>)"
    if "conn_system_ok s'" "cn_shutting_down (cs_conn s')" "cs_closed s' = cs_closed (pr_system p)" for s'
    using that assms(1) close_starts(2,3) by (simp add: process_ok_def late_def)
  show ?thesis unfolding close_starts(1) by (rule m[OF k]) (simp_all add: close_starts(4))
next
  case (close_completes sys)
  then have ok: "conn_system_ok sys" and sd: "cn_shutting_down (cs_conn sys)" using assms(1) by (simp_all add: process_ok_def)
  from conn_step_preserves[OF ok close_ends[OF sd, of cfg]]
  have "conn_system_ok (sys\<lparr>cs_conn := close_connection (cs_conn sys), cs_closed := True\<rparr>)" .
  with assms(1) close_completes sd show ?thesis by (simp add: process_ok_def late_def close_connection_def)
qed (use assms(1) in \<open>auto simp: process_ok_def late_def\<close>)

lemma recovery_keeps:
  assumes "process_ok p" "recovery_step p p'" shows "process_ok p'"
  using assms(2)
proof cases
  case recovery_stops
  then show ?thesis using assms(1) by (simp add: process_ok_def) (metis recovery.distinct(1,3))
next
  case recovery_wakes
  then show ?thesis using assms(1) by (auto simp: process_ok_def)
next
  case recovery_sleeps
  then show ?thesis using assms(1) by (auto simp: process_ok_def)
qed

lemma process_step_keeps:
  assumes "process_ok p" "process_step cfg p p'" shows "process_ok p'"
  using assms(2)
proof cases
  case (manager_used sys)
  with assms(1) conn_step_preserves[OF _ manager_used(2)] show ?thesis by (auto simp: process_ok_def)
next
  case recovers
  with assms(1) show ?thesis by (rule recovery_keeps)
next
  case shuts_down
  with assms(1) show ?thesis by (rule shutdown_keeps)
qed (use assms(1) in \<open>auto simp: process_ok_def late_def service_ends_def spawn_transfer_def\<close>)

interpretation life: inductive_invariant process_start "process_step cfg" process_ok for cfg
proof
  fix p assume "process_start p"
  then show "process_ok p"
    using conn_sys.init_inv
    by (auto simp: process_start_def process_new_def process_ok_def late_def conn_start_def connection_new_def)
qed (rule process_step_keeps)

lemma stopped_stays: "process_step cfg p p' \<Longrightarrow> pr_phase p = Stopped \<Longrightarrow> pr_phase p' = Stopped"
  by (erule process_step.cases)
     (auto simp: service_ends_def spawn_transfer_def elim!: shutdown_stepE recovery_stepE)

lemma stopped_stays_steps: "(process_step cfg)\<^sup>*\<^sup>* p p' \<Longrightarrow> pr_phase p = Stopped \<Longrightarrow> pr_phase p' = Stopped"
  by (induction rule: rtranclp_induct) (auto dest: stopped_stays)


text \<open>The steps that need nothing from outside: a signal, the reaction of the main task to it, the recovery task, the
  shutdown.\<close>

inductive own_step :: "process \<Rightarrow> process \<Rightarrow> bool" where
  own_signal: "own_step p (p\<lparr>pr_lifecycle := True\<rparr>)"
| own_reaction: "pr_lifecycle p \<Longrightarrow> pr_phase p = AwaitReadiness \<or> pr_phase p = Probing \<or> pr_phase p = Serving \<Longrightarrow>
    own_step p (service_ends (Ok ()) p)"
| own_recovery: "recovery_step p p' \<Longrightarrow> own_step p p'"
| own_shutdown: "shutdown_step p p' \<Longrightarrow> own_step p p'"

lemma own_step_process: "own_step p p' \<Longrightarrow> process_step cfg p p'"
  by (erule own_step.cases)
     (auto intro: signalled recovers shuts_down readiness_cancelled probed_cancelled service_over)

lemma own_steps_process: "own_step\<^sup>*\<^sup>* p p' \<Longrightarrow> (process_step cfg)\<^sup>*\<^sup>* p p'"
  by (induction rule: rtranclp_induct) (auto intro: own_step_process rtranclp.rtrancl_into_rtrancl)

definition can_stop :: "process \<Rightarrow> bool" where
  "can_stop p \<longleftrightarrow> (\<exists>p'. own_step\<^sup>*\<^sup>* p p' \<and> pr_phase p' = Stopped)"

lemma can_stop_step: "own_step p q \<Longrightarrow> can_stop q \<Longrightarrow> can_stop p"
  unfolding can_stop_def by (meson converse_rtranclp_into_rtranclp)

lemma can_stop_closing: "pr_phase p = ClosingConnection \<Longrightarrow> can_stop p"
  by (rule can_stop_step[OF own_shutdown[OF close_completes[OF _ refl]]]) (auto simp: can_stop_def)

lemma can_stop_tasks: "pr_phase p = AwaitTasks \<Longrightarrow> can_stop p"
proof (induction "pr_taken p" arbitrary: p)
  case Nil
  show ?case
    by (rule can_stop_step[OF own_shutdown[OF close_starts[OF _ _ refl]]])
       (use Nil in \<open>simp_all add: can_stop_closing\<close>)
next
  case (Cons finished rest)
  show ?case
    by (rule can_stop_step[OF own_shutdown[OF task_aborted[OF Cons.prems Cons.hyps(2)[symmetric]]]])
       (rule Cons.hyps(1), use Cons.prems in simp_all)
qed

lemma can_stop_draining:
  assumes "pr_phase p = Draining" "pr_lifecycle p" shows "can_stop p"
proof -
  have ended: "can_stop p" if "pr_phase p = Draining" "pr_recovery p = NotSpawned \<or> pr_recovery p = RecoveryEnded" for p
    by (rule can_stop_step[OF own_shutdown[OF shutdown_begins[OF that]]]) (simp add: can_stop_tasks)
  show ?thesis
  proof (cases "pr_recovery p = NotSpawned \<or> pr_recovery p = RecoveryEnded")
    case False
    then have "pr_recovery p = Sleeping \<or> pr_recovery p = Recovering" by (cases "pr_recovery p") simp_all
    then show ?thesis
      by (rule can_stop_step[OF own_recovery[OF recovery_stops[OF _ assms(2)]]]) (simp add: ended assms(1))
  qed (rule ended[OF assms(1)])
qed

lemma can_stop_service:
  assumes "pr_phase p = AwaitReadiness \<or> pr_phase p = Probing \<or> pr_phase p = Serving" shows "can_stop p"
proof (rule can_stop_step[OF own_signal])
  show "can_stop (p\<lparr>pr_lifecycle := True\<rparr>)"
    by (rule can_stop_step[OF own_reaction]) (use assms in \<open>simp_all add: can_stop_draining service_ends_def\<close>)
qed

text \<open>C33: The process can always be stopped. From every state that it can reach, a signal and steps of its own tasks alone lead
  to the end of \<open>run\<close>: nothing on the way waits for the network, for a client or for a transfer that does not finish.\<close>

theorem process_can_stop:
  assumes "reachable process_start (process_step cfg) p"
  shows "\<exists>p'. own_step\<^sup>*\<^sup>* p p' \<and> (process_step cfg)\<^sup>*\<^sup>* p p' \<and> pr_phase p' = Stopped \<and> pr_result p' \<noteq> None"
proof -
  have ok: "process_ok p" by (rule life.reachable_inv[OF assms])
  have "can_stop p"
    using ok can_stop_service[of p] can_stop_draining[of p] can_stop_tasks[of p] can_stop_closing[of p]
    by (cases "pr_phase p") (auto simp: process_ok_def, auto simp: can_stop_def)
  then obtain p' where p': "own_step\<^sup>*\<^sup>* p p'" "pr_phase p' = Stopped" by (auto simp: can_stop_def)
  with life.steps_inv[OF ok own_steps_process[OF p'(1), of cfg]] own_steps_process[OF p'(1), of cfg] show ?thesis
    by (auto simp: process_ok_def late_def)
qed

text \<open>An initial state.\<close>

definition sample_process :: process where
  "sample_process = process_new \<lparr>cs_conn = connection_new, cs_owner = Idle, cs_taken = {}, cs_closed = False\<rparr>"

lemma sample_process_reachable: "reachable process_start (process_step cfg) sample_process"
  by (rule reachable_init) (simp add: process_start_def sample_process_def conn_start_def)

definition sample_settings :: ssh_config where
  "sample_settings = \<lparr>sc_su_password = None, sc_sudo_password = None, sc_health_probe_timeout_ms = 1000, sc_reconnect_retries = 1,
     sc_reconnect_backoff_ms = 100\<rparr>"

theorem process_can_stop_witness:
  "\<exists>p'. own_step\<^sup>*\<^sup>* sample_process p' \<and> pr_phase p' = Stopped \<and> pr_result p' \<noteq> None"
  using process_can_stop[OF sample_process_reachable[of sample_settings]] by blast

definition sample_stopped :: process where
  "sample_stopped =
     (let p = service_ends (Err ''timed out'') sample_process; sys = pr_system p;
          c = (cs_conn sys)\<lparr>cn_shutting_down := True\<rparr> in
      p\<lparr>pr_phase := Stopped, pr_transfer_shutdown := True, pr_system := sys\<lparr>cs_conn := close_connection c, cs_closed := True\<rparr>\<rparr>)"

lemma sample_stopped_reachable: "reachable process_start (process_step cfg) sample_stopped"
proof -
  define p1 where "p1 = service_ends (Err ''timed out'') sample_process"
  define p2 where "p2 = p1\<lparr>pr_phase := AwaitTasks, pr_transfer_shutdown := True, pr_taken := pr_tasks p1, pr_tasks := []\<rparr>"
  define p3 where "p3 = p2\<lparr>pr_phase := ClosingConnection,
      pr_system := (pr_system p2)\<lparr>cs_conn := (cs_conn (pr_system p2))\<lparr>cn_shutting_down := True\<rparr>\<rparr>\<rparr>"
  define p4 where "p4 = p3\<lparr>pr_phase := Stopped,
      pr_system := (pr_system p3)\<lparr>cs_conn := close_connection (cs_conn (pr_system p3)), cs_closed := True\<rparr>\<rparr>"
  have 1: "process_step cfg sample_process p1"
    unfolding p1_def by (rule readiness_failed) (simp_all add: sample_process_def process_new_def)
  have d: "pr_phase p1 = Draining" "pr_recovery p1 = NotSpawned" "pr_tasks p1 = []"
    by (simp_all add: p1_def sample_process_def process_new_def service_ends_def)
  have 2: "process_step cfg p1 p2" unfolding p2_def by (intro shuts_down shutdown_begins) (simp_all add: d)
  have 3: "process_step cfg p2 p3" unfolding p3_def by (intro shuts_down close_starts) (simp_all add: p2_def d)
  have 4: "process_step cfg p3 p4" unfolding p4_def by (intro shuts_down close_completes) (simp_all add: p3_def)
  have "reachable process_start (process_step cfg) p4"
    by (rule reachable_step[OF reachable_step[OF reachable_step[OF reachable_step[OF sample_process_reachable 1] 2] 3] 4])
  moreover have "p4 = sample_stopped"
    by (simp add: p4_def p3_def p2_def p1_def sample_stopped_def sample_process_def process_new_def service_ends_def Let_def)
  ultimately show ?thesis by simp
qed


end
