(* ===== verification/Spec2Isabelle.thy ===== *)
theory Spec2Isabelle
  imports Prelude Patch Shell Markers Paths Jobs Spooler Tar Output Engine Connection Exec FileEdit EditLock Identify RawExec Staging Install HostKeys Config Dial Launch Server Transports Environment Startup Lifecycle
begin

text \<open>
  \<^bold>\<open>SeSSHion\<close> is an MCP server that runs commands, edits files and transfers data on one remote host over SSH. This
  development models its logic, theory by theory, and proves what makes each part correct.

  \<^bold>\<open>The program and how its parts interact.\<close> \<open>run\<close> (\<open>src/src/main.rs\<close>) validates the configuration, waits for a first
  connection, lets the startup probe the host and write the instructions, and serves until a signal or the client ends it.
  A client calls a tool. Commands go through the connection manager (\<open>src/src/ssh/connection.rs\<close>), which dials the host,
  directly or through a jump host, checks host keys, keeps one authenticated route with a generation number, reconnects, and
  raises privileges through a \<open>su\<close> shell; execution (\<open>src/src/ssh/command.rs\<close>) opens a channel on the route, wraps the command
  for the remote shell, and collects its output within a limit. A command of the shell tools is started through a wrapper that
  announces itself with marker lines; its output is streamed to a log in the private spool directory and its job lives in a
  registry, so that a command that exceeds its time goes on in the background. Patches (\<open>src/src/patch.rs\<close>) are parsed, applied to
  the remote text, and committed by a shell script that locks, stages, checks the hash and renames
  (\<open>src/src/server/handlers/file_edit_common.rs\<close>). Transfers (\<open>src/src/transfer/\<close>) resolve local paths below a root, reserve the
  destination, and run one transport, over a channel or by a local program; every transport stages beside the destination and
  installs at the end. A RouterOS host gets native commands only.

  \<^bold>\<open>Theories.\<close>
    \<^item> \<open>Prelude\<close>: Rust's \<open>Result\<close>, strings as bytes with their UTF-8 characters, \<open>str\<close> and integer operations, channel messages,
      reachable states, and the locales \<open>inductive_invariant\<close> and \<open>keyed_store\<close> that the components interpret.
    \<^item> \<open>Patch\<close> (\<open>patch.rs\<close>, \<open>validate.rs\<close>): parser, application of hunks. Hunks apply at the one place they fit or not at all;
      printing and parsing round-trip; a hunk can be reversed; applying refines an edit on lines.
    \<^item> \<open>Shell\<close> (\<open>shell_escape.rs\<close>, \<open>sanitize.rs\<close>, \<open>elevation.rs\<close>, \<open>wrapper.rs\<close>): quoting, with a tokenizer of the POSIX shell; a
      wrapped command reaches the remote shell as one word, whatever its text.
    \<^item> \<open>Markers\<close> (\<open>background/marker.rs\<close>): the handshake of background commands, for any cutting of the stream.
    \<^item> \<open>Paths\<close> (\<open>transfer/local_root.rs\<close>): path algebra and a file system with links; accepted paths stay below the root.
    \<^item> \<open>Jobs\<close> (\<open>background/job.rs\<close>, \<open>registry.rs\<close>, \<open>stream.rs\<close>, \<open>check_process\<close>): job states under all interleavings, pruning, streaming.
    \<^item> \<open>Spooler\<close> (\<open>background/spooler.rs\<close>): the private directory, persistence of metadata, clean-up.
    \<^item> \<open>Tar\<close> (\<open>transfer/tar.rs\<close>): writer and reader of archives; round trip, and extraction stays inside its directory.
    \<^item> \<open>Output\<close> (\<open>command.rs\<close>, \<open>routeros.rs\<close>, log tails): collection of output within limits.
    \<^item> \<open>Engine\<close> (\<open>transfer/mod.rs\<close>, \<open>types.rs\<close>, \<open>background/transfer.rs\<close>): one transfer, exclusive destinations, background jobs.
    \<^item> \<open>RawExec\<close> (\<open>command.rs\<close>): binary streams, two tasks under every schedule.
    \<^item> \<open>Staging\<close> (\<open>exec_raw.rs\<close>, \<open>staging.rs\<close>, \<open>skeleton.rs\<close>): uploads; the remote scripts as lists of states, so that stopping
      anywhere is covered: a destination has its old or its new content, or the old one is complete in the backup.
    \<^item> \<open>Install\<close> (\<open>exec_raw.rs\<close>, \<open>skeleton.rs\<close>, \<open>walk.rs\<close>): downloads, with the same guarantees locally.
    \<^item> \<open>Connection\<close> (\<open>connection.rs\<close>): routes, generations, retries, elevation, as a system of critical sections.
    \<^item> \<open>Identify\<close> (\<open>identification.rs\<close>): the exchange of SSH identifications, for any fragmentation, and its replay.
    \<^item> \<open>Exec\<close> (\<open>command.rs\<close>): running one command; it is sent at most once, but for the fallback without \<open>timeout\<close>.
    \<^item> \<open>FileEdit\<close> (\<open>file_edit_common.rs\<close>, \<open>apply_patch.rs\<close>): reading, the commit script, the patch tool. \<open>EditLock\<close>: several
      commit scripts at once.

    \<^item> \<open>HostKeys\<close> (\<open>ssh/handler.rs\<close>): the check of host keys against files of known hosts, and learning; over any sequence of
      handshakes an accepted key does not change.
    \<^item> \<open>Config\<close> (\<open>config.rs\<close>, \<open>ssh/config.rs\<close>, \<open>SshMcpServer::new_with_spool_dir\<close>): parsing and validation of the arguments, and the
      connection settings made of them.
    \<^item> \<open>Dial\<close> (\<open>connection.rs\<close>): the dialogue that establishes a route; credentials go to the peer they are meant for, after its key
      was accepted.
    \<^item> \<open>Launch\<close> (\<open>server/exec.rs\<close>, \<open>server.rs\<close>, \<open>response.rs\<close>): a command of a tool from its log file to its reply, in the foreground, in the
      background, and across the timeout between them.
    \<^item> \<open>Server\<close> (\<open>server/args.rs\<close>, \<open>routeros.rs\<close>, \<open>handlers/\<close>, \<open>server.rs\<close>): arguments, the native command of RouterOS, the list of tools,
      routing and polling; one call makes the host run its command at most once.
    \<^item> \<open>Transports\<close> (\<open>transfer/openssh.rs\<close>, \<open>rsync.rs\<close>, \<open>process.rs\<close>, \<open>skeleton.rs\<close>, \<open>mod.rs\<close>): \<open>sftp\<close>, \<open>scp\<close> and \<open>rsync\<close>: their command lines,
      read back by an option parser, obey the policy on host keys whatever the paths; uploads keep the guarantees of \<open>Staging\<close>.
    \<^item> \<open>Environment\<close> (\<open>ssh/environment.rs\<close>): the probe script, its records and their parser, which is shown to agree with a lookup of
      records and to yield well-formed fields for any bytes; the two probes of the manager, under the locale \<open>startup_probe\<close>.
    \<^item> \<open>Startup\<close> (\<open>transfer/startup.rs\<close>, \<open>server.rs\<close>): advice on transports, the \<open>sftp\<close> child and its process group, the instructions.
    \<^item> \<open>Lifecycle\<close> (\<open>main.rs\<close>, \<open>server.rs\<close>): the process as a step relation over the system of \<open>Connection\<close>; it ends clean, and can
      always be stopped.

  \<^bold>\<open>Conventions.\<close> A string is a list of bytes. A function that can fail returns \<open>result\<close>. What the program does not control is an
  argument: answers of the network, what each \<open>select!\<close> picks, outcomes of system calls, random tokens, clocks; lists of such
  outcomes stand for the time budget, and a list that ends early is a loop that still waits. SHA-256, the SSH library and the
  external transfer tools are arguments with hypotheses that state their documented behaviour. Remote file systems in \<open>FileEdit\<close>,
  \<open>Staging\<close> and \<open>Install\<close> have no links; the local one in \<open>Paths\<close> has, and resolution follows at most \<open>MAX_LINKS\<close> = 40 of them,
  the limit of the operating system. All other loops are total functions. Machine integers that can overflow are natural
  numbers with the saturation or the bound written out.

  \<^bold>\<open>Interfaces.\<close> \<open>inductive_invariant\<close> is interpreted for jobs, transfers, the connection, edit locks and the process;
  \<open>keyed_store\<close> for the registry of jobs; \<open>bounded_append\<close> (\<open>Output\<close>) for the buffers with a limit; \<open>startup_probe\<close> for the two probes.

  \<^bold>\<open>Not modelled.\<close> Logging, the schemas and descriptions of the tools and the derived decoders of their parameters, the texts of
  most messages and the JSON of the replies (their fields are modelled), the protocol library with its handshake, test support,
  progress events inside transports, and the effect of a shell on the probe script. The messages of the SSH library, the
  parser of the command line and the external programs are arguments.
\<close>

end
